(* ===== verification/Prelude.thy ===== *)
theory Prelude
  imports Main "HOL-Library.Word"
begin

text \<open>
  Shared vocabulary of the development: Rust's fixed-width integers as words, Rust's
  \<open>Result\<close> (with a third outcome for a panic, since the release profile of
  \<open>Cargo.toml\<close> sets \<open>overflow-checks = true\<close>), the checked and the panicking
  arithmetic of the standard library, and the lemmas that turn each of these operations
  into an equation between natural numbers. The component theories reason about
  \<^term>\<open>unat\<close> images only; the collection \<open>rust_simps\<close> holds the bridge.
\<close>

section \<open>Fixed-width integers\<close>

type_synonym u8 = "8 word"
type_synonym u16 = "16 word"
type_synonym u32 = "32 word"
type_synonym u64 = "64 word"
type_synonym u128 = "128 word"
type_synonym u256 = "256 word"

text \<open>A \<open>Pubkey\<close> is 32 bytes, ordered lexicographically; read as one big-endian number
  this is the numeric order, and \<open>Pubkey::default()\<close> is 0.\<close>

type_synonym pubkey = "256 word"

type_synonym bytes = "u8 list"

named_theorems rust_simps \<open>characterisations of Rust operations over natural numbers\<close>
named_theorems code_defs \<open>definitions to unfold when a closed term is evaluated\<close>

section \<open>Outcomes of Rust code\<close>

text \<open>\<open>Ok\<close> and \<open>Err\<close> are the variants of \<open>Result\<close>; \<open>Panic\<close> is an
  aborted instruction (overflow under \<open>overflow-checks\<close>, division by zero, an index out
  of range). The runtime reverts the transaction on \<open>Err\<close> and on \<open>Panic\<close>.\<close>

datatype ('a, 'e) res = Ok 'a | Err 'e | Panic

definition and_then :: "('a, 'e) res \<Rightarrow> ('a \<Rightarrow> ('b, 'e) res) \<Rightarrow> ('b, 'e) res" where
  "and_then m f = (case m of Ok x \<Rightarrow> f x | Err e \<Rightarrow> Err e | Panic \<Rightarrow> Panic)"

definition map_err :: "('e \<Rightarrow> 'f) \<Rightarrow> ('a, 'e) res \<Rightarrow> ('a, 'f) res" where
  "map_err g m = (case m of Ok x \<Rightarrow> Ok x | Err e \<Rightarrow> Err (g e) | Panic \<Rightarrow> Panic)"

definition ok_or :: "'a option \<Rightarrow> 'e \<Rightarrow> ('a, 'e) res" where
  "ok_or x e = (case x of Some v \<Rightarrow> Ok v | None \<Rightarrow> Err e)"

definition or_panic :: "'a option \<Rightarrow> ('a, 'e) res" where
  "or_panic x = (case x of Some v \<Rightarrow> Ok v | None \<Rightarrow> Panic)"

definition is_ok :: "('a, 'e) res \<Rightarrow> bool" where
  "is_ok m = (case m of Ok _ \<Rightarrow> True | _ \<Rightarrow> False)"

lemma and_then_simps [simp]:
  "and_then (Ok x) f = f x"
  "and_then (Err e) f = Err e"
  "and_then Panic f = Panic"
  by (simp_all add: and_then_def)

lemma and_then_cong [fundef_cong]:
  "m = m' \<Longrightarrow> (\<And>x. m' = Ok x \<Longrightarrow> f x = g x) \<Longrightarrow> and_then m f = and_then m' g"
  by (cases m') simp_all

lemma and_then_Ok_iff [simp]:
  "and_then m f = Ok y \<longleftrightarrow> (\<exists>x. m = Ok x \<and> f x = Ok y)"
  by (cases m) simp_all

lemma and_then_Err_iff:
  "and_then m f = Err e \<longleftrightarrow> m = Err e \<or> (\<exists>x. m = Ok x \<and> f x = Err e)"
  by (cases m) simp_all

lemma and_then_Panic_iff:
  "and_then m f = Panic \<longleftrightarrow> m = Panic \<or> (\<exists>x. m = Ok x \<and> f x = Panic)"
  by (cases m) simp_all

lemma map_err_simps [simp]:
  "map_err g (Ok x) = Ok x"
  "map_err g (Err e) = Err (g e)"
  "map_err g Panic = Panic"
  by (simp_all add: map_err_def)

lemma map_err_Ok_iff [simp]: "map_err g m = Ok y \<longleftrightarrow> m = Ok y"
  by (cases m) simp_all

lemma map_err_Panic_iff [simp]: "map_err g m = Panic \<longleftrightarrow> m = Panic"
  by (cases m) simp_all

lemma map_err_Err_iff [simp]: "map_err g m = Err e \<longleftrightarrow> (\<exists>e'. m = Err e' \<and> e = g e')"
  by (cases m) auto

lemma ok_or_simps [simp]: "ok_or (Some v) e = Ok v" "ok_or None e = Err e"
  by (simp_all add: ok_or_def)

lemma ok_or_Ok_iff [simp]: "ok_or x e = Ok y \<longleftrightarrow> x = Some y"
  by (cases x) simp_all

lemma ok_or_Err_iff [simp]: "ok_or x e = Err e' \<longleftrightarrow> x = None \<and> e' = e"
  by (cases x) auto

lemma ok_or_not_Panic [simp]: "ok_or x e \<noteq> Panic"
  by (cases x) simp_all

lemma or_panic_simps [simp]: "or_panic (Some v) = Ok v" "or_panic None = Panic"
  by (simp_all add: or_panic_def)

lemma or_panic_Ok_iff [simp]: "or_panic x = Ok y \<longleftrightarrow> x = Some y"
  by (cases x) simp_all

lemma or_panic_not_Err [simp]: "or_panic x \<noteq> Err e"
  by (cases x) simp_all

lemma or_panic_Panic_iff [simp]: "or_panic x = Panic \<longleftrightarrow> x = None"
  by (cases x) simp_all

lemma is_ok_simps [simp]: "is_ok (Ok x)" "\<not> is_ok (Err e)" "\<not> is_ok Panic"
  by (simp_all add: is_ok_def)

lemma is_ok_iff: "is_ok m \<longleftrightarrow> (\<exists>x. m = Ok x)"
  by (cases m) simp_all

text \<open>A guard \<open>if bad { return Err(..) }\<close> succeeds exactly when it does not fire.\<close>

lemma guard_Ok_iff [simp]:
  "(if b then Err e else m) = Ok y \<longleftrightarrow> \<not> b \<and> m = Ok y"
  "(if b then Panic else m) = Ok y \<longleftrightarrow> \<not> b \<and> m = Ok y"
  by simp_all

section \<open>Checked and panicking arithmetic\<close>

definition checked_add :: "'a::len word \<Rightarrow> 'a word \<Rightarrow> 'a word option" where
  "checked_add a b = (if unat a + unat b < 2 ^ LENGTH('a) then Some (a + b) else None)"

definition checked_sub :: "'a::len word \<Rightarrow> 'a word \<Rightarrow> 'a word option" where
  "checked_sub a b = (if b \<le> a then Some (a - b) else None)"

definition checked_mul :: "'a::len word \<Rightarrow> 'a word \<Rightarrow> 'a word option" where
  "checked_mul a b = (if unat a * unat b < 2 ^ LENGTH('a) then Some (a * b) else None)"

definition saturating_sub :: "'a::len word \<Rightarrow> 'a word \<Rightarrow> 'a word" where
  "saturating_sub a b = (if b \<le> a then a - b else 0)"

definition saturating_add :: "'a::len word \<Rightarrow> 'a word \<Rightarrow> 'a word" where
  "saturating_add a b = (if unat a + unat b < 2 ^ LENGTH('a) then a + b else - 1)"

text \<open>Plain \<open>+\<close>, \<open>-\<close>, \<open>*\<close> and \<open>/\<close> panic instead of wrapping.\<close>

definition plus_p :: "'a::len word \<Rightarrow> 'a word \<Rightarrow> ('a word, 'e) res" where
  "plus_p a b = or_panic (checked_add a b)"

definition minus_p :: "'a::len word \<Rightarrow> 'a word \<Rightarrow> ('a word, 'e) res" where
  "minus_p a b = or_panic (checked_sub a b)"

definition times_p :: "'a::len word \<Rightarrow> 'a word \<Rightarrow> ('a word, 'e) res" where
  "times_p a b = or_panic (checked_mul a b)"

definition div_p :: "'a::len word \<Rightarrow> 'a word \<Rightarrow> ('a word, 'e) res" where
  "div_p a b = (if b = 0 then Panic else Ok (a div b))"

lemmas rust_arith_defs [code_defs] =
  checked_add_def checked_sub_def checked_mul_def saturating_sub_def saturating_add_def
  plus_p_def minus_p_def times_p_def div_p_def

lemma word_eq_unat: "(a :: 'a::len word) = b \<longleftrightarrow> unat a = unat b"
  by (rule word_unat_eq_iff)

lemma unat_eq_0_iff: "unat (a :: 'a::len word) = 0 \<longleftrightarrow> a = 0"
  by (rule unat_eq_zero)

lemma unat_lt: "unat (a :: 'a::len word) < 2 ^ LENGTH('a)"
  by (rule unsigned_less)

lemma unat_of_nat_eq: "n < 2 ^ LENGTH('a) \<Longrightarrow> unat (of_nat n :: 'a::len word) = n"
  by (simp add: unat_of_nat)

lemma unat_push_bit_1: "k < LENGTH('a) \<Longrightarrow> unat (push_bit k 1 :: 'a::len word) = 2 ^ k"
proof -
  assume k: "k < LENGTH('a)"
  have "unat (push_bit k 1 :: 'a word) = take_bit LENGTH('a) (push_bit k 1)"
    by (simp only: unsigned_push_bit_eq unsigned_1)
  also have "\<dots> = 2 ^ k"
    using k by (simp add: push_bit_eq_mult take_bit_nat_eq_self)
  finally show ?thesis .
qed

lemma unat_eq_lt: "unat (c :: 'a::len word) = n \<Longrightarrow> n < 2 ^ LENGTH('a)"
  using unat_lt [of c] by simp

lemma checked_add_Some_iff [rust_simps]:
  "checked_add a b = Some c \<longleftrightarrow> unat c = unat a + unat b" for a :: "'a::len word"
proof -
  have "unat (a + b) = unat a + unat b" if "unat a + unat b < 2 ^ LENGTH('a)"
    using that by (simp add: unat_add_lem [THEN iffD1])
  then show ?thesis
    by (auto simp: checked_add_def word_eq_unat dest: unat_eq_lt)
qed

lemma checked_add_None_iff [rust_simps]:
  "checked_add a b = None \<longleftrightarrow> 2 ^ LENGTH('a) \<le> unat a + unat b" for a :: "'a::len word"
  by (auto simp: checked_add_def)

lemma checked_sub_Some_iff [rust_simps]:
  "checked_sub a b = Some c \<longleftrightarrow> unat a = unat c + unat b" for a :: "'a::len word"
  by (auto simp: checked_sub_def word_le_nat_alt word_eq_unat unat_sub)

lemma checked_sub_None_iff [rust_simps]:
  "checked_sub a b = None \<longleftrightarrow> unat a < unat b" for a :: "'a::len word"
  by (auto simp: checked_sub_def word_le_nat_alt)

lemma checked_mul_Some_iff [rust_simps]:
  "checked_mul a b = Some c \<longleftrightarrow> unat c = unat a * unat b" for a :: "'a::len word"
proof -
  have "unat (a * b) = unat a * unat b" if "unat a * unat b < 2 ^ LENGTH('a)"
    using that by (simp add: unat_mult_lem [THEN iffD1])
  then show ?thesis
    by (auto simp: checked_mul_def word_eq_unat dest: unat_eq_lt)
qed

lemma checked_mul_None_iff [rust_simps]:
  "checked_mul a b = None \<longleftrightarrow> 2 ^ LENGTH('a) \<le> unat a * unat b" for a :: "'a::len word"
  by (auto simp: checked_mul_def)

lemma unat_saturating_sub [rust_simps]:
  "unat (saturating_sub a b) = unat a - unat b" for a :: "'a::len word"
  by (auto simp: saturating_sub_def word_le_nat_alt unat_sub)

lemma unat_saturating_add [rust_simps]:
  "unat (saturating_add a b) = min (unat a + unat b) (2 ^ LENGTH('a) - 1)" for a :: "'a::len word"
proof (cases "unat a + unat b < 2 ^ LENGTH('a)")
  case True
  then have "unat a + unat b \<le> 2 ^ LENGTH('a) - 1" by linarith
  with True show ?thesis
    by (simp add: saturating_add_def unat_add_lem [THEN iffD1] min_def)
next
  case False
  have "(0::nat) < 2 ^ LENGTH('a)" by simp
  with False have "\<not> unat a + unat b \<le> 2 ^ LENGTH('a) - 1" by linarith
  with False show ?thesis
    by (simp add: saturating_add_def min_def unsigned_minus_1_eq_mask mask_eq_exp_minus_1)
qed

lemma plus_p_Ok_iff [rust_simps]:
  "plus_p a b = Ok c \<longleftrightarrow> unat c = unat a + unat b"
  by (simp add: plus_p_def checked_add_Some_iff)

lemma minus_p_Ok_iff [rust_simps]:
  "minus_p a b = Ok c \<longleftrightarrow> unat a = unat c + unat b"
  by (simp add: minus_p_def checked_sub_Some_iff)

lemma times_p_Ok_iff [rust_simps]:
  "times_p a b = Ok c \<longleftrightarrow> unat c = unat a * unat b"
  by (simp add: times_p_def checked_mul_Some_iff)

lemma div_p_Ok_iff [rust_simps]:
  "div_p a b = Ok c \<longleftrightarrow> b \<noteq> 0 \<and> c = a div b"
  by (auto simp: div_p_def)

lemma panicking_not_Err [simp]:
  "plus_p a b \<noteq> Err e" "minus_p a b \<noteq> Err e" "times_p a b \<noteq> Err e" "div_p a b \<noteq> Err e"
  by (simp_all add: plus_p_def minus_p_def times_p_def div_p_def)

text \<open>Forward forms: an operation whose exact result fits its width succeeds.\<close>

lemma plus_p_fits:
  "unat a + unat b < 2 ^ LENGTH('a) \<Longrightarrow> plus_p a b = Ok (a + b)" for a :: "'a::len word"
  by (simp add: plus_p_def checked_add_def)

lemma minus_p_fits: "b \<le> a \<Longrightarrow> minus_p a b = Ok (a - b)"
  by (simp add: minus_p_def checked_sub_def)

lemma times_p_fits:
  "unat a * unat b < 2 ^ LENGTH('a) \<Longrightarrow> times_p a b = Ok (a * b)" for a :: "'a::len word"
  by (simp add: times_p_def checked_mul_def)

lemma unat_plus_fits:
  "unat a + unat b < 2 ^ LENGTH('a) \<Longrightarrow> unat (a + b) = unat a + unat b" for a :: "'a::len word"
  by (simp add: unat_add_lem [THEN iffD1])

lemma unat_times_fits:
  "unat a * unat b < 2 ^ LENGTH('a) \<Longrightarrow> unat (a * b) = unat a * unat b" for a :: "'a::len word"
  by (simp add: unat_mult_lem [THEN iffD1])

section \<open>Width changes\<close>

text \<open>\<open>x as u128\<close> from a narrower type, \<open>U256::from_u128\<close>, and the fallible
  narrowing \<open>try_into\<close>.\<close>

definition widen :: "'a::len word \<Rightarrow> 'b::len word" where
  "widen x = ucast x"

definition try_narrow :: "'a::len word \<Rightarrow> 'b::len word option" where
  "try_narrow x = (if unat x < 2 ^ LENGTH('b) then Some (ucast x) else None)"

lemma unat_widen [rust_simps]:
  "LENGTH('a) \<le> LENGTH('b) \<Longrightarrow> unat (widen (x :: 'a::len word) :: 'b::len word) = unat x"
proof -
  assume "LENGTH('a) \<le> LENGTH('b)"
  then have "(2::nat) ^ LENGTH('a) \<le> 2 ^ LENGTH('b)" by simp
  then have "unat x < 2 ^ LENGTH('b)" using unat_lt [of x] by linarith
  then show ?thesis by (simp add: widen_def unsigned_ucast_eq take_bit_nat_eq_self)
qed

lemma unat_widen_simps [simp]:
  "unat (widen (x8 :: u8) :: u128) = unat x8"
  "unat (widen (x16 :: u16) :: u128) = unat x16"
  "unat (widen (x64 :: u64) :: u128) = unat x64"
  "unat (widen (x128 :: u128) :: u256) = unat x128"
  by (simp_all add: unat_widen)

lemma widen_eq_0_iff [simp]:
  "(widen (x16 :: u16) :: u128) = 0 \<longleftrightarrow> x16 = 0"
  "(widen (x64 :: u64) :: u128) = 0 \<longleftrightarrow> x64 = 0"
  "(widen (x128 :: u128) :: u256) = 0 \<longleftrightarrow> x128 = 0"
  by (simp_all add: word_eq_unat)

lemma try_narrow_Some_iff [rust_simps]:
  "try_narrow (x :: 'a::len word) = Some (y :: 'b::len word) \<longleftrightarrow> unat y = unat x"
  if "LENGTH('b) \<le> LENGTH('a)"
proof -
  have "unat (ucast x :: 'b word) = unat x" if "unat x < 2 ^ LENGTH('b)"
    using that by (simp add: unsigned_ucast_eq take_bit_nat_eq_self)
  then show ?thesis
    by (auto simp: try_narrow_def word_eq_unat dest: unat_eq_lt)
qed

lemma try_narrow_None_iff [rust_simps]:
  "(try_narrow (x :: 'a::len word) :: 'b::len word option) = None \<longleftrightarrow> 2 ^ LENGTH('b) \<le> unat x"
  by (auto simp: try_narrow_def)

lemma try_narrow_u64_iff [rust_simps]:
  "try_narrow (x :: u128) = Some (y :: u64) \<longleftrightarrow> unat y = unat x"
  by (simp add: try_narrow_Some_iff)

lemma try_narrow_u64_widen: "try_narrow (x :: u128) = Some (y :: u64) \<longleftrightarrow> x = widen y"
  by (auto simp: try_narrow_u64_iff word_eq_unat)

lemma try_narrow_u128_iff [rust_simps]:
  "try_narrow (x :: u256) = Some (y :: u128) \<longleftrightarrow> unat y = unat x"
  by (simp add: try_narrow_Some_iff)

lemmas width_defs [code_defs] = widen_def try_narrow_def

lemma unat_min_word [rust_simps]: "unat (min a b) = min (unat a) (unat b)" for a :: "'a::len word"
  by (simp add: min_def word_le_nat_alt)

lemma unat_max_word [rust_simps]: "unat (max a b) = max (unat a) (unat b)" for a :: "'a::len word"
  by (simp add: max_def word_le_nat_alt)

section \<open>Natural-number arithmetic shared by the components\<close>

text \<open>Rounded-up division, the shape of \<open>mul_div_ceil\<close> and \<open>owed_from_index\<close>.\<close>

definition ceil_div :: "nat \<Rightarrow> nat \<Rightarrow> nat" where
  "ceil_div a b = (if a mod b = 0 then a div b else Suc (a div b))"

lemma ceil_div_ge: "0 < b \<Longrightarrow> a \<le> ceil_div a b * b"
proof (cases "a mod b = 0")
  case True
  then have "a = a div b * b" using div_mult_mod_eq [of a b] by simp
  with True show ?thesis by (simp add: ceil_div_def)
next
  case False
  assume "0 < b"
  then have "a mod b < b" by simp
  then have "a div b * b + a mod b \<le> a div b * b + b" by linarith
  with False show ?thesis by (simp add: ceil_div_def)
qed

lemma ceil_div_least:
  assumes "0 < b" "a \<le> c * b"
  shows "ceil_div a b \<le> c"
proof (cases "a mod b = 0")
  case True
  have "a div b \<le> c * b div b" using assms(2) by (rule div_le_mono)
  with True assms(1) show ?thesis by (simp add: ceil_div_def)
next
  case False
  have "a \<noteq> c * b" using False by auto
  with assms(2) have "a < c * b" by simp
  then have "a div b < c" by (simp add: less_mult_imp_div_less)
  with False show ?thesis by (simp add: ceil_div_def)
qed

lemma ceil_div_le_iff: "0 < b \<Longrightarrow> ceil_div a b \<le> c \<longleftrightarrow> a \<le> c * b"
  by (meson ceil_div_ge ceil_div_least le_trans mult_le_mono1)

lemma ceil_div_bounds: "a div b \<le> ceil_div a b \<and> ceil_div a b \<le> Suc (a div b)"
  by (simp add: ceil_div_def)

lemma ceil_div_pred_less: "0 < b \<Longrightarrow> 0 < ceil_div a b \<Longrightarrow> (ceil_div a b - 1) * b < a"
  by (metis ceil_div_le_iff diff_less less_numeral_extra(1) not_le)

lemma div_mult_le_nat: "(a :: nat) div b * b \<le> a"
  by simp

lemma le_div_iff_mult_le: "0 < b \<Longrightarrow> c \<le> a div b \<longleftrightarrow> c * b \<le> (a :: nat)"
  by (rule less_eq_div_iff_mult_less_eq)

text \<open>The bit length of a number: the position of its highest set bit, plus one.\<close>

fun bit_len :: "nat \<Rightarrow> nat" where
  "bit_len n = (if n = 0 then 0 else Suc (bit_len (n div 2)))"

declare bit_len.simps [simp del]

lemma bit_len_0 [simp]: "bit_len 0 = 0"
  by (simp add: bit_len.simps)

lemma bit_len_upper: "n < 2 ^ bit_len n"
proof (induction n rule: bit_len.induct)
  case (1 n)
  show ?case
  proof (cases "n = 0")
    case False
    with 1 have "n div 2 < 2 ^ bit_len (n div 2)" by simp
    then have "n < 2 * 2 ^ bit_len (n div 2)" by linarith
    with False show ?thesis by (simp add: bit_len.simps [of n])
  qed simp
qed

lemma bit_len_lower: "0 < n \<Longrightarrow> 2 ^ (bit_len n - 1) \<le> n"
proof (induction n rule: bit_len.induct)
  case (1 n)
  show ?case
  proof (cases "n div 2 = 0")
    case True
    with 1 show ?thesis by (simp add: bit_len.simps [of n])
  next
    case False
    with 1 have IH: "2 ^ (bit_len (n div 2) - 1) \<le> n div 2" by simp
    have "bit_len (n div 2) = Suc (bit_len (n div 2) - 1)"
      using False by (simp add: bit_len.simps [of "n div 2"])
    then have "2 ^ bit_len (n div 2) = 2 * (2::nat) ^ (bit_len (n div 2) - 1)"
      by (metis power_Suc)
    also have "\<dots> \<le> n" using IH by linarith
    finally show ?thesis using 1 by (simp add: bit_len.simps [of n])
  qed
qed

lemma bit_len_pos: "0 < n \<Longrightarrow> 0 < bit_len n"
  by (simp add: bit_len.simps)

lemma bit_len_le: "n < 2 ^ k \<Longrightarrow> bit_len n \<le> k"
proof (cases "n = 0")
  case False
  assume "n < 2 ^ k"
  with False bit_len_lower have "(2::nat) ^ (bit_len n - 1) < 2 ^ k"
    by (meson le_less_trans neq0_conv)
  then show ?thesis by simp
qed simp

lemma bit_len_mono: "m \<le> n \<Longrightarrow> bit_len m \<le> bit_len n"
  by (meson bit_len_le bit_len_upper le_less_trans)

lemma bit_len_eqI: "2 ^ k \<le> n \<Longrightarrow> n < 2 ^ Suc k \<Longrightarrow> bit_len n = Suc k"
proof -
  assume lo: "2 ^ k \<le> n" and hi: "n < 2 ^ Suc k"
  have "bit_len n \<le> Suc k" using hi by (rule bit_len_le)
  moreover have "(2::nat) ^ k < 2 ^ bit_len n"
    using lo bit_len_upper by (rule le_less_trans)
  then have "k < bit_len n" by simp
  ultimately show ?thesis by simp
qed

end
