(* ===== verification/Errors.thy ===== *)
theory Errors
  imports Prelude
begin

text \<open>
  \<open>error.rs\<close>: the program's error enum, its numbering (part of the ABI: off-chain
  consumers map \<open>ProgramError::Custom(n)\<close> back to a variant by index) and the
  conversion the \<open>?\<close> operator applies when a \<open>LiquidityError\<close> leaves a handler.
\<close>

datatype liquidity_error =
    InvalidInstruction
  | AlreadyInitialized
  | NotInitialized
  | InvalidPDA
  | AccountDataTooSmall
  | InvalidAccountOwner
  | MissingRequiredSigner
  | MissingSystemProgram
  | AuthorityRenounced
  | InvalidAuthority
  | InvalidPool
  | InvalidPoolMint
  | InvalidVault
  | InvalidLpMint
  | InvalidTokenProgram
  | InvalidMintProgram
  | UnsupportedMintExtension
  | MintsMustDiffer
  | MintsNotSorted
  | SettingExceedsMaximum
  | InvalidCurveKind
  | MathOverflow
  | MathUnderflow
  | ZeroAmount
  | ZeroReserves
  | SlippageExceeded
  | InsufficientExecutableLiquidity
  | LtvExceedsMax
  | LoanNotOpen
  | LoanNotLiquidatable
  | InvalidSidesEncoding
  | DebtRemainsAfterRepay
  | InvalidLiquidationContext
  | LinkChainBroken
  | IncompleteBandWalk
  | SentinelMissing
  | BandMismatch
  | BandFull
  | TooManyLiquidationsRequired
  | Insolvent
  | InvalidFeeRecipient
  | MinimumLiquidityFloor

text \<open>The variants of Solana's \<open>ProgramError\<close> that the program or the calls it makes
  can return.\<close>

datatype program_error =
    Custom u32
  | PE_InvalidArgument
  | PE_InvalidInstructionData
  | PE_InvalidAccountData
  | PE_InsufficientFunds
  | PE_IncorrectProgramId
  | PE_MissingRequiredSignature
  | PE_NotEnoughAccountKeys
  | PE_BorshIoError
  | PE_IllegalOwner

text \<open>The discriminant of a variant, \<open>e as u32\<close>: its position in the enum.\<close>

fun error_code :: "liquidity_error \<Rightarrow> u32" where
  "error_code InvalidInstruction = 0"
| "error_code AlreadyInitialized = 1"
| "error_code NotInitialized = 2"
| "error_code InvalidPDA = 3"
| "error_code AccountDataTooSmall = 4"
| "error_code InvalidAccountOwner = 5"
| "error_code MissingRequiredSigner = 6"
| "error_code MissingSystemProgram = 7"
| "error_code AuthorityRenounced = 8"
| "error_code InvalidAuthority = 9"
| "error_code InvalidPool = 10"
| "error_code InvalidPoolMint = 11"
| "error_code InvalidVault = 12"
| "error_code InvalidLpMint = 13"
| "error_code InvalidTokenProgram = 14"
| "error_code InvalidMintProgram = 15"
| "error_code UnsupportedMintExtension = 16"
| "error_code MintsMustDiffer = 17"
| "error_code MintsNotSorted = 18"
| "error_code SettingExceedsMaximum = 19"
| "error_code InvalidCurveKind = 20"
| "error_code MathOverflow = 21"
| "error_code MathUnderflow = 22"
| "error_code ZeroAmount = 23"
| "error_code ZeroReserves = 24"
| "error_code SlippageExceeded = 25"
| "error_code InsufficientExecutableLiquidity = 26"
| "error_code LtvExceedsMax = 27"
| "error_code LoanNotOpen = 28"
| "error_code LoanNotLiquidatable = 29"
| "error_code InvalidSidesEncoding = 30"
| "error_code DebtRemainsAfterRepay = 31"
| "error_code InvalidLiquidationContext = 32"
| "error_code LinkChainBroken = 33"
| "error_code IncompleteBandWalk = 34"
| "error_code SentinelMissing = 35"
| "error_code BandMismatch = 36"
| "error_code BandFull = 37"
| "error_code TooManyLiquidationsRequired = 38"
| "error_code Insolvent = 39"
| "error_code InvalidFeeRecipient = 40"
| "error_code MinimumLiquidityFloor = 41"

definition all_errors :: "liquidity_error list" where
  "all_errors = [InvalidInstruction, AlreadyInitialized, NotInitialized, InvalidPDA,
     AccountDataTooSmall, InvalidAccountOwner, MissingRequiredSigner, MissingSystemProgram,
     AuthorityRenounced, InvalidAuthority, InvalidPool, InvalidPoolMint,
     InvalidVault, InvalidLpMint, InvalidTokenProgram, InvalidMintProgram,
     UnsupportedMintExtension, MintsMustDiffer, MintsNotSorted, SettingExceedsMaximum,
     InvalidCurveKind, MathOverflow, MathUnderflow, ZeroAmount,
     ZeroReserves, SlippageExceeded, InsufficientExecutableLiquidity, LtvExceedsMax,
     LoanNotOpen, LoanNotLiquidatable, InvalidSidesEncoding, DebtRemainsAfterRepay,
     InvalidLiquidationContext, LinkChainBroken, IncompleteBandWalk, SentinelMissing,
     BandMismatch, BandFull, TooManyLiquidationsRequired, Insolvent,
     InvalidFeeRecipient, MinimumLiquidityFloor]"

text \<open>\<open>impl From<LiquidityError> for ProgramError\<close>.\<close>

definition lerr :: "liquidity_error \<Rightarrow> program_error" where
  "lerr e = Custom (error_code e)"

text \<open>\<open>?\<close> on a \<open>Result<_, LiquidityError>\<close> inside a function that returns
  \<open>ProgramResult\<close>.\<close>

definition into :: "('a, liquidity_error) res \<Rightarrow> ('a, program_error) res" where
  "into m = map_err lerr m"

lemma into_simps [simp]:
  "into (Ok x) = Ok x" "into (Err e) = Err (lerr e)" "into Panic = Panic"
  by (simp_all add: into_def)

lemma into_Ok_iff [simp]: "into m = Ok y \<longleftrightarrow> m = Ok y"
  by (simp add: into_def)

lemma into_Panic_iff [simp]: "into m = Panic \<longleftrightarrow> m = Panic"
  by (simp add: into_def)

text \<open>What an off-chain consumer does with a custom code: look the variant up by index.\<close>

definition error_of_code :: "u32 \<Rightarrow> liquidity_error option" where
  "error_of_code n =
     (if unat n < length all_errors then Some (all_errors ! unat n) else None)"

lemma error_of_code_error_code: "error_of_code (error_code e) = Some e"
  by (cases e) (simp_all add: error_of_code_def all_errors_def)

lemma lerr_inject [simp]: "lerr a = lerr b \<longleftrightarrow> a = b"
  by (metis error_of_code_error_code lerr_def option.inject program_error.inject)

lemma lerr_not_other [simp]:
  "lerr e \<noteq> PE_NotEnoughAccountKeys" "lerr e \<noteq> PE_BorshIoError"
  by (simp_all add: lerr_def)

end
