(* ===== verification/Fixed_Math.thy ===== *)
theory Fixed_Math
  imports Errors
begin

text \<open>
  \<open>math.rs\<close>: WAD fixed-point arithmetic over 128-bit integers with 256-bit
  intermediates, the integer square root, the utilization-kink interest model, the
  constant-product quote, liquidation triggers, price bands and the reference-price
  average. \<open>U256\<close> is \<^typ>\<open>u256\<close>; every \<open>checked_*\<close> and every plain
  operator of the source is its checked or panicking counterpart of \<open>Prelude\<close>. For each
  routine there is a lemma \<open>\<dots>_Ok_iff\<close> that gives its exact result over the
  natural numbers and the exact inputs on which it succeeds.
\<close>

section \<open>Constants and 256-bit integers\<close>

definition WAD :: u128 where "WAD = 1000000000000000000"
definition WAD_U256 :: u256 where "WAD_U256 = 1000000000000000000"
definition BPS_DENOM :: u128 where "BPS_DENOM = 10000"
definition SLOTS_PER_YEAR :: u64 where "SLOTS_PER_YEAR = 78840000"

definition from_u128 :: "u128 \<Rightarrow> u256" where
  "from_u128 val = widen val"

definition to_u128 :: "u256 \<Rightarrow> u128 option" where
  "to_u128 x = (if drop_bit 128 x \<noteq> 0 then None else Some (ucast x))"

definition wad_mul :: "u128 \<Rightarrow> u128 \<Rightarrow> (u128, liquidity_error) res" where
  "wad_mul a b =
     and_then (ok_or (checked_mul (from_u128 a) (from_u128 b)) MathOverflow) (\<lambda>p.
     ok_or (to_u128 (p div WAD_U256)) MathOverflow)"

definition wad_div :: "u128 \<Rightarrow> u128 \<Rightarrow> (u128, liquidity_error) res" where
  "wad_div a b =
     (if b = 0 then Err MathOverflow
      else and_then (ok_or (checked_mul (from_u128 a) WAD_U256) MathOverflow) (\<lambda>p.
           ok_or (to_u128 (p div from_u128 b)) MathOverflow))"

section \<open>Integer helpers\<close>

definition leading_zeros :: "u128 \<Rightarrow> u32" where
  "leading_zeros x = of_nat (128 - bit_len (unat x))"

text \<open>The Newton loop of \<open>isqrt_u128\<close>: each turn replaces \<open>x\<close> by a smaller
  \<open>y\<close> or returns.\<close>

function isqrt_loop :: "u128 \<Rightarrow> u128 \<Rightarrow> (u128, liquidity_error) res" where
  "isqrt_loop n x =
     and_then (div_p n x) (\<lambda>q.
     and_then (plus_p x q) (\<lambda>s.
     let y = s div 2 in if x \<le> y then Ok x else isqrt_loop n y))"
  by pat_completeness auto
termination
  by (relation "measure (\<lambda>(n, x). unat x)") (auto simp: word_less_nat_alt not_le)

declare isqrt_loop.simps [simp del]

definition isqrt_u128 :: "u128 \<Rightarrow> (u128, liquidity_error) res" where
  "isqrt_u128 n =
     (if n = 0 then Ok 0
      else let bits = 128 - unat (leading_zeros n); x = push_bit ((bits + 1) div 2) 1
           in isqrt_loop n x)"

definition mul_div :: "u128 \<Rightarrow> u128 \<Rightarrow> u128 \<Rightarrow> (u128, liquidity_error) res" where
  "mul_div a b c =
     (if c = 0 then Err MathOverflow
      else and_then (ok_or (checked_mul (from_u128 a) (from_u128 b)) MathOverflow) (\<lambda>prod.
           ok_or (to_u128 (prod div from_u128 c)) MathOverflow))"

section \<open>Interest model\<close>

definition utilization_wad :: "u128 \<Rightarrow> u128 \<Rightarrow> u128" where
  "utilization_wad debt accounted =
     (if accounted = 0 then 0
      else let util_u256 =
             (case checked_mul (from_u128 debt) WAD_U256 of
                Some n \<Rightarrow> n div from_u128 accounted
              | None \<Rightarrow> WAD_U256)
           in min (case to_u128 util_u256 of Some u \<Rightarrow> u | None \<Rightarrow> WAD) WAD)"

definition bps_to_wad :: "u16 \<Rightarrow> (u128, liquidity_error) res" where
  "bps_to_wad bps = times_p (widen bps) (WAD div BPS_DENOM)"

definition compute_borrow_rate_wad_per_year ::
  "u128 \<Rightarrow> u16 \<Rightarrow> u16 \<Rightarrow> u16 \<Rightarrow> u16 \<Rightarrow> (u128, liquidity_error) res" where
  "compute_borrow_rate_wad_per_year util_wad base_bps slope1_bps slope2_bps kink_bps =
     and_then (ok_or (checked_mul (widen kink_bps) WAD) MathOverflow) (\<lambda>k.
     let kink_wad = k div BPS_DENOM in
     if kink_wad = 0 then Err SettingExceedsMaximum
     else
     and_then (bps_to_wad base_bps) (\<lambda>base.
     and_then (bps_to_wad slope1_bps) (\<lambda>slope1.
     and_then (bps_to_wad slope2_bps) (\<lambda>slope2.
     if util_wad \<le> kink_wad then
       and_then (mul_div slope1 util_wad kink_wad) (\<lambda>inc.
       ok_or (checked_add base inc) MathOverflow)
     else
       and_then (minus_p util_wad kink_wad) (\<lambda>above.
       and_then (minus_p WAD kink_wad) (\<lambda>span.
       and_then (mul_div slope2 above span) (\<lambda>inc.
       ok_or (Option.bind (checked_add base slope1) (\<lambda>v. checked_add v inc))
         MathOverflow)))))))"

definition INDEX_CAP_WAD :: u128 where
  "INDEX_CAP_WAD = push_bit 64 WAD"

definition bump_index_wad :: "u128 \<Rightarrow> u128 \<Rightarrow> u64 \<Rightarrow> u128" where
  "bump_index_wad current_index_wad rate_wad_per_year slots_elapsed =
     (if rate_wad_per_year = 0 \<or> slots_elapsed = 0 \<or> INDEX_CAP_WAD \<le> current_index_wad
      then current_index_wad
      else
        case Option.bind (checked_mul (from_u128 current_index_wad) (from_u128 rate_wad_per_year))
               (\<lambda>n. checked_mul n (from_u128 (widen slots_elapsed))) of
          None \<Rightarrow> INDEX_CAP_WAD
        | Some num \<Rightarrow>
            let denom = from_u128 (widen SLOTS_PER_YEAR * WAD);
                new_index = saturating_add (from_u128 current_index_wad) (num div denom)
            in case to_u128 new_index of
                 Some v \<Rightarrow> min v INDEX_CAP_WAD
               | None \<Rightarrow> INDEX_CAP_WAD)"

definition ltv_bps :: "u128 \<Rightarrow> u128 \<Rightarrow> u128 \<Rightarrow> u128 \<Rightarrow> (u128, liquidity_error) res" where
  "ltv_bps debt_amount collateral_amount price_num price_den =
     and_then (ok_or (checked_mul (from_u128 collateral_amount) (from_u128 price_den))
                 MathOverflow) (\<lambda>denom.
     if denom = 0 then Err MathOverflow
     else
     and_then (ok_or (checked_mul (from_u128 debt_amount) (from_u128 BPS_DENOM))
                 MathOverflow) (\<lambda>n.
     and_then (ok_or (checked_mul n (from_u128 price_num)) MathOverflow) (\<lambda>num.
     ok_or (to_u128 (num div denom)) MathOverflow)))"

definition owed_from_index :: "u128 \<Rightarrow> u128 \<Rightarrow> u128 \<Rightarrow> (u128, liquidity_error) res" where
  "owed_from_index principal_amt snapshot_index_wad current_index_wad =
     (if snapshot_index_wad = 0 then Err MathOverflow
      else if current_index_wad < snapshot_index_wad then Err MathUnderflow
      else
      and_then (ok_or (checked_mul (from_u128 principal_amt) (from_u128 current_index_wad))
                  MathOverflow) (\<lambda>prod.
      let snapshot = from_u128 snapshot_index_wad;
          q = prod div snapshot; r = prod mod snapshot in
      and_then (if r = 0 then Ok q else plus_p q 1) (\<lambda>q.
      ok_or (to_u128 q) MathOverflow)))"

section \<open>AMM quoting\<close>

definition cpmm_quote_out ::
  "u128 \<Rightarrow> u128 \<Rightarrow> u128 \<Rightarrow> u16 \<Rightarrow> (u128, liquidity_error) res" where
  "cpmm_quote_out amount_in reserve_in reserve_out fee_bps16 =
     (if amount_in = 0 then Err ZeroAmount
      else if reserve_in = 0 \<or> reserve_out = 0 then Err ZeroReserves
      else let fee_bps = widen fee_bps16 in
      if BPS_DENOM \<le> fee_bps then Err SettingExceedsMaximum
      else
      and_then (minus_p BPS_DENOM fee_bps) (\<lambda>keep_bps.
      and_then (ok_or (checked_mul (from_u128 amount_in) (from_u128 keep_bps))
                  MathOverflow) (\<lambda>p.
      let in_after_fee = p div from_u128 BPS_DENOM in
      and_then (ok_or (checked_mul in_after_fee (from_u128 reserve_out))
                  MathOverflow) (\<lambda>numerator.
      and_then (ok_or (checked_add (from_u128 reserve_in) in_after_fee)
                  MathOverflow) (\<lambda>denominator.
      ok_or (to_u128 (numerator div denominator)) MathOverflow)))))"

definition price_b_per_a_wad :: "u128 \<Rightarrow> u128 \<Rightarrow> (u128, liquidity_error) res" where
  "price_b_per_a_wad accounted_a accounted_b =
     (if accounted_a = 0 then Err ZeroReserves
      else
      and_then (ok_or (checked_mul (from_u128 accounted_b) WAD_U256) MathOverflow) (\<lambda>num.
      ok_or (to_u128 (num div from_u128 accounted_a)) MathOverflow))"

section \<open>Liquidation triggers\<close>

datatype loan_sides = CollateralA | CollateralB

definition loan_sides_from_u8 :: "u8 \<Rightarrow> (loan_sides, liquidity_error) res" where
  "loan_sides_from_u8 b =
     (if b = 0 then Ok CollateralA else if b = 1 then Ok CollateralB
      else Err InvalidSidesEncoding)"

fun loan_sides_byte :: "loan_sides \<Rightarrow> u8" where
  "loan_sides_byte CollateralA = 0"
| "loan_sides_byte CollateralB = 1"

datatype trigger_direction = OnFall | OnRise

definition trigger_direction_from_u8 :: "u8 \<Rightarrow> (trigger_direction, liquidity_error) res" where
  "trigger_direction_from_u8 b =
     (if b = 0 then Ok OnFall else if b = 1 then Ok OnRise
      else Err InvalidSidesEncoding)"

fun direction_byte :: "trigger_direction \<Rightarrow> u8" where
  "direction_byte OnFall = 0"
| "direction_byte OnRise = 1"

definition recompute_trigger ::
  "loan_sides \<Rightarrow> u128 \<Rightarrow> u128 \<Rightarrow> u16 \<Rightarrow> (u128 \<times> trigger_direction, liquidity_error) res" where
  "recompute_trigger sides collateral_amount debt_amount liq_ratio16 =
     (if collateral_amount = 0 then Err ZeroAmount
      else if debt_amount = 0 then Err ZeroAmount
      else let liq_ratio_bps = widen liq_ratio16 in
      case sides of
        CollateralA \<Rightarrow>
          and_then (ok_or (checked_mul (from_u128 debt_amount) (from_u128 liq_ratio_bps))
                      MathOverflow) (\<lambda>n.
          and_then (ok_or (checked_mul n WAD_U256) MathOverflow) (\<lambda>num.
          and_then (ok_or (checked_mul (from_u128 collateral_amount) (from_u128 BPS_DENOM))
                      MathOverflow) (\<lambda>denom.
          and_then (div_p num denom) (\<lambda>q.
          and_then (ok_or (to_u128 q) MathOverflow) (\<lambda>trigger.
          Ok (trigger, OnFall))))))
      | CollateralB \<Rightarrow>
          and_then (ok_or (checked_mul (from_u128 collateral_amount) (from_u128 BPS_DENOM))
                      MathOverflow) (\<lambda>n.
          and_then (ok_or (checked_mul n WAD_U256) MathOverflow) (\<lambda>num.
          and_then (ok_or (checked_mul (from_u128 debt_amount) (from_u128 liq_ratio_bps))
                      MathOverflow) (\<lambda>denom.
          and_then (div_p num denom) (\<lambda>q.
          and_then (ok_or (to_u128 q) MathOverflow) (\<lambda>trigger.
          Ok (trigger, OnRise)))))))"

fun is_liquidatable :: "u128 \<Rightarrow> trigger_direction \<Rightarrow> u128 \<Rightarrow> bool" where
  "is_liquidatable trigger_price_wad OnFall current_price_wad =
     (current_price_wad \<le> trigger_price_wad)"
| "is_liquidatable trigger_price_wad OnRise current_price_wad =
     (trigger_price_wad \<le> current_price_wad)"

section \<open>Price bands\<close>

definition BAND_OFFSET :: u32 where "BAND_OFFSET = 64"
definition LOG2_WAD :: u32 where "LOG2_WAD = 59"

definition band_id_for_trigger :: "u128 \<Rightarrow> (u32, liquidity_error) res" where
  "band_id_for_trigger trigger_price_wad =
     (if trigger_price_wad = 0 then Err ZeroAmount
      else
      and_then (minus_p 127 (leading_zeros trigger_price_wad)) (\<lambda>log2_x.
      and_then (plus_p log2_x BAND_OFFSET) (\<lambda>s. minus_p s LOG2_WAD)))"

definition band_min_wad :: "u32 \<Rightarrow> (u128, liquidity_error) res" where
  "band_min_wad band_id =
     and_then (plus_p band_id LOG2_WAD) (\<lambda>s.
     if s < BAND_OFFSET then Ok 0
     else
     and_then (minus_p s BAND_OFFSET) (\<lambda>log2_x.
     if 128 \<le> log2_x then Err MathOverflow
     else Ok (push_bit (unat log2_x) 1)))"

definition band_max_wad :: "u32 \<Rightarrow> (u128, liquidity_error) res" where
  "band_max_wad band_id = and_then (plus_p band_id 1) band_min_wad"

section \<open>Reference price\<close>

definition REF_PRICE_WINDOW_SLOTS :: u64 where "REF_PRICE_WINDOW_SLOTS = 150"

definition ema_ref_price_wad :: "u128 \<Rightarrow> u128 \<Rightarrow> u64 \<Rightarrow> (u128, liquidity_error) res" where
  "ema_ref_price_wad prev_ref_wad spot_wad elapsed_slots =
     (if prev_ref_wad = 0 \<or> REF_PRICE_WINDOW_SLOTS \<le> elapsed_slots then Ok spot_wad
      else
      let w = widen elapsed_slots; h = widen REF_PRICE_WINDOW_SLOTS in
      if prev_ref_wad \<le> spot_wad then
        and_then (minus_p spot_wad prev_ref_wad) (\<lambda>gap.
        and_then (mul_div gap w h) (\<lambda>d. plus_p prev_ref_wad d))
      else
        and_then (minus_p prev_ref_wad spot_wad) (\<lambda>gap.
        and_then (mul_div gap w h) (\<lambda>d. minus_p prev_ref_wad d)))"

lemmas math_defs [code_defs] =
  WAD_def WAD_U256_def BPS_DENOM_def SLOTS_PER_YEAR_def from_u128_def to_u128_def
  wad_mul_def wad_div_def leading_zeros_def isqrt_u128_def mul_div_def
  utilization_wad_def bps_to_wad_def compute_borrow_rate_wad_per_year_def
  INDEX_CAP_WAD_def bump_index_wad_def ltv_bps_def owed_from_index_def
  cpmm_quote_out_def price_b_per_a_wad_def loan_sides_from_u8_def
  trigger_direction_from_u8_def recompute_trigger_def BAND_OFFSET_def LOG2_WAD_def
  band_id_for_trigger_def band_min_wad_def band_max_wad_def
  REF_PRICE_WINDOW_SLOTS_def ema_ref_price_wad_def

section \<open>Exact results over the natural numbers\<close>

lemma unat_consts [simp]:
  "unat WAD = 1000000000000000000"
  "unat WAD_U256 = 1000000000000000000"
  "unat BPS_DENOM = 10000"
  "unat SLOTS_PER_YEAR = 78840000"
  "unat REF_PRICE_WINDOW_SLOTS = 150"
  "unat BAND_OFFSET = 64"
  "unat LOG2_WAD = 59"
  "unat INDEX_CAP_WAD = 2 ^ 64 * 1000000000000000000"
  by (simp_all add: math_defs)

lemma consts_nonzero [simp]:
  "WAD \<noteq> 0" "WAD_U256 \<noteq> 0" "BPS_DENOM \<noteq> 0" "INDEX_CAP_WAD \<noteq> 0"
  by (simp_all add: word_eq_unat)

lemma unat_from_u128 [simp]: "unat (from_u128 a) = unat a"
  by (simp add: from_u128_def)

lemma from_u128_eq_0_iff [simp]: "from_u128 a = 0 \<longleftrightarrow> a = 0"
  by (simp add: from_u128_def)

lemma high_limbs_zero: "drop_bit 128 x = 0 \<longleftrightarrow> unat x < 2 ^ 128" for x :: u256
  by (simp add: drop_bit_eq_div word_eq_unat unat_div div_eq_0_iff)

lemma to_u128_try_narrow: "to_u128 x = try_narrow x"
  by (simp add: to_u128_def try_narrow_def high_limbs_zero)

lemma to_u128_Some_iff [rust_simps]: "to_u128 x = Some y \<longleftrightarrow> unat y = unat x"
  by (simp add: to_u128_try_narrow try_narrow_u128_iff)

lemma to_u128_None_iff: "to_u128 x = None \<longleftrightarrow> 2 ^ 128 \<le> unat x"
  by (simp add: to_u128_try_narrow try_narrow_None_iff)

lemma to_u128_fits:
  assumes "unat x < 2 ^ 128"
  obtains y where "to_u128 x = Some y" "unat y = unat x"
proof -
  have "to_u128 x \<noteq> None" using assms by (simp only: to_u128_None_iff not_le)
  then obtain y where "to_u128 x = Some y" by blast
  moreover from this have "unat y = unat x" by (simp only: to_u128_Some_iff)
  ultimately show ?thesis by (rule that)
qed

lemma u128_lt: "unat (a :: u128) < 2 ^ 128"
  using unat_lt [of a] by simp

lemma u64_lt: "unat (a :: u64) < 2 ^ 64"
  using unat_lt [of a] by simp

lemma u16_lt: "unat (a :: u16) < 2 ^ 16"
  using unat_lt [of a] by simp

text \<open>A product of two 128-bit numbers always fits 256 bits.\<close>

lemma mul256_fits: "unat (a :: u128) * unat (b :: u128) < 2 ^ 256"
proof -
  have "unat a * unat b < 2 ^ 128 * 2 ^ 128"
    by (rule mult_strict_mono) (use u128_lt in simp_all)
  then show ?thesis by simp
qed

lemma checked_mul_from_u128:
  "checked_mul (from_u128 a) (from_u128 b) = Some (from_u128 a * from_u128 b)"
  using mul256_fits [of a b] by (simp add: checked_mul_def)

lemma unat_mul256 [simp]: "unat (from_u128 a * from_u128 b) = unat a * unat b"
  using mul256_fits [of a b] by (simp add: unat_times_fits)

lemma WAD_U256_eq: "WAD_U256 = from_u128 WAD"
  by (simp add: word_eq_unat)

lemma mul_div_Ok_iff:
  "mul_div a b c = Ok r \<longleftrightarrow> c \<noteq> 0 \<and> unat r = unat a * unat b div unat c"
  by (auto simp: mul_div_def checked_mul_from_u128 unat_div to_u128_Some_iff)

lemma mul_div_not_Panic [simp]: "mul_div a b c \<noteq> Panic"
  by (simp add: mul_div_def checked_mul_from_u128)

lemma mul_div_Err_iff:
  "mul_div a b c = Err e \<longleftrightarrow>
     e = MathOverflow \<and> (c = 0 \<or> 2 ^ 128 \<le> unat a * unat b div unat c)"
  by (auto simp: mul_div_def checked_mul_from_u128 unat_div to_u128_None_iff)

lemma mul_div_fits:
  assumes "c \<noteq> 0" "unat a * unat b div unat c < 2 ^ 128"
  obtains r where "mul_div a b c = Ok r" "unat r = unat a * unat b div unat c"
proof -
  have "unat (from_u128 a * from_u128 b div from_u128 c) < 2 ^ 128"
    using assms(2) by (simp add: unat_div)
  then obtain r where "to_u128 (from_u128 a * from_u128 b div from_u128 c) = Some r"
    by (rule to_u128_fits)
  with assms(1) have r: "mul_div a b c = Ok r"
    by (simp only: mul_div_def checked_mul_from_u128 if_False ok_or_simps and_then_simps)
  then have "unat r = unat a * unat b div unat c"
    by (simp only: mul_div_Ok_iff)
  with r show ?thesis by (rule that)
qed

lemma wad_mul_Ok_iff:
  "wad_mul a b = Ok r \<longleftrightarrow> unat r = unat a * unat b div 10 ^ 18"
  by (auto simp: wad_mul_def checked_mul_from_u128 unat_div to_u128_Some_iff)

lemma wad_div_Ok_iff:
  "wad_div a b = Ok r \<longleftrightarrow> b \<noteq> 0 \<and> unat r = unat a * 10 ^ 18 div unat b"
  by (auto simp: wad_div_def WAD_U256_eq checked_mul_from_u128 unat_div to_u128_Some_iff)

lemma price_b_per_a_wad_Ok_iff:
  "price_b_per_a_wad a b = Ok p \<longleftrightarrow> a \<noteq> 0 \<and> unat p = unat b * 10 ^ 18 div unat a"
  by (auto simp: price_b_per_a_wad_def WAD_U256_eq checked_mul_from_u128 unat_div to_u128_Some_iff)

lemma price_b_per_a_wad_not_Panic [simp]: "price_b_per_a_wad a b \<noteq> Panic"
  by (simp add: price_b_per_a_wad_def WAD_U256_eq checked_mul_from_u128)

text \<open>The fee-reduced input and the quote, as numbers.\<close>

definition in_after_fee_nat :: "nat \<Rightarrow> nat \<Rightarrow> nat" where
  "in_after_fee_nat amount_in fee = amount_in * (10000 - fee) div 10000"

definition quote_nat :: "nat \<Rightarrow> nat \<Rightarrow> nat \<Rightarrow> nat \<Rightarrow> nat" where
  "quote_nat amount_in r_in r_out fee =
     in_after_fee_nat amount_in fee * r_out div (r_in + in_after_fee_nat amount_in fee)"

lemma in_after_fee_le: "in_after_fee_nat x fee \<le> x"
proof -
  have "x * (10000 - fee) div 10000 \<le> x * 10000 div 10000"
    by (intro div_le_mono mult_le_mono2) simp
  then show ?thesis by (simp add: in_after_fee_nat_def)
qed

lemma quote_nat_le: "quote_nat x r_in r_out fee \<le> r_out"
proof -
  have "in_after_fee_nat x fee * r_out \<le> (r_in + in_after_fee_nat x fee) * r_out"
    by simp
  then have "quote_nat x r_in r_out fee
      \<le> (r_in + in_after_fee_nat x fee) * r_out div (r_in + in_after_fee_nat x fee)"
    unfolding quote_nat_def by (rule div_le_mono)
  also have "\<dots> \<le> r_out" by simp
  finally show ?thesis .
qed

lemma quote_nat_less: "0 < r_in \<Longrightarrow> 0 < r_out \<Longrightarrow> quote_nat x r_in r_out fee < r_out"
  unfolding quote_nat_def
  by (rule less_mult_imp_div_less) (simp add: distrib_left mult.commute)

lemma cpmm_quote_out_eq:
  assumes "amount_in \<noteq> 0" "r_in \<noteq> 0" "r_out \<noteq> 0" "unat fee < 10000"
  obtains out where "cpmm_quote_out amount_in r_in r_out fee = Ok out"
    "unat out = quote_nat (unat amount_in) (unat r_in) (unat r_out) (unat fee)"
proof -
  let ?i = "in_after_fee_nat (unat amount_in) (unat fee)"
  have fee: "\<not> BPS_DENOM \<le> (widen fee :: u128)"
    using assms(4) by (simp add: word_le_nat_alt)
  obtain keep :: u128 where keep: "(minus_p BPS_DENOM (widen fee) :: (u128, liquidity_error) res) = Ok keep"
    "unat keep = 10000 - unat fee"
  proof -
    have le: "(widen fee :: u128) \<le> BPS_DENOM" using fee by simp
    then have "unat (BPS_DENOM - widen fee) = 10000 - unat fee"
      by (simp add: unat_sub)
    then show ?thesis using that minus_p_fits [OF le] by blast
  qed
  define i where "i = from_u128 amount_in * from_u128 keep div from_u128 BPS_DENOM"
  have i: "unat i = ?i" by (simp add: i_def unat_div in_after_fee_nat_def keep(2))
  have i128: "unat i < 2 ^ 128" using in_after_fee_le [of "unat amount_in" "unat fee"] u128_lt [of amount_in]
    unfolding i by linarith
  have num: "unat i * unat r_out < 2 ^ 256"
    using mult_strict_mono [of "unat i" "2 ^ 128" "unat r_out" "2 ^ 128"] i128 u128_lt [of r_out]
    by simp
  have den: "unat r_in + unat i < 2 ^ 256" using i128 u128_lt [of r_in] by simp
  let ?q = "i * from_u128 r_out div (from_u128 r_in + i)"
  have q: "unat ?q = quote_nat (unat amount_in) (unat r_in) (unat r_out) (unat fee)"
    using num den by (simp add: unat_div unat_times_fits unat_plus_fits quote_nat_def i)
  have "unat ?q < 2 ^ 128"
    unfolding q using quote_nat_le u128_lt [of r_out] by (rule le_less_trans)
  then obtain out where out: "to_u128 ?q = Some out" "unat out = unat ?q"
    by (rule to_u128_fits)
  have "cpmm_quote_out amount_in r_in r_out fee = Ok out"
    using assms(1-3) fee keep(1) num den out(1) mul256_fits [of amount_in keep]
    by (simp add: cpmm_quote_out_def checked_mul_from_u128 i_def [symmetric] Let_def
        checked_mul_def checked_add_def del: and_then_Ok_iff)
  then show ?thesis using that out(2) q by simp
qed

lemma cpmm_quote_out_Ok_iff:
  "cpmm_quote_out amount_in r_in r_out fee = Ok out \<longleftrightarrow>
     amount_in \<noteq> 0 \<and> r_in \<noteq> 0 \<and> r_out \<noteq> 0 \<and> unat fee < 10000 \<and>
     unat out = quote_nat (unat amount_in) (unat r_in) (unat r_out) (unat fee)"
  (is "?l \<longleftrightarrow> ?r")
proof
  assume l: ?l
  then have g: "amount_in \<noteq> 0" "r_in \<noteq> 0" "r_out \<noteq> 0" "unat fee < 10000"
    by (auto simp: cpmm_quote_out_def Let_def word_le_nat_alt)
  from g obtain o' where "cpmm_quote_out amount_in r_in r_out fee = Ok o'"
    "unat o' = quote_nat (unat amount_in) (unat r_in) (unat r_out) (unat fee)"
    by (rule cpmm_quote_out_eq)
  with l g show ?r by simp
next
  assume r: ?r
  then obtain o' where "cpmm_quote_out amount_in r_in r_out fee = Ok o'"
    "unat o' = quote_nat (unat amount_in) (unat r_in) (unat r_out) (unat fee)"
    by (metis cpmm_quote_out_eq)
  with r show ?l by (simp add: word_eq_unat)
qed

text \<open>Interest accrual.\<close>

lemma owed_from_index_Ok_iff:
  "owed_from_index p s c = Ok r \<longleftrightarrow>
     s \<noteq> 0 \<and> unat s \<le> unat c \<and> unat r = ceil_div (unat p * unat c) (unat s)"
proof (cases "s = 0 \<or> c < s")
  case True
  then show ?thesis by (auto simp: owed_from_index_def word_less_nat_alt)
next
  case False
  let ?q = "from_u128 p * from_u128 c div from_u128 s"
  let ?r = "from_u128 p * from_u128 c mod from_u128 s"
  have q: "unat ?q = unat p * unat c div unat s" by (simp add: unat_div)
  have r: "?r = 0 \<longleftrightarrow> unat p * unat c mod unat s = 0"
    by (simp only: word_eq_unat unat_mod unat_mul256 unat_from_u128 unat_0)
  have sge: "1 < unat s \<or> unat s = 1" using False by (simp add: unat_eq_0_iff [symmetric] neq0_conv) linarith
  have fits: "unat ?q + 1 < 2 ^ 256" if "unat p * unat c mod unat s \<noteq> 0"
  proof -
    from that sge have "1 < unat s" by auto
    then have "unat ?q \<le> unat p * unat c div 2" unfolding q by (simp add: div_le_mono2)
    then show ?thesis using mul256_fits [of p c] by simp
  qed
  show ?thesis
  proof (cases "unat p * unat c mod unat s = 0")
    case True
    with False r q show ?thesis
      by (simp add: owed_from_index_def checked_mul_from_u128 Let_def ceil_div_def
          word_less_nat_alt not_less to_u128_Some_iff)
  next
    case nz: False
    have "(plus_p ?q 1 :: (u256, liquidity_error) res) = Ok (?q + 1)" using fits [OF nz] by (intro plus_p_fits) simp
    moreover have "unat (?q + 1) = Suc (unat p * unat c div unat s)"
      using fits [OF nz] q by (simp add: unat_plus_fits)
    ultimately show ?thesis using False r nz
      by (simp add: owed_from_index_def checked_mul_from_u128 Let_def ceil_div_def
          word_less_nat_alt not_less to_u128_Some_iff)
  qed
qed

lemma utilization_wad_eq:
  "unat (utilization_wad debt acc) =
     (if acc = 0 then 0 else min (unat debt * 10 ^ 18 div unat acc) (10 ^ 18))"
proof (cases "acc = 0")
  case True
  then show ?thesis by (simp add: utilization_wad_def)
next
  case False
  let ?q = "from_u128 debt * from_u128 WAD div from_u128 acc"
  have q: "unat ?q = unat debt * 10 ^ 18 div unat acc" by (simp add: unat_div)
  have eq: "utilization_wad debt acc = min (case to_u128 ?q of Some u \<Rightarrow> u | None \<Rightarrow> WAD) WAD"
    using False by (simp add: utilization_wad_def WAD_U256_eq checked_mul_from_u128)
  show ?thesis
  proof (cases "to_u128 ?q")
    case None
    then have "2 ^ 128 \<le> unat debt * 10 ^ 18 div unat acc"
      using q by (simp only: to_u128_None_iff)
    with None False show ?thesis by (simp add: eq)
  next
    case (Some u)
    then have "unat u = unat debt * 10 ^ 18 div unat acc" using q by (simp only: to_u128_Some_iff)
    with Some False show ?thesis by (simp add: eq unat_min_word)
  qed
qed

lemma utilization_wad_le: "unat (utilization_wad debt acc) \<le> 10 ^ 18"
  by (simp add: utilization_wad_eq)

lemma bps_to_wad_Ok: "bps_to_wad bps = Ok (widen bps * 100000000000000)"
  and unat_bps_to_wad: "unat (widen bps * (100000000000000 :: u128)) = unat bps * 10 ^ 14"
proof -
  have w: "WAD div BPS_DENOM = 100000000000000" by (simp add: WAD_def BPS_DENOM_def)
  have f: "unat (widen bps :: u128) * unat (100000000000000 :: u128) < 2 ^ 128"
    using u16_lt [of bps] by simp
  show "bps_to_wad bps = Ok (widen bps * 100000000000000)"
    unfolding bps_to_wad_def w using f by (intro times_p_fits) simp
  show "unat (widen bps * (100000000000000 :: u128)) = unat bps * 10 ^ 14"
    using f by (subst unat_times_fits) simp_all
qed

definition borrow_rate_nat :: "nat \<Rightarrow> nat \<Rightarrow> nat \<Rightarrow> nat \<Rightarrow> nat \<Rightarrow> nat" where
  "borrow_rate_nat util base slope1 slope2 kink =
     (let k = kink * 10 ^ 14; b = base * 10 ^ 14; s1 = slope1 * 10 ^ 14; s2 = slope2 * 10 ^ 14
      in if util \<le> k then b + s1 * util div k
         else b + s1 + s2 * (util - k) div (10 ^ 18 - k))"

lemma kink_wad:
  "checked_mul (widen (kink :: u16)) WAD = Some (widen kink * WAD)"
  "unat ((widen kink * WAD) div BPS_DENOM) = unat kink * 10 ^ 14"
proof -
  have f: "unat (widen kink :: u128) * unat WAD < 2 ^ 128"
    using u16_lt [of kink] by simp
  then show "checked_mul (widen kink) WAD = Some (widen kink * WAD)"
    by (simp add: checked_mul_def)
  have "unat ((widen kink * WAD) div BPS_DENOM) = unat kink * 10 ^ 18 div 10000"
    using f by (simp add: unat_div unat_times_fits)
  also have "\<dots> = unat kink * 10 ^ 14" by simp
  finally show "unat ((widen kink * WAD) div BPS_DENOM) = unat kink * 10 ^ 14" .
qed

lemma mult_frac_le:
  assumes "(x :: nat) \<le> y" shows "s * x div y \<le> s"
proof (cases "y = 0")
  case False
  have "s * x div y \<le> s * y div y" using assms by (intro div_le_mono mult_le_mono2)
  with False show ?thesis by simp
qed simp

lemma unat_bps_wad_le: "unat (widen (b :: u16) * (100000000000000 :: u128)) \<le> 65535 * 10 ^ 14"
  using u16_lt [of b] by (simp add: unat_bps_to_wad)

text \<open>Below the kink the rate grows with the first slope, above it with the second.\<close>

lemma rate_below_kink:
  assumes nz: "widen kink * WAD div BPS_DENOM \<noteq> 0" and le: "util \<le> widen kink * WAD div BPS_DENOM"
  obtains r where "compute_borrow_rate_wad_per_year util base s1 s2 kink = Ok r"
    "unat r = borrow_rate_nat (unat util) (unat base) (unat s1) (unat s2) (unat kink)"
proof -
  let ?k = "(widen kink * WAD) div BPS_DENOM" and ?w = "\<lambda>b :: u16. widen b * (100000000000000 :: u128)"
  have nle: "unat util \<le> unat ?k" using le by (simp add: word_le_nat_alt)
  have fr: "unat (?w s1) * unat util div unat ?k \<le> unat (?w s1)" using nle by (rule mult_frac_le)
  then have "unat (?w s1) * unat util div unat ?k < 2 ^ 128"
    using unat_bps_wad_le [of s1] by (simp del: unat_bps_to_wad)
  with nz obtain inc where inc: "mul_div (?w s1) util ?k = Ok inc" "unat inc = unat (?w s1) * unat util div unat ?k"
    by (rule mul_div_fits)
  have fit: "unat (?w base) + unat inc < 2 ^ 128"
    using fr unat_bps_wad_le [of s1] unat_bps_wad_le [of base] inc(2) by simp
  then have "checked_add (?w base) inc = Some (?w base + inc)" by (simp add: checked_add_def)
  then have "compute_borrow_rate_wad_per_year util base s1 s2 kink = Ok (?w base + inc)"
    using nz le inc(1)
    by (simp add: compute_borrow_rate_wad_per_year_def kink_wad(1) bps_to_wad_Ok Let_def del: and_then_Ok_iff)
  moreover have "unat (?w base + inc) = borrow_rate_nat (unat util) (unat base) (unat s1) (unat s2) (unat kink)"
    using fit nle inc(2) by (simp add: unat_plus_fits borrow_rate_nat_def unat_bps_to_wad kink_wad(2) Let_def)
  ultimately show ?thesis by (rule that)
qed

lemma rate_above_kink:
  assumes nz: "widen kink * WAD div BPS_DENOM \<noteq> 0" and u: "unat util \<le> 10 ^ 18"
    and gt: "widen kink * WAD div BPS_DENOM < util"
  obtains r where "compute_borrow_rate_wad_per_year util base s1 s2 kink = Ok r"
    "unat r = borrow_rate_nat (unat util) (unat base) (unat s1) (unat s2) (unat kink)"
proof -
  let ?k = "(widen kink * WAD) div BPS_DENOM" and ?w = "\<lambda>b :: u16. widen b * (100000000000000 :: u128)"
  let ?a = "util - ?k" and ?sp = "WAD - ?k"
  have ngt: "unat ?k < unat util" using gt by (simp add: word_less_nat_alt)
  have le1: "?k \<le> util" and le2: "?k \<le> WAD" using gt ngt u by (simp_all add: word_le_nat_alt)
  have ua: "unat ?a = unat util - unat ?k" using le1 by (rule unat_sub)
  have us: "unat ?sp = 10 ^ 18 - unat ?k" using le2 by (simp add: unat_sub)
  have spnz: "?sp \<noteq> 0" using us u ngt by (auto simp: word_eq_unat)
  have "unat ?a \<le> unat ?sp" using u ua us by simp
  then have fr: "unat (?w s2) * unat ?a div unat ?sp \<le> unat (?w s2)" by (rule mult_frac_le)
  then have "unat (?w s2) * unat ?a div unat ?sp < 2 ^ 128" using unat_bps_wad_le [of s2] by simp
  with spnz obtain inc where inc: "mul_div (?w s2) ?a ?sp = Ok inc" "unat inc = unat (?w s2) * unat ?a div unat ?sp"
    by (rule mul_div_fits)
  have f1: "unat (?w base) + unat (?w s1) < 2 ^ 128" using unat_bps_wad_le [of base] unat_bps_wad_le [of s1] by simp
  have f2: "unat (?w base + ?w s1) + unat inc < 2 ^ 128"
    using f1 fr unat_bps_wad_le [of base] unat_bps_wad_le [of s1] unat_bps_wad_le [of s2] inc(2) by (simp add: unat_plus_fits)
  have c: "Option.bind (checked_add (?w base) (?w s1)) (\<lambda>v. checked_add v inc) = Some (?w base + ?w s1 + inc)"
    using f1 f2 by (simp add: checked_add_def)
  have "compute_borrow_rate_wad_per_year util base s1 s2 kink = Ok (?w base + ?w s1 + inc)"
    using nz gt inc(1) c
    by (simp add: minus_p_fits [OF le1] minus_p_fits [OF le2] compute_borrow_rate_wad_per_year_def kink_wad(1)
        bps_to_wad_Ok Let_def not_le [symmetric] del: and_then_Ok_iff)
  moreover have "unat (?w base + ?w s1 + inc) = borrow_rate_nat (unat util) (unat base) (unat s1) (unat s2) (unat kink)"
    using f1 f2 ngt inc(2) ua us by (simp add: unat_plus_fits borrow_rate_nat_def unat_bps_to_wad kink_wad(2) Let_def)
  ultimately show ?thesis by (rule that)
qed

lemma compute_borrow_rate_Ok:
  assumes "unat util \<le> 10 ^ 18" and k: "kink \<noteq> 0"
  obtains r where "compute_borrow_rate_wad_per_year util base s1 s2 kink = Ok r"
    "unat r = borrow_rate_nat (unat util) (unat base) (unat s1) (unat s2) (unat kink)"
proof -
  have nz: "(widen kink * WAD) div BPS_DENOM \<noteq> 0" using k kink_wad(2) [of kink] by (auto simp: word_eq_unat)
  show ?thesis
  proof (cases "util \<le> (widen kink * WAD) div BPS_DENOM")
    case True
    with nz obtain r where "compute_borrow_rate_wad_per_year util base s1 s2 kink = Ok r"
      "unat r = borrow_rate_nat (unat util) (unat base) (unat s1) (unat s2) (unat kink)" by (rule rate_below_kink)
    then show ?thesis by (rule that)
  next
    case False
    then have "(widen kink * WAD) div BPS_DENOM < util" by (simp only: not_le)
    with nz assms(1) obtain r where "compute_borrow_rate_wad_per_year util base s1 s2 kink = Ok r"
      "unat r = borrow_rate_nat (unat util) (unat base) (unat s1) (unat s2) (unat kink)" by (rule rate_above_kink)
    then show ?thesis by (rule that)
  qed
qed

definition bump_nat :: "nat \<Rightarrow> nat \<Rightarrow> nat \<Rightarrow> nat" where
  "bump_nat idx rate slots =
     (if 2 ^ 64 * 10 ^ 18 \<le> idx then idx
      else min (2 ^ 64 * 10 ^ 18) (idx + idx * rate * slots div (78840000 * 10 ^ 18)))"

lemma bump_index_wad_eq:
  "unat (bump_index_wad idx rate slots) = bump_nat (unat idx) (unat rate) (unat slots)"
proof (cases "rate = 0 \<or> slots = 0 \<or> INDEX_CAP_WAD \<le> idx")
  case True
  then show ?thesis
    by (auto simp: bump_index_wad_def bump_nat_def word_le_nat_alt)
next
  case False
  let ?d = "78840000 * 10 ^ 18 :: nat"
  let ?n = "unat idx * unat rate * unat slots"
  have cap: "\<not> 2 ^ 64 * 10 ^ 18 \<le> unat idx" using False by (simp add: word_le_nat_alt)
  have denom: "unat (from_u128 (widen SLOTS_PER_YEAR * WAD)) = ?d"
    by (simp add: unat_times_fits)
  let ?p = "from_u128 idx * from_u128 rate"
  have bind: "Option.bind (checked_mul (from_u128 idx) (from_u128 rate))
      (\<lambda>n. checked_mul n (from_u128 (widen slots))) = checked_mul ?p (from_u128 (widen slots))"
    by (simp add: checked_mul_from_u128)
  show ?thesis
  proof (cases "checked_mul ?p (from_u128 (widen slots))")
    case None
    then have "2 ^ 256 \<le> ?n" by (simp add: checked_mul_None_iff)
    then have "2 ^ 256 div ?d \<le> ?n div ?d" by (rule div_le_mono)
    then have "2 ^ 64 * 10 ^ 18 \<le> unat idx + ?n div ?d" by simp
    with None False cap bind show ?thesis
      by (simp add: bump_index_wad_def bump_nat_def min_def)
  next
    case (Some num)
    then have num: "unat num = ?n" by (simp add: checked_mul_Some_iff)
    let ?x = "saturating_add (from_u128 idx) (num div from_u128 (widen SLOTS_PER_YEAR * WAD))"
    have "unat (num div from_u128 (widen SLOTS_PER_YEAR * WAD)) = ?n div ?d"
      using num denom by (simp add: unat_div del: unat_from_u128)
    then have x: "unat ?x = min (unat idx + ?n div ?d) (2 ^ 256 - 1)"
      by (simp add: unat_saturating_add)
    have v: "unat (case to_u128 ?x of Some v \<Rightarrow> min v INDEX_CAP_WAD | None \<Rightarrow> INDEX_CAP_WAD)
        = min (2 ^ 64 * 10 ^ 18) (unat idx + ?n div ?d)"
    proof (cases "to_u128 ?x")
      case None
      then have "2 ^ 128 \<le> unat ?x" by (simp only: to_u128_None_iff)
      also have "\<dots> \<le> unat idx + ?n div ?d" unfolding x by (rule min.cobounded1)
      finally have "min (2 ^ 64 * 10 ^ 18) (unat idx + ?n div ?d) = 2 ^ 64 * 10 ^ 18"
        by (intro min_absorb1) simp
      with None show ?thesis by simp
    next
      case (Some v)
      then have "unat v = unat ?x" by (simp only: to_u128_Some_iff)
      with Some x show ?thesis by (simp add: unat_min_word)
    qed
    with Some False cap bind show ?thesis
      by (simp add: bump_index_wad_def bump_nat_def Let_def)
  qed
qed

lemma bump_nat_mono: "idx \<le> bump_nat idx rate slots"
  by (simp add: bump_nat_def)

lemma bump_nat_cap: "idx \<le> 2 ^ 64 * 10 ^ 18 \<Longrightarrow> bump_nat idx rate slots \<le> 2 ^ 64 * 10 ^ 18"
  by (simp add: bump_nat_def)

lemma ltv_bps_Ok_iff:
  "ltv_bps d c n m = Ok r \<longleftrightarrow>
     unat c * unat m \<noteq> 0 \<and> unat d * 10000 * unat n < 2 ^ 256 \<and>
     unat r = unat d * 10000 * unat n div (unat c * unat m)"
proof -
  let ?x = "from_u128 d * from_u128 BPS_DENOM"
  have x: "unat ?x = unat d * 10000" by simp
  have den0: "from_u128 c * from_u128 m = 0 \<longleftrightarrow> unat c * unat m = 0"
    by (simp only: word_eq_unat unat_mul256 unat_0)
  show ?thesis
  proof (cases "unat d * 10000 * unat n < 2 ^ 256")
    case True
    then have "checked_mul ?x (from_u128 n) = Some (?x * from_u128 n)"
      and "unat (?x * from_u128 n) = unat d * 10000 * unat n"
      by (simp_all add: checked_mul_def unat_times_fits)
    with True den0 show ?thesis
      by (auto simp: ltv_bps_def checked_mul_from_u128 unat_div to_u128_Some_iff)
  next
    case False
    then have "checked_mul ?x (from_u128 n) = None"
      by (simp add: checked_mul_def)
    with False show ?thesis by (auto simp: ltv_bps_def checked_mul_from_u128)
  qed
qed

lemma widen_ratio_WAD_fits:
  "unat (d :: u128) * unat (l :: u16) * 10 ^ 18 < 2 ^ 256"
proof -
  have "unat d * unat l \<le> 2 ^ 128 * 2 ^ 16"
    using u128_lt [of d] u16_lt [of l] by (intro mult_le_mono) simp_all
  then have "unat d * unat l * 10 ^ 18 \<le> 2 ^ 128 * 2 ^ 16 * 10 ^ 18"
    by (rule mult_le_mono1)
  then show ?thesis by simp
qed

lemma recompute_trigger_A_Ok_iff:
  "recompute_trigger CollateralA c d l = Ok (t, dir) \<longleftrightarrow>
     c \<noteq> 0 \<and> d \<noteq> 0 \<and> dir = OnFall \<and> unat t = unat d * unat l * 10 ^ 18 div (unat c * 10000)"
proof -
  let ?n = "from_u128 d * from_u128 (widen l)"
  have "unat ?n * unat WAD_U256 < 2 ^ 256" using widen_ratio_WAD_fits [of d l] by simp
  then have n: "checked_mul ?n WAD_U256 = Some (?n * WAD_U256)"
    "unat (?n * WAD_U256) = unat d * unat l * 10 ^ 18"
    by (simp_all add: checked_mul_def unat_times_fits)
  have c: "from_u128 c * from_u128 BPS_DENOM = 0 \<longleftrightarrow> c = 0"
    by (simp add: word_eq_unat)
  show ?thesis
    by (auto simp: recompute_trigger_def checked_mul_from_u128 n c div_p_def unat_div
        to_u128_Some_iff)
qed

lemma recompute_trigger_B_Ok_iff:
  "recompute_trigger CollateralB c d l = Ok (t, dir) \<longleftrightarrow>
     c \<noteq> 0 \<and> d \<noteq> 0 \<and> l \<noteq> 0 \<and> dir = OnRise \<and>
     unat t = unat c * 10000 * 10 ^ 18 div (unat d * unat l)"
proof -
  let ?n = "from_u128 c * from_u128 BPS_DENOM"
  have "unat c * 10000 * 10 ^ 18 \<le> 2 ^ 128 * 10000 * 10 ^ 18"
    using u128_lt [of c] by (intro mult_le_mono1) simp
  then have "unat ?n * unat WAD_U256 < 2 ^ 256" by simp
  then have n: "checked_mul ?n WAD_U256 = Some (?n * WAD_U256)"
    "unat (?n * WAD_U256) = unat c * 10000 * 10 ^ 18"
    by (simp_all add: checked_mul_def unat_times_fits)
  have "from_u128 d * from_u128 (widen l) = 0 \<longleftrightarrow> d = 0 \<or> l = 0"
    by (simp add: word_eq_unat)
  then show ?thesis
    by (auto simp: recompute_trigger_def checked_mul_from_u128 n div_p_def unat_div
        to_u128_Some_iff)
qed

lemma unat_leading_zeros: "unat (leading_zeros x) = 128 - bit_len (unat x)"
proof -
  have "bit_len (unat x) \<le> 128" using u128_lt [of x] by (rule bit_len_le)
  then show ?thesis unfolding leading_zeros_def by (intro unat_of_nat_eq) simp
qed

lemma band_id_for_trigger_Ok_iff:
  "band_id_for_trigger x = Ok b \<longleftrightarrow> x \<noteq> 0 \<and> unat b = bit_len (unat x) + 4"
proof (cases "x = 0")
  case True
  then show ?thesis by (simp add: band_id_for_trigger_def)
next
  case False
  then have pos: "0 < bit_len (unat x)" by (intro bit_len_pos) (simp add: unat_eq_0_iff [symmetric] neq0_conv)
  have le: "bit_len (unat x) \<le> 128" using u128_lt [of x] by (rule bit_len_le)
  have "(\<exists>(g :: u32) (h :: u32). 127 = unat g + (128 - bit_len (unat x)) \<and> unat h = unat g + 64
          \<and> unat h = unat b + 59) \<longleftrightarrow> unat b = bit_len (unat x) + 4" (is "?l \<longleftrightarrow> ?r")
  proof
    assume ?l then show ?r using pos le by auto
  next
    assume r: ?r
    let ?g = "of_nat (bit_len (unat x) - 1) :: u32"
    have g: "unat ?g = bit_len (unat x) - 1" using le by (intro unat_of_nat_eq) simp
    have h: "unat (?g + 64) = unat ?g + 64" using g le by (simp add: unat_plus_fits)
    have "127 = unat ?g + (128 - bit_len (unat x))" using g pos le by linarith
    moreover have "unat (?g + 64) = unat b + 59" using g h r pos by linarith
    ultimately show ?l using h by blast
  qed
  with False show ?thesis
    by (simp add: band_id_for_trigger_def minus_p_Ok_iff plus_p_Ok_iff unat_leading_zeros)
qed

lemma band_min_wad_Ok_iff:
  assumes "unat b < 2 ^ 31"
  shows "band_min_wad b = Ok m \<longleftrightarrow>
     (if unat b < 5 then m = 0 else unat b < 133 \<and> unat m = 2 ^ (unat b - 5))"
proof -
  have s: "unat (b + LOG2_WAD) = unat b + 59" "plus_p b LOG2_WAD = Ok (b + LOG2_WAD)"
    using assms by (simp_all add: unat_plus_fits plus_p_fits)
  show ?thesis
  proof (cases "unat b < 5")
    case True
    then have "b + LOG2_WAD < BAND_OFFSET" by (simp add: word_less_nat_alt s)
    with True s show ?thesis by (auto simp: band_min_wad_def)
  next
    case False
    then have ge: "\<not> b + LOG2_WAD < BAND_OFFSET" by (simp add: word_less_nat_alt s)
    let ?l = "b + LOG2_WAD - BAND_OFFSET"
    have le: "BAND_OFFSET \<le> b + LOG2_WAD" using ge by simp
    have l: "unat ?l = unat b - 5" using le s by (simp add: unat_sub)
    have p: "unat (push_bit k 1 :: u128) = 2 ^ k" if "k < 128" for k
      by (rule unat_push_bit_1) (simp add: that)
    show ?thesis
    proof (cases "unat b < 133")
      case True
      with l have "\<not> 128 \<le> ?l" by (simp add: word_le_nat_alt)
      with True False ge le l p show ?thesis
        by (simp add: band_min_wad_def s(2) minus_p_fits word_eq_unat [of _ m]) auto
    next
      case nl: False
      with l have "128 \<le> ?l" by (simp add: word_le_nat_alt)
      with nl False ge le show ?thesis
        by (simp add: band_min_wad_def s(2) minus_p_fits)
    qed
  qed
qed

lemma ema_ref_price_wad_Ok:
  obtains r where "ema_ref_price_wad prev spot n = Ok r"
    "unat r =
       (if prev = 0 \<or> 150 \<le> unat n then unat spot
        else if unat prev \<le> unat spot
        then unat prev + (unat spot - unat prev) * unat n div 150
        else unat prev - (unat prev - unat spot) * unat n div 150)"
proof (cases "prev = 0 \<or> 150 \<le> unat n")
  case True
  then have "ema_ref_price_wad prev spot n = Ok spot"
    by (auto simp: ema_ref_price_wad_def word_le_nat_alt)
  with True that show ?thesis by simp
next
  case False
  then have g: "\<not> (prev = 0 \<or> REF_PRICE_WINDOW_SLOTS \<le> n)" by (simp add: word_le_nat_alt)
  have h: "(widen REF_PRICE_WINDOW_SLOTS :: u128) \<noteq> 0" "unat (widen REF_PRICE_WINDOW_SLOTS :: u128) = 150"
    by (simp_all add: word_eq_unat)
  have sc: "x * unat n div 150 \<le> x" for x using False by (intro mult_frac_le) simp
  show ?thesis
  proof (cases "prev \<le> spot")
    case True
    have ugap: "unat (spot - prev) = unat spot - unat prev" using True by (rule unat_sub)
    have "unat (spot - prev) * unat (widen n :: u128) div unat (widen REF_PRICE_WINDOW_SLOTS :: u128) < 2 ^ 128"
      using sc [of "unat (spot - prev)"] u128_lt [of "spot - prev"] by (simp add: h(2))
    with h(1) obtain d where d: "mul_div (spot - prev) (widen n) (widen REF_PRICE_WINDOW_SLOTS) = Ok d"
      "unat d = unat (spot - prev) * unat (widen n :: u128) div unat (widen REF_PRICE_WINDOW_SLOTS :: u128)"
      by (rule mul_div_fits)
    have le: "unat prev \<le> unat spot" using True by (simp add: word_le_nat_alt)
    have ud: "unat d = (unat spot - unat prev) * unat n div 150" using d(2) ugap h(2) by simp
    have fit: "unat prev + unat d < 2 ^ 128"
      using sc [of "unat spot - unat prev"] ud le u128_lt [of spot] by simp
    have "ema_ref_price_wad prev spot n = Ok (prev + d)"
      using g True d(1) fit
      by (simp add: ema_ref_price_wad_def minus_p_fits plus_p_fits Let_def del: and_then_Ok_iff)
    moreover have "unat (prev + d) = unat prev + unat d" using fit by (simp add: unat_plus_fits)
    ultimately show ?thesis using that False le ud by simp
  next
    case gt: False
    then have le': "spot \<le> prev" by simp
    have ugap: "unat (prev - spot) = unat prev - unat spot" using le' by (rule unat_sub)
    have "unat (prev - spot) * unat (widen n :: u128) div unat (widen REF_PRICE_WINDOW_SLOTS :: u128) < 2 ^ 128"
      using sc [of "unat (prev - spot)"] u128_lt [of "prev - spot"] by (simp add: h(2))
    with h(1) obtain d where d: "mul_div (prev - spot) (widen n) (widen REF_PRICE_WINDOW_SLOTS) = Ok d"
      "unat d = unat (prev - spot) * unat (widen n :: u128) div unat (widen REF_PRICE_WINDOW_SLOTS :: u128)"
      by (rule mul_div_fits)
    have ud: "unat d = (unat prev - unat spot) * unat n div 150" using d(2) ugap h(2) by simp
    have dle: "d \<le> prev"
      using sc [of "unat prev - unat spot"] ud by (simp add: word_le_nat_alt)
    have "ema_ref_price_wad prev spot n = Ok (prev - d)"
      using g gt d(1) dle le'
      by (simp add: ema_ref_price_wad_def minus_p_fits Let_def del: and_then_Ok_iff)
    moreover have "unat (prev - d) = unat prev - unat d" using dle by (rule unat_sub)
    ultimately show ?thesis using that False gt ud by (simp add: word_le_nat_alt)
  qed
qed

section \<open>Newton's method\<close>

text \<open>One Newton step from any positive \<open>x\<close> stays above the root (the inequality
  between the arithmetic and the geometric mean).\<close>

lemma newton_upper:
  fixes n x :: nat
  assumes "0 < x"
  defines "y \<equiv> (x + n div x) div 2"
  shows "n < (y + 1) * (y + 1)"
proof -
  let ?q = "n div x"
  have n: "n < x * (?q + 1)" using assms(1) by (simp add: dividend_less_times_div)
  have half: "z + 1 \<le> 2 * (z div 2 + 1)" for z :: nat by arith
  have "x + ?q + 1 \<le> 2 * (y + 1)" unfolding y_def by (rule half)
  then have "(x + ?q + 1) * (x + ?q + 1) \<le> (2 * (y + 1)) * (2 * (y + 1))"
    by (intro mult_le_mono)
  moreover have "4 * (x * (?q + 1)) \<le> (x + (?q + 1)) * (x + (?q + 1))"
  proof -
    have "4 * (int x * int (?q + 1)) \<le> (int x + int (?q + 1)) * (int x + int (?q + 1))"
      using zero_le_square [of "int x - int (?q + 1)"] by (simp add: algebra_simps)
    then show ?thesis by (metis of_nat_add of_nat_mult of_nat_numeral zle_int)
  qed
  ultimately have "4 * (x * (?q + 1)) \<le> 4 * ((y + 1) * (y + 1))"
    by (simp add: algebra_simps)
  with n show ?thesis by linarith
qed

lemma newton_stop:
  fixes n x :: nat
  assumes "0 < x" "x \<le> (x + n div x) div 2"
  shows "x * x \<le> n"
proof -
  have half: "z div 2 * 2 \<le> z" for z :: nat by simp
  from assms(2) have "x \<le> n div x" using half [of "x + n div x"] by linarith
  then show ?thesis using assms(1) by (simp add: le_div_iff_mult_le)
qed

lemma isqrt_loop_correct:
  "n \<noteq> 0 \<Longrightarrow> x \<noteq> 0 \<Longrightarrow> unat x \<le> 2 ^ 64 \<Longrightarrow> unat n < (unat x + 1) * (unat x + 1) \<Longrightarrow>
   \<exists>r. isqrt_loop n x = Ok r \<and> unat r * unat r \<le> unat n \<and> unat n < (unat r + 1) * (unat r + 1)"
proof (induction "unat x" arbitrary: x rule: less_induct)
  case less
  have x0: "0 < unat x" and n0: "0 < unat n"
    using less.prems(1,2) by (simp_all add: unat_eq_0_iff [symmetric] neq0_conv)
  let ?q = "n div x" and ?y = "(x + n div x) div 2"
  have uq: "unat ?q = unat n div unat x" by (simp add: unat_div)
  have "unat n \<le> (unat x + 2) * unat x" using less.prems(4) by (simp add: algebra_simps)
  then have "unat n div unat x \<le> (unat x + 2) * unat x div unat x" by (rule div_le_mono)
  then have "unat n div unat x \<le> unat x + 2" using x0 by simp
  then have fit: "unat x + unat ?q < 2 ^ 128" using less.prems(3) uq by simp
  then have uy: "unat ?y = (unat x + unat n div unat x) div 2"
    by (simp add: unat_div unat_plus_fits)
  have step: "isqrt_loop n x = (if x \<le> ?y then Ok x else isqrt_loop n ?y)"
    using less.prems(2) fit
    by (subst isqrt_loop.simps) (simp add: div_p_def plus_p_fits Let_def)
  show ?case
  proof (cases "x \<le> ?y")
    case True
    then have "unat x \<le> (unat x + unat n div unat x) div 2" by (simp add: word_le_nat_alt uy)
    with x0 have "unat x * unat x \<le> unat n" by (rule newton_stop)
    with True step less.prems(4) show ?thesis by simp
  next
    case False
    then have lt: "unat ?y < unat x" by (simp add: word_less_nat_alt not_le)
    have up: "unat n < (unat ?y + 1) * (unat ?y + 1)"
      using newton_upper [OF x0, of "unat n"] uy by simp
    have "unat ?y \<noteq> 0"
    proof
      assume "unat ?y = 0"
      with up n0 show False by simp
    qed
    then have y0: "?y \<noteq> 0" by (simp add: word_eq_unat)
    have "unat ?y \<le> 2 ^ 64" using lt less.prems(3) by simp
    with less.hyps [OF lt less.prems(1) y0] up False step show ?thesis by simp
  qed
qed

lemma isqrt_u128_Ok:
  obtains r where "isqrt_u128 n = Ok r"
    "unat r * unat r \<le> unat n" "unat n < (unat r + 1) * (unat r + 1)"
proof (cases "n = 0")
  case True
  then show ?thesis using that by (simp add: isqrt_u128_def)
next
  case False
  let ?b = "bit_len (unat n)"
  let ?k = "(?b + 1) div 2"
  have b: "?b \<le> 128" using u128_lt [of n] by (rule bit_len_le)
  then have k: "?k \<le> 64" by simp
  have bits: "128 - unat (leading_zeros n) = ?b" using b by (simp add: unat_leading_zeros)
  have x: "unat (push_bit ?k 1 :: u128) = 2 ^ ?k" by (rule unat_push_bit_1) (use k in simp)
  have x64: "unat (push_bit ?k 1 :: u128) \<le> 2 ^ 64"
    unfolding x using k by (intro power_increasing) simp_all
  have x0: "(push_bit ?k 1 :: u128) \<noteq> 0"
    using x by (metis power_not_zero unat_0 zero_neq_numeral)
  have "unat n < 2 ^ ?b" by (rule bit_len_upper)
  also have "\<dots> \<le> 2 ^ (?k + ?k)" by (intro power_increasing) simp_all
  also have "\<dots> = (2 ^ ?k) * (2 ^ ?k)" by (rule power_add)
  also have "\<dots> \<le> (2 ^ ?k + 1) * (2 ^ ?k + 1)" by (intro mult_le_mono) simp_all
  finally have "unat n < (unat (push_bit ?k 1 :: u128) + 1) * (unat (push_bit ?k 1 :: u128) + 1)"
    unfolding x .
  from isqrt_loop_correct [OF False x0 x64 this]
  obtain r where "isqrt_loop n (push_bit ?k 1) = Ok r"
    "unat r * unat r \<le> unat n" "unat n < (unat r + 1) * (unat r + 1)" by blast
  moreover have "isqrt_u128 n = isqrt_loop n (push_bit ?k 1)"
    using False by (simp only: isqrt_u128_def bits Let_def if_False)
  ultimately show ?thesis using that by simp
qed

end
