(* ===== verification/Borsh.thy ===== *)
theory Borsh
  imports Errors "HOL-Library.Monad_Syntax"
begin

text \<open>
  The byte layout the \<open>#[derive(BorshSerialize, BorshDeserialize)]\<close> attributes of
  \<open>state.rs\<close>, \<open>events.rs\<close> and \<open>lib.rs\<close> give the program's data:
  fixed-width integers little-endian, arrays and structs as the concatenation of their
  parts, a public key as its 32 bytes. A writer returns the bytes, a reader takes bytes from
  the front and returns the value with the rest; for each writer the reader is shown to be
  its inverse in both directions.
\<close>

section \<open>Numbers as little-endian bytes\<close>

primrec le_bytes :: "nat \<Rightarrow> nat \<Rightarrow> bytes" where
  "le_bytes 0 k = []"
| "le_bytes (Suc n) k = of_nat (k mod 256) # le_bytes n (k div 256)"

primrec le_nat :: "bytes \<Rightarrow> nat" where
  "le_nat [] = 0"
| "le_nat (b # bs) = unat b + 256 * le_nat bs"

lemma length_le_bytes [simp]: "length (le_bytes n k) = n"
  by (induction n arbitrary: k) simp_all

lemma le_nat_le_bytes: "le_nat (le_bytes n k) = k mod 256 ^ n"
proof (induction n arbitrary: k)
  case (Suc n)
  have "unat (of_nat (k mod 256) :: u8) = k mod 256"
    by (rule unat_of_nat_eq) simp
  then show ?case using Suc by (simp add: mod_mult2_eq)
qed simp

lemma le_nat_less: "le_nat bs < 256 ^ length bs"
proof (induction bs)
  case (Cons b bs)
  have "unat b < 256" using unat_lt [of b] by simp
  with Cons show ?case by simp
qed simp

lemma le_bytes_le_nat: "le_bytes (length bs) (le_nat bs) = bs"
proof (induction bs)
  case (Cons b bs)
  have b: "unat b < 256" using unat_lt [of b] by simp
  then have "(unat b + 256 * le_nat bs) mod 256 = unat b"
    and "(unat b + 256 * le_nat bs) div 256 = le_nat bs" by simp_all
  with Cons show ?case by simp
qed simp

section \<open>Writers and readers\<close>

definition put_word :: "nat \<Rightarrow> 'a::len word \<Rightarrow> bytes" where
  "put_word n x = le_bytes n (unat x)"

definition put_key :: "pubkey \<Rightarrow> bytes" where
  "put_key k = rev (le_bytes 32 (unat k))"

definition put_bool :: "bool \<Rightarrow> bytes" where
  "put_bool b = [if b then 1 else 0]"

definition get_bytes :: "nat \<Rightarrow> bytes \<Rightarrow> (bytes \<times> bytes) option" where
  "get_bytes n bs = (if length bs < n then None else Some (take n bs, drop n bs))"

definition get_word :: "nat \<Rightarrow> bytes \<Rightarrow> ('a::len word \<times> bytes) option" where
  "get_word n bs = do { (x, r) \<leftarrow> get_bytes n bs; Some (of_nat (le_nat x), r) }"

definition get_key :: "bytes \<Rightarrow> (pubkey \<times> bytes) option" where
  "get_key bs = do { (x, r) \<leftarrow> get_bytes 32 bs; Some (of_nat (le_nat (rev x)), r) }"

definition get_bool :: "bytes \<Rightarrow> (bool \<times> bytes) option" where
  "get_bool bs = do { (x, r) \<leftarrow> get_bytes 1 bs;
     if x = [0] then Some (False, r) else if x = [1] then Some (True, r) else None }"

text \<open>\<open>T::try_from_slice\<close> succeeds only when the value uses up the whole slice.\<close>

definition from_slice :: "(bytes \<Rightarrow> ('a \<times> bytes) option) \<Rightarrow> bytes \<Rightarrow> 'a option" where
  "from_slice get bs = (case get bs of Some (x, []) \<Rightarrow> Some x | _ \<Rightarrow> None)"

text \<open>\<open>x.serialize(&mut &mut data[..])\<close> overwrites the front of the account data; the
  write fails when the data is shorter than the encoding.\<close>

definition write_slice :: "bytes \<Rightarrow> bytes \<Rightarrow> (bytes, program_error) res" where
  "write_slice enc bs =
     (if length bs < length enc then Err PE_BorshIoError
      else Ok (enc @ drop (length enc) bs))"

section \<open>Laws\<close>

lemma length_put [simp]:
  "length (put_word n x) = n" "length (put_key k) = 32" "length (put_bool b) = 1"
  by (simp_all add: put_word_def put_key_def put_bool_def)

lemma get_bytes_append [simp]: "length x = n \<Longrightarrow> get_bytes n (x @ r) = Some (x, r)"
  by (simp add: get_bytes_def)

lemma get_bytes_Some:
  "get_bytes n bs = Some (x, r) \<longleftrightarrow> bs = x @ r \<and> length x = n"
  by (auto simp: get_bytes_def)

lemma get_word_put [simp]:
  assumes "LENGTH('a) = 8 * n"
  shows "get_word n (put_word n x @ r) = Some (x :: 'a::len word, r)"
proof -
  have "(256 :: nat) ^ n = 2 ^ LENGTH('a)" by (simp add: assms power_mult)
  then have "unat x mod 256 ^ n = unat x" using unat_lt [of x] by simp
  then show ?thesis by (simp add: get_word_def put_word_def le_nat_le_bytes)
qed

lemma get_word_Some:
  assumes "LENGTH('a) = 8 * n" "get_word n bs = Some (x :: 'a::len word, r)"
  shows "bs = put_word n x @ r"
proof -
  from assms(2) obtain y where y: "bs = y @ r" "length y = n" "x = of_nat (le_nat y)"
    by (auto simp: get_word_def get_bytes_Some bind_eq_Some_conv)
  have "(256 :: nat) ^ n = 2 ^ LENGTH('a)" by (simp add: assms(1) power_mult)
  then have "unat x = le_nat y" using le_nat_less [of y] y by (simp add: unat_of_nat_eq)
  with y show ?thesis using le_bytes_le_nat [of y] by (simp add: put_word_def)
qed

lemma get_key_put [simp]: "get_key (put_key k @ r) = Some (k, r)"
proof -
  have "unat k mod 256 ^ 32 = unat k" using unat_lt [of k] by simp
  then show ?thesis by (simp add: get_key_def put_key_def le_nat_le_bytes)
qed

lemma get_key_Some:
  assumes "get_key bs = Some (k, r)" shows "bs = put_key k @ r"
proof -
  from assms obtain y where y: "bs = y @ r" "length y = 32" "k = of_nat (le_nat (rev y))"
    by (auto simp: get_key_def get_bytes_Some bind_eq_Some_conv)
  have "unat k = le_nat (rev y)" using le_nat_less [of "rev y"] y by (simp add: unat_of_nat_eq)
  with y show ?thesis using le_bytes_le_nat [of "rev y"] by (simp add: put_key_def)
qed

lemma get_bool_put [simp]: "get_bool (put_bool b @ r) = Some (b, r)"
  by (simp add: get_bool_def put_bool_def get_bytes_def)

lemma from_slice_put:
  "(\<And>r. get (enc @ r) = Some (x, r)) \<Longrightarrow> from_slice get enc = Some x"
  by (metis append_Nil2 from_slice_def option.case(2) list.case(1) old.prod.case)

lemma from_slice_Some: "from_slice get bs = Some x \<longleftrightarrow> get bs = Some (x, [])"
  by (auto simp: from_slice_def split: option.splits list.splits)

lemma write_slice_Ok_iff [simp]:
  "write_slice enc bs = Ok bs' \<longleftrightarrow> length enc \<le> length bs \<and> bs' = enc @ drop (length enc) bs"
  by (auto simp: write_slice_def)

lemma write_slice_exact: "length bs = length enc \<Longrightarrow> write_slice enc bs = Ok enc"
  by simp

section \<open>The contract of an account codec\<close>

text \<open>What the handlers rely on of an account type: decoding accepts exactly the encodings of
  well-formed values, and these have one fixed length, so a value can be overwritten in
  place.\<close>

locale codec =
  fixes enc :: "'a \<Rightarrow> bytes"
    and dec :: "bytes \<Rightarrow> 'a option"
    and wf :: "'a \<Rightarrow> bool"
    and len :: nat
  assumes dec_iff: "dec bs = Some x \<longleftrightarrow> wf x \<and> bs = enc x"
    and enc_length: "wf x \<Longrightarrow> length (enc x) = len"
begin

lemma dec_enc: "wf x \<Longrightarrow> dec (enc x) = Some x"
  by (simp add: dec_iff)

lemma enc_inject: "wf x \<Longrightarrow> wf y \<Longrightarrow> enc x = enc y \<longleftrightarrow> x = y"
  by (metis dec_enc option.inject)

lemma dec_length: "dec bs = Some x \<Longrightarrow> length bs = len"
  by (auto simp: dec_iff enc_length)

lemma dec_wrong_length: "length bs \<noteq> len \<Longrightarrow> dec bs = None"
  using dec_length by (cases "dec bs") auto

lemma overwrite: "dec bs = Some x \<Longrightarrow> wf y \<Longrightarrow> write_slice (enc y) bs = Ok (enc y)"
  by (auto simp: dec_iff enc_length)

lemma dec_overwrite:
  "dec bs = Some x \<Longrightarrow> wf y \<Longrightarrow> write_slice (enc y) bs = Ok bs' \<Longrightarrow> dec bs' = Some y"
  by (metis dec_enc overwrite res.inject(1))

end

end
