(* ===== verification/Pool_State.thy ===== *)
theory Pool_State
  imports Fixed_Math Borsh
begin

text \<open>
  \<open>state.rs\<close>: the three account types (\<open>Pool\<close>, \<open>Loan\<close>,
  \<open>LoanIndexBand\<close>) with their byte layout, the reserve accounting of a pool, the lazy
  interest indexes, the reference price, and the 128-bit band-presence bitmaps. A fixed-size
  array is a list of bytes; the predicates \<open>pool_wf\<close>, \<open>loan_wf\<close> and
  \<open>loan_index_band_wf\<close> say that every array has its declared size, which decoding
  guarantees. A field of a struct that shares its name with another struct's carries the
  struct's name as a prefix.
\<close>

unbundle bit_operations_syntax

section \<open>Constants\<close>

definition POOL_SEED :: bytes where "POOL_SEED = [112, 111, 111, 108]"
definition VAULT_A_SEED :: bytes where "VAULT_A_SEED = [118, 97, 117, 108, 116, 95, 97]"
definition VAULT_B_SEED :: bytes where "VAULT_B_SEED = [118, 97, 117, 108, 116, 95, 98]"
definition LP_MINT_SEED :: bytes where "LP_MINT_SEED = [108, 112, 95, 109, 105, 110, 116]"
definition LOAN_SEED :: bytes where "LOAN_SEED = [108, 111, 97, 110]"
definition BAND_SEED :: bytes where "BAND_SEED = [98, 97, 110, 100]"

definition POOL_DISCRIMINATOR :: bytes where
  "POOL_DISCRIMINATOR = [0xa1, 0xc4, 0xe7, 0x12, 0x3b, 0x8f, 0xd5, 0x6e]"
definition LOAN_DISCRIMINATOR :: bytes where
  "LOAN_DISCRIMINATOR = [0xb2, 0x7e, 0x3c, 0xa0, 0x91, 0x4d, 0x8e, 0x55]"
definition LOAN_INDEX_BAND_DISCRIMINATOR :: bytes where
  "LOAN_INDEX_BAND_DISCRIMINATOR = [0xd4, 0x95, 0x3a, 0x71, 0x68, 0x2e, 0xc1, 0x88]"

definition SPL_TOKEN_PROGRAM_ID :: pubkey where
  "SPL_TOKEN_PROGRAM_ID = 0x06ddf6e1d765a193d9cbe146ceeb79ac1cb485ed5f5b37913a8cf5857eff00a9"

text \<open>\<open>CurveKind::Cpmm as u8\<close>, the only curve.\<close>

datatype curve_kind_t = Cpmm

fun curve_kind_byte :: "curve_kind_t \<Rightarrow> u8" where
  "curve_kind_byte Cpmm = 0"

section \<open>Pool\<close>

record pool =
  pool_discriminator :: bytes
  mint_a :: pubkey
  mint_b :: pubkey
  vault_a :: pubkey
  vault_b :: pubkey
  lp_mint :: pubkey
  authority :: pubkey
  pool_bump :: u8
  vault_a_bump :: u8
  vault_b_bump :: u8
  lp_mint_bump :: u8
  total_debt_a :: u128
  total_debt_b :: u128
  total_collateral_a :: u128
  total_collateral_b :: u128
  curve_kind :: u8
  swap_fee_bps :: u16
  protocol_fee_bps :: u16
  curve_pad :: bytes
  liq_ratio_bps :: u16
  max_ltv_bps :: u16
  lending_pad :: bytes
  interest_base_bps_per_year :: u16
  interest_slope1_bps_per_year :: u16
  interest_slope2_bps_per_year :: u16
  interest_kink_bps :: u16
  borrow_index_a_wad :: u128
  borrow_index_b_wad :: u128
  last_index_update_slot :: u64
  open_loans :: u64
  next_loan_nonce :: u64
  last_update_slot :: u64
  protocol_fees_a :: u64
  protocol_fees_b :: u64
  band_bitmap_fall :: bytes
  band_bitmap_rise :: bytes
  ref_price_wad :: u128
  ref_price_slot :: u64
  pool_reserved :: bytes

definition POOL_LEN :: nat where
  "POOL_LEN = 8 + 32 * 6 + 4 + 16 * 4 + (1 + 2 + 2 + 3) + (2 * 2 + 2) + 2 * 4 + (16 * 2 + 8)
     + 8 * 3 + 8 * 2 + 16 * 2 + (16 + 8) + 8"

definition pool_bytes :: "pool \<Rightarrow> bytes" where
  "pool_bytes p =
     pool_discriminator p @
     put_key (mint_a p) @
     put_key (mint_b p) @
     put_key (vault_a p) @
     put_key (vault_b p) @
     put_key (lp_mint p) @
     put_key (authority p) @
     put_word 1 (pool_bump p) @
     put_word 1 (vault_a_bump p) @
     put_word 1 (vault_b_bump p) @
     put_word 1 (lp_mint_bump p) @
     put_word 16 (total_debt_a p) @
     put_word 16 (total_debt_b p) @
     put_word 16 (total_collateral_a p) @
     put_word 16 (total_collateral_b p) @
     put_word 1 (curve_kind p) @
     put_word 2 (swap_fee_bps p) @
     put_word 2 (protocol_fee_bps p) @
     curve_pad p @
     put_word 2 (liq_ratio_bps p) @
     put_word 2 (max_ltv_bps p) @
     lending_pad p @
     put_word 2 (interest_base_bps_per_year p) @
     put_word 2 (interest_slope1_bps_per_year p) @
     put_word 2 (interest_slope2_bps_per_year p) @
     put_word 2 (interest_kink_bps p) @
     put_word 16 (borrow_index_a_wad p) @
     put_word 16 (borrow_index_b_wad p) @
     put_word 8 (last_index_update_slot p) @
     put_word 8 (open_loans p) @
     put_word 8 (next_loan_nonce p) @
     put_word 8 (last_update_slot p) @
     put_word 8 (protocol_fees_a p) @
     put_word 8 (protocol_fees_b p) @
     band_bitmap_fall p @
     band_bitmap_rise p @
     put_word 16 (ref_price_wad p) @
     put_word 8 (ref_price_slot p) @
     pool_reserved p"

definition get_pool :: "bytes \<Rightarrow> (pool \<times> bytes) option" where
  "get_pool bs = do {
     (x0, bs) \<leftarrow> get_bytes 8 bs;
     (x1, bs) \<leftarrow> get_key bs;
     (x2, bs) \<leftarrow> get_key bs;
     (x3, bs) \<leftarrow> get_key bs;
     (x4, bs) \<leftarrow> get_key bs;
     (x5, bs) \<leftarrow> get_key bs;
     (x6, bs) \<leftarrow> get_key bs;
     (x7, bs) \<leftarrow> get_word 1 bs;
     (x8, bs) \<leftarrow> get_word 1 bs;
     (x9, bs) \<leftarrow> get_word 1 bs;
     (x10, bs) \<leftarrow> get_word 1 bs;
     (x11, bs) \<leftarrow> get_word 16 bs;
     (x12, bs) \<leftarrow> get_word 16 bs;
     (x13, bs) \<leftarrow> get_word 16 bs;
     (x14, bs) \<leftarrow> get_word 16 bs;
     (x15, bs) \<leftarrow> get_word 1 bs;
     (x16, bs) \<leftarrow> get_word 2 bs;
     (x17, bs) \<leftarrow> get_word 2 bs;
     (x18, bs) \<leftarrow> get_bytes 3 bs;
     (x19, bs) \<leftarrow> get_word 2 bs;
     (x20, bs) \<leftarrow> get_word 2 bs;
     (x21, bs) \<leftarrow> get_bytes 2 bs;
     (x22, bs) \<leftarrow> get_word 2 bs;
     (x23, bs) \<leftarrow> get_word 2 bs;
     (x24, bs) \<leftarrow> get_word 2 bs;
     (x25, bs) \<leftarrow> get_word 2 bs;
     (x26, bs) \<leftarrow> get_word 16 bs;
     (x27, bs) \<leftarrow> get_word 16 bs;
     (x28, bs) \<leftarrow> get_word 8 bs;
     (x29, bs) \<leftarrow> get_word 8 bs;
     (x30, bs) \<leftarrow> get_word 8 bs;
     (x31, bs) \<leftarrow> get_word 8 bs;
     (x32, bs) \<leftarrow> get_word 8 bs;
     (x33, bs) \<leftarrow> get_word 8 bs;
     (x34, bs) \<leftarrow> get_bytes 16 bs;
     (x35, bs) \<leftarrow> get_bytes 16 bs;
     (x36, bs) \<leftarrow> get_word 16 bs;
     (x37, bs) \<leftarrow> get_word 8 bs;
     (x38, bs) \<leftarrow> get_bytes 8 bs;
     Some (\<lparr>pool_discriminator = x0,
       mint_a = x1,
       mint_b = x2,
       vault_a = x3,
       vault_b = x4,
       lp_mint = x5,
       authority = x6,
       pool_bump = x7,
       vault_a_bump = x8,
       vault_b_bump = x9,
       lp_mint_bump = x10,
       total_debt_a = x11,
       total_debt_b = x12,
       total_collateral_a = x13,
       total_collateral_b = x14,
       curve_kind = x15,
       swap_fee_bps = x16,
       protocol_fee_bps = x17,
       curve_pad = x18,
       liq_ratio_bps = x19,
       max_ltv_bps = x20,
       lending_pad = x21,
       interest_base_bps_per_year = x22,
       interest_slope1_bps_per_year = x23,
       interest_slope2_bps_per_year = x24,
       interest_kink_bps = x25,
       borrow_index_a_wad = x26,
       borrow_index_b_wad = x27,
       last_index_update_slot = x28,
       open_loans = x29,
       next_loan_nonce = x30,
       last_update_slot = x31,
       protocol_fees_a = x32,
       protocol_fees_b = x33,
       band_bitmap_fall = x34,
       band_bitmap_rise = x35,
       ref_price_wad = x36,
       ref_price_slot = x37,
       pool_reserved = x38\<rparr>, bs) }"

definition pool_wf :: "pool \<Rightarrow> bool" where
  "pool_wf p \<longleftrightarrow>
     length (pool_discriminator p) = 8 \<and>
     length (curve_pad p) = 3 \<and>
     length (lending_pad p) = 2 \<and>
     length (band_bitmap_fall p) = 16 \<and>
     length (band_bitmap_rise p) = 16 \<and>
     length (pool_reserved p) = 8"

definition pool_try_from_slice :: "bytes \<Rightarrow> pool option" where
  "pool_try_from_slice bs = from_slice get_pool bs"

definition pool_is_initialized :: "pool \<Rightarrow> bool" where
  "pool_is_initialized p \<longleftrightarrow> pool_discriminator p = POOL_DISCRIMINATOR"

definition is_authority_renounced :: "pool \<Rightarrow> bool" where
  "is_authority_renounced p \<longleftrightarrow> authority p = 0"

definition swappable :: "pool \<Rightarrow> u128 \<Rightarrow> u128 \<Rightarrow> (u128 \<times> u128, liquidity_error) res" where
  "swappable p real_a real_b =
     and_then (ok_or (checked_sub real_a (total_collateral_a p)) MathUnderflow) (\<lambda>a1.
     and_then (ok_or (checked_sub a1 (widen (protocol_fees_a p))) MathUnderflow) (\<lambda>a.
     and_then (ok_or (checked_sub real_b (total_collateral_b p)) MathUnderflow) (\<lambda>b1.
     and_then (ok_or (checked_sub b1 (widen (protocol_fees_b p))) MathUnderflow) (\<lambda>b.
     Ok (a, b)))))"

definition accounted :: "pool \<Rightarrow> u128 \<Rightarrow> u128 \<Rightarrow> (u128 \<times> u128, liquidity_error) res" where
  "accounted p real_a real_b =
     and_then (swappable p real_a real_b) (\<lambda>(s_a, s_b).
     and_then (ok_or (checked_add s_a (total_debt_a p)) MathOverflow) (\<lambda>a.
     and_then (ok_or (checked_add s_b (total_debt_b p)) MathOverflow) (\<lambda>b.
     Ok (a, b))))"

definition ref_price_at :: "pool \<Rightarrow> u128 \<Rightarrow> u64 \<Rightarrow> (u128, liquidity_error) res" where
  "ref_price_at p spot_wad slot =
     (if ref_price_wad p \<noteq> 0 \<and> slot = ref_price_slot p then Ok (ref_price_wad p)
      else ema_ref_price_wad (ref_price_wad p) spot_wad
             (saturating_sub slot (ref_price_slot p)))"

definition band_bitmap :: "pool \<Rightarrow> u8 \<Rightarrow> (bytes, liquidity_error) res" where
  "band_bitmap p dir_byte =
     (if dir_byte = 0 then Ok (band_bitmap_fall p)
      else if dir_byte = 1 then Ok (band_bitmap_rise p)
      else Err InvalidSidesEncoding)"

text \<open>Writing through the reference \<open>band_bitmap_mut\<close> returns: the selected bitmap is
  replaced by what \<open>f\<close> makes of it.\<close>

definition band_bitmap_mut ::
  "pool \<Rightarrow> u8 \<Rightarrow> (bytes \<Rightarrow> (bytes, liquidity_error) res) \<Rightarrow> (pool, liquidity_error) res" where
  "band_bitmap_mut p dir_byte f =
     (if dir_byte = 0 then
        and_then (f (band_bitmap_fall p)) (\<lambda>bm. Ok (p\<lparr>band_bitmap_fall := bm\<rparr>))
      else if dir_byte = 1 then
        and_then (f (band_bitmap_rise p)) (\<lambda>bm. Ok (p\<lparr>band_bitmap_rise := bm\<rparr>))
      else Err InvalidSidesEncoding)"

definition pool_borrow_rate :: "pool \<Rightarrow> u128 \<Rightarrow> (u128, liquidity_error) res" where
  "pool_borrow_rate p util =
     compute_borrow_rate_wad_per_year util
       (interest_base_bps_per_year p) (interest_slope1_bps_per_year p)
       (interest_slope2_bps_per_year p) (interest_kink_bps p)"

definition bump_indexes :: "pool \<Rightarrow> u128 \<Rightarrow> u128 \<Rightarrow> u64 \<Rightarrow> (pool, liquidity_error) res" where
  "bump_indexes p real_a real_b current_slot =
     (let slots_elapsed = saturating_sub current_slot (last_index_update_slot p) in
      if slots_elapsed = 0 then Ok p
      else
      and_then (accounted p real_a real_b) (\<lambda>(acc_a, acc_b).
      let util_a = utilization_wad (total_debt_a p) acc_a;
          util_b = utilization_wad (total_debt_b p) acc_b in
      and_then (pool_borrow_rate p util_a) (\<lambda>rate_a.
      and_then (pool_borrow_rate p util_b) (\<lambda>rate_b.
      Ok (p\<lparr>borrow_index_a_wad := bump_index_wad (borrow_index_a_wad p) rate_a slots_elapsed,
            borrow_index_b_wad := bump_index_wad (borrow_index_b_wad p) rate_b slots_elapsed,
            last_index_update_slot := current_slot\<rparr>)))))"

definition borrow_index_for_debt_side :: "pool \<Rightarrow> u8 \<Rightarrow> (u128, liquidity_error) res" where
  "borrow_index_for_debt_side p sides_byte =
     (if sides_byte = 0 then Ok (borrow_index_b_wad p)
      else if sides_byte = 1 then Ok (borrow_index_a_wad p)
      else Err InvalidSidesEncoding)"

section \<open>Band-presence bitmap\<close>

definition MAX_BAND_ID :: u32 where "MAX_BAND_ID = 127"

definition bitmap_set :: "bytes \<Rightarrow> u32 \<Rightarrow> (bytes, liquidity_error) res" where
  "bitmap_set bitmap band_id =
     (if MAX_BAND_ID < band_id then Err SettingExceedsMaximum
      else let byte = unat (band_id div 8); bit_no = unat (band_id mod 8)
           in Ok (bitmap[byte := bitmap ! byte OR push_bit bit_no 1]))"

definition bitmap_clear :: "bytes \<Rightarrow> u32 \<Rightarrow> (bytes, liquidity_error) res" where
  "bitmap_clear bitmap band_id =
     (if MAX_BAND_ID < band_id then Err SettingExceedsMaximum
      else let byte = unat (band_id div 8); bit_no = unat (band_id mod 8)
           in Ok (bitmap[byte := bitmap ! byte AND NOT (push_bit bit_no 1)]))"

definition bitmap_is_set :: "bytes \<Rightarrow> u32 \<Rightarrow> bool" where
  "bitmap_is_set bitmap band_id =
     (if MAX_BAND_ID < band_id then False
      else let byte = unat (band_id div 8); bit_no = unat (band_id mod 8)
           in bitmap ! byte AND push_bit bit_no 1 \<noteq> 0)"

definition bitmap_iter_set_range :: "bytes \<Rightarrow> u32 \<Rightarrow> u32 \<Rightarrow> u32 list" where
  "bitmap_iter_set_range bitmap lo hi =
     (let hi = min hi MAX_BAND_ID
      in filter (bitmap_is_set bitmap) (map of_nat [unat lo ..< Suc (unat hi)]))"

section \<open>Loan\<close>

record loan =
  loan_discriminator :: bytes
  loan_pool :: pubkey
  loan_borrower :: pubkey
  loan_nonce :: u64
  loan_bump :: u8
  loan_sides :: u8
  loan_collateral_amount :: u128
  loan_debt_principal :: u128
  loan_borrow_index_snapshot_wad :: u128
  loan_last_touch_slot :: u64
  loan_trigger_price_wad :: u128
  loan_trigger_direction :: u8
  loan_status :: u8
  loan_status_pad :: bytes
  loan_band_id :: u32
  loan_opened_slot :: u64
  loan_closed_slot :: u64
  loan_reserved :: bytes

definition LOAN_LEN :: nat where
  "LOAN_LEN = 8 + 32 * 2 + 8 + 1 + 1 + 16 * 3 + 8 + 16 + 1 + (1 + 6) + 4 + 8 * 2 + 28"

definition STATUS_OPEN :: u8 where "STATUS_OPEN = 0"
definition STATUS_REPAID :: u8 where "STATUS_REPAID = 1"
definition STATUS_LIQUIDATED :: u8 where "STATUS_LIQUIDATED = 2"

definition loan_bytes :: "loan \<Rightarrow> bytes" where
  "loan_bytes l =
     loan_discriminator l @
     put_key (loan_pool l) @
     put_key (loan_borrower l) @
     put_word 8 (loan_nonce l) @
     put_word 1 (loan_bump l) @
     put_word 1 (loan_sides l) @
     put_word 16 (loan_collateral_amount l) @
     put_word 16 (loan_debt_principal l) @
     put_word 16 (loan_borrow_index_snapshot_wad l) @
     put_word 8 (loan_last_touch_slot l) @
     put_word 16 (loan_trigger_price_wad l) @
     put_word 1 (loan_trigger_direction l) @
     put_word 1 (loan_status l) @
     loan_status_pad l @
     put_word 4 (loan_band_id l) @
     put_word 8 (loan_opened_slot l) @
     put_word 8 (loan_closed_slot l) @
     loan_reserved l"

definition get_loan :: "bytes \<Rightarrow> (loan \<times> bytes) option" where
  "get_loan bs = do {
     (x0, bs) \<leftarrow> get_bytes 8 bs;
     (x1, bs) \<leftarrow> get_key bs;
     (x2, bs) \<leftarrow> get_key bs;
     (x3, bs) \<leftarrow> get_word 8 bs;
     (x4, bs) \<leftarrow> get_word 1 bs;
     (x5, bs) \<leftarrow> get_word 1 bs;
     (x6, bs) \<leftarrow> get_word 16 bs;
     (x7, bs) \<leftarrow> get_word 16 bs;
     (x8, bs) \<leftarrow> get_word 16 bs;
     (x9, bs) \<leftarrow> get_word 8 bs;
     (x10, bs) \<leftarrow> get_word 16 bs;
     (x11, bs) \<leftarrow> get_word 1 bs;
     (x12, bs) \<leftarrow> get_word 1 bs;
     (x13, bs) \<leftarrow> get_bytes 6 bs;
     (x14, bs) \<leftarrow> get_word 4 bs;
     (x15, bs) \<leftarrow> get_word 8 bs;
     (x16, bs) \<leftarrow> get_word 8 bs;
     (x17, bs) \<leftarrow> get_bytes 28 bs;
     Some (\<lparr>loan_discriminator = x0,
       loan_pool = x1,
       loan_borrower = x2,
       loan_nonce = x3,
       loan_bump = x4,
       loan_sides = x5,
       loan_collateral_amount = x6,
       loan_debt_principal = x7,
       loan_borrow_index_snapshot_wad = x8,
       loan_last_touch_slot = x9,
       loan_trigger_price_wad = x10,
       loan_trigger_direction = x11,
       loan_status = x12,
       loan_status_pad = x13,
       loan_band_id = x14,
       loan_opened_slot = x15,
       loan_closed_slot = x16,
       loan_reserved = x17\<rparr>, bs) }"

definition loan_wf :: "loan \<Rightarrow> bool" where
  "loan_wf l \<longleftrightarrow>
     length (loan_discriminator l) = 8 \<and>
     length (loan_status_pad l) = 6 \<and>
     length (loan_reserved l) = 28"

definition loan_try_from_slice :: "bytes \<Rightarrow> loan option" where
  "loan_try_from_slice bs = from_slice get_loan bs"

definition loan_is_initialized :: "loan \<Rightarrow> bool" where
  "loan_is_initialized l \<longleftrightarrow> loan_discriminator l = LOAN_DISCRIMINATOR"

definition is_open :: "loan \<Rightarrow> bool" where
  "is_open l \<longleftrightarrow> loan_status l = STATUS_OPEN"

definition owed :: "loan \<Rightarrow> u128 \<Rightarrow> (u128, liquidity_error) res" where
  "owed l pool_current_index_wad =
     owed_from_index (loan_debt_principal l) (loan_borrow_index_snapshot_wad l)
       pool_current_index_wad"

section \<open>LoanIndexBand\<close>

record loan_index_band =
  band_discriminator :: bytes
  band_pool :: pubkey
  band_band_id :: u32
  band_direction :: u8
  band_bump :: u8
  band_pad :: bytes
  band_count :: u32
  band_pad2 :: bytes
  band_reserved :: bytes

definition LOAN_INDEX_BAND_LEN :: nat where
  "LOAN_INDEX_BAND_LEN = 8 + 32 + (4 + 1 + 1 + 2) + (4 + 4) + 32"

definition MAX_LOANS :: u32 where "MAX_LOANS = 64"

definition loan_index_band_bytes :: "loan_index_band \<Rightarrow> bytes" where
  "loan_index_band_bytes b =
     band_discriminator b @
     put_key (band_pool b) @
     put_word 4 (band_band_id b) @
     put_word 1 (band_direction b) @
     put_word 1 (band_bump b) @
     band_pad b @
     put_word 4 (band_count b) @
     band_pad2 b @
     band_reserved b"

definition get_loan_index_band :: "bytes \<Rightarrow> (loan_index_band \<times> bytes) option" where
  "get_loan_index_band bs = do {
     (x0, bs) \<leftarrow> get_bytes 8 bs;
     (x1, bs) \<leftarrow> get_key bs;
     (x2, bs) \<leftarrow> get_word 4 bs;
     (x3, bs) \<leftarrow> get_word 1 bs;
     (x4, bs) \<leftarrow> get_word 1 bs;
     (x5, bs) \<leftarrow> get_bytes 2 bs;
     (x6, bs) \<leftarrow> get_word 4 bs;
     (x7, bs) \<leftarrow> get_bytes 4 bs;
     (x8, bs) \<leftarrow> get_bytes 32 bs;
     Some (\<lparr>band_discriminator = x0,
       band_pool = x1,
       band_band_id = x2,
       band_direction = x3,
       band_bump = x4,
       band_pad = x5,
       band_count = x6,
       band_pad2 = x7,
       band_reserved = x8\<rparr>, bs) }"

definition loan_index_band_wf :: "loan_index_band \<Rightarrow> bool" where
  "loan_index_band_wf b \<longleftrightarrow>
     length (band_discriminator b) = 8 \<and>
     length (band_pad b) = 2 \<and>
     length (band_pad2 b) = 4 \<and>
     length (band_reserved b) = 32"

definition loan_index_band_try_from_slice :: "bytes \<Rightarrow> loan_index_band option" where
  "loan_index_band_try_from_slice bs = from_slice get_loan_index_band bs"

definition band_is_initialized :: "loan_index_band \<Rightarrow> bool" where
  "band_is_initialized b \<longleftrightarrow> band_discriminator b = LOAN_INDEX_BAND_DISCRIMINATOR"

lemmas state_defs [code_defs] =
  POOL_SEED_def VAULT_A_SEED_def VAULT_B_SEED_def LP_MINT_SEED_def LOAN_SEED_def BAND_SEED_def
  POOL_DISCRIMINATOR_def LOAN_DISCRIMINATOR_def LOAN_INDEX_BAND_DISCRIMINATOR_def
  SPL_TOKEN_PROGRAM_ID_def pool_is_initialized_def is_authority_renounced_def swappable_def
  accounted_def ref_price_at_def band_bitmap_def band_bitmap_mut_def pool_borrow_rate_def
  bump_indexes_def borrow_index_for_debt_side_def MAX_BAND_ID_def bitmap_set_def
  bitmap_clear_def bitmap_is_set_def bitmap_iter_set_range_def STATUS_OPEN_def
  STATUS_REPAID_def STATUS_LIQUIDATED_def loan_is_initialized_def is_open_def owed_def
  MAX_LOANS_def band_is_initialized_def

section \<open>The layout: sizes and round trips\<close>

lemma length_pool_bytes: "pool_wf x \<Longrightarrow> length (pool_bytes x) = POOL_LEN"
  by (simp add: pool_wf_def pool_bytes_def POOL_LEN_def)

lemma get_pool_bytes: "pool_wf x \<Longrightarrow> get_pool (pool_bytes x @ r) = Some (x, r)"
  by (cases x) (simp add: pool_wf_def pool_bytes_def get_pool_def)

lemma pool_try_from_slice_bytes: "pool_wf x \<Longrightarrow> pool_try_from_slice (pool_bytes x) = Some x"
  unfolding pool_try_from_slice_def by (rule from_slice_put) (rule get_pool_bytes)

lemma length_loan_bytes: "loan_wf x \<Longrightarrow> length (loan_bytes x) = LOAN_LEN"
  by (simp add: loan_wf_def loan_bytes_def LOAN_LEN_def)

lemma get_loan_bytes: "loan_wf x \<Longrightarrow> get_loan (loan_bytes x @ r) = Some (x, r)"
  by (cases x) (simp add: loan_wf_def loan_bytes_def get_loan_def)

lemma loan_try_from_slice_bytes: "loan_wf x \<Longrightarrow> loan_try_from_slice (loan_bytes x) = Some x"
  unfolding loan_try_from_slice_def by (rule from_slice_put) (rule get_loan_bytes)

lemma length_loan_index_band_bytes: "loan_index_band_wf x \<Longrightarrow> length (loan_index_band_bytes x) = LOAN_INDEX_BAND_LEN"
  by (simp add: loan_index_band_wf_def loan_index_band_bytes_def LOAN_INDEX_BAND_LEN_def)

lemma get_loan_index_band_bytes: "loan_index_band_wf x \<Longrightarrow> get_loan_index_band (loan_index_band_bytes x @ r) = Some (x, r)"
  by (cases x) (simp add: loan_index_band_wf_def loan_index_band_bytes_def get_loan_index_band_def)

lemma loan_index_band_try_from_slice_bytes: "loan_index_band_wf x \<Longrightarrow> loan_index_band_try_from_slice (loan_index_band_bytes x) = Some x"
  unfolding loan_index_band_try_from_slice_def by (rule from_slice_put) (rule get_loan_index_band_bytes)

text \<open>Conversely, decoding succeeds only on the encoding of its result, and what it returns
  has arrays of the declared sizes.\<close>

lemmas get_SomeD =
  get_word_Some [where 'a = 8 and n = 1, simplified]
  get_word_Some [where 'a = 16 and n = 2, simplified]
  get_word_Some [where 'a = 32 and n = 4, simplified]
  get_word_Some [where 'a = 64 and n = 8, simplified]
  get_word_Some [where 'a = 128 and n = 16, simplified]
  get_key_Some

lemma get_pool_Some: "get_pool bs = Some (p, r) \<Longrightarrow> pool_wf p \<and> bs = pool_bytes p @ r"
  by (auto simp: get_pool_def bind_eq_Some_conv get_bytes_Some pool_bytes_def pool_wf_def
      dest!: get_SomeD)

lemma get_loan_Some: "get_loan bs = Some (l, r) \<Longrightarrow> loan_wf l \<and> bs = loan_bytes l @ r"
  by (auto simp: get_loan_def bind_eq_Some_conv get_bytes_Some loan_bytes_def loan_wf_def
      dest!: get_SomeD)

lemma get_loan_index_band_Some:
  "get_loan_index_band bs = Some (b, r) \<Longrightarrow>
   loan_index_band_wf b \<and> bs = loan_index_band_bytes b @ r"
  by (auto simp: get_loan_index_band_def bind_eq_Some_conv get_bytes_Some
      loan_index_band_bytes_def loan_index_band_wf_def dest!: get_SomeD)

lemma pool_try_from_slice_Some:
  "pool_try_from_slice bs = Some p \<longleftrightarrow> pool_wf p \<and> bs = pool_bytes p"
  by (metis append_Nil2 from_slice_Some get_pool_Some pool_try_from_slice_bytes
      pool_try_from_slice_def)

lemma loan_try_from_slice_Some:
  "loan_try_from_slice bs = Some l \<longleftrightarrow> loan_wf l \<and> bs = loan_bytes l"
  by (metis append_Nil2 from_slice_Some get_loan_Some loan_try_from_slice_bytes
      loan_try_from_slice_def)

lemma loan_index_band_try_from_slice_Some:
  "loan_index_band_try_from_slice bs = Some b \<longleftrightarrow>
     loan_index_band_wf b \<and> bs = loan_index_band_bytes b"
  by (metis append_Nil2 from_slice_Some get_loan_index_band_Some
      loan_index_band_try_from_slice_bytes loan_index_band_try_from_slice_def)

interpretation pool_codec: codec pool_bytes pool_try_from_slice pool_wf POOL_LEN
  by unfold_locales (simp_all add: pool_try_from_slice_Some length_pool_bytes)

interpretation loan_codec: codec loan_bytes loan_try_from_slice loan_wf LOAN_LEN
  by unfold_locales (simp_all add: loan_try_from_slice_Some length_loan_bytes)

interpretation band_codec: codec loan_index_band_bytes loan_index_band_try_from_slice
  loan_index_band_wf LOAN_INDEX_BAND_LEN
  by unfold_locales (simp_all add: loan_index_band_try_from_slice_Some length_loan_index_band_bytes)

section \<open>Reserve accounting\<close>

lemma swappable_Ok_iff:
  "swappable p ra rb = Ok (a, b) \<longleftrightarrow>
     unat ra = unat a + unat (total_collateral_a p) + unat (protocol_fees_a p) \<and>
     unat rb = unat b + unat (total_collateral_b p) + unat (protocol_fees_b p)"
proof -
  have one: "(\<exists>x :: u128. unat r = unat x + c \<and> unat x = unat y + f) \<longleftrightarrow> unat r = unat y + c + f"
    for r y :: u128 and c f :: nat
  proof
    assume eq: "unat r = unat y + c + f"
    have "unat y + f < 2 ^ 128" using u128_lt [of r] eq by linarith
    then have "unat (of_nat (unat y + f) :: u128) = unat y + f" by (intro unat_of_nat_eq) simp
    with eq show "\<exists>x :: u128. unat r = unat x + c \<and> unat x = unat y + f"
      by (intro exI [of _ "of_nat (unat y + f)"]) simp
  qed auto
  show ?thesis
    using one [of ra "unat (total_collateral_a p)" a "unat (protocol_fees_a p)"]
      one [of rb "unat (total_collateral_b p)" b "unat (protocol_fees_b p)"]
    by (simp add: swappable_def checked_sub_Some_iff) blast
qed

lemma accounted_Ok_iff:
  "accounted p ra rb = Ok (a, b) \<longleftrightarrow>
     (\<exists>sa sb. swappable p ra rb = Ok (sa, sb) \<and>
        unat a = unat sa + unat (total_debt_a p) \<and> unat b = unat sb + unat (total_debt_b p))"
  by (auto simp: accounted_def checked_add_Some_iff)

text \<open>The same in linear form: what is earmarked is in the vault, and the accounted reserve is the
  rest of the vault plus what is lent out.\<close>

lemma accounted_linear:
  "accounted p ra rb = Ok (A, B) \<longleftrightarrow>
     unat (total_collateral_a p) + unat (protocol_fees_a p) \<le> unat ra \<and>
     unat A + unat (total_collateral_a p) + unat (protocol_fees_a p) = unat ra + unat (total_debt_a p) \<and>
     unat (total_collateral_b p) + unat (protocol_fees_b p) \<le> unat rb \<and>
     unat B + unat (total_collateral_b p) + unat (protocol_fees_b p) = unat rb + unat (total_debt_b p)"
  (is "?l \<longleftrightarrow> ?r")
proof
  assume ?l then show ?r by (auto simp: accounted_Ok_iff swappable_Ok_iff)
next
  assume r: ?r
  let ?sa = "unat ra - unat (total_collateral_a p) - unat (protocol_fees_a p)"
  let ?sb = "unat rb - unat (total_collateral_b p) - unat (protocol_fees_b p)"
  have "?sa < 2 ^ 128" "?sb < 2 ^ 128" using u128_lt [of ra] u128_lt [of rb] by linarith+
  then have "unat (of_nat ?sa :: u128) = ?sa" "unat (of_nat ?sb :: u128) = ?sb"
    by (intro unat_of_nat_eq; simp)+
  with r have "swappable p ra rb = Ok (of_nat ?sa, of_nat ?sb) \<and>
      unat A = unat (of_nat ?sa :: u128) + unat (total_debt_a p) \<and>
      unat B = unat (of_nat ?sb :: u128) + unat (total_debt_b p)"
    unfolding swappable_Ok_iff by linarith
  then show ?l unfolding accounted_Ok_iff by blast
qed

lemma accounted_not_Panic [simp]: "accounted p ra rb \<noteq> Panic"
  by (auto simp: accounted_def swappable_def and_then_Panic_iff)

lemma accounted_cong:
  "total_debt_a p = total_debt_a q \<Longrightarrow> total_debt_b p = total_debt_b q \<Longrightarrow>
   total_collateral_a p = total_collateral_a q \<Longrightarrow> total_collateral_b p = total_collateral_b q \<Longrightarrow>
   protocol_fees_a p = protocol_fees_a q \<Longrightarrow> protocol_fees_b p = protocol_fees_b q \<Longrightarrow>
   accounted p ra rb = accounted q ra rb"
  by (simp add: accounted_def swappable_def)

section \<open>Interest indexes\<close>

text \<open>What \<open>bump_indexes\<close> may change: the two indexes and their slot.\<close>

lemma bump_indexes_frame:
  assumes "bump_indexes p ra rb slot = Ok q"
  shows "\<exists>ia ib s. q = p\<lparr>borrow_index_a_wad := ia, borrow_index_b_wad := ib,
           last_index_update_slot := s\<rparr> \<and>
         unat (borrow_index_a_wad p) \<le> unat ia \<and> unat (borrow_index_b_wad p) \<le> unat ib"
proof -
  have "bump_indexes p ra rb slot = Ok q \<Longrightarrow> q = p \<or>
    (\<exists>r1 r2 n. q = p\<lparr>borrow_index_a_wad := bump_index_wad (borrow_index_a_wad p) r1 n,
       borrow_index_b_wad := bump_index_wad (borrow_index_b_wad p) r2 n,
       last_index_update_slot := slot\<rparr>)"
    by (auto simp: bump_indexes_def Let_def split: if_splits)
  with assms consider "q = p"
    | r1 r2 n where "q = p\<lparr>borrow_index_a_wad := bump_index_wad (borrow_index_a_wad p) r1 n,
       borrow_index_b_wad := bump_index_wad (borrow_index_b_wad p) r2 n,
       last_index_update_slot := slot\<rparr>" by blast
  then show ?thesis
  proof cases
    case 1
    then have "q = p\<lparr>borrow_index_a_wad := borrow_index_a_wad p,
      borrow_index_b_wad := borrow_index_b_wad p,
      last_index_update_slot := last_index_update_slot p\<rparr>" by simp
    then show ?thesis by blast
  next
    case 2
    then show ?thesis by (metis bump_index_wad_eq bump_nat_mono)
  qed
qed

lemma bump_indexes_total:
  assumes "accounted p ra rb = Ok ab" "interest_kink_bps p \<noteq> 0"
  shows "\<exists>q. bump_indexes p ra rb slot = Ok q"
proof -
  obtain a b where ab: "ab = (a, b)" by (cases ab)
  have rate: "\<exists>r. pool_borrow_rate p (utilization_wad d acc) = Ok r" for d acc
    unfolding pool_borrow_rate_def
    by (rule compute_borrow_rate_Ok [OF utilization_wad_le assms(2)]) blast
  obtain r1 r2 where "pool_borrow_rate p (utilization_wad (total_debt_a p) a) = Ok r1"
    "pool_borrow_rate p (utilization_wad (total_debt_b p) b) = Ok r2"
    using rate by blast
  then show ?thesis using assms(1) ab by (auto simp: bump_indexes_def Let_def)
qed

lemma bump_indexes_cap:
  assumes "bump_indexes p ra rb slot = Ok q"
    "unat (borrow_index_a_wad p) \<le> 2 ^ 64 * 10 ^ 18" "unat (borrow_index_b_wad p) \<le> 2 ^ 64 * 10 ^ 18"
  shows "unat (borrow_index_a_wad q) \<le> 2 ^ 64 * 10 ^ 18 \<and> unat (borrow_index_b_wad q) \<le> 2 ^ 64 * 10 ^ 18"
proof -
  from assms(1) have "q = p \<or>
    (\<exists>r1 r2 n. q = p\<lparr>borrow_index_a_wad := bump_index_wad (borrow_index_a_wad p) r1 n,
       borrow_index_b_wad := bump_index_wad (borrow_index_b_wad p) r2 n,
       last_index_update_slot := slot\<rparr>)"
    by (auto simp: bump_indexes_def Let_def split: if_splits)
  with assms(2,3) show ?thesis by (auto simp: bump_index_wad_eq bump_nat_cap [simplified])
qed

lemma bump_indexes_same_slot:
  "unat slot \<le> unat (last_index_update_slot p) \<Longrightarrow> bump_indexes p ra rb slot = Ok p"
  by (simp add: bump_indexes_def word_eq_unat unat_saturating_sub)

lemma bump_indexes_accounting:
  assumes "bump_indexes p ra rb slot = Ok q"
  shows "accounted q = accounted p" "swappable q = swappable p"
    "pool_wf q = pool_wf p" "pool_is_initialized q = pool_is_initialized p"
  using bump_indexes_frame [OF assms]
  by (auto simp: fun_eq_iff accounted_def swappable_def pool_wf_def pool_is_initialized_def)

section \<open>The bitmaps as sets of band ids\<close>

text \<open>The contract of a band-presence bitmap: a set of ids up to \<open>MAX_BAND_ID\<close> with
  insertion, removal, membership and ordered enumeration of a range.\<close>

locale presence_index =
  fixes bset :: "'b \<Rightarrow> u32 \<Rightarrow> ('b, liquidity_error) res"
    and bclear :: "'b \<Rightarrow> u32 \<Rightarrow> ('b, liquidity_error) res"
    and bget :: "'b \<Rightarrow> u32 \<Rightarrow> bool"
    and biter :: "'b \<Rightarrow> u32 \<Rightarrow> u32 \<Rightarrow> u32 list"
    and inv :: "'b \<Rightarrow> bool"
  assumes set_Ok: "i \<le> MAX_BAND_ID \<Longrightarrow> inv b \<Longrightarrow> \<exists>b'. bset b i = Ok b'"
    and set_range: "bset b i = Ok b' \<Longrightarrow> i \<le> MAX_BAND_ID"
    and set_inv: "inv b \<Longrightarrow> bset b i = Ok b' \<Longrightarrow> inv b'"
    and set_get: "inv b \<Longrightarrow> bset b i = Ok b' \<Longrightarrow> bget b' j \<longleftrightarrow> j = i \<or> bget b j"
    and clear_Ok: "i \<le> MAX_BAND_ID \<Longrightarrow> inv b \<Longrightarrow> \<exists>b'. bclear b i = Ok b'"
    and clear_inv: "inv b \<Longrightarrow> bclear b i = Ok b' \<Longrightarrow> inv b'"
    and clear_get: "inv b \<Longrightarrow> bclear b i = Ok b' \<Longrightarrow> bget b' j \<longleftrightarrow> j \<noteq> i \<and> bget b j"
    and get_range: "bget b i \<Longrightarrow> i \<le> MAX_BAND_ID"
    and iter_set: "set (biter b lo hi) = {i. bget b i \<and> lo \<le> i \<and> i \<le> hi}"
    and iter_sorted: "sorted (map unat (biter b lo hi))"
begin

lemma members_set:
  "inv b \<Longrightarrow> bset b i = Ok b' \<Longrightarrow> Collect (bget b') = insert i (Collect (bget b))"
  by (auto simp: set_get)

lemma members_clear:
  "inv b \<Longrightarrow> bclear b i = Ok b' \<Longrightarrow> Collect (bget b') = Collect (bget b) - {i}"
  by (auto simp: clear_get)

lemma iter_covers:
  "(\<forall>i \<in> set (biter b lo hi). i \<in> S) \<longleftrightarrow> (\<forall>i. bget b i \<and> lo \<le> i \<and> i \<le> hi \<longrightarrow> i \<in> S)"
  by (auto simp: iter_set)

lemma set_clear_cancel:
  assumes "inv b" "bset b i = Ok b'" "bclear b' i = Ok b''"
  shows "Collect (bget b'') = Collect (bget b) - {i}"
  using members_set [OF assms(1,2)] members_clear [OF set_inv [OF assms(1,2)] assms(3)] by auto

end

lemma bitmap_is_set_iff:
  "bitmap_is_set bm i \<longleftrightarrow> unat i \<le> 127 \<and> bit (bm ! (unat i div 8)) (unat i mod 8)"
  by (auto simp: bitmap_is_set_def MAX_BAND_ID_def Let_def word_less_nat_alt unat_div unat_mod
      bit_iff_and_push_bit_not_eq_0)

lemma bitmap_set_Ok_iff:
  "bitmap_set bm i = Ok bm' \<longleftrightarrow> unat i \<le> 127 \<and>
     bm' = bm[unat i div 8 := bm ! (unat i div 8) OR push_bit (unat i mod 8) 1]"
  by (auto simp: bitmap_set_def MAX_BAND_ID_def Let_def word_less_nat_alt unat_div unat_mod)

lemma bitmap_clear_Ok_iff:
  "bitmap_clear bm i = Ok bm' \<longleftrightarrow> unat i \<le> 127 \<and>
     bm' = bm[unat i div 8 := bm ! (unat i div 8) AND NOT (push_bit (unat i mod 8) 1)]"
  by (auto simp: bitmap_clear_def MAX_BAND_ID_def Let_def word_less_nat_alt unat_div unat_mod)

lemma bit_address_eq: "i div 8 = j div 8 \<Longrightarrow> i mod 8 = j mod 8 \<Longrightarrow> i = (j :: nat)"
  by (metis div_mult_mod_eq)

lemma bit_of_byte:
  "bit ((x :: u8) OR 2 ^ k) j \<longleftrightarrow> bit x j \<or> j = k \<and> k < 8"
  "bit ((x :: u8) AND NOT (2 ^ k)) j \<longleftrightarrow> bit x j \<and> \<not> (j = k \<and> k < 8)"
  by (auto simp: bit_simps dest: bit_imp_le_length)

lemma bitmap_set_get:
  assumes "length bm = 16" "bitmap_set bm i = Ok bm'"
  shows "bitmap_is_set bm' j \<longleftrightarrow> j = i \<or> bitmap_is_set bm j"
proof -
  from assms(2) have i: "unat i \<le> 127"
    and bm': "bm' = bm[unat i div 8 := bm ! (unat i div 8) OR push_bit (unat i mod 8) 1]"
    by (simp_all add: bitmap_set_Ok_iff)
  have len: "unat i div 8 < length bm" using i assms(1) by simp
  show ?thesis
    by (cases "unat j div 8 = unat i div 8")
      (use i len in \<open>auto simp: bitmap_is_set_iff bm' bit_of_byte word_eq_unat dest: bit_address_eq\<close>)
qed

lemma bitmap_clear_get:
  assumes "length bm = 16" "bitmap_clear bm i = Ok bm'"
  shows "bitmap_is_set bm' j \<longleftrightarrow> j \<noteq> i \<and> bitmap_is_set bm j"
proof -
  from assms(2) have i: "unat i \<le> 127"
    and bm': "bm' = bm[unat i div 8 := bm ! (unat i div 8) AND NOT (push_bit (unat i mod 8) 1)]"
    by (simp_all add: bitmap_clear_Ok_iff)
  have len: "unat i div 8 < length bm" using i assms(1) by simp
  show ?thesis
    by (cases "unat j div 8 = unat i div 8")
      (use i len in \<open>auto simp: bitmap_is_set_iff bm' bit_of_byte word_eq_unat dest: bit_address_eq\<close>)
qed

lemma iter_ids: "set (map of_nat [unat lo ..< Suc (unat (hi :: u32))]) = {i :: u32. lo \<le> i \<and> i \<le> hi}"
proof -
  have "i \<in> of_nat ` {unat lo ..< Suc (unat hi)} \<longleftrightarrow> lo \<le> i \<and> i \<le> hi" for i :: u32
  proof
    assume "i \<in> of_nat ` {unat lo ..< Suc (unat hi)}"
    then obtain k where k: "i = of_nat k" "unat lo \<le> k" "k \<le> unat hi" by auto
    then have "k < 2 ^ LENGTH(32)" using unat_lt [of hi] by simp
    then have "unat i = k" unfolding k(1) by (rule unat_of_nat_eq)
    with k show "lo \<le> i \<and> i \<le> hi" by (simp add: word_le_nat_alt)
  next
    assume "lo \<le> i \<and> i \<le> hi"
    then have "unat i \<in> {unat lo ..< Suc (unat hi)}" by (simp add: word_le_nat_alt less_Suc_eq_le)
    then have "(of_nat (unat i) :: u32) \<in> of_nat ` {unat lo ..< Suc (unat hi)}" by (rule imageI)
    then show "i \<in> of_nat ` {unat lo ..< Suc (unat hi)}" by simp
  qed
  then show ?thesis unfolding set_map set_upt by blast
qed

lemma bitmap_iter_set:
  "set (bitmap_iter_set_range bm lo hi) = {i. bitmap_is_set bm i \<and> lo \<le> i \<and> i \<le> hi}"
proof -
  have "set (bitmap_iter_set_range bm lo hi) =
      {i. bitmap_is_set bm i \<and> lo \<le> i \<and> i \<le> min hi MAX_BAND_ID}"
    unfolding bitmap_iter_set_range_def Let_def set_filter iter_ids by auto
  also have "\<dots> = {i. bitmap_is_set bm i \<and> lo \<le> i \<and> i \<le> hi}"
    by (auto simp: bitmap_is_set_iff MAX_BAND_ID_def word_le_nat_alt unat_min_word)
  finally show ?thesis .
qed

lemma bitmap_iter_sorted: "sorted (map unat (bitmap_iter_set_range bm lo hi))"
proof -
  let ?ids = "[unat lo ..< Suc (unat (min hi MAX_BAND_ID))]"
  have "map (\<lambda>k. unat (of_nat k :: u32)) ?ids = ?ids"
  proof (rule map_idI)
    fix k assume "k \<in> set ?ids"
    then have "k \<le> unat (min hi MAX_BAND_ID)" unfolding set_upt by simp
    then have "k < 2 ^ LENGTH(32)" using unat_lt [of "min hi MAX_BAND_ID"] by linarith
    then show "unat (of_nat k :: u32) = k" by (rule unat_of_nat_eq)
  qed
  then have "map unat (map of_nat ?ids :: u32 list) = ?ids" by (simp only: map_map o_def)
  then have "sorted (map unat (map of_nat ?ids :: u32 list))" by (simp only: sorted_upt)
  then show ?thesis unfolding bitmap_iter_set_range_def Let_def by (rule sorted_filter)
qed

interpretation bitmap: presence_index bitmap_set bitmap_clear bitmap_is_set
  bitmap_iter_set_range "\<lambda>bm. length bm = 16"
proof (unfold_locales, goal_cases)
  case (1 i b) then show ?case by (auto simp: bitmap_set_def Let_def)
next
  case (2 b i b') then show ?case by (simp add: bitmap_set_Ok_iff MAX_BAND_ID_def word_le_nat_alt)
next
  case (3 b i b') then show ?case by (simp add: bitmap_set_Ok_iff)
next
  case (4 b i b' j) then show ?case by (rule bitmap_set_get)
next
  case (5 i b) then show ?case by (auto simp: bitmap_clear_def Let_def)
next
  case (6 b i b') then show ?case by (simp add: bitmap_clear_Ok_iff)
next
  case (7 b i b' j) then show ?case by (rule bitmap_clear_get)
next
  case (8 b i) then show ?case by (simp add: bitmap_is_set_iff MAX_BAND_ID_def word_le_nat_alt)
next
  case (9 b lo hi) show ?case by (rule bitmap_iter_set)
next
  case (10 b lo hi) show ?case by (rule bitmap_iter_sorted)
qed

end
