(* ===== verification/Runtime.thy ===== *)
theory Runtime
  imports Pool_State
begin

text \<open>
  The surroundings of a handler. The accounts of a transaction are a ledger indexed by public
  key, so that two \<open>AccountInfo\<close>s with the same key share one state, as they do in the
  program. Everything the program calls but does not contain (the clock and rent sysvars,
  address derivation, the SPL token and Token-2022 programs, the system program) is a field of
  the record \<open>env\<close>: a parameter of every definition that uses it. The second half holds
  the program's own helpers over accounts: \<open>account_utils.rs\<close>, the token-program
  validation and address derivation of \<open>state.rs\<close>, and the readers each handler
  file repeats.

  \<open>RefCell\<close> borrows are released before the next access in every handler, so borrowing
  never fails and is not modelled; neither is the runtime's own check, after a handler
  returns, that the accounts it wrote were passed as writable.
\<close>

section \<open>Accounts, the ledger and the log\<close>

record account =
  lamports :: u64
  data :: bytes
  owner :: pubkey

record account_info =
  key :: pubkey
  is_signer :: bool

type_synonym ledger_t = "pubkey \<Rightarrow> account"

text \<open>The state a handler transforms: the ledger, and the lines written by
  \<open>sol_log_data\<close>.\<close>

record world =
  ledger :: ledger_t
  log :: "bytes list"

section \<open>The external environment\<close>

record token_account =
  token_mint :: pubkey
  token_owner :: pubkey
  token_amount :: u64

record mint =
  mint_supply :: u64
  mint_decimals :: u8

datatype extension_type =
    MintCloseAuthority
  | InterestBearingConfig
  | MetadataPointer
  | TokenMetadata
  | GroupPointer
  | TokenGroup
  | GroupMemberPointer
  | TokenGroupMember
  | OtherExtension u16

text \<open>The instructions of other programs that this program invokes, with their arguments in
  the order of the builder functions.\<close>

datatype cpi =
    TransferChecked pubkey pubkey pubkey pubkey pubkey u64 u8
      \<comment> \<open>token program, source, mint, destination, authority, amount, decimals\<close>
  | MintToChecked pubkey pubkey pubkey pubkey u64 u8
      \<comment> \<open>token program, mint, destination, mint authority, amount, decimals\<close>
  | BurnChecked pubkey pubkey pubkey pubkey u64 u8
      \<comment> \<open>token program, account, mint, authority, amount, decimals\<close>
  | InitializeAccount3 pubkey pubkey pubkey pubkey
      \<comment> \<open>token program, account, mint, owner\<close>
  | InitializeMint2 pubkey pubkey pubkey "pubkey option" u8
      \<comment> \<open>token program, mint, mint authority, freeze authority, decimals\<close>
  | CreateAccount pubkey pubkey u64 u64 pubkey
      \<comment> \<open>payer, new account, lamports, space, owner\<close>
  | SysTransfer pubkey pubkey u64
      \<comment> \<open>from, to, lamports\<close>
  | Allocate pubkey u64
  | Assign pubkey pubkey

type_synonym rent_t = "nat \<Rightarrow> u64"

text \<open>\<open>cpi_invoke\<close> builds and runs a cross-program call: the instruction, the account
  infos handed over, and the seeds the program signs with.\<close>

record env =
  clock_get :: "(u64, program_error) res"
  rent_get :: "(rent_t, program_error) res"
  rent_from_account_info :: "pubkey \<Rightarrow> bytes \<Rightarrow> (rent_t, program_error) res"
  find_program_address :: "bytes list \<Rightarrow> pubkey \<Rightarrow> (pubkey \<times> u8) option"
  create_program_address :: "bytes list \<Rightarrow> pubkey \<Rightarrow> pubkey option"
  token_2022_id :: pubkey
  system_program_id :: pubkey
  token_account_len :: nat
  token_account_len_2022 :: "(nat, program_error) res"
  token_mint_len :: nat
  token_mint_len_2022 :: "(nat, program_error) res"
  unpack_token_account :: "bytes \<Rightarrow> token_account option"
  unpack_mint :: "bytes \<Rightarrow> (mint, program_error) res"
  get_extension_types :: "bytes \<Rightarrow> (extension_type list, program_error) res"
  get_close_authority :: "bytes \<Rightarrow> (pubkey option, program_error) res"
  cpi_invoke :: "cpi \<Rightarrow> account_info list \<Rightarrow> bytes list list \<Rightarrow> ledger_t \<Rightarrow>
                   (ledger_t, program_error) res"

section \<open>Access to accounts\<close>

definition acct :: "world \<Rightarrow> account_info \<Rightarrow> account" where
  "acct w i = ledger w (key i)"

definition data_is_empty :: "world \<Rightarrow> account_info \<Rightarrow> bool" where
  "data_is_empty w i \<longleftrightarrow> data (acct w i) = []"

definition put_data :: "account_info \<Rightarrow> bytes \<Rightarrow> world \<Rightarrow> world" where
  "put_data i bs w = w\<lparr>ledger := (ledger w)(key i := (acct w i)\<lparr>data := bs\<rparr>)\<rparr>"

definition put_lamports :: "account_info \<Rightarrow> u64 \<Rightarrow> world \<Rightarrow> world" where
  "put_lamports i n w = w\<lparr>ledger := (ledger w)(key i := (acct w i)\<lparr>lamports := n\<rparr>)\<rparr>"

text \<open>\<open>x.serialize(&mut &mut data[..])?\<close> on the data of an account.\<close>

definition serialize_into :: "bytes \<Rightarrow> account_info \<Rightarrow> world \<Rightarrow> (world, program_error) res" where
  "serialize_into enc i w =
     and_then (write_slice enc (data (acct w i))) (\<lambda>bs. Ok (put_data i bs w))"

definition invoke_signed ::
  "env \<Rightarrow> cpi \<Rightarrow> account_info list \<Rightarrow> bytes list list \<Rightarrow> world \<Rightarrow> (world, program_error) res" where
  "invoke_signed e c infos seeds w =
     and_then (cpi_invoke e c infos seeds (ledger w)) (\<lambda>l. Ok (w\<lparr>ledger := l\<rparr>))"

definition invoke :: "env \<Rightarrow> cpi \<Rightarrow> account_info list \<Rightarrow> world \<Rightarrow> (world, program_error) res" where
  "invoke e c infos w = invoke_signed e c infos [] w"

text \<open>\<open>sol_log_data\<close> appends one line to the log.\<close>

definition sol_log_data :: "bytes \<Rightarrow> world \<Rightarrow> world" where
  "sol_log_data line w = w\<lparr>log := log w @ [line]\<rparr>"

section \<open>Token programs and addresses (state.rs)\<close>

definition is_valid_token_program :: "env \<Rightarrow> pubkey \<Rightarrow> bool" where
  "is_valid_token_program e k \<longleftrightarrow> k = token_2022_id e \<or> k = SPL_TOKEN_PROGRAM_ID"

definition validate_token_program_for_mint ::
  "env \<Rightarrow> world \<Rightarrow> account_info \<Rightarrow> account_info \<Rightarrow> (unit, liquidity_error) res" where
  "validate_token_program_for_mint e w token_program mint_info =
     (if \<not> is_valid_token_program e (key token_program)
         \<or> key token_program \<noteq> owner (acct w mint_info)
      then Err InvalidTokenProgram else Ok ())"

definition pool_derive_pda :: "env \<Rightarrow> pubkey \<Rightarrow> pubkey \<Rightarrow> pubkey \<Rightarrow> (pubkey \<times> u8, program_error) res" where
  "pool_derive_pda e m_a m_b program_id =
     or_panic (find_program_address e [POOL_SEED, put_key m_a, put_key m_b] program_id)"

definition derive_vault_a_pda :: "env \<Rightarrow> pubkey \<Rightarrow> pubkey \<Rightarrow> (pubkey \<times> u8, program_error) res" where
  "derive_vault_a_pda e pool_key program_id =
     or_panic (find_program_address e [VAULT_A_SEED, put_key pool_key] program_id)"

definition derive_vault_b_pda :: "env \<Rightarrow> pubkey \<Rightarrow> pubkey \<Rightarrow> (pubkey \<times> u8, program_error) res" where
  "derive_vault_b_pda e pool_key program_id =
     or_panic (find_program_address e [VAULT_B_SEED, put_key pool_key] program_id)"

definition derive_lp_mint_pda :: "env \<Rightarrow> pubkey \<Rightarrow> pubkey \<Rightarrow> (pubkey \<times> u8, program_error) res" where
  "derive_lp_mint_pda e pool_key program_id =
     or_panic (find_program_address e [LP_MINT_SEED, put_key pool_key] program_id)"

definition loan_derive_pda ::
  "env \<Rightarrow> pubkey \<Rightarrow> pubkey \<Rightarrow> u64 \<Rightarrow> pubkey \<Rightarrow> (pubkey \<times> u8, program_error) res" where
  "loan_derive_pda e pool_key borrower_key nonce program_id =
     or_panic (find_program_address e
       [LOAN_SEED, put_key pool_key, put_key borrower_key, put_word 8 nonce] program_id)"

definition band_derive_pda ::
  "env \<Rightarrow> pubkey \<Rightarrow> u8 \<Rightarrow> u32 \<Rightarrow> pubkey \<Rightarrow> (pubkey \<times> u8, program_error) res" where
  "band_derive_pda e pool_key dir band_id program_id =
     or_panic (find_program_address e
       [BAND_SEED, put_key pool_key, [dir], put_word 4 band_id] program_id)"

section \<open>Reading token state\<close>

definition read_mint_decimals :: "env \<Rightarrow> world \<Rightarrow> account_info \<Rightarrow> (u8, liquidity_error) res" where
  "read_mint_decimals e w i =
     and_then (map_err (\<lambda>_. InvalidPoolMint) (unpack_mint e (data (acct w i)))) (\<lambda>m.
     Ok (mint_decimals m))"

definition read_mint_supply :: "env \<Rightarrow> world \<Rightarrow> account_info \<Rightarrow> (u128, liquidity_error) res" where
  "read_mint_supply e w i =
     and_then (map_err (\<lambda>_. InvalidPoolMint) (unpack_mint e (data (acct w i)))) (\<lambda>m.
     Ok (widen (mint_supply m)))"

definition read_token_amount :: "env \<Rightarrow> world \<Rightarrow> account_info \<Rightarrow> (u128, liquidity_error) res" where
  "read_token_amount e w i =
     and_then (ok_or (unpack_token_account e (data (acct w i))) InvalidVault) (\<lambda>t.
     Ok (widen (token_amount t)))"

definition read_token_owner :: "env \<Rightarrow> world \<Rightarrow> account_info \<Rightarrow> (pubkey, liquidity_error) res" where
  "read_token_owner e w i =
     and_then (ok_or (unpack_token_account e (data (acct w i))) InvalidFeeRecipient) (\<lambda>t.
     Ok (token_owner t))"

section \<open>Loading the program's accounts\<close>

text \<open>The block \<open>T::try_from_slice(&data).map_err(|_| AccountDataTooSmall)?\<close> followed
  by the discriminator test, which opens every handler.\<close>

definition load_pool :: "world \<Rightarrow> account_info \<Rightarrow> (pool, program_error) res" where
  "load_pool w i =
     and_then (ok_or (pool_try_from_slice (data (acct w i))) (lerr AccountDataTooSmall)) (\<lambda>p.
     if \<not> pool_is_initialized p then Err (lerr NotInitialized) else Ok p)"

definition load_loan :: "world \<Rightarrow> account_info \<Rightarrow> (loan, program_error) res" where
  "load_loan w i = ok_or (loan_try_from_slice (data (acct w i))) (lerr AccountDataTooSmall)"

definition load_band :: "world \<Rightarrow> account_info \<Rightarrow> (loan_index_band, program_error) res" where
  "load_band w i =
     ok_or (loan_index_band_try_from_slice (data (acct w i))) (lerr AccountDataTooSmall)"

text \<open>The seeds the pool signs with.\<close>

definition pool_signer_seeds :: "pool \<Rightarrow> bytes list" where
  "pool_signer_seeds p = [POOL_SEED, put_key (mint_a p), put_key (mint_b p), [pool_bump p]]"

section \<open>Creating, closing and draining accounts\<close>

definition create_pda_account ::
  "env \<Rightarrow> account_info \<Rightarrow> account_info \<Rightarrow> account_info \<Rightarrow> nat \<Rightarrow> pubkey \<Rightarrow> bytes list \<Rightarrow> rent_t \<Rightarrow>
   world \<Rightarrow> (world, program_error) res" where
  "create_pda_account e payer target system_program_info space own signer_seeds rent w =
     (let required = rent space; current = lamports (acct w target) in
      if current = 0 then
        invoke_signed e (CreateAccount (key payer) (key target) required (of_nat space) own)
          [payer, target, system_program_info] [signer_seeds] w
      else if owner (acct w target) \<noteq> system_program_id e \<or> \<not> data_is_empty w target then
        Err (lerr AlreadyInitialized)
      else
        let missing = saturating_sub required current in
        and_then (if 0 < missing
                  then invoke e (SysTransfer (key payer) (key target) missing)
                         [payer, target, system_program_info] w
                  else Ok w) (\<lambda>w.
        and_then (invoke_signed e (Allocate (key target) (of_nat space))
                    [target, system_program_info] [signer_seeds] w) (\<lambda>w.
        invoke_signed e (Assign (key target) own)
          [target, system_program_info] [signer_seeds] w)))"

definition is_zeroed_program_account :: "world \<Rightarrow> account_info \<Rightarrow> pubkey \<Rightarrow> nat \<Rightarrow> bool" where
  "is_zeroed_program_account w i program_id len =
     (if owner (acct w i) \<noteq> program_id \<or> length (data (acct w i)) \<noteq> len then False
      else list_all (\<lambda>b. b = 0) (data (acct w i)))"

definition close_account :: "account_info \<Rightarrow> account_info \<Rightarrow> world \<Rightarrow> (world, program_error) res" where
  "close_account account_i dest w =
     (let n = lamports (acct w account_i); w = put_lamports account_i 0 w in
      and_then (ok_or (checked_add (lamports (acct w dest)) n) (lerr MathOverflow)) (\<lambda>total.
      let w = put_lamports dest total w in
      Ok (put_data account_i (map (\<lambda>_. 0) (data (acct w account_i))) w)))"

definition drain :: "account_info \<Rightarrow> account_info \<Rightarrow> world \<Rightarrow> (world, program_error) res" where
  "drain account_i dest w =
     (let n = lamports (acct w account_i) in
      if n = 0 then Ok w
      else
        let w = put_lamports account_i 0 w in
        and_then (ok_or (checked_add (lamports (acct w dest)) n) (lerr MathOverflow)) (\<lambda>total.
        Ok (put_lamports dest total w)))"

section \<open>What the pool handlers share\<close>

text \<open>The accounts that \<open>AddLiquidity\<close>, \<open>RemoveLiquidity\<close>, \<open>OpenLoan\<close>,
  \<open>RepayLoan\<close> and \<open>Swap\<close> all take (in different positions); \<open>user_info\<close> is
  the \<open>borrower_info\<close> of the loan handlers.\<close>

record pool_accounts =
  pool_info :: account_info
  vault_a_info :: account_info
  vault_b_info :: account_info
  user_a_info :: account_info
  user_b_info :: account_info
  mint_a_info :: account_info
  mint_b_info :: account_info
  user_info :: account_info
  token_program_a_info :: account_info
  token_program_b_info :: account_info

definition check_signer_and_token_programs ::
  "env \<Rightarrow> world \<Rightarrow> pool_accounts \<Rightarrow> (unit, program_error) res" where
  "check_signer_and_token_programs e w a =
     (if \<not> is_signer (user_info a) then Err (lerr MissingRequiredSigner)
      else
      and_then (into (validate_token_program_for_mint e w (token_program_a_info a) (mint_a_info a))) (\<lambda>_.
      into (validate_token_program_for_mint e w (token_program_b_info a) (mint_b_info a))))"

definition pool_keys_match :: "pool \<Rightarrow> pool_accounts \<Rightarrow> bool" where
  "pool_keys_match p a \<longleftrightarrow>
     vault_a p = key (vault_a_info a) \<and> vault_b p = key (vault_b_info a) \<and>
     mint_a p = key (mint_a_info a) \<and> mint_b p = key (mint_b_info a)"

definition transfer_checked ::
  "env \<Rightarrow> account_info \<Rightarrow> account_info \<Rightarrow> account_info \<Rightarrow> account_info \<Rightarrow> account_info \<Rightarrow> u64 \<Rightarrow> u8 \<Rightarrow>
   bytes list list \<Rightarrow> world \<Rightarrow> (world, program_error) res" where
  "transfer_checked e prog src mint_i dst auth amount dec seeds w =
     invoke_signed e (TransferChecked (key prog) (key src) (key mint_i) (key dst) (key auth) amount dec)
       [src, mint_i, dst, auth] seeds w"

section \<open>Frame lemmas\<close>

lemma acct_put_data:
  "acct (put_data i bs w) j = (if key j = key i then (acct w i)\<lparr>data := bs\<rparr> else acct w j)"
  by (simp add: acct_def put_data_def)

lemma acct_put_lamports:
  "acct (put_lamports i n w) j = (if key j = key i then (acct w i)\<lparr>lamports := n\<rparr> else acct w j)"
  by (simp add: acct_def put_lamports_def)

lemma acct_sol_log_data [simp]: "acct (sol_log_data x w) i = acct w i"
  by (simp add: acct_def sol_log_data_def)

lemma log_simps [simp]:
  "log (put_data i bs w) = log w" "log (put_lamports i n w) = log w"
  "log (sol_log_data x w) = log w @ [x]" "ledger (sol_log_data x w) = ledger w"
  by (simp_all add: put_data_def put_lamports_def sol_log_data_def)

lemma acct_data_key [simp]:
  "key j = key i \<Longrightarrow> data (acct (put_data i bs w) j) = bs"
  "key j \<noteq> key i \<Longrightarrow> acct (put_data i bs w) j = acct w j"
  by (simp_all add: acct_put_data)

lemma serialize_into_Ok_iff [simp]:
  "serialize_into enc i w = Ok w' \<longleftrightarrow>
     length enc \<le> length (data (acct w i)) \<and>
     w' = put_data i (enc @ drop (length enc) (data (acct w i))) w"
  by (auto simp: serialize_into_def)

lemma invoke_signed_Ok_iff:
  "invoke_signed e c infos seeds w = Ok w' \<longleftrightarrow>
     (\<exists>l. cpi_invoke e c infos seeds (ledger w) = Ok l \<and> w' = w\<lparr>ledger := l\<rparr>)"
  by (auto simp: invoke_signed_def)

lemma load_pool_Ok_iff:
  "load_pool w i = Ok p \<longleftrightarrow>
     pool_wf p \<and> data (acct w i) = pool_bytes p \<and> pool_is_initialized p"
  by (auto simp: load_pool_def pool_try_from_slice_Some split: if_splits)

lemma load_loan_Ok_iff:
  "load_loan w i = Ok l \<longleftrightarrow> loan_wf l \<and> data (acct w i) = loan_bytes l"
  by (simp add: load_loan_def loan_try_from_slice_Some)

lemma load_band_Ok_iff:
  "load_band w i = Ok b \<longleftrightarrow> loan_index_band_wf b \<and> data (acct w i) = loan_index_band_bytes b"
  by (simp add: load_band_def loan_index_band_try_from_slice_Some)

text \<open>Loading what was stored: an account that held a pool, a loan or a band holds exactly the
  new value after it is written back.\<close>

lemma store_pool:
  "load_pool w i = Ok p \<Longrightarrow> pool_wf q \<Longrightarrow>
   serialize_into (pool_bytes q) i w = Ok (put_data i (pool_bytes q) w)"
  by (simp add: serialize_into_def load_pool_Ok_iff pool_codec.dec_enc pool_codec.overwrite
      del: write_slice_Ok_iff)

lemma store_loan:
  "load_loan w i = Ok p \<Longrightarrow> loan_wf q \<Longrightarrow>
   serialize_into (loan_bytes q) i w = Ok (put_data i (loan_bytes q) w)"
  by (simp add: serialize_into_def load_loan_Ok_iff loan_codec.dec_enc loan_codec.overwrite
      del: write_slice_Ok_iff)

lemma store_band:
  "load_band w i = Ok p \<Longrightarrow> loan_index_band_wf q \<Longrightarrow>
   serialize_into (loan_index_band_bytes q) i w = Ok (put_data i (loan_index_band_bytes q) w)"
  by (simp add: serialize_into_def load_band_Ok_iff band_codec.dec_enc band_codec.overwrite
      del: write_slice_Ok_iff)

lemma check_signer_and_token_programs_Ok_iff:
  "check_signer_and_token_programs e w a = Ok u \<longleftrightarrow>
     is_signer (user_info a) \<and>
     is_valid_token_program e (key (token_program_a_info a)) \<and>
     key (token_program_a_info a) = owner (acct w (mint_a_info a)) \<and>
     is_valid_token_program e (key (token_program_b_info a)) \<and>
     key (token_program_b_info a) = owner (acct w (mint_b_info a))"
  by (auto simp: check_signer_and_token_programs_def validate_token_program_for_mint_def
      split: if_splits)

section \<open>What the handlers rely on of the token programs\<close>

text \<open>The documented effect of a successful \<open>TransferChecked\<close> of a mint without a
  transfer fee: source and destination are token accounts of that mint, the source holds the
  amount, exactly the amount moves, and no other account is touched.\<close>

definition transfer_law :: "env \<Rightarrow> pubkey \<Rightarrow> bool" where
  "transfer_law e m \<longleftrightarrow>
     (\<forall>prog src dst auth amount dec infos seeds l l'.
        cpi_invoke e (TransferChecked prog src m dst auth amount dec) infos seeds l = Ok l' \<longrightarrow>
        (\<exists>s d. unpack_token_account e (data (l src)) = Some s \<and>
               unpack_token_account e (data (l dst)) = Some d \<and>
               token_mint s = m \<and> token_mint d = m \<and>
               unat amount \<le> unat (token_amount s) \<and>
               (src = dst \<longrightarrow> l' = l) \<and>
               (src \<noteq> dst \<longrightarrow>
                  unat (token_amount d) + unat amount < 2 ^ 64 \<and>
                  unpack_token_account e (data (l' src)) =
                    Some (s\<lparr>token_amount := token_amount s - amount\<rparr>) \<and>
                  unpack_token_account e (data (l' dst)) =
                    Some (d\<lparr>token_amount := token_amount d + amount\<rparr>) \<and>
                  (\<forall>k. k \<noteq> src \<longrightarrow> k \<noteq> dst \<longrightarrow> l' k = l k))))"

text \<open>The amount a token account holds, as a number.\<close>

definition balance :: "env \<Rightarrow> world \<Rightarrow> pubkey \<Rightarrow> nat option" where
  "balance e w k = map_option (\<lambda>t. unat (token_amount t)) (unpack_token_account e (data (ledger w k)))"

lemma read_token_amount_Ok_iff:
  "read_token_amount e w i = Ok x \<longleftrightarrow> balance e w (key i) = Some (unat x)"
  by (auto simp: read_token_amount_def balance_def acct_def word_eq_unat)

lemma balance_fits: "balance e w k = Some n \<Longrightarrow> n < 2 ^ 64"
  by (auto simp: balance_def u64_lt [simplified])

lemma transfer_checked_balances:
  assumes "transfer_law e (key mint_i)"
    and "transfer_checked e prog src mint_i dst auth amount dec seeds w = Ok w'"
    and "key src \<noteq> key dst"
  shows "\<exists>s d. balance e w (key src) = Some s \<and> balance e w (key dst) = Some d \<and>
           unat amount \<le> s \<and>
           balance e w' (key src) = Some (s - unat amount) \<and>
           balance e w' (key dst) = Some (d + unat amount) \<and>
           (\<forall>k. k \<noteq> key src \<longrightarrow> k \<noteq> key dst \<longrightarrow> ledger w' k = ledger w k) \<and>
           log w' = log w"
proof -
  from assms(2) obtain l where
    l: "cpi_invoke e (TransferChecked (key prog) (key src) (key mint_i) (key dst) (key auth) amount dec)
          [src, mint_i, dst, auth] seeds (ledger w) = Ok l"
    and w': "w' = w\<lparr>ledger := l\<rparr>"
    by (auto simp: transfer_checked_def invoke_signed_Ok_iff)
  from assms(1,3) l obtain s d where
    sd: "unpack_token_account e (data (ledger w (key src))) = Some s"
    "unpack_token_account e (data (ledger w (key dst))) = Some d"
    and le: "unat amount \<le> unat (token_amount s)"
    and fits: "unat (token_amount d) + unat amount < 2 ^ 64"
    and sd': "unpack_token_account e (data (l (key src))) = Some (s\<lparr>token_amount := token_amount s - amount\<rparr>)"
    "unpack_token_account e (data (l (key dst))) = Some (d\<lparr>token_amount := token_amount d + amount\<rparr>)"
    and frame: "\<forall>k. k \<noteq> key src \<longrightarrow> k \<noteq> key dst \<longrightarrow> l k = ledger w k"
    unfolding transfer_law_def by meson
  have "unat (token_amount s - amount) = unat (token_amount s) - unat amount"
    using le by (simp add: unat_sub word_le_nat_alt)
  moreover have "unat (token_amount d + amount) = unat (token_amount d) + unat amount"
    using fits by (simp add: unat_plus_fits)
  ultimately show ?thesis
    using sd sd' le frame by (simp add: balance_def w')
qed

end
