(* ===== verification/Events.thy ===== *)
theory Events
  imports Runtime
begin

text \<open>
  \<open>events.rs\<close>: the nine log events. An event is one constructor with the fields of its
  struct in order; \<open>event_discriminator\<close>, \<open>event_payload\<close> and \<open>emit\<close> are the
  trait \<open>Event\<close>, and \<open>decode_event\<close> is what the file's header says an off-chain
  consumer does: read eight bytes, pick the struct, borsh-decode the rest.
\<close>

datatype event =
    PoolInitialized pubkey pubkey pubkey pubkey u16 u16 u16 u16 u16 u16 u16 u16
      \<comment> \<open>pool, mint_a, mint_b, authority, swap_fee_bps, protocol_fee_bps, liq_ratio_bps, max_ltv_bps, interest_base_bps_per_year, interest_slope1_bps_per_year, interest_slope2_bps_per_year, interest_kink_bps\<close>
  | LiquidityAdded pubkey pubkey u64 u64 u64
      \<comment> \<open>pool, user, amount_a_in, amount_b_in, lp_minted\<close>
  | LiquidityRemoved pubkey pubkey u64 u64 u64
      \<comment> \<open>pool, user, lp_burned, amount_a_out, amount_b_out\<close>
  | LoanOpened pubkey pubkey pubkey u64 u8 u64 u64 u32 u8 u128
      \<comment> \<open>pool, loan, borrower, nonce, sides, collateral_amount, debt_amount, band_id, trigger_direction, trigger_price_wad\<close>
  | LoanRepaid pubkey pubkey pubkey u128 u64
      \<comment> \<open>pool, loan, borrower, debt_principal, total_owed\<close>
  | LoanLiquidated pubkey pubkey pubkey u8 u128 u128 u128
      \<comment> \<open>pool, loan, borrower, sides, collateral_amount, debt_principal, trigger_price_wad\<close>
  | SwapExecuted pubkey pubkey bool u64 u64 u32 u64
      \<comment> \<open>pool, user, a_to_b, amount_in, amount_out, liquidations, protocol_fee\<close>
  | ProtocolFeesClaimed pubkey pubkey u64 u64
      \<comment> \<open>pool, recipient, amount_a, amount_b\<close>
  | LiquidatedRentClaimed pubkey pubkey pubkey
      \<comment> \<open>pool, loan, borrower\<close>

fun event_discriminator :: "event \<Rightarrow> bytes" where
  "event_discriminator (PoolInitialized _ _ _ _ _ _ _ _ _ _ _ _) = [0xe1, 0x9a, 0x4c, 0x77, 0x20, 0xb3, 0x5d, 0x08]"
| "event_discriminator (LiquidityAdded _ _ _ _ _) = [0xe2, 0x3f, 0x81, 0x12, 0xc6, 0x4a, 0x9e, 0x55]"
| "event_discriminator (LiquidityRemoved _ _ _ _ _) = [0xe3, 0x6b, 0x2d, 0xf0, 0x18, 0x97, 0x44, 0xa1]"
| "event_discriminator (LoanOpened _ _ _ _ _ _ _ _ _ _) = [0xe4, 0x52, 0xc8, 0x0d, 0x73, 0x1f, 0xb6, 0x9c]"
| "event_discriminator (LoanRepaid _ _ _ _ _) = [0xe5, 0x88, 0x14, 0x6e, 0xab, 0x30, 0x5f, 0xd2]"
| "event_discriminator (LoanLiquidated _ _ _ _ _ _ _) = [0xe6, 0x71, 0xae, 0x39, 0x02, 0xcd, 0x8b, 0x47]"
| "event_discriminator (SwapExecuted _ _ _ _ _ _ _) = [0xe7, 0x4d, 0x9f, 0x60, 0xb8, 0x15, 0x2a, 0xe3]"
| "event_discriminator (ProtocolFeesClaimed _ _ _ _) = [0xe8, 0x26, 0x53, 0xca, 0x7c, 0x91, 0x0e, 0xbf]"
| "event_discriminator (LiquidatedRentClaimed _ _ _) = [0xea, 0x5c, 0x08, 0x93, 0xe1, 0x47, 0xba, 0x2d]"

fun event_payload :: "event \<Rightarrow> bytes" where
  "event_payload (PoolInitialized x0 x1 x2 x3 x4 x5 x6 x7 x8 x9 x10 x11) =
     put_key x0 @ put_key x1 @ put_key x2 @ put_key x3 @ put_word 2 x4 @ put_word 2 x5 @ put_word 2 x6 @ put_word 2 x7 @ put_word 2 x8 @ put_word 2 x9 @ put_word 2 x10 @ put_word 2 x11"
| "event_payload (LiquidityAdded x0 x1 x2 x3 x4) =
     put_key x0 @ put_key x1 @ put_word 8 x2 @ put_word 8 x3 @ put_word 8 x4"
| "event_payload (LiquidityRemoved x0 x1 x2 x3 x4) =
     put_key x0 @ put_key x1 @ put_word 8 x2 @ put_word 8 x3 @ put_word 8 x4"
| "event_payload (LoanOpened x0 x1 x2 x3 x4 x5 x6 x7 x8 x9) =
     put_key x0 @ put_key x1 @ put_key x2 @ put_word 8 x3 @ put_word 1 x4 @ put_word 8 x5 @ put_word 8 x6 @ put_word 4 x7 @ put_word 1 x8 @ put_word 16 x9"
| "event_payload (LoanRepaid x0 x1 x2 x3 x4) =
     put_key x0 @ put_key x1 @ put_key x2 @ put_word 16 x3 @ put_word 8 x4"
| "event_payload (LoanLiquidated x0 x1 x2 x3 x4 x5 x6) =
     put_key x0 @ put_key x1 @ put_key x2 @ put_word 1 x3 @ put_word 16 x4 @ put_word 16 x5 @ put_word 16 x6"
| "event_payload (SwapExecuted x0 x1 x2 x3 x4 x5 x6) =
     put_key x0 @ put_key x1 @ put_bool x2 @ put_word 8 x3 @ put_word 8 x4 @ put_word 4 x5 @ put_word 8 x6"
| "event_payload (ProtocolFeesClaimed x0 x1 x2 x3) =
     put_key x0 @ put_key x1 @ put_word 8 x2 @ put_word 8 x3"
| "event_payload (LiquidatedRentClaimed x0 x1 x2) =
     put_key x0 @ put_key x1 @ put_key x2"

definition event_bytes :: "event \<Rightarrow> bytes" where
  "event_bytes ev = event_discriminator ev @ event_payload ev"

text \<open>Serialising into a \<open>Vec\<close> does not fail, so \<open>emit\<close> always logs.\<close>

definition emit :: "event \<Rightarrow> world \<Rightarrow> world" where
  "emit ev w = sol_log_data (event_bytes ev) w"

section \<open>Decoding\<close>

definition get_PoolInitialized :: "bytes \<Rightarrow> (event \<times> bytes) option" where
  "get_PoolInitialized bs = do {
     (x0, bs) \<leftarrow> get_key bs;
     (x1, bs) \<leftarrow> get_key bs;
     (x2, bs) \<leftarrow> get_key bs;
     (x3, bs) \<leftarrow> get_key bs;
     (x4, bs) \<leftarrow> get_word 2 bs;
     (x5, bs) \<leftarrow> get_word 2 bs;
     (x6, bs) \<leftarrow> get_word 2 bs;
     (x7, bs) \<leftarrow> get_word 2 bs;
     (x8, bs) \<leftarrow> get_word 2 bs;
     (x9, bs) \<leftarrow> get_word 2 bs;
     (x10, bs) \<leftarrow> get_word 2 bs;
     (x11, bs) \<leftarrow> get_word 2 bs;
     Some (PoolInitialized x0 x1 x2 x3 x4 x5 x6 x7 x8 x9 x10 x11, bs) }"

definition get_LiquidityAdded :: "bytes \<Rightarrow> (event \<times> bytes) option" where
  "get_LiquidityAdded bs = do {
     (x0, bs) \<leftarrow> get_key bs;
     (x1, bs) \<leftarrow> get_key bs;
     (x2, bs) \<leftarrow> get_word 8 bs;
     (x3, bs) \<leftarrow> get_word 8 bs;
     (x4, bs) \<leftarrow> get_word 8 bs;
     Some (LiquidityAdded x0 x1 x2 x3 x4, bs) }"

definition get_LiquidityRemoved :: "bytes \<Rightarrow> (event \<times> bytes) option" where
  "get_LiquidityRemoved bs = do {
     (x0, bs) \<leftarrow> get_key bs;
     (x1, bs) \<leftarrow> get_key bs;
     (x2, bs) \<leftarrow> get_word 8 bs;
     (x3, bs) \<leftarrow> get_word 8 bs;
     (x4, bs) \<leftarrow> get_word 8 bs;
     Some (LiquidityRemoved x0 x1 x2 x3 x4, bs) }"

definition get_LoanOpened :: "bytes \<Rightarrow> (event \<times> bytes) option" where
  "get_LoanOpened bs = do {
     (x0, bs) \<leftarrow> get_key bs;
     (x1, bs) \<leftarrow> get_key bs;
     (x2, bs) \<leftarrow> get_key bs;
     (x3, bs) \<leftarrow> get_word 8 bs;
     (x4, bs) \<leftarrow> get_word 1 bs;
     (x5, bs) \<leftarrow> get_word 8 bs;
     (x6, bs) \<leftarrow> get_word 8 bs;
     (x7, bs) \<leftarrow> get_word 4 bs;
     (x8, bs) \<leftarrow> get_word 1 bs;
     (x9, bs) \<leftarrow> get_word 16 bs;
     Some (LoanOpened x0 x1 x2 x3 x4 x5 x6 x7 x8 x9, bs) }"

definition get_LoanRepaid :: "bytes \<Rightarrow> (event \<times> bytes) option" where
  "get_LoanRepaid bs = do {
     (x0, bs) \<leftarrow> get_key bs;
     (x1, bs) \<leftarrow> get_key bs;
     (x2, bs) \<leftarrow> get_key bs;
     (x3, bs) \<leftarrow> get_word 16 bs;
     (x4, bs) \<leftarrow> get_word 8 bs;
     Some (LoanRepaid x0 x1 x2 x3 x4, bs) }"

definition get_LoanLiquidated :: "bytes \<Rightarrow> (event \<times> bytes) option" where
  "get_LoanLiquidated bs = do {
     (x0, bs) \<leftarrow> get_key bs;
     (x1, bs) \<leftarrow> get_key bs;
     (x2, bs) \<leftarrow> get_key bs;
     (x3, bs) \<leftarrow> get_word 1 bs;
     (x4, bs) \<leftarrow> get_word 16 bs;
     (x5, bs) \<leftarrow> get_word 16 bs;
     (x6, bs) \<leftarrow> get_word 16 bs;
     Some (LoanLiquidated x0 x1 x2 x3 x4 x5 x6, bs) }"

definition get_SwapExecuted :: "bytes \<Rightarrow> (event \<times> bytes) option" where
  "get_SwapExecuted bs = do {
     (x0, bs) \<leftarrow> get_key bs;
     (x1, bs) \<leftarrow> get_key bs;
     (x2, bs) \<leftarrow> get_bool bs;
     (x3, bs) \<leftarrow> get_word 8 bs;
     (x4, bs) \<leftarrow> get_word 8 bs;
     (x5, bs) \<leftarrow> get_word 4 bs;
     (x6, bs) \<leftarrow> get_word 8 bs;
     Some (SwapExecuted x0 x1 x2 x3 x4 x5 x6, bs) }"

definition get_ProtocolFeesClaimed :: "bytes \<Rightarrow> (event \<times> bytes) option" where
  "get_ProtocolFeesClaimed bs = do {
     (x0, bs) \<leftarrow> get_key bs;
     (x1, bs) \<leftarrow> get_key bs;
     (x2, bs) \<leftarrow> get_word 8 bs;
     (x3, bs) \<leftarrow> get_word 8 bs;
     Some (ProtocolFeesClaimed x0 x1 x2 x3, bs) }"

definition get_LiquidatedRentClaimed :: "bytes \<Rightarrow> (event \<times> bytes) option" where
  "get_LiquidatedRentClaimed bs = do {
     (x0, bs) \<leftarrow> get_key bs;
     (x1, bs) \<leftarrow> get_key bs;
     (x2, bs) \<leftarrow> get_key bs;
     Some (LiquidatedRentClaimed x0 x1 x2, bs) }"

definition decode_event :: "bytes \<Rightarrow> event option" where
  "decode_event bs = do {
     (d, payload) \<leftarrow> get_bytes 8 bs;
     if d = [0xe1, 0x9a, 0x4c, 0x77, 0x20, 0xb3, 0x5d, 0x08] then from_slice get_PoolInitialized payload
     else if d = [0xe2, 0x3f, 0x81, 0x12, 0xc6, 0x4a, 0x9e, 0x55] then from_slice get_LiquidityAdded payload
     else if d = [0xe3, 0x6b, 0x2d, 0xf0, 0x18, 0x97, 0x44, 0xa1] then from_slice get_LiquidityRemoved payload
     else if d = [0xe4, 0x52, 0xc8, 0x0d, 0x73, 0x1f, 0xb6, 0x9c] then from_slice get_LoanOpened payload
     else if d = [0xe5, 0x88, 0x14, 0x6e, 0xab, 0x30, 0x5f, 0xd2] then from_slice get_LoanRepaid payload
     else if d = [0xe6, 0x71, 0xae, 0x39, 0x02, 0xcd, 0x8b, 0x47] then from_slice get_LoanLiquidated payload
     else if d = [0xe7, 0x4d, 0x9f, 0x60, 0xb8, 0x15, 0x2a, 0xe3] then from_slice get_SwapExecuted payload
     else if d = [0xe8, 0x26, 0x53, 0xca, 0x7c, 0x91, 0x0e, 0xbf] then from_slice get_ProtocolFeesClaimed payload
     else if d = [0xea, 0x5c, 0x08, 0x93, 0xe1, 0x47, 0xba, 0x2d] then from_slice get_LiquidatedRentClaimed payload
     else None }"

lemmas get_event_defs =
  get_PoolInitialized_def get_LiquidityAdded_def get_LiquidityRemoved_def get_LoanOpened_def get_LoanRepaid_def get_LoanLiquidated_def get_SwapExecuted_def get_ProtocolFeesClaimed_def get_LiquidatedRentClaimed_def

lemma length_event_discriminator [simp]: "length (event_discriminator ev) = 8"
  by (cases ev) simp_all

lemma get_bytes_discriminator [simp]:
  "get_bytes 8 (event_discriminator ev @ r) = Some (event_discriminator ev, r)"
  by simp

text \<open>The last field of a payload is read from exactly its own bytes.\<close>

lemma get_last [simp]:
  "LENGTH('a) = 8 * n \<Longrightarrow> get_word n (put_word n x) = Some (x :: 'a::len word, [])"
  "get_key (put_key k) = Some (k, [])"
  using get_word_put [of n x "[]"] get_key_put [of k "[]"] by simp_all

lemma decode_event_bytes: "decode_event (event_bytes ev) = Some ev"
  by (cases ev)
    (simp_all add: decode_event_def event_bytes_def get_bytes_def from_slice_def get_event_defs)

lemma log_emit [simp]: "log (emit ev w) = log w @ [event_bytes ev]"
  by (simp add: emit_def)

lemma acct_emit [simp]: "acct (emit ev w) i = acct w i"
  by (simp add: emit_def)

lemma ledger_emit [simp]: "ledger (emit ev w) = ledger w"
  by (simp add: emit_def)

end
