(* ===== verification/Open_Loan.thy ===== *)
theory Open_Loan
  imports Events
begin

text \<open>
  \<open>instructions/open_loan.rs\<close>, cut where the handler's own comments cut it: the terms of
  the loan (trigger, LTV at the spot and at the reference price, coverage), the allocation of
  the loan and band accounts, the stored loan and band, the transfers and the pool's books.
\<close>

section \<open>Terms\<close>

text \<open>The spot and the reference price as the fractions \<open>ltv_bps\<close> takes.\<close>

definition loan_prices ::
  "loan_sides \<Rightarrow> u128 \<Rightarrow> u128 \<Rightarrow> u128 \<Rightarrow> (u128 \<times> u128) \<times> (u128 \<times> u128)" where
  "loan_prices sides accounted_a accounted_b ref_price =
     (case sides of
        CollateralA \<Rightarrow> ((accounted_a, accounted_b), (WAD, ref_price))
      | CollateralB \<Rightarrow> ((accounted_b, accounted_a), (ref_price, WAD)))"

text \<open>The checks on a loan against a pool whose indexes are up to date.\<close>

definition loan_terms ::
  "pool \<Rightarrow> u128 \<Rightarrow> u128 \<Rightarrow> u64 \<Rightarrow> loan_sides \<Rightarrow> u64 \<Rightarrow> u64 \<Rightarrow> u128 \<Rightarrow> trigger_direction \<Rightarrow>
   (unit, liquidity_error) res" where
  "loan_terms pool real_a real_b slot sides collateral_amount debt_amount trigger_price dir =
     and_then (accounted pool real_a real_b) (\<lambda>(accounted_a, accounted_b).
     and_then (swappable pool real_a real_b) (\<lambda>(swappable_a, swappable_b).
     if accounted_a = 0 \<or> accounted_b = 0 then Err ZeroReserves
     else
     and_then (price_b_per_a_wad accounted_a accounted_b) (\<lambda>spot_price.
     and_then (ref_price_at pool spot_price slot) (\<lambda>ref_price.
     case loan_prices sides accounted_a accounted_b ref_price of
       ((spot_num, spot_den), (ref_num, ref_den)) \<Rightarrow>
     and_then (ltv_bps (widen debt_amount) (widen collateral_amount) spot_num spot_den) (\<lambda>spot_ltv.
     and_then (ltv_bps (widen debt_amount) (widen collateral_amount) ref_num ref_den) (\<lambda>ref_ltv.
     if widen (max_ltv_bps pool) < max spot_ltv ref_ltv then Err LtvExceedsMax
     else if is_liquidatable trigger_price dir spot_price then Err LtvExceedsMax
     else
     let debt_swappable = (case sides of CollateralA \<Rightarrow> swappable_b | CollateralB \<Rightarrow> swappable_a) in
     if debt_swappable < widen debt_amount then Err InsufficientExecutableLiquidity
     else Ok ()))))))"

definition open_loan_terms ::
  "env \<Rightarrow> pool_accounts \<Rightarrow> u8 \<Rightarrow> u64 \<Rightarrow> u64 \<Rightarrow> pool \<Rightarrow> world \<Rightarrow>
   (pool \<times> loan_sides \<times> u128 \<times> trigger_direction, program_error) res" where
  "open_loan_terms e a sides_byte collateral_amount debt_amount pool w =
     and_then (into (loan_sides_from_u8 sides_byte)) (\<lambda>sides.
     and_then (clock_get e) (\<lambda>slot.
     and_then (into (read_token_amount e w (vault_a_info a))) (\<lambda>pre_real_a.
     and_then (into (read_token_amount e w (vault_b_info a))) (\<lambda>pre_real_b.
     and_then (into (bump_indexes pool pre_real_a pre_real_b slot)) (\<lambda>pool.
     and_then (into (recompute_trigger sides (widen collateral_amount) (widen debt_amount)
                       (liq_ratio_bps pool))) (\<lambda>(trigger_price, dir).
     and_then (into (read_token_amount e w (vault_a_info a))) (\<lambda>real_a.
     and_then (into (read_token_amount e w (vault_b_info a))) (\<lambda>real_b.
     and_then (into (loan_terms pool real_a real_b slot sides collateral_amount debt_amount
                       trigger_price dir)) (\<lambda>_.
     Ok (pool, sides, trigger_price, dir))))))))))"

section \<open>Accounts of the loan\<close>

definition new_band :: "pubkey \<Rightarrow> u32 \<Rightarrow> u8 \<Rightarrow> u8 \<Rightarrow> loan_index_band" where
  "new_band pool_key band_id dir_byte bump =
     \<lparr>band_discriminator = LOAN_INDEX_BAND_DISCRIMINATOR, band_pool = pool_key,
      band_band_id = band_id, band_direction = dir_byte, band_bump = bump,
      band_pad = replicate 2 0, band_count = 0, band_pad2 = replicate 4 0,
      band_reserved = replicate 32 0\<rparr>"

text \<open>Band on first use: created, re-initialised in place when zeroed, or live already.\<close>

definition open_loan_allocate_band ::
  "env \<Rightarrow> pubkey \<Rightarrow> pool_accounts \<Rightarrow> account_info \<Rightarrow> account_info \<Rightarrow> u32 \<Rightarrow> u8 \<Rightarrow> u8 \<Rightarrow> rent_t \<Rightarrow> world \<Rightarrow>
   (world, program_error) res" where
  "open_loan_allocate_band e program_id a band_info system_program_info band_id dir_byte bump rent w =
     (let band_seeds = [BAND_SEED, put_key (key (pool_info a)), [dir_byte], put_word 4 band_id, [bump]];
          band_is_new = data_is_empty w band_info;
          band_is_zeroed = \<not> band_is_new \<and>
            is_zeroed_program_account w band_info program_id LOAN_INDEX_BAND_LEN in
      and_then
        (if band_is_new then
           create_pda_account e (user_info a) band_info system_program_info LOAN_INDEX_BAND_LEN
             program_id band_seeds rent w
         else if band_is_zeroed then
           let missing = saturating_sub (rent LOAN_INDEX_BAND_LEN) (lamports (acct w band_info)) in
           if 0 < missing then
             invoke e (SysTransfer (key (user_info a)) (key band_info) missing)
               [user_info a, band_info, system_program_info] w
           else Ok w
         else Ok w) (\<lambda>w.
      if band_is_new \<or> band_is_zeroed then
        serialize_into (loan_index_band_bytes (new_band (key (pool_info a)) band_id dir_byte bump))
          band_info w
      else Ok w))"

text \<open>Address checks, allocation of loan and band, the band's membership test and the presence
  bit. Returns the loan's bump, the band id, the loaded band, the pool and the new state.\<close>

definition open_loan_allocate ::
  "env \<Rightarrow> pubkey \<Rightarrow> pool_accounts \<Rightarrow> account_info \<Rightarrow> account_info \<Rightarrow> account_info \<Rightarrow> u64 \<Rightarrow>
   pool \<Rightarrow> u128 \<Rightarrow> trigger_direction \<Rightarrow> world \<Rightarrow>
   (u8 \<times> u32 \<times> loan_index_band \<times> pool \<times> u64 \<times> world, program_error) res" where
  "open_loan_allocate e program_id a loan_info band_info system_program_info nonce pool trigger_price dir w =
     and_then (loan_derive_pda e (key (pool_info a)) (key (user_info a)) nonce program_id)
       (\<lambda>(expected_loan, bump_loan).
     if key loan_info \<noteq> expected_loan then Err (lerr InvalidPDA)
     else
     and_then (into (band_id_for_trigger trigger_price)) (\<lambda>band_id.
     let dir_byte = direction_byte dir in
     and_then (band_derive_pda e (key (pool_info a)) dir_byte band_id program_id)
       (\<lambda>(expected_band, bump_band).
     if key band_info \<noteq> expected_band then Err (lerr BandMismatch)
     else if \<not> data_is_empty w loan_info then Err (lerr AlreadyInitialized)
     else
     and_then (rent_get e) (\<lambda>rent.
     and_then (clock_get e) (\<lambda>slot.
     and_then (create_pda_account e (user_info a) loan_info system_program_info LOAN_LEN program_id
                 [LOAN_SEED, put_key (key (pool_info a)), put_key (key (user_info a)),
                  put_word 8 nonce, [bump_loan]] rent w) (\<lambda>w.
     and_then (open_loan_allocate_band e program_id a band_info system_program_info band_id dir_byte
                 bump_band rent w) (\<lambda>w.
     and_then (load_band w band_info) (\<lambda>band.
     if \<not> band_is_initialized band \<or> band_pool band \<noteq> key (pool_info a) \<or>
        band_band_id band \<noteq> band_id \<or> band_direction band \<noteq> dir_byte
     then Err (lerr BandMismatch)
     else if MAX_LOANS \<le> band_count band then Err (lerr BandFull)
     else
     and_then (if band_count band = 0
               then into (band_bitmap_mut pool dir_byte (\<lambda>bm. bitmap_set bm band_id))
               else Ok pool) (\<lambda>pool.
     Ok (bump_loan, band_id, band, pool, slot, w))))))))))"

section \<open>Storing the loan, transfers and books\<close>

definition new_loan ::
  "pubkey \<Rightarrow> pubkey \<Rightarrow> u64 \<Rightarrow> u8 \<Rightarrow> u8 \<Rightarrow> u64 \<Rightarrow> u64 \<Rightarrow> u128 \<Rightarrow> u64 \<Rightarrow> u128 \<Rightarrow> u8 \<Rightarrow> u32 \<Rightarrow> loan" where
  "new_loan pool_key borrower_key nonce bump sides_byte collateral_amount debt_amount snapshot slot
     trigger_price dir_byte band_id =
     \<lparr>loan_discriminator = LOAN_DISCRIMINATOR, loan_pool = pool_key, loan_borrower = borrower_key,
      loan_nonce = nonce, loan_bump = bump, loan_sides = sides_byte,
      loan_collateral_amount = widen collateral_amount, loan_debt_principal = widen debt_amount,
      loan_borrow_index_snapshot_wad = snapshot, loan_last_touch_slot = slot,
      loan_trigger_price_wad = trigger_price, loan_trigger_direction = dir_byte,
      loan_status = STATUS_OPEN, loan_status_pad = replicate 6 0, loan_band_id = band_id,
      loan_opened_slot = slot, loan_closed_slot = 0, loan_reserved = replicate 28 0\<rparr>"

definition open_loan_store ::
  "pool_accounts \<Rightarrow> account_info \<Rightarrow> account_info \<Rightarrow> u8 \<Rightarrow> u64 \<Rightarrow> u64 \<Rightarrow> u64 \<Rightarrow> pool \<Rightarrow> u128 \<Rightarrow>
   trigger_direction \<Rightarrow> u8 \<Rightarrow> u32 \<Rightarrow> loan_index_band \<Rightarrow> u64 \<Rightarrow> world \<Rightarrow> (world, program_error) res" where
  "open_loan_store a loan_info band_info sides_byte collateral_amount debt_amount nonce pool
     trigger_price dir bump_loan band_id band slot w =
     and_then (into (borrow_index_for_debt_side pool sides_byte)) (\<lambda>snapshot.
     and_then (serialize_into
                 (loan_bytes (new_loan (key (pool_info a)) (key (user_info a)) nonce bump_loan
                    sides_byte collateral_amount debt_amount snapshot slot trigger_price
                    (direction_byte dir) band_id)) loan_info w) (\<lambda>w.
     and_then (ok_or (checked_add (band_count band) 1) (lerr MathOverflow)) (\<lambda>count.
     serialize_into (loan_index_band_bytes (band\<lparr>band_count := count\<rparr>)) band_info w)))"

definition open_loan_transfers ::
  "env \<Rightarrow> pool_accounts \<Rightarrow> loan_sides \<Rightarrow> u64 \<Rightarrow> u64 \<Rightarrow> pool \<Rightarrow> world \<Rightarrow> (world, program_error) res" where
  "open_loan_transfers e a sides collateral_amount debt_amount pool w =
     and_then (into (read_mint_decimals e w (mint_a_info a))) (\<lambda>mint_a_decimals.
     and_then (into (read_mint_decimals e w (mint_b_info a))) (\<lambda>mint_b_decimals.
     case sides of
       CollateralA \<Rightarrow>
         and_then (transfer_checked e (token_program_a_info a) (user_a_info a) (mint_a_info a)
                     (vault_a_info a) (user_info a) collateral_amount mint_a_decimals [] w) (\<lambda>w.
         transfer_checked e (token_program_b_info a) (vault_b_info a) (mint_b_info a)
           (user_b_info a) (pool_info a) debt_amount mint_b_decimals [pool_signer_seeds pool] w)
     | CollateralB \<Rightarrow>
         and_then (transfer_checked e (token_program_b_info a) (user_b_info a) (mint_b_info a)
                     (vault_b_info a) (user_info a) collateral_amount mint_b_decimals [] w) (\<lambda>w.
         transfer_checked e (token_program_a_info a) (vault_a_info a) (mint_a_info a)
           (user_a_info a) (pool_info a) debt_amount mint_a_decimals [pool_signer_seeds pool] w)))"

definition open_loan_book ::
  "pool \<Rightarrow> loan_sides \<Rightarrow> u64 \<Rightarrow> u64 \<Rightarrow> u64 \<Rightarrow> (pool, liquidity_error) res" where
  "open_loan_book pool sides collateral_amount debt_amount slot =
     and_then (case sides of
         CollateralA \<Rightarrow>
           and_then (ok_or (checked_add (total_collateral_a pool) (widen collateral_amount))
                       MathOverflow) (\<lambda>c.
           and_then (ok_or (checked_add (total_debt_b pool) (widen debt_amount)) MathOverflow) (\<lambda>d.
           Ok (pool\<lparr>total_collateral_a := c, total_debt_b := d\<rparr>)))
       | CollateralB \<Rightarrow>
           and_then (ok_or (checked_add (total_collateral_b pool) (widen collateral_amount))
                       MathOverflow) (\<lambda>c.
           and_then (ok_or (checked_add (total_debt_a pool) (widen debt_amount)) MathOverflow) (\<lambda>d.
           Ok (pool\<lparr>total_collateral_b := c, total_debt_a := d\<rparr>)))) (\<lambda>pool.
     and_then (ok_or (checked_add (open_loans pool) 1) MathOverflow) (\<lambda>n.
     and_then (ok_or (checked_add (next_loan_nonce pool) 1) MathOverflow) (\<lambda>m.
     Ok (pool\<lparr>open_loans := n, next_loan_nonce := m, last_update_slot := slot\<rparr>))))"

section \<open>The handler\<close>

definition loan_handler_accounts :: "account_info list \<Rightarrow> nat \<Rightarrow> pool_accounts" where
  "loan_handler_accounts accounts program_a_pos =
     \<lparr>pool_info = accounts ! 0, vault_a_info = accounts ! 1, vault_b_info = accounts ! 2,
      user_a_info = accounts ! 3, user_b_info = accounts ! 4,
      mint_a_info = accounts ! 5, mint_b_info = accounts ! 6, user_info = accounts ! 7,
      token_program_a_info = accounts ! program_a_pos,
      token_program_b_info = accounts ! Suc program_a_pos\<rparr>"

definition process_open_loan ::
  "env \<Rightarrow> pubkey \<Rightarrow> account_info list \<Rightarrow> u8 \<Rightarrow> u64 \<Rightarrow> u64 \<Rightarrow> u64 \<Rightarrow> world \<Rightarrow> (world, program_error) res" where
  "process_open_loan e program_id accounts sides_byte collateral_amount debt_amount nonce w =
     (if length accounts < 13 then Err PE_NotEnoughAccountKeys
      else
      let a = loan_handler_accounts accounts 11;
          loan_info = accounts ! 8; band_info = accounts ! 9; system_program_info = accounts ! 10 in
      and_then (check_signer_and_token_programs e w a) (\<lambda>_.
      if owner (acct w (pool_info a)) \<noteq> program_id then Err (lerr InvalidAccountOwner)
      else if collateral_amount = 0 \<or> debt_amount = 0 then Err (lerr ZeroAmount)
      else
      and_then (load_pool w (pool_info a)) (\<lambda>pool.
      if \<not> pool_keys_match pool a then Err (lerr InvalidPool)
      else
      and_then (open_loan_terms e a sides_byte collateral_amount debt_amount pool w)
        (\<lambda>(pool, sides, trigger_price, dir).
      and_then (open_loan_allocate e program_id a loan_info band_info system_program_info nonce pool
                  trigger_price dir w) (\<lambda>(bump_loan, band_id, band, pool, slot, w).
      and_then (open_loan_store a loan_info band_info sides_byte collateral_amount debt_amount nonce
                  pool trigger_price dir bump_loan band_id band slot w) (\<lambda>w.
      and_then (open_loan_transfers e a sides collateral_amount debt_amount pool w) (\<lambda>w.
      and_then (into (open_loan_book pool sides collateral_amount debt_amount slot)) (\<lambda>pool.
      and_then (serialize_into (pool_bytes pool) (pool_info a) w) (\<lambda>w.
      Ok (emit (LoanOpened (key (pool_info a)) (key loan_info) (key (user_info a)) nonce sides_byte
                  collateral_amount debt_amount band_id (direction_byte dir) trigger_price)
            w))))))))))"

end
