(* ===== verification/Repay_Loan.thy ===== *)
theory Repay_Loan
  imports Open_Loan
begin

text \<open>
  \<open>instructions/repay_loan.rs\<close>: full repayment. The borrower pays principal and accrued
  interest, gets the collateral back, the loan leaves its band and its account is closed.
\<close>

section \<open>Loading\<close>

definition repay_load ::
  "env \<Rightarrow> pubkey \<Rightarrow> pool_accounts \<Rightarrow> account_info \<Rightarrow> account_info \<Rightarrow> world \<Rightarrow>
   (pool \<times> loan \<times> loan_index_band, program_error) res" where
  "repay_load e program_id a loan_info band_info w =
     and_then (load_pool w (pool_info a)) (\<lambda>pool.
     if \<not> pool_keys_match pool a then Err (lerr InvalidPool)
     else
     and_then (load_loan w loan_info) (\<lambda>loan.
     if \<not> loan_is_initialized loan then Err (lerr NotInitialized)
     else if \<not> is_open loan then Err (lerr LoanNotOpen)
     else if loan_pool loan \<noteq> key (pool_info a) \<or> loan_borrower loan \<noteq> key (user_info a)
     then Err (lerr InvalidPool)
     else
     and_then (load_band w band_info) (\<lambda>band.
     if \<not> band_is_initialized band \<or> band_pool band \<noteq> key (pool_info a) \<or>
        band_band_id band \<noteq> loan_band_id loan \<or> band_direction band \<noteq> loan_trigger_direction loan
     then Err (lerr BandMismatch)
     else
     and_then (band_derive_pda e (key (pool_info a)) (loan_trigger_direction loan)
                 (loan_band_id loan) program_id) (\<lambda>(expected_band, _).
     if expected_band \<noteq> key band_info then Err (lerr InvalidPDA)
     else Ok (pool, loan, band)))))"

section \<open>Amounts and transfers\<close>

text \<open>The pool with its indexes brought up to date, and what is owed at them.\<close>

definition repay_amounts ::
  "pool \<Rightarrow> loan \<Rightarrow> u128 \<Rightarrow> u128 \<Rightarrow> u64 \<Rightarrow> (pool \<times> u64 \<times> loan_sides \<times> u64, liquidity_error) res" where
  "repay_amounts pool loan real_a real_b slot =
     and_then (bump_indexes pool real_a real_b slot) (\<lambda>pool.
     and_then (borrow_index_for_debt_side pool (loan_sides loan)) (\<lambda>cur_index.
     and_then (owed loan cur_index) (\<lambda>total_owed.
     and_then (ok_or (try_narrow total_owed) MathOverflow) (\<lambda>total_owed_u64.
     and_then (loan_sides_from_u8 (loan_sides loan)) (\<lambda>sides.
     and_then (ok_or (try_narrow (loan_collateral_amount loan)) MathOverflow) (\<lambda>collateral_u64.
     Ok (pool, total_owed_u64, sides, collateral_u64)))))))"

definition repay_transfers ::
  "env \<Rightarrow> pool_accounts \<Rightarrow> loan_sides \<Rightarrow> u64 \<Rightarrow> u64 \<Rightarrow> pool \<Rightarrow> world \<Rightarrow> (world, program_error) res" where
  "repay_transfers e a sides total_owed_u64 collateral_u64 pool w =
     and_then (into (read_mint_decimals e w (mint_a_info a))) (\<lambda>mint_a_decimals.
     and_then (into (read_mint_decimals e w (mint_b_info a))) (\<lambda>mint_b_decimals.
     case sides of
       CollateralA \<Rightarrow>
         and_then (transfer_checked e (token_program_b_info a) (user_b_info a) (mint_b_info a)
                     (vault_b_info a) (user_info a) total_owed_u64 mint_b_decimals [] w) (\<lambda>w.
         transfer_checked e (token_program_a_info a) (vault_a_info a) (mint_a_info a)
           (user_a_info a) (pool_info a) collateral_u64 mint_a_decimals [pool_signer_seeds pool] w)
     | CollateralB \<Rightarrow>
         and_then (transfer_checked e (token_program_a_info a) (user_a_info a) (mint_a_info a)
                     (vault_a_info a) (user_info a) total_owed_u64 mint_a_decimals [] w) (\<lambda>w.
         transfer_checked e (token_program_b_info a) (vault_b_info a) (mint_b_info a)
           (user_b_info a) (pool_info a) collateral_u64 mint_b_decimals [pool_signer_seeds pool] w)))"

section \<open>Books and closing\<close>

text \<open>Removing a loan's principal and collateral from the totals: shared with the liquidation
  step of a swap, which does the same checked subtractions.\<close>

definition release_loan ::
  "pool \<Rightarrow> loan_sides \<Rightarrow> u128 \<Rightarrow> u128 \<Rightarrow> (pool, liquidity_error) res" where
  "release_loan pool sides collateral principal_amt =
     and_then (case sides of
         CollateralA \<Rightarrow>
           and_then (ok_or (checked_sub (total_collateral_a pool) collateral) MathUnderflow) (\<lambda>c.
           and_then (ok_or (checked_sub (total_debt_b pool) principal_amt) MathUnderflow) (\<lambda>d.
           Ok (pool\<lparr>total_collateral_a := c, total_debt_b := d\<rparr>)))
       | CollateralB \<Rightarrow>
           and_then (ok_or (checked_sub (total_collateral_b pool) collateral) MathUnderflow) (\<lambda>c.
           and_then (ok_or (checked_sub (total_debt_a pool) principal_amt) MathUnderflow) (\<lambda>d.
           Ok (pool\<lparr>total_collateral_b := c, total_debt_a := d\<rparr>)))) (\<lambda>pool.
     and_then (ok_or (checked_sub (open_loans pool) 1) MathUnderflow) (\<lambda>n.
     Ok (pool\<lparr>open_loans := n\<rparr>)))"

text \<open>The pool's and the band's new state.\<close>

definition repay_book ::
  "pool \<Rightarrow> loan \<Rightarrow> loan_sides \<Rightarrow> loan_index_band \<Rightarrow> u64 \<Rightarrow>
   (pool \<times> loan_index_band, liquidity_error) res" where
  "repay_book pool loan sides band slot =
     and_then (release_loan pool sides (loan_collateral_amount loan) (loan_debt_principal loan)) (\<lambda>pool.
     let pool = pool\<lparr>last_update_slot := slot\<rparr> in
     and_then (ok_or (checked_sub (band_count band) 1) MathUnderflow) (\<lambda>count.
     let band = band\<lparr>band_count := count\<rparr> in
     and_then (if band_count band = 0
               then band_bitmap_mut pool (band_direction band) (\<lambda>bm. bitmap_clear bm (band_band_id band))
               else Ok pool) (\<lambda>pool.
     Ok (pool, band))))"

definition repay_close ::
  "pool_accounts \<Rightarrow> account_info \<Rightarrow> account_info \<Rightarrow> pool \<Rightarrow> loan \<Rightarrow> loan_index_band \<Rightarrow> u64 \<Rightarrow> u64 \<Rightarrow>
   world \<Rightarrow> (world, program_error) res" where
  "repay_close a loan_info band_info pool loan band slot total_owed_u64 w =
     and_then (serialize_into (loan_index_band_bytes band) band_info w) (\<lambda>w.
     let loan = loan\<lparr>loan_status := STATUS_REPAID, loan_closed_slot := slot\<rparr> in
     and_then (serialize_into (loan_bytes loan) loan_info w) (\<lambda>w.
     and_then (close_account loan_info (user_info a) w) (\<lambda>w.
     and_then (serialize_into (pool_bytes pool) (pool_info a) w) (\<lambda>w.
     Ok (emit (LoanRepaid (key (pool_info a)) (key loan_info) (key (user_info a))
                 (loan_debt_principal loan) total_owed_u64) w)))))"

section \<open>The handler\<close>

definition process_repay_loan ::
  "env \<Rightarrow> pubkey \<Rightarrow> account_info list \<Rightarrow> world \<Rightarrow> (world, program_error) res" where
  "process_repay_loan e program_id accounts w =
     (if length accounts < 12 then Err PE_NotEnoughAccountKeys
      else
      let a = loan_handler_accounts accounts 10; loan_info = accounts ! 8; band_info = accounts ! 9 in
      and_then (check_signer_and_token_programs e w a) (\<lambda>_.
      if owner (acct w (pool_info a)) \<noteq> program_id \<or> owner (acct w loan_info) \<noteq> program_id \<or>
         owner (acct w band_info) \<noteq> program_id
      then Err (lerr InvalidAccountOwner)
      else
      and_then (repay_load e program_id a loan_info band_info w) (\<lambda>(pool, loan, band).
      and_then (clock_get e) (\<lambda>slot.
      and_then (into (read_token_amount e w (vault_a_info a))) (\<lambda>real_a_pre.
      and_then (into (read_token_amount e w (vault_b_info a))) (\<lambda>real_b_pre.
      and_then (into (repay_amounts pool loan real_a_pre real_b_pre slot))
        (\<lambda>(pool, total_owed_u64, sides, collateral_u64).
      let loan = loan\<lparr>loan_last_touch_slot := slot\<rparr> in
      and_then (repay_transfers e a sides total_owed_u64 collateral_u64 pool w) (\<lambda>w.
      and_then (into (repay_book pool loan sides band slot)) (\<lambda>(pool, band).
      repay_close a loan_info band_info pool loan band slot total_owed_u64 w)))))))))"

end
