(* ===== verification/Swap.thy ===== *)
theory Swap
  imports Repay_Loan
begin

text \<open>
  \<open>instructions/swap.rs\<close>: a swap with mandatory in-flight liquidation. The parts are the
  parsing of the account tail into bands and loans, the completeness check against the pool's
  bitmap, the reserves and the reference price, the fee skim, the liquidation loop, the final
  checks, the persistence of liquidated loans and bands, and the transfers.
\<close>

section \<open>Contexts\<close>

definition MAX_LIQ_PER_SWAP :: u32 where "MAX_LIQ_PER_SWAP = 8"
definition FIXED_PREFIX_LEN :: nat where "FIXED_PREFIX_LEN = 10"

record loan_ctx =
  ctx_loan_idx :: nat
  ctx_trigger_wad :: u128
  ctx_direction :: trigger_direction
  ctx_sides :: loan_sides
  ctx_collateral :: u128
  ctx_debt_principal :: u128
  ctx_liquidated :: bool

record band_ctx =
  ctx_band_idx :: nat
  ctx_loan_idxs :: "nat list"

section \<open>Parsing the account tail\<close>

text \<open>The inner loop over the loans of one band, whose account indexes are given.\<close>

fun parse_loans ::
  "pubkey \<Rightarrow> world \<Rightarrow> account_info list \<Rightarrow> pubkey \<Rightarrow> u32 \<Rightarrow> u8 \<Rightarrow> pubkey \<Rightarrow> nat list \<Rightarrow>
   (loan_ctx list, program_error) res" where
  "parse_loans program_id w accounts pool_key band_id expected_dir_byte prev_key [] = Ok []"
| "parse_loans program_id w accounts pool_key band_id expected_dir_byte prev_key (loan_idx # idxs) =
     (let loan_info = accounts ! loan_idx in
      if owner (acct w loan_info) \<noteq> program_id then Err (lerr InvalidAccountOwner)
      else if key loan_info \<le> prev_key then Err (lerr InvalidLiquidationContext)
      else
      and_then (load_loan w loan_info) (\<lambda>loan.
      if \<not> loan_is_initialized loan \<or> loan_pool loan \<noteq> pool_key then Err (lerr InvalidPool)
      else if \<not> is_open loan then Err (lerr LoanNotOpen)
      else if loan_band_id loan \<noteq> band_id \<or> loan_trigger_direction loan \<noteq> expected_dir_byte
      then Err (lerr InvalidLiquidationContext)
      else
      and_then (into (trigger_direction_from_u8 (loan_trigger_direction loan))) (\<lambda>dir.
      and_then (into (loan_sides_from_u8 (loan_sides loan))) (\<lambda>sides.
      and_then (parse_loans program_id w accounts pool_key band_id expected_dir_byte
                  (key loan_info) idxs) (\<lambda>rest.
      Ok (\<lparr>ctx_loan_idx = loan_idx, ctx_trigger_wad = loan_trigger_price_wad loan,
            ctx_direction = dir, ctx_sides = sides,
            ctx_collateral = loan_collateral_amount loan,
            ctx_debt_principal = loan_debt_principal loan,
            ctx_liquidated = False\<rparr> # rest))))))"

text \<open>The checks on one supplied band: its own contents, its address, no repetition, and
  its size.\<close>

definition parse_band ::
  "env \<Rightarrow> pubkey \<Rightarrow> world \<Rightarrow> pubkey \<Rightarrow> u8 \<Rightarrow> u32 list \<Rightarrow> account_info \<Rightarrow> nat \<Rightarrow>
   (loan_index_band, program_error) res" where
  "parse_band e program_id w pool_key expected_dir_byte supplied_band_ids band_info k =
     (if owner (acct w band_info) \<noteq> program_id then Err (lerr InvalidAccountOwner)
      else
      and_then (load_band w band_info) (\<lambda>band.
      if \<not> band_is_initialized band \<or> band_pool band \<noteq> pool_key \<or>
         band_direction band \<noteq> expected_dir_byte
      then Err (lerr BandMismatch)
      else
      and_then (ok_or (create_program_address e
                   [BAND_SEED, put_key pool_key, [band_direction band],
                    put_word 4 (band_band_id band), [band_bump band]] program_id)
                 (lerr BandMismatch)) (\<lambda>expected_band.
      if key band_info \<noteq> expected_band then Err (lerr BandMismatch)
      else if band_band_id band \<in> set supplied_band_ids then Err (lerr InvalidLiquidationContext)
      else if unat (band_count band) \<noteq> k then Err (lerr IncompleteBandWalk)
      else Ok band)))"

text \<open>The outer loop over \<open>band_loan_counts\<close>; returns the band and loan contexts, the ids
  of the supplied bands and the final cursor.\<close>

fun parse_bands ::
  "env \<Rightarrow> pubkey \<Rightarrow> world \<Rightarrow> account_info list \<Rightarrow> pubkey \<Rightarrow> u8 \<Rightarrow> u32 list \<Rightarrow> nat \<Rightarrow> u8 list \<Rightarrow>
   (band_ctx list \<times> loan_ctx list \<times> u32 list \<times> nat, program_error) res" where
  "parse_bands e program_id w accounts pool_key expected_dir_byte supplied_band_ids cursor [] =
     Ok ([], [], supplied_band_ids, cursor)"
| "parse_bands e program_id w accounts pool_key expected_dir_byte supplied_band_ids cursor (k_u8 # ks) =
     (let k = unat k_u8; needed = 1 + k in
      if length accounts < cursor + needed then Err (lerr InvalidLiquidationContext)
      else
      let band_info = accounts ! cursor in
      and_then (parse_band e program_id w pool_key expected_dir_byte supplied_band_ids band_info k) (\<lambda>band.
      let loan_start = cursor + 1; loan_idxs = [loan_start ..< loan_start + k] in
      and_then (parse_loans program_id w accounts pool_key (band_band_id band) expected_dir_byte 0
                  loan_idxs) (\<lambda>band_loans.
      and_then (parse_bands e program_id w accounts pool_key expected_dir_byte
                  (supplied_band_ids @ [band_band_id band]) (cursor + needed) ks)
        (\<lambda>(bands, loans, ids, final_cursor).
      Ok (\<lparr>ctx_band_idx = cursor, ctx_loan_idxs = loan_idxs\<rparr> # bands,
          band_loans @ loans, ids, final_cursor)))))"

definition expected_direction :: "bool \<Rightarrow> trigger_direction" where
  "expected_direction a_to_b = (if a_to_b then OnFall else OnRise)"

section \<open>Completeness against the bitmap\<close>

definition check_completeness ::
  "pool \<Rightarrow> bool \<Rightarrow> u32 \<Rightarrow> u32 list \<Rightarrow> (unit, liquidity_error) res" where
  "check_completeness pool a_to_b band_boundary supplied_band_ids =
     and_then (band_bitmap pool (direction_byte (expected_direction a_to_b))) (\<lambda>bitmap.
     let (lo, hi) = (if a_to_b then (band_boundary, - 1) else (0, band_boundary)) in
     if list_all (\<lambda>required_id. required_id \<in> set supplied_band_ids)
          (bitmap_iter_set_range bitmap lo hi)
     then Ok () else Err IncompleteBandWalk)"

section \<open>Reference price and fee skim\<close>

definition sample_ref_price :: "pool \<Rightarrow> u128 \<Rightarrow> u128 \<Rightarrow> u64 \<Rightarrow> (pool, liquidity_error) res" where
  "sample_ref_price pool accounted_a accounted_b slot =
     (if ref_price_wad pool = 0 \<or> slot \<noteq> ref_price_slot pool then
        and_then (price_b_per_a_wad accounted_a accounted_b) (\<lambda>spot_wad.
        and_then (ref_price_at pool spot_wad slot) (\<lambda>r.
        Ok (pool\<lparr>ref_price_wad := r, ref_price_slot := slot\<rparr>)))
      else Ok pool)"

definition protocol_skim :: "pool \<Rightarrow> u64 \<Rightarrow> (u64, liquidity_error) res" where
  "protocol_skim pool amount_in =
     (if BPS_DENOM \<le> widen (swap_fee_bps pool) then Err SettingExceedsMaximum
      else if swap_fee_bps pool = 0 \<or> protocol_fee_bps pool = 0 then Ok 0
      else
      and_then (times_p (widen amount_in) (widen (swap_fee_bps pool))) (\<lambda>f.
      and_then (div_p f BPS_DENOM) (\<lambda>fee_taken.
      and_then (times_p fee_taken (widen (protocol_fee_bps pool))) (\<lambda>g.
      and_then (div_p g (widen (swap_fee_bps pool))) (\<lambda>portion :: u128.
      ok_or (try_narrow portion) MathOverflow)))))"

section \<open>The liquidation loop\<close>

definition post_swap_price_wad ::
  "u128 \<Rightarrow> u128 \<Rightarrow> u128 \<Rightarrow> u128 \<Rightarrow> bool \<Rightarrow> (u128, liquidity_error) res" where
  "post_swap_price_wad accounted_a accounted_b in_growth amount_out a_to_b =
     and_then
       (if a_to_b then
          and_then (ok_or (checked_add accounted_a in_growth) MathOverflow) (\<lambda>post_a.
          and_then (ok_or (checked_sub accounted_b amount_out) MathUnderflow) (\<lambda>post_b.
          Ok (post_a, post_b)))
        else
          and_then (ok_or (checked_sub accounted_a amount_out) MathUnderflow) (\<lambda>post_a.
          and_then (ok_or (checked_add accounted_b in_growth) MathOverflow) (\<lambda>post_b.
          Ok (post_a, post_b)))) (\<lambda>(post_a, post_b).
     price_b_per_a_wad post_a post_b)"

text \<open>\<open>Iterator::position\<close>.\<close>

fun position :: "('a \<Rightarrow> bool) \<Rightarrow> 'a list \<Rightarrow> nat option" where
  "position P [] = None"
| "position P (x # xs) = (if P x then Some 0 else map_option Suc (position P xs))"

definition triggered :: "u128 \<Rightarrow> loan_ctx \<Rightarrow> bool" where
  "triggered price l \<longleftrightarrow>
     \<not> ctx_liquidated l \<and> is_liquidatable (ctx_trigger_wad l) (ctx_direction l) price"

text \<open>The quote at the current reserves and the price it would leave.\<close>

definition swap_quote ::
  "bool \<Rightarrow> u64 \<Rightarrow> u128 \<Rightarrow> u16 \<Rightarrow> u128 \<Rightarrow> u128 \<Rightarrow> (u128 \<times> u128, liquidity_error) res" where
  "swap_quote a_to_b amount_in in_growth fee_bps accounted_a accounted_b =
     (let (in_reserve, out_reserve) =
            (if a_to_b then (accounted_a, accounted_b) else (accounted_b, accounted_a)) in
      if in_reserve = 0 \<or> out_reserve = 0 then Err ZeroReserves
      else
      and_then (cpmm_quote_out (widen amount_in) in_reserve out_reserve fee_bps) (\<lambda>amount_out.
      and_then (post_swap_price_wad accounted_a accounted_b in_growth amount_out a_to_b) (\<lambda>post_price.
      Ok (amount_out, post_price))))"

function liquidation_loop ::
  "u128 \<Rightarrow> u128 \<Rightarrow> bool \<Rightarrow> u64 \<Rightarrow> u128 \<Rightarrow> pool \<Rightarrow> loan_ctx list \<Rightarrow> u32 \<Rightarrow> u128 \<Rightarrow> u128 \<Rightarrow>
   (u128 \<times> u128 \<times> pool \<times> loan_ctx list \<times> u32, liquidity_error) res" where
  "liquidation_loop real_a real_b a_to_b amount_in in_growth pool loans liq_count accounted_a accounted_b =
     and_then (swap_quote a_to_b amount_in in_growth (swap_fee_bps pool) accounted_a accounted_b)
       (\<lambda>(amount_out, post_price).
     case position (triggered post_price) loans of
       None \<Rightarrow> Ok (amount_out, post_price, pool, loans, liq_count)
     | Some i \<Rightarrow>
         if MAX_LIQ_PER_SWAP \<le> liq_count then Err TooManyLiquidationsRequired
         else
         let lc = loans ! i in
         and_then (release_loan pool (ctx_sides lc) (ctx_collateral lc) (ctx_debt_principal lc)) (\<lambda>pool'.
         and_then (plus_p liq_count 1) (\<lambda>liq_count'.
         and_then (accounted pool' real_a real_b) (\<lambda>(new_a, new_b).
         liquidation_loop real_a real_b a_to_b amount_in in_growth pool'
           (loans[i := lc\<lparr>ctx_liquidated := True\<rparr>]) liq_count' new_a new_b))))"
  by pat_completeness auto
termination
  by (relation "measure (\<lambda>(_, _, _, _, _, _, _, n, _, _). 8 - unat n)")
    (auto simp: plus_p_Ok_iff MAX_LIQ_PER_SWAP_def word_le_nat_alt)

declare liquidation_loop.simps [simp del]

section \<open>Final checks\<close>

text \<open>Zero output, slippage, executable cap, fee accrual and the boundary check.\<close>

definition swap_final_checks ::
  "pool \<Rightarrow> u128 \<Rightarrow> u128 \<Rightarrow> bool \<Rightarrow> u64 \<Rightarrow> u32 \<Rightarrow> u64 \<Rightarrow> u128 \<Rightarrow> u128 \<Rightarrow>
   (pool \<times> u64, liquidity_error) res" where
  "swap_final_checks pool real_a real_b a_to_b min_out band_boundary protocol_portion
     amount_out final_post_price =
     (if amount_out = 0 then Err ZeroAmount
      else
      and_then (ok_or (try_narrow amount_out) MathOverflow) (\<lambda>amount_out_u64.
      if amount_out_u64 < min_out then Err SlippageExceeded
      else
      and_then (swappable pool real_a real_b) (\<lambda>(swappable_a, swappable_b).
      let out_swappable = (if a_to_b then swappable_b else swappable_a) in
      if out_swappable < amount_out then Err Insolvent
      else
      and_then
        (if 0 < protocol_portion then
           if a_to_b then
             and_then (ok_or (checked_add (protocol_fees_a pool) protocol_portion) MathOverflow)
               (\<lambda>f. Ok (pool\<lparr>protocol_fees_a := f\<rparr>))
           else
             and_then (ok_or (checked_add (protocol_fees_b pool) protocol_portion) MathOverflow)
               (\<lambda>f. Ok (pool\<lparr>protocol_fees_b := f\<rparr>))
         else Ok pool) (\<lambda>pool.
      and_then (band_id_for_trigger final_post_price) (\<lambda>final_post_band.
      if a_to_b \<and> final_post_band < band_boundary \<or> \<not> a_to_b \<and> band_boundary < final_post_band
      then Err IncompleteBandWalk
      else Ok (pool, amount_out_u64))))))"

section \<open>Persisting the liquidations\<close>

text \<open>The loans of one band; returns how many were liquidated.\<close>

fun persist_loans ::
  "u64 \<Rightarrow> account_info list \<Rightarrow> loan_ctx list \<Rightarrow> nat list \<Rightarrow> u32 \<Rightarrow> world \<Rightarrow>
   (u32 \<times> world, program_error) res" where
  "persist_loans slot accounts loans [] liquidated_here w = Ok (liquidated_here, w)"
| "persist_loans slot accounts loans (loan_idx # idxs) liquidated_here w =
     and_then (ok_or (find (\<lambda>l. ctx_loan_idx l = loan_idx) loans) (lerr InvalidLiquidationContext)) (\<lambda>lc.
     if \<not> ctx_liquidated lc then persist_loans slot accounts loans idxs liquidated_here w
     else
     let loan_info = accounts ! loan_idx in
     and_then (load_loan w loan_info) (\<lambda>loan.
     let w = emit (LoanLiquidated (loan_pool loan) (key loan_info) (loan_borrower loan)
                     (loan_sides_byte (ctx_sides lc)) (ctx_collateral lc) (ctx_debt_principal lc)
                     (ctx_trigger_wad lc)) w;
         loan = loan\<lparr>loan_collateral_amount := 0, loan_debt_principal := 0,
                     loan_status := STATUS_LIQUIDATED, loan_closed_slot := slot\<rparr> in
     and_then (serialize_into (loan_bytes loan) loan_info w) (\<lambda>w.
     and_then (plus_p liquidated_here 1) (\<lambda>n.
     persist_loans slot accounts loans idxs n w))))"

fun persist_bands ::
  "u64 \<Rightarrow> account_info list \<Rightarrow> loan_ctx list \<Rightarrow> u8 \<Rightarrow> band_ctx list \<Rightarrow> pool \<Rightarrow> world \<Rightarrow>
   (pool \<times> world, program_error) res" where
  "persist_bands slot accounts loans dir_byte [] pool w = Ok (pool, w)"
| "persist_bands slot accounts loans dir_byte (band # bands) pool w =
     (let band_info = accounts ! ctx_band_idx band in
      and_then (load_band w band_info) (\<lambda>band_state.
      and_then (persist_loans slot accounts loans (ctx_loan_idxs band) 0 w) (\<lambda>(liquidated_here, w).
      if liquidated_here = 0 then persist_bands slot accounts loans dir_byte bands pool w
      else
      and_then (ok_or (checked_sub (band_count band_state) liquidated_here) (lerr MathUnderflow)) (\<lambda>count.
      let band_state = band_state\<lparr>band_count := count\<rparr> in
      and_then (if band_count band_state = 0
                then into (band_bitmap_mut pool dir_byte
                             (\<lambda>bm. bitmap_clear bm (band_band_id band_state)))
                else Ok pool) (\<lambda>pool.
      and_then (serialize_into (loan_index_band_bytes band_state) band_info w) (\<lambda>w.
      persist_bands slot accounts loans dir_byte bands pool w))))))"

definition persist_liquidations ::
  "env \<Rightarrow> account_info list \<Rightarrow> loan_ctx list \<Rightarrow> band_ctx list \<Rightarrow> u8 \<Rightarrow> pool \<Rightarrow> world \<Rightarrow>
   (pool \<times> world, program_error) res" where
  "persist_liquidations e accounts loans bands dir_byte pool w =
     and_then (clock_get e) (\<lambda>slot. persist_bands slot accounts loans dir_byte bands pool w)"

section \<open>Transfers and the handler\<close>

definition swap_transfers ::
  "env \<Rightarrow> pool_accounts \<Rightarrow> bool \<Rightarrow> u64 \<Rightarrow> u64 \<Rightarrow> u8 \<Rightarrow> u8 \<Rightarrow> pool \<Rightarrow> world \<Rightarrow>
   (world, program_error) res" where
  "swap_transfers e a a_to_b amount_in amount_out_u64 mint_a_decimals mint_b_decimals pool w =
     (if a_to_b then
        and_then (transfer_checked e (token_program_a_info a) (user_a_info a) (mint_a_info a)
                    (vault_a_info a) (user_info a) amount_in mint_a_decimals [] w) (\<lambda>w.
        transfer_checked e (token_program_b_info a) (vault_b_info a) (mint_b_info a)
          (user_b_info a) (pool_info a) amount_out_u64 mint_b_decimals [pool_signer_seeds pool] w)
      else
        and_then (transfer_checked e (token_program_b_info a) (user_b_info a) (mint_b_info a)
                    (vault_b_info a) (user_info a) amount_in mint_b_decimals [] w) (\<lambda>w.
        transfer_checked e (token_program_a_info a) (vault_a_info a) (mint_a_info a)
          (user_a_info a) (pool_info a) amount_out_u64 mint_a_decimals [pool_signer_seeds pool] w))"

text \<open>From the reserves to the final checks: the part of the handler that only computes. The
  result is the pool, the loan contexts, the number of liquidations, the fee skim, the output
  and the final price.\<close>

definition swap_compute ::
  "pool \<Rightarrow> u128 \<Rightarrow> u128 \<Rightarrow> u64 \<Rightarrow> loan_ctx list \<Rightarrow> u64 \<Rightarrow> u64 \<Rightarrow> bool \<Rightarrow> u32 \<Rightarrow>
   (pool \<times> loan_ctx list \<times> u32 \<times> u64 \<times> u64 \<times> u128, liquidity_error) res" where
  "swap_compute pool real_a real_b slot loans amount_in min_out a_to_b band_boundary =
     and_then (bump_indexes pool real_a real_b slot) (\<lambda>pool.
     and_then (accounted pool real_a real_b) (\<lambda>(accounted_a, accounted_b).
     if accounted_a = 0 \<or> accounted_b = 0 then Err ZeroReserves
     else
     and_then (sample_ref_price pool accounted_a accounted_b slot) (\<lambda>pool.
     and_then (protocol_skim pool amount_in) (\<lambda>protocol_portion.
     and_then (minus_p amount_in protocol_portion) (\<lambda>growth.
     and_then (liquidation_loop real_a real_b a_to_b amount_in (widen growth) pool loans 0
                 accounted_a accounted_b) (\<lambda>(amount_out, final_post_price, pool, loans, liq_count).
     and_then (swap_final_checks pool real_a real_b a_to_b min_out band_boundary protocol_portion
                 amount_out final_post_price) (\<lambda>(pool, amount_out_u64).
     Ok (pool, loans, liq_count, protocol_portion, amount_out_u64, final_post_price))))))))"

definition swap_accounts :: "account_info list \<Rightarrow> pool_accounts" where
  "swap_accounts accounts =
     \<lparr>pool_info = accounts ! 0, vault_a_info = accounts ! 1, vault_b_info = accounts ! 2,
      user_a_info = accounts ! 3, user_b_info = accounts ! 4,
      mint_a_info = accounts ! 5, mint_b_info = accounts ! 6, user_info = accounts ! 7,
      token_program_a_info = accounts ! 8, token_program_b_info = accounts ! 9\<rparr>"

definition process_swap ::
  "env \<Rightarrow> pubkey \<Rightarrow> account_info list \<Rightarrow> u64 \<Rightarrow> u64 \<Rightarrow> bool \<Rightarrow> u32 \<Rightarrow> u8 list \<Rightarrow> world \<Rightarrow>
   (world, program_error) res" where
  "process_swap e program_id accounts amount_in min_out a_to_b band_boundary band_loan_counts w =
     (if length accounts < FIXED_PREFIX_LEN then Err (lerr InvalidLiquidationContext)
      else
      let a = swap_accounts accounts;
          expected_dir_byte = direction_byte (expected_direction a_to_b) in
      and_then (check_signer_and_token_programs e w a) (\<lambda>_.
      if owner (acct w (pool_info a)) \<noteq> program_id then Err (lerr InvalidAccountOwner)
      else if amount_in = 0 then Err (lerr ZeroAmount)
      else
      and_then (load_pool w (pool_info a)) (\<lambda>pool.
      if \<not> pool_keys_match pool a then Err (lerr InvalidPool)
      else
      and_then (parse_bands e program_id w accounts (key (pool_info a)) expected_dir_byte []
                  FIXED_PREFIX_LEN band_loan_counts) (\<lambda>(bands, loans, supplied_band_ids, cursor).
      if cursor \<noteq> length accounts then Err (lerr InvalidLiquidationContext)
      else
      and_then (into (check_completeness pool a_to_b band_boundary supplied_band_ids)) (\<lambda>_.
      and_then (into (read_mint_decimals e w (mint_a_info a))) (\<lambda>mint_a_decimals.
      and_then (into (read_mint_decimals e w (mint_b_info a))) (\<lambda>mint_b_decimals.
      and_then (into (read_token_amount e w (vault_a_info a))) (\<lambda>real_a.
      and_then (into (read_token_amount e w (vault_b_info a))) (\<lambda>real_b.
      and_then (clock_get e) (\<lambda>slot.
      and_then (into (swap_compute pool real_a real_b slot loans amount_in min_out a_to_b band_boundary))
        (\<lambda>(pool, loans, liq_count, protocol_portion, amount_out_u64, _).
      and_then (persist_liquidations e accounts loans bands expected_dir_byte pool w) (\<lambda>(pool, w).
      and_then (swap_transfers e a a_to_b amount_in amount_out_u64 mint_a_decimals mint_b_decimals
                  pool w) (\<lambda>w.
      and_then (serialize_into (pool_bytes (pool\<lparr>last_update_slot := slot\<rparr>)) (pool_info a) w) (\<lambda>w.
      Ok (emit (SwapExecuted (key (pool_info a)) (key (user_info a)) a_to_b amount_in amount_out_u64
                  liq_count protocol_portion) w)))))))))))))))"

end
