(* ===== verification/Claims.thy ===== *)
theory Claims
  imports Events
begin

text \<open>
  \<open>instructions/claim_protocol_fees.rs\<close> (the permissionless crank that pays the
  accumulated protocol fees to a fixed recipient) and
  \<open>instructions/claim_liquidated_rent.rs\<close> (a liquidated borrower takes back the rent of
  the tombstoned loan account).
\<close>

section \<open>ClaimProtocolFees\<close>

definition PROTOCOL_FEE_RECIPIENT :: pubkey where
  "PROTOCOL_FEE_RECIPIENT = 0x0f73a5b7fa25a1bcf249049b55d932093ddc94ccc0b0f6b3b917d0876f1ce886"

definition claim_fees_pay ::
  "env \<Rightarrow> account_info list \<Rightarrow> pool \<Rightarrow> world \<Rightarrow> (world, program_error) res" where
  "claim_fees_pay e accounts pool w =
     (let pool_i = accounts ! 0; vault_a_i = accounts ! 1; vault_b_i = accounts ! 2;
          dest_a_i = accounts ! 3; dest_b_i = accounts ! 4;
          mint_a_i = accounts ! 5; mint_b_i = accounts ! 6;
          program_a_i = accounts ! 7; program_b_i = accounts ! 8;
          amount_a = protocol_fees_a pool; amount_b = protocol_fees_b pool in
      and_then (into (read_mint_decimals e w mint_a_i)) (\<lambda>mint_a_decimals.
      and_then (into (read_mint_decimals e w mint_b_i)) (\<lambda>mint_b_decimals.
      and_then (if 0 < amount_a
                then transfer_checked e program_a_i vault_a_i mint_a_i dest_a_i pool_i
                       amount_a mint_a_decimals [pool_signer_seeds pool] w
                else Ok w) (\<lambda>w.
      and_then (if 0 < amount_b
                then transfer_checked e program_b_i vault_b_i mint_b_i dest_b_i pool_i
                       amount_b mint_b_decimals [pool_signer_seeds pool] w
                else Ok w) (\<lambda>w.
      and_then (clock_get e) (\<lambda>slot.
      and_then (serialize_into
                  (pool_bytes (pool\<lparr>protocol_fees_a := 0, protocol_fees_b := 0,
                                    last_update_slot := slot\<rparr>)) pool_i w) (\<lambda>w.
      Ok (emit (ProtocolFeesClaimed (key pool_i) PROTOCOL_FEE_RECIPIENT amount_a amount_b) w))))))))"

definition process_claim_protocol_fees ::
  "env \<Rightarrow> pubkey \<Rightarrow> account_info list \<Rightarrow> world \<Rightarrow> (world, program_error) res" where
  "process_claim_protocol_fees e program_id accounts w =
     (if length accounts < 9 then Err PE_NotEnoughAccountKeys
      else
      let pool_i = accounts ! 0; vault_a_i = accounts ! 1; vault_b_i = accounts ! 2;
          dest_a_i = accounts ! 3; dest_b_i = accounts ! 4;
          mint_a_i = accounts ! 5; mint_b_i = accounts ! 6;
          program_a_i = accounts ! 7; program_b_i = accounts ! 8 in
      and_then (into (validate_token_program_for_mint e w program_a_i mint_a_i)) (\<lambda>_.
      and_then (into (validate_token_program_for_mint e w program_b_i mint_b_i)) (\<lambda>_.
      if owner (acct w pool_i) \<noteq> program_id then Err (lerr InvalidAccountOwner)
      else
      and_then (into (read_token_owner e w dest_a_i)) (\<lambda>owner_a.
      and_then (if owner_a \<noteq> PROTOCOL_FEE_RECIPIENT then Ok True
                else and_then (into (read_token_owner e w dest_b_i)) (\<lambda>owner_b.
                     Ok (owner_b \<noteq> PROTOCOL_FEE_RECIPIENT))) (\<lambda>wrong_recipient.
      if wrong_recipient then Err (lerr InvalidFeeRecipient)
      else
      and_then (load_pool w pool_i) (\<lambda>pool.
      if vault_a pool \<noteq> key vault_a_i \<or> vault_b pool \<noteq> key vault_b_i \<or>
         mint_a pool \<noteq> key mint_a_i \<or> mint_b pool \<noteq> key mint_b_i
      then Err (lerr InvalidPool)
      else if protocol_fees_a pool = 0 \<and> protocol_fees_b pool = 0 then Ok w
      else claim_fees_pay e accounts pool w))))))"

section \<open>ClaimLiquidatedRent\<close>

definition process_claim_liquidated_rent ::
  "env \<Rightarrow> pubkey \<Rightarrow> account_info list \<Rightarrow> world \<Rightarrow> (world, program_error) res" where
  "process_claim_liquidated_rent e program_id accounts w =
     (if length accounts < 2 then Err PE_NotEnoughAccountKeys
      else
      let loan_i = accounts ! 0; borrower_i = accounts ! 1 in
      if \<not> is_signer borrower_i then Err (lerr MissingRequiredSigner)
      else if owner (acct w loan_i) \<noteq> program_id then Err (lerr InvalidAccountOwner)
      else
      and_then (load_loan w loan_i) (\<lambda>loan.
      if \<not> loan_is_initialized loan then Err (lerr NotInitialized)
      else if loan_status loan \<noteq> STATUS_LIQUIDATED then Err (lerr LoanNotLiquidatable)
      else if loan_borrower loan \<noteq> key borrower_i then Err (lerr InvalidAuthority)
      else
      let w = put_data loan_i (map (\<lambda>_. 0) (data (acct w loan_i))) w in
      and_then (drain loan_i borrower_i w) (\<lambda>w.
      Ok (emit (LiquidatedRentClaimed (loan_pool loan) (key loan_i) (key borrower_i)) w))))"

end
