(* ===== verification/Initialize_Pool.thy ===== *)
theory Initialize_Pool
  imports Events
begin

text \<open>
  \<open>instructions/initialize_pool.rs\<close>: the fixed economics of a pool, the Token-2022
  extension allowlist, the creation of pool, vaults and LP mint, and the initial pool state.
\<close>

section \<open>Fixed economics\<close>

definition LP_MINT_DECIMALS :: u8 where "LP_MINT_DECIMALS = 9"
definition SWAP_FEE_BPS :: u16 where "SWAP_FEE_BPS = 30"
definition PROTOCOL_FEE_BPS :: u16 where "PROTOCOL_FEE_BPS = 5"
definition LIQ_RATIO_BPS :: u16 where "LIQ_RATIO_BPS = 11000"
definition MAX_LTV_BPS :: u16 where "MAX_LTV_BPS = 8000"
definition INTEREST_BASE_BPS_PER_YEAR :: u16 where "INTEREST_BASE_BPS_PER_YEAR = 0"
definition INTEREST_SLOPE1_BPS_PER_YEAR :: u16 where "INTEREST_SLOPE1_BPS_PER_YEAR = 400"
definition INTEREST_SLOPE2_BPS_PER_YEAR :: u16 where "INTEREST_SLOPE2_BPS_PER_YEAR = 30000"
definition INTEREST_KINK_BPS :: u16 where "INTEREST_KINK_BPS = 8000"

text \<open>The compile-time assertions on the economics, as a predicate on a pool's parameters.\<close>

definition safe_params :: "pool \<Rightarrow> bool" where
  "safe_params p \<longleftrightarrow>
     unat (swap_fee_bps p) \<le> 1000 \<and>
     unat (protocol_fee_bps p) \<le> unat (swap_fee_bps p) \<and>
     10100 \<le> unat (liq_ratio_bps p) \<and> unat (liq_ratio_bps p) \<le> 30000 \<and>
     100 \<le> unat (max_ltv_bps p) \<and>
     unat (max_ltv_bps p) * unat (liq_ratio_bps p) < unat BPS_DENOM * unat BPS_DENOM \<and>
     unat (interest_base_bps_per_year p) \<le> 10000 \<and>
     unat (interest_slope1_bps_per_year p) \<le> 10000 \<and>
     unat (interest_slope2_bps_per_year p) \<le> 65000 \<and>
     100 \<le> unat (interest_kink_bps p) \<and> unat (interest_kink_bps p) \<le> 9900"

section \<open>Mint extensions\<close>

definition MINT_EXTENSION_ALLOWLIST :: "extension_type list" where
  "MINT_EXTENSION_ALLOWLIST =
     [MintCloseAuthority, InterestBearingConfig, MetadataPointer, TokenMetadata,
      GroupPointer, TokenGroup, GroupMemberPointer, TokenGroupMember]"

text \<open>The loop over the extension types; the close authority is read only when the extension
  is the close-authority one.\<close>

fun check_extensions :: "env \<Rightarrow> bytes \<Rightarrow> extension_type list \<Rightarrow> (unit, program_error) res" where
  "check_extensions e mint_data [] = Ok ()"
| "check_extensions e mint_data (ext # exts) =
     and_then (if ext \<notin> set MINT_EXTENSION_ALLOWLIST then Ok False
               else if ext \<noteq> MintCloseAuthority then Ok True
               else and_then (get_close_authority e mint_data) (\<lambda>auth. Ok (auth = None)))
       (\<lambda>allowed.
     if \<not> allowed then Err (lerr UnsupportedMintExtension)
     else check_extensions e mint_data exts)"

definition validate_mint_extensions ::
  "env \<Rightarrow> world \<Rightarrow> account_info \<Rightarrow> pubkey \<Rightarrow> (unit, program_error) res" where
  "validate_mint_extensions e w mint_i token_program =
     (if token_program \<noteq> token_2022_id e then Ok ()
      else
      let mint_data = data (acct w mint_i) in
      and_then (unpack_mint e mint_data) (\<lambda>_.
      and_then (get_extension_types e mint_data) (\<lambda>exts.
      check_extensions e mint_data exts)))"

section \<open>Creating the accounts\<close>

definition create_vault ::
  "env \<Rightarrow> account_info \<Rightarrow> account_info \<Rightarrow> account_info \<Rightarrow> account_info \<Rightarrow> account_info \<Rightarrow> account_info \<Rightarrow>
   bytes \<Rightarrow> u8 \<Rightarrow> rent_t \<Rightarrow> world \<Rightarrow> (world, program_error) res" where
  "create_vault e token_program_i system_program_i payer_i pool_i mint_i vault_i seed bump rent w =
     (let seeds = [seed, put_key (key pool_i), [bump]] in
      and_then (if key token_program_i = token_2022_id e then token_account_len_2022 e
                else Ok (token_account_len e)) (\<lambda>vault_size.
      and_then (create_pda_account e payer_i vault_i system_program_i vault_size
                  (key token_program_i) seeds rent w) (\<lambda>w.
      invoke_signed e
        (InitializeAccount3 (key token_program_i) (key vault_i) (key mint_i) (key pool_i))
        [vault_i, mint_i] [seeds] w)))"

definition create_lp_mint ::
  "env \<Rightarrow> account_info \<Rightarrow> account_info \<Rightarrow> account_info \<Rightarrow> account_info \<Rightarrow> account_info \<Rightarrow>
   u8 \<Rightarrow> rent_t \<Rightarrow> world \<Rightarrow> (world, program_error) res" where
  "create_lp_mint e token_program_i system_program_i payer_i pool_i lp_mint_i bump rent w =
     (let seeds = [LP_MINT_SEED, put_key (key pool_i), [bump]] in
      and_then (if key token_program_i = token_2022_id e then token_mint_len_2022 e
                else Ok (token_mint_len e)) (\<lambda>mint_size.
      and_then (create_pda_account e payer_i lp_mint_i system_program_i mint_size
                  (key token_program_i) seeds rent w) (\<lambda>w.
      invoke_signed e
        (InitializeMint2 (key token_program_i) (key lp_mint_i) (key pool_i) None LP_MINT_DECIMALS)
        [lp_mint_i] [seeds] w)))"

section \<open>The handler\<close>

text \<open>The initial state of a pool; arguments are the keys and bumps of its addresses and the
  current slot.\<close>

definition initial_pool ::
  "pubkey \<Rightarrow> pubkey \<Rightarrow> pubkey \<Rightarrow> pubkey \<Rightarrow> pubkey \<Rightarrow> u8 \<Rightarrow> u8 \<Rightarrow> u8 \<Rightarrow> u8 \<Rightarrow> u64 \<Rightarrow> pool" where
  "initial_pool m_a m_b v_a v_b lpm bump_pool bump_a bump_b bump_lp slot =
     \<lparr>pool_discriminator = POOL_DISCRIMINATOR,
      mint_a = m_a, mint_b = m_b, vault_a = v_a, vault_b = v_b, lp_mint = lpm,
      authority = 0,
      pool_bump = bump_pool, vault_a_bump = bump_a, vault_b_bump = bump_b, lp_mint_bump = bump_lp,
      total_debt_a = 0, total_debt_b = 0, total_collateral_a = 0, total_collateral_b = 0,
      curve_kind = curve_kind_byte Cpmm,
      swap_fee_bps = SWAP_FEE_BPS, protocol_fee_bps = PROTOCOL_FEE_BPS, curve_pad = replicate 3 0,
      liq_ratio_bps = LIQ_RATIO_BPS, max_ltv_bps = MAX_LTV_BPS, lending_pad = replicate 2 0,
      interest_base_bps_per_year = INTEREST_BASE_BPS_PER_YEAR,
      interest_slope1_bps_per_year = INTEREST_SLOPE1_BPS_PER_YEAR,
      interest_slope2_bps_per_year = INTEREST_SLOPE2_BPS_PER_YEAR,
      interest_kink_bps = INTEREST_KINK_BPS,
      borrow_index_a_wad = WAD, borrow_index_b_wad = WAD, last_index_update_slot = slot,
      open_loans = 0, next_loan_nonce = 0, last_update_slot = slot,
      protocol_fees_a = 0, protocol_fees_b = 0,
      band_bitmap_fall = replicate 16 0, band_bitmap_rise = replicate 16 0,
      ref_price_wad = 0, ref_price_slot = 0, pool_reserved = replicate 8 0\<rparr>"

text \<open>Every check before the first account is created; returns the four bumps.\<close>

definition initialize_pool_checks ::
  "env \<Rightarrow> pubkey \<Rightarrow> account_info list \<Rightarrow> world \<Rightarrow> (u8 \<times> u8 \<times> u8 \<times> u8, program_error) res" where
  "initialize_pool_checks e program_id accounts w =
     (let pool_i = accounts ! 0; mint_a_i = accounts ! 1; mint_b_i = accounts ! 2;
          vault_a_i = accounts ! 3; vault_b_i = accounts ! 4; lp_mint_i = accounts ! 5;
          authority_i = accounts ! 6; program_a_i = accounts ! 8; program_b_i = accounts ! 9 in
      if \<not> is_signer authority_i then Err (lerr MissingRequiredSigner)
      else
      and_then (into (validate_token_program_for_mint e w program_a_i mint_a_i)) (\<lambda>_.
      and_then (into (validate_token_program_for_mint e w program_b_i mint_b_i)) (\<lambda>_.
      if key mint_a_i = key mint_b_i then Err (lerr MintsMustDiffer)
      else if key mint_b_i \<le> key mint_a_i then Err (lerr MintsNotSorted)
      else
      and_then (validate_mint_extensions e w mint_a_i (key program_a_i)) (\<lambda>_.
      and_then (validate_mint_extensions e w mint_b_i (key program_b_i)) (\<lambda>_.
      and_then (pool_derive_pda e (key mint_a_i) (key mint_b_i) program_id)
        (\<lambda>(expected_pool, bump_pool).
      if key pool_i \<noteq> expected_pool then Err (lerr InvalidPDA)
      else
      and_then (derive_vault_a_pda e (key pool_i) program_id) (\<lambda>(expected_vault_a, bump_a).
      if key vault_a_i \<noteq> expected_vault_a then Err (lerr InvalidPDA)
      else
      and_then (derive_vault_b_pda e (key pool_i) program_id) (\<lambda>(expected_vault_b, bump_b).
      if key vault_b_i \<noteq> expected_vault_b then Err (lerr InvalidPDA)
      else
      and_then (derive_lp_mint_pda e (key pool_i) program_id) (\<lambda>(expected_lp_mint, bump_lp).
      if key lp_mint_i \<noteq> expected_lp_mint then Err (lerr InvalidPDA)
      else if \<not> data_is_empty w pool_i then Err (lerr AlreadyInitialized)
      else Ok (bump_pool, bump_a, bump_b, bump_lp))))))))))"

definition process_initialize_pool ::
  "env \<Rightarrow> pubkey \<Rightarrow> account_info list \<Rightarrow> world \<Rightarrow> (world, program_error) res" where
  "process_initialize_pool e program_id accounts w =
     (if length accounts < 11 then Err PE_NotEnoughAccountKeys
      else
      let pool_i = accounts ! 0; mint_a_i = accounts ! 1; mint_b_i = accounts ! 2;
          vault_a_i = accounts ! 3; vault_b_i = accounts ! 4; lp_mint_i = accounts ! 5;
          authority_i = accounts ! 6; system_program_i = accounts ! 7;
          program_a_i = accounts ! 8; program_b_i = accounts ! 9; rent_sysvar_i = accounts ! 10 in
      and_then (initialize_pool_checks e program_id accounts w)
        (\<lambda>(bump_pool, bump_a, bump_b, bump_lp).
      and_then (rent_from_account_info e (key rent_sysvar_i) (data (acct w rent_sysvar_i))) (\<lambda>rent.
      and_then (clock_get e) (\<lambda>slot.
      and_then (create_pda_account e authority_i pool_i system_program_i POOL_LEN program_id
                  [POOL_SEED, put_key (key mint_a_i), put_key (key mint_b_i), [bump_pool]] rent w) (\<lambda>w.
      and_then (create_vault e program_a_i system_program_i authority_i pool_i mint_a_i vault_a_i
                  VAULT_A_SEED bump_a rent w) (\<lambda>w.
      and_then (create_vault e program_b_i system_program_i authority_i pool_i mint_b_i vault_b_i
                  VAULT_B_SEED bump_b rent w) (\<lambda>w.
      and_then (create_lp_mint e program_a_i system_program_i authority_i pool_i lp_mint_i
                  bump_lp rent w) (\<lambda>w.
      and_then (serialize_into
                  (pool_bytes (initial_pool (key mint_a_i) (key mint_b_i) (key vault_a_i)
                     (key vault_b_i) (key lp_mint_i) bump_pool bump_a bump_b bump_lp slot))
                  pool_i w) (\<lambda>w.
      Ok (emit (PoolInitialized (key pool_i) (key mint_a_i) (key mint_b_i) 0 SWAP_FEE_BPS
                  PROTOCOL_FEE_BPS LIQ_RATIO_BPS MAX_LTV_BPS INTEREST_BASE_BPS_PER_YEAR
                  INTEREST_SLOPE1_BPS_PER_YEAR INTEREST_SLOPE2_BPS_PER_YEAR INTEREST_KINK_BPS)
            w))))))))))"

lemmas initialize_pool_consts [code_defs] =
  SWAP_FEE_BPS_def PROTOCOL_FEE_BPS_def LIQ_RATIO_BPS_def MAX_LTV_BPS_def
  INTEREST_BASE_BPS_PER_YEAR_def INTEREST_SLOPE1_BPS_PER_YEAR_def
  INTEREST_SLOPE2_BPS_PER_YEAR_def INTEREST_KINK_BPS_def LP_MINT_DECIMALS_def

section \<open>Lemmas\<close>

lemma initial_pool_safe: "safe_params (initial_pool m_a m_b v_a v_b lpm b0 b1 b2 b3 slot)"
  by (simp add: safe_params_def initial_pool_def initialize_pool_consts BPS_DENOM_def)

lemma initial_pool_wf: "pool_wf (initial_pool m_a m_b v_a v_b lpm b0 b1 b2 b3 slot)"
  by (simp add: pool_wf_def initial_pool_def POOL_DISCRIMINATOR_def)

lemma initial_pool_initialized:
  "pool_is_initialized (initial_pool m_a m_b v_a v_b lpm b0 b1 b2 b3 slot)"
  by (simp add: pool_is_initialized_def initial_pool_def)

lemma check_extensions_Ok_iff:
  "check_extensions e d exts = Ok () \<longleftrightarrow>
     set exts \<subseteq> set MINT_EXTENSION_ALLOWLIST \<and>
     (MintCloseAuthority \<in> set exts \<longrightarrow> get_close_authority e d = Ok None)"
  by (induction exts) (auto split: if_splits)

end
