(* ===== verification/Account_Views.thy ===== *)
theory Account_Views
  imports Swap Claims Initialize_Pool
begin

text \<open>
  What the program's own accounts hold, as maps from keys to pools, loans and bands. The
  runtime isolates programs: a call to another program cannot change the data or the owner of
  an account this program owns, and an account can only come into its possession with zeroed
  data. Under that rule a call leaves all three maps alone, and a handler's own writes update
  them at one key. The rest of the development speaks about the maps instead of the ledger.
\<close>

section \<open>Calls to other programs\<close>

fun cpi_program :: "env \<Rightarrow> cpi \<Rightarrow> pubkey" where
  "cpi_program e (TransferChecked prog _ _ _ _ _ _) = prog"
| "cpi_program e (MintToChecked prog _ _ _ _ _) = prog"
| "cpi_program e (BurnChecked prog _ _ _ _ _) = prog"
| "cpi_program e (InitializeAccount3 prog _ _ _) = prog"
| "cpi_program e (InitializeMint2 prog _ _ _ _) = prog"
| "cpi_program e (CreateAccount _ _ _ _ _) = system_program_id e"
| "cpi_program e (SysTransfer _ _ _) = system_program_id e"
| "cpi_program e (Allocate _ _) = system_program_id e"
| "cpi_program e (Assign _ _) = system_program_id e"

definition external :: "env \<Rightarrow> cpi \<Rightarrow> bool" where
  "external e c \<longleftrightarrow> is_valid_token_program e (cpi_program e c) \<or> cpi_program e c = system_program_id e"

text \<open>The runtime's rules for a call to a token program or the system program: only the owner of
  an account changes its data or assigns it to another owner, and an account is assigned with
  zeroed data.\<close>

definition isolation_law :: "env \<Rightarrow> pubkey \<Rightarrow> bool" where
  "isolation_law e program_id \<longleftrightarrow>
     (\<forall>c infos seeds l l' k. external e c \<longrightarrow> cpi_invoke e c infos seeds l = Ok l' \<longrightarrow>
        (owner (l k) = program_id \<longrightarrow> owner (l' k) = program_id \<and> data (l' k) = data (l k)) \<and>
        (owner (l k) \<noteq> program_id \<longrightarrow> owner (l' k) = program_id \<longrightarrow>
           list_all (\<lambda>b. b = 0) (data (l' k))))"

section \<open>Views of the ledger\<close>

definition view :: "(bytes \<Rightarrow> 'a option) \<Rightarrow> ('a \<Rightarrow> bool) \<Rightarrow> pubkey \<Rightarrow> world \<Rightarrow> pubkey \<rightharpoonup> 'a" where
  "view dec live program_id w k =
     (if owner (ledger w k) = program_id
      then case dec (data (ledger w k)) of
             Some x \<Rightarrow> if live x then Some x else None
           | None \<Rightarrow> None
      else None)"

definition pools :: "pubkey \<Rightarrow> world \<Rightarrow> pubkey \<rightharpoonup> pool" where
  "pools = view pool_try_from_slice pool_is_initialized"

definition loans :: "pubkey \<Rightarrow> world \<Rightarrow> pubkey \<rightharpoonup> loan" where
  "loans = view loan_try_from_slice loan_is_initialized"

definition bands :: "pubkey \<Rightarrow> world \<Rightarrow> pubkey \<rightharpoonup> loan_index_band" where
  "bands = view loan_index_band_try_from_slice band_is_initialized"

text \<open>A kind of account: a codec, and a marker that zeroed data does not carry.\<close>

locale account_kind = codec +
  fixes live :: "'a \<Rightarrow> bool"
  assumes zero_dead: "wf x \<Longrightarrow> live x \<Longrightarrow> \<not> list_all (\<lambda>b. b = 0) (enc x)"
begin

lemma view_Some:
  "view dec live pid w k = Some x \<longleftrightarrow>
     owner (ledger w k) = pid \<and> data (ledger w k) = enc x \<and> wf x \<and> live x"
proof
  assume "view dec live pid w k = Some x"
  then show "owner (ledger w k) = pid \<and> data (ledger w k) = enc x \<and> wf x \<and> live x"
    by (auto simp: view_def dec_iff split: option.splits if_splits)
qed (simp add: view_def dec_enc)

lemma view_None_zero: "list_all (\<lambda>b. b = 0) (data (ledger w k)) \<Longrightarrow> view dec live pid w k = None"
  using zero_dead by (metis not_Some_eq view_Some)

lemma view_None_length: "length (data (ledger w k)) \<noteq> len \<Longrightarrow> view dec live pid w k = None"
  by (simp add: view_def dec_wrong_length)

lemma view_cong:
  "ledger w' k = ledger w k \<Longrightarrow> view dec live pid w' k = view dec live pid w k"
  by (simp add: view_def)

lemma view_put:
  assumes "owner (acct w i) = pid" "wf x" "live x"
  shows "view dec live pid (put_data i (enc x) w) = (view dec live pid w)(key i \<mapsto> x)"
  using assms by (auto simp: fun_eq_iff view_def put_data_def acct_def dec_enc)

lemma view_put_zero:
  assumes "list_all (\<lambda>b. b = 0) bs"
  shows "view dec live pid (put_data i bs w) = (view dec live pid w)(key i := None)"
proof
  fix k
  show "view dec live pid (put_data i bs w) k = ((view dec live pid w)(key i := None)) k"
  proof (cases "k = key i")
    case True
    then show ?thesis using assms by (simp add: view_None_zero put_data_def)
  next
    case False
    then show ?thesis by (simp add: view_def put_data_def)
  qed
qed

lemma view_put_other:
  assumes "length bs \<noteq> len" "length (data (acct w i)) \<noteq> len \<or> view dec live pid w (key i) = None"
  shows "view dec live pid (put_data i bs w) = view dec live pid w"
proof
  fix k
  show "view dec live pid (put_data i bs w) k = view dec live pid w k"
  proof (cases "k = key i")
    case True
    have "view dec live pid w (key i) = None"
      using assms(2) by (auto simp: acct_def view_None_length)
    then show ?thesis using True assms(1) by (simp add: view_None_length put_data_def)
  next
    case False
    then show ?thesis by (simp add: view_def put_data_def)
  qed
qed

lemma view_put_lamports [simp]: "view dec live pid (put_lamports i n w) = view dec live pid w"
  by (auto simp: fun_eq_iff view_def put_lamports_def acct_def)

lemma view_emit [simp]: "view dec live pid (emit ev w) = view dec live pid w"
  by (simp add: fun_eq_iff view_def)

lemma view_invoke:
  assumes "isolation_law e pid" "external e c" "invoke_signed e c infos seeds w = Ok w'"
  shows "view dec live pid w' = view dec live pid w"
proof
  fix k
  obtain l where l: "cpi_invoke e c infos seeds (ledger w) = Ok l" "w' = w\<lparr>ledger := l\<rparr>"
    using assms(3) by (auto simp: invoke_signed_Ok_iff)
  have law: "owner (ledger w k) = pid \<longrightarrow> owner (l k) = pid \<and> data (l k) = data (ledger w k)"
    "owner (ledger w k) \<noteq> pid \<longrightarrow> owner (l k) = pid \<longrightarrow> list_all (\<lambda>b. b = 0) (data (l k))"
    using assms(1,2) l(1) unfolding isolation_law_def by blast+
  show "view dec live pid w' k = view dec live pid w k"
  proof (cases "owner (ledger w k) = pid")
    case True
    then show ?thesis using law(1) l(2) by (simp add: view_def)
  next
    case False
    then have "view dec live pid w k = None" by (simp add: view_def)
    moreover have "view dec live pid w' k = None"
      using False law(2) l(2) by (cases "owner (l k) = pid") (simp_all add: view_None_zero, simp add: view_def)
    ultimately show ?thesis by simp
  qed
qed

end

interpretation pool_kind: account_kind pool_bytes pool_try_from_slice pool_wf POOL_LEN pool_is_initialized
  by unfold_locales
    (auto simp: pool_bytes_def pool_is_initialized_def POOL_DISCRIMINATOR_def)

interpretation loan_kind: account_kind loan_bytes loan_try_from_slice loan_wf LOAN_LEN loan_is_initialized
  by unfold_locales
    (auto simp: loan_bytes_def loan_is_initialized_def LOAN_DISCRIMINATOR_def)

interpretation band_kind: account_kind loan_index_band_bytes loan_index_band_try_from_slice
  loan_index_band_wf LOAN_INDEX_BAND_LEN band_is_initialized
  by unfold_locales
    (auto simp: loan_index_band_bytes_def band_is_initialized_def LOAN_INDEX_BAND_DISCRIMINATOR_def)

section \<open>The program's books\<close>

record books =
  b_pools :: "pubkey \<rightharpoonup> pool"
  b_loans :: "pubkey \<rightharpoonup> loan"
  b_bands :: "pubkey \<rightharpoonup> loan_index_band"

definition books_of :: "pubkey \<Rightarrow> world \<Rightarrow> books" where
  "books_of program_id w =
     \<lparr>b_pools = pools program_id w, b_loans = loans program_id w, b_bands = bands program_id w\<rparr>"

lemmas views = pools_def loans_def bands_def
lemmas kind_lens = POOL_LEN_def LOAN_LEN_def LOAN_INDEX_BAND_LEN_def

lemma books_of_simps [simp]:
  "b_pools (books_of pid w) = pools pid w" "b_loans (books_of pid w) = loans pid w"
  "b_bands (books_of pid w) = bands pid w"
  by (simp_all add: books_of_def)

lemma books_invoke:
  assumes "isolation_law e pid" "external e c" "invoke_signed e c infos seeds w = Ok w'"
  shows "books_of pid w' = books_of pid w"
  using pool_kind.view_invoke [OF assms] loan_kind.view_invoke [OF assms]
    band_kind.view_invoke [OF assms] by (simp add: books_of_def views)

lemma books_unchanged [simp]:
  "books_of pid (emit ev w) = books_of pid w"
  "books_of pid (put_lamports i n w) = books_of pid w"
  by (simp_all add: books_of_def views)

lemma loaded_pool:
  "load_pool w i = Ok p \<Longrightarrow> owner (acct w i) = pid \<Longrightarrow> pools pid w (key i) = Some p"
  by (simp add: load_pool_Ok_iff views pool_kind.view_Some acct_def)

lemma loaded_loan:
  "load_loan w i = Ok l \<Longrightarrow> loan_is_initialized l \<Longrightarrow> owner (acct w i) = pid \<Longrightarrow>
   loans pid w (key i) = Some l"
  by (simp add: load_loan_Ok_iff views loan_kind.view_Some acct_def)

lemma loaded_band:
  "load_band w i = Ok b \<Longrightarrow> band_is_initialized b \<Longrightarrow> owner (acct w i) = pid \<Longrightarrow>
   bands pid w (key i) = Some b"
  by (simp add: load_band_Ok_iff views band_kind.view_Some acct_def)

lemma pools_Some: "pools pid w k = Some p \<longleftrightarrow> owner (ledger w k) = pid \<and>
    data (ledger w k) = pool_bytes p \<and> pool_wf p \<and> pool_is_initialized p"
  by (simp add: views pool_kind.view_Some)

lemma loans_Some: "loans pid w k = Some l \<longleftrightarrow> owner (ledger w k) = pid \<and>
    data (ledger w k) = loan_bytes l \<and> loan_wf l \<and> loan_is_initialized l"
  by (simp add: views loan_kind.view_Some)

lemma bands_Some: "bands pid w k = Some b \<longleftrightarrow> owner (ledger w k) = pid \<and>
    data (ledger w k) = loan_index_band_bytes b \<and> loan_index_band_wf b \<and> band_is_initialized b"
  by (simp add: views band_kind.view_Some)

text \<open>An account holds at most one kind of state.\<close>

lemma kinds_disjoint:
  "pools pid w k = Some p \<Longrightarrow> loans pid w k = None \<and> bands pid w k = None"
  "loans pid w k = Some l \<Longrightarrow> pools pid w k = None \<and> bands pid w k = None"
  "bands pid w k = Some b \<Longrightarrow> pools pid w k = None \<and> loans pid w k = None"
  by (simp_all add: views pool_kind.view_Some loan_kind.view_Some band_kind.view_Some
      pool_kind.view_None_length loan_kind.view_None_length band_kind.view_None_length
      length_pool_bytes length_loan_bytes length_loan_index_band_bytes kind_lens)

text \<open>Writing a pool, loan or band over an account of the right size changes one entry.\<close>

lemma write_pool:
  assumes "owner (acct w i) = pid" "length (data (acct w i)) = POOL_LEN" "pool_wf q" "pool_is_initialized q"
    "serialize_into (pool_bytes q) i w = Ok w'"
  shows "books_of pid w' = (books_of pid w)\<lparr>b_pools := (pools pid w)(key i \<mapsto> q)\<rparr>"
proof -
  have w': "w' = put_data i (pool_bytes q) w"
    using assms(2,3,5) by (simp add: length_pool_bytes)
  have "pools pid w' = (pools pid w)(key i \<mapsto> q)"
    unfolding w' views using assms(1,3,4) by (rule pool_kind.view_put)
  moreover have "loans pid w' = loans pid w" "bands pid w' = bands pid w"
    unfolding w' views using assms(2,3)
    by (simp_all add: loan_kind.view_put_other band_kind.view_put_other length_pool_bytes kind_lens)
  ultimately show ?thesis by (simp add: books_of_def)
qed

lemma write_loan:
  assumes "owner (acct w i) = pid" "length (data (acct w i)) = LOAN_LEN" "loan_wf q" "loan_is_initialized q"
    "serialize_into (loan_bytes q) i w = Ok w'"
  shows "books_of pid w' = (books_of pid w)\<lparr>b_loans := (loans pid w)(key i \<mapsto> q)\<rparr>"
proof -
  have w': "w' = put_data i (loan_bytes q) w"
    using assms(2,3,5) by (simp add: length_loan_bytes)
  have "loans pid w' = (loans pid w)(key i \<mapsto> q)"
    unfolding w' views using assms(1,3,4) by (rule loan_kind.view_put)
  moreover have "pools pid w' = pools pid w" "bands pid w' = bands pid w"
    unfolding w' views using assms(2,3)
    by (simp_all add: pool_kind.view_put_other band_kind.view_put_other length_loan_bytes kind_lens)
  ultimately show ?thesis by (simp add: books_of_def)
qed

lemma write_band:
  assumes "owner (acct w i) = pid" "length (data (acct w i)) = LOAN_INDEX_BAND_LEN" "loan_index_band_wf q" "band_is_initialized q"
    "serialize_into (loan_index_band_bytes q) i w = Ok w'"
  shows "books_of pid w' = (books_of pid w)\<lparr>b_bands := (bands pid w)(key i \<mapsto> q)\<rparr>"
proof -
  have w': "w' = put_data i (loan_index_band_bytes q) w"
    using assms(2,3,5) by (simp add: length_loan_index_band_bytes)
  have "bands pid w' = (bands pid w)(key i \<mapsto> q)"
    unfolding w' views using assms(1,3,4) by (rule band_kind.view_put)
  moreover have "pools pid w' = pools pid w" "loans pid w' = loans pid w"
    unfolding w' views using assms(2,3)
    by (simp_all add: pool_kind.view_put_other loan_kind.view_put_other length_loan_index_band_bytes kind_lens)
  ultimately show ?thesis by (simp add: books_of_def)
qed

text \<open>Zeroing a loan account removes its entry.\<close>

lemma zero_loan:
  assumes "length (data (acct w i)) = LOAN_LEN"
  shows "books_of pid (put_data i (map (\<lambda>_. 0) (data (acct w i))) w) =
    (books_of pid w)\<lparr>b_loans := (loans pid w)(key i := None)\<rparr>"
proof -
  let ?w = "put_data i (map (\<lambda>_. 0) (data (acct w i))) w"
  have "loans pid ?w = (loans pid w)(key i := None)"
    unfolding views by (rule loan_kind.view_put_zero) (simp add: list_all_iff)
  moreover have "pools pid ?w = pools pid w" "bands pid ?w = bands pid w"
    unfolding views using assms
    by (simp_all add: pool_kind.view_put_other band_kind.view_put_other kind_lens)
  ultimately show ?thesis by (simp add: books_of_def)
qed

text \<open>The account behind an entry.\<close>

lemma entry_account:
  "pools pid w (key i) = Some p \<Longrightarrow> owner (acct w i) = pid \<and> length (data (acct w i)) = POOL_LEN \<and>
     pool_wf p \<and> pool_is_initialized p"
  "loans pid w (key i) = Some l \<Longrightarrow> owner (acct w i) = pid \<and> length (data (acct w i)) = LOAN_LEN \<and>
     loan_wf l \<and> loan_is_initialized l"
  "bands pid w (key i) = Some b \<Longrightarrow> owner (acct w i) = pid \<and>
     length (data (acct w i)) = LOAN_INDEX_BAND_LEN \<and> loan_index_band_wf b \<and> band_is_initialized b"
  by (simp_all add: pools_Some loans_Some bands_Some acct_def length_pool_bytes length_loan_bytes
      length_loan_index_band_bytes)

text \<open>A quiet step: the books stay, and so does every account the program owns.\<close>

definition quiet :: "pubkey \<Rightarrow> world \<Rightarrow> world \<Rightarrow> bool" where
  "quiet pid w w' \<longleftrightarrow> books_of pid w' = books_of pid w \<and>
     (\<forall>k. owner (ledger w k) = pid \<longrightarrow>
        owner (ledger w' k) = pid \<and> data (ledger w' k) = data (ledger w k))"

lemma quiet_refl [simp]: "quiet pid w w"
  by (simp add: quiet_def)

lemma quiet_trans: "quiet pid w w' \<Longrightarrow> quiet pid w' w'' \<Longrightarrow> quiet pid w w''"
  by (simp add: quiet_def)

lemma quiet_books: "quiet pid w w' \<Longrightarrow> books_of pid w' = books_of pid w"
  by (simp add: quiet_def)

lemma quiet_maps:
  assumes "quiet pid w w'"
  shows "pools pid w' = pools pid w" "loans pid w' = loans pid w" "bands pid w' = bands pid w"
  using quiet_books [OF assms] by (simp_all add: books_of_def)

lemma quiet_acct:
  "quiet pid w w' \<Longrightarrow> owner (acct w i) = pid \<Longrightarrow>
   owner (acct w' i) = pid \<and> data (acct w' i) = data (acct w i)"
  by (simp add: quiet_def acct_def)

lemma quiet_invoke:
  assumes "isolation_law e pid" "external e c" "invoke_signed e c infos seeds w = Ok w'"
  shows "quiet pid w w'"
  using assms books_invoke [OF assms] unfolding quiet_def isolation_law_def invoke_signed_Ok_iff
  by fastforce

lemma quiet_system:
  assumes "isolation_law e pid" "invoke_signed e c infos seeds w = Ok w'"
    "cpi_program e c = system_program_id e"
  shows "quiet pid w w'"
  using assms by (intro quiet_invoke [of e pid c infos seeds]) (simp_all add: external_def)

text \<open>Transfers are external calls when their program is a token program.\<close>

lemma quiet_transfer:
  assumes "isolation_law e pid" "is_valid_token_program e (key prog)"
    "transfer_checked e prog src mint_i dst auth amount dec seeds w = Ok w'"
  shows "quiet pid w w'"
  by (rule quiet_invoke [OF assms(1) _ assms(3) [unfolded transfer_checked_def]])
    (simp add: external_def assms(2))

lemmas books_transfer = quiet_transfer [THEN quiet_books]

text \<open>The documented effect of the system program's instructions on data and owners: \<open>CreateAccount\<close>
  sets both for the new account, \<open>Allocate\<close> sizes the data, \<open>Assign\<close> sets the owner,
  \<open>Transfer\<close> touches neither; no instruction reaches another account.\<close>

definition same_contents :: "account \<Rightarrow> account \<Rightarrow> bool" where
  "same_contents x y \<longleftrightarrow> owner y = owner x \<and> data y = data x"

definition system_law :: "env \<Rightarrow> bool" where
  "system_law e \<longleftrightarrow> (\<forall>infos seeds l l'.
     (\<forall>payer new n space own. cpi_invoke e (CreateAccount payer new n space own) infos seeds l = Ok l' \<longrightarrow>
        owner (l' new) = own \<and> length (data (l' new)) = unat space \<and>
        (\<forall>j. j \<noteq> new \<longrightarrow> same_contents (l j) (l' j))) \<and>
     (\<forall>src dst n. cpi_invoke e (SysTransfer src dst n) infos seeds l = Ok l' \<longrightarrow>
        (\<forall>j. same_contents (l j) (l' j))) \<and>
     (\<forall>k space. cpi_invoke e (Allocate k space) infos seeds l = Ok l' \<longrightarrow>
        length (data (l' k)) = unat space \<and> (\<forall>j. j \<noteq> k \<longrightarrow> same_contents (l j) (l' j))) \<and>
     (\<forall>k own. cpi_invoke e (Assign k own) infos seeds l = Ok l' \<longrightarrow>
        owner (l' k) = own \<and> data (l' k) = data (l k) \<and> (\<forall>j. j \<noteq> k \<longrightarrow> same_contents (l j) (l' j))))"

lemma system_lawD:
  assumes "system_law e"
  shows "invoke_signed e (CreateAccount payer new n space own) infos seeds w = Ok w' \<Longrightarrow>
      owner (ledger w' new) = own \<and> length (data (ledger w' new)) = unat space \<and>
      (\<forall>j. j \<noteq> new \<longrightarrow> same_contents (ledger w j) (ledger w' j))"
    "invoke_signed e (SysTransfer src dst n) infos seeds w = Ok w' \<Longrightarrow>
      \<forall>j. same_contents (ledger w j) (ledger w' j)"
    "invoke_signed e (Allocate k space) infos seeds w = Ok w' \<Longrightarrow>
      length (data (ledger w' k)) = unat space \<and>
      (\<forall>j. j \<noteq> k \<longrightarrow> same_contents (ledger w j) (ledger w' j))"
    "invoke_signed e (Assign k own) infos seeds w = Ok w' \<Longrightarrow>
      owner (ledger w' k) = own \<and> data (ledger w' k) = data (ledger w k) \<and>
      (\<forall>j. j \<noteq> k \<longrightarrow> same_contents (ledger w j) (ledger w' j))"
  using assms unfolding system_law_def invoke_signed_Ok_iff by fastforce+

text \<open>Creating an account: the steps, and what they leave behind.\<close>

lemma create_pda_account_cases:
  assumes "create_pda_account e payer target sys space own seeds rent w = Ok w'"
  obtains (fresh) "invoke_signed e (CreateAccount (key payer) (key target) (rent space) (of_nat space) own)
      [payer, target, sys] [seeds] w = Ok w'"
  | (funded) m w1 w2 where
      "invoke_signed e (SysTransfer (key payer) (key target) m) [payer, target, sys] [] w = Ok w1 \<or> w1 = w"
      "invoke_signed e (Allocate (key target) (of_nat space)) [target, sys] [seeds] w1 = Ok w2"
      "invoke_signed e (Assign (key target) own) [target, sys] [seeds] w2 = Ok w'"
proof (cases "lamports (acct w target) = 0")
  case True
  with assms show ?thesis by (intro fresh) (simp add: create_pda_account_def)
next
  case False
  let ?m = "saturating_sub (rent space) (lamports (acct w target))"
  from False assms obtain w1 w2 where
    w1: "(if 0 < ?m then invoke e (SysTransfer (key payer) (key target) ?m) [payer, target, sys] w
          else Ok w) = Ok w1"
    and w2: "invoke_signed e (Allocate (key target) (of_nat space)) [target, sys] [seeds] w1 = Ok w2"
    and w': "invoke_signed e (Assign (key target) own) [target, sys] [seeds] w2 = Ok w'"
    by (auto simp: create_pda_account_def Let_def)
  show ?thesis
    by (rule funded [OF _ w2 w', of ?m]) (use w1 in \<open>auto simp: invoke_def split: if_splits\<close>)
qed

lemma quiet_create:
  assumes iso: "isolation_law e pid"
    and "create_pda_account e payer target sys space own seeds rent w = Ok w'"
  shows "quiet pid w w'"
  using assms(2)
proof (cases rule: create_pda_account_cases)
  case fresh
  then show ?thesis by (rule quiet_system [OF iso]) simp
next
  case (funded m w1 w2)
  have "quiet pid w w1"
    using funded(1) by (elim disjE) (erule quiet_system [OF iso], simp_all)
  moreover have "quiet pid w1 w2" by (rule quiet_system [OF iso funded(2)]) simp
  moreover have "quiet pid w2 w'" by (rule quiet_system [OF iso funded(3)]) simp
  ultimately show ?thesis by (blast intro: quiet_trans)
qed

lemma created_account:
  assumes law: "system_law e" and "space < 2 ^ 64"
    and "create_pda_account e payer target sys space own seeds rent w = Ok w'"
  shows "owner (acct w' target) = own \<and> length (data (acct w' target)) = space \<and>
    (\<forall>j. j \<noteq> key target \<longrightarrow> same_contents (ledger w j) (ledger w' j))"
  using assms(3)
proof (cases rule: create_pda_account_cases)
  case fresh
  then show ?thesis using system_lawD(1) [OF law fresh] assms(2)
    by (simp add: acct_def unat_of_nat_eq)
next
  case (funded m w1 w2)
  have "\<forall>j. same_contents (ledger w j) (ledger w1 j)"
    using funded(1) system_lawD(2) [OF law] by (auto simp: same_contents_def)
  then show ?thesis
    using system_lawD(3) [OF law funded(2)] system_lawD(4) [OF law funded(3)] assms(2)
    by (simp add: acct_def unat_of_nat_eq same_contents_def)
qed

section \<open>The runtime's rules\<close>

text \<open>The rules of the runtime for a call into a token program or the system program: only the owner
  of an account changes its data or gives it away, and an account changes hands with zeroed data
  only. This program, the token programs and the system program are different programs.\<close>

definition runtime_law :: "env \<Rightarrow> pubkey \<Rightarrow> bool" where
  "runtime_law e program_id \<longleftrightarrow>
     \<not> is_valid_token_program e program_id \<and> program_id \<noteq> system_program_id e \<and>
     \<not> is_valid_token_program e (system_program_id e) \<and>
     (\<forall>c infos seeds l l' k. external e c \<longrightarrow> cpi_invoke e c infos seeds l = Ok l' \<longrightarrow>
        (owner (l k) \<noteq> cpi_program e c \<longrightarrow> same_contents (l k) (l' k)) \<and>
        (owner (l' k) \<noteq> owner (l k) \<longrightarrow> list_all (\<lambda>b. b = 0) (data (l' k))))"

lemma runtime_invoke:
  assumes "runtime_law e pid" "external e c" "invoke_signed e c infos seeds w = Ok w'"
  shows "owner (ledger w k) \<noteq> cpi_program e c \<Longrightarrow> same_contents (ledger w k) (ledger w' k)"
  using assms unfolding runtime_law_def invoke_signed_Ok_iff by fastforce

lemma runtime_isolation:
  assumes "runtime_law e pid"
  shows "isolation_law e pid"
proof -
  have "(owner (l k) = pid \<longrightarrow> owner (l' k) = pid \<and> data (l' k) = data (l k)) \<and>
      (owner (l k) \<noteq> pid \<longrightarrow> owner (l' k) = pid \<longrightarrow> list_all (\<lambda>b. b = 0) (data (l' k)))"
    if c: "external e c" "cpi_invoke e c infos seeds l = Ok l'" for c infos seeds l l' k
  proof -
    have "owner (l k) \<noteq> cpi_program e c \<longrightarrow> same_contents (l k) (l' k)"
      "owner (l' k) \<noteq> owner (l k) \<longrightarrow> list_all (\<lambda>b. b = 0) (data (l' k))"
      using assms c unfolding runtime_law_def by blast+
    moreover have "cpi_program e c \<noteq> pid" using assms c(1) by (auto simp: runtime_law_def external_def)
    ultimately show ?thesis by (auto simp: same_contents_def)
  qed
  then show ?thesis unfolding isolation_law_def by blast
qed

end
