(* ===== verification/Loan_Book.thy ===== *)
theory Loan_Book
  imports Swap Initialize_Pool "HOL-Library.Multiset"
begin

text \<open>
  The pool's totals as an abstraction of its open loans. The abstract state is the multiset of
  open positions; \<open>totals_match\<close> relates a pool to it. Opening a loan adds a position,
  repaying and liquidating remove one, and an open position can always be released. The
  transitions of the whole books, in \<open>Book_Spec\<close>, rest on these facts.
\<close>

section \<open>Positions\<close>

record position_t =
  pos_sides :: loan_sides
  pos_collateral :: u128
  pos_principal :: u128

definition position_of_ctx :: "loan_ctx \<Rightarrow> position_t" where
  "position_of_ctx l =
     \<lparr>pos_sides = ctx_sides l, pos_collateral = ctx_collateral l, pos_principal = ctx_debt_principal l\<rparr>"

text \<open>The collateral and the principal a position holds on each side.\<close>

fun collateral_on :: "loan_sides \<Rightarrow> position_t \<Rightarrow> nat" where
  "collateral_on s x = (if pos_sides x = s then unat (pos_collateral x) else 0)"

fun principal_on :: "loan_sides \<Rightarrow> position_t \<Rightarrow> nat" where
  "principal_on s x = (if pos_sides x = s then unat (pos_principal x) else 0)"

definition total :: "(position_t \<Rightarrow> nat) \<Rightarrow> position_t multiset \<Rightarrow> nat" where
  "total f b = sum_mset (image_mset f b)"

definition totals_match :: "pool \<Rightarrow> position_t multiset \<Rightarrow> bool" where
  "totals_match p b \<longleftrightarrow>
     unat (total_collateral_a p) = total (collateral_on CollateralA) b \<and>
     unat (total_collateral_b p) = total (collateral_on CollateralB) b \<and>
     unat (total_debt_b p) = total (principal_on CollateralA) b \<and>
     unat (total_debt_a p) = total (principal_on CollateralB) b \<and>
     unat (open_loans p) = size b"

lemma total_simps [simp]:
  "total f {#} = 0" "total f (add_mset x b) = f x + total f b"
  by (simp_all add: total_def)

lemma total_ge: "x \<in># b \<Longrightarrow> f x \<le> total f b"
  by (metis insert_DiffM le_add1 total_simps(2))

lemma total_remove: "x \<in># b \<Longrightarrow> total f (b - {#x#}) = total f b - f x"
  by (metis diff_add_inverse insert_DiffM total_simps(2))

section \<open>Opening and releasing against the book\<close>

lemma open_loan_book_Ok:
  assumes "open_loan_book p sides c d slot = Ok q"
  shows "\<exists>ca cb da db n m. q = p\<lparr>total_collateral_a := ca, total_collateral_b := cb,
      total_debt_a := da, total_debt_b := db, open_loans := n, next_loan_nonce := m,
      last_update_slot := slot\<rparr> \<and>
    unat n = unat (open_loans p) + 1 \<and>
    unat ca = unat (total_collateral_a p) + (if sides = CollateralA then unat c else 0) \<and>
    unat db = unat (total_debt_b p) + (if sides = CollateralA then unat d else 0) \<and>
    unat cb = unat (total_collateral_b p) + (if sides = CollateralB then unat c else 0) \<and>
    unat da = unat (total_debt_a p) + (if sides = CollateralB then unat d else 0)"
proof (cases sides)
  case CollateralA
  with assms obtain c' d' n m where
    "unat c' = unat (total_collateral_a p) + unat c" "unat d' = unat (total_debt_b p) + unat d"
    "unat n = unat (open_loans p) + 1"
    "q = p\<lparr>total_collateral_a := c', total_debt_b := d', open_loans := n, next_loan_nonce := m,
      last_update_slot := slot\<rparr>"
    by (auto simp: open_loan_book_def checked_add_Some_iff)
  with CollateralA show ?thesis
    by (intro exI [of _ c'] exI [of _ "total_collateral_b p"] exI [of _ "total_debt_a p"]
        exI [of _ d'] exI [of _ n] exI [of _ m]) simp
next
  case CollateralB
  with assms obtain c' d' n m where
    "unat c' = unat (total_collateral_b p) + unat c" "unat d' = unat (total_debt_a p) + unat d"
    "unat n = unat (open_loans p) + 1"
    "q = p\<lparr>total_collateral_b := c', total_debt_a := d', open_loans := n, next_loan_nonce := m,
      last_update_slot := slot\<rparr>"
    by (auto simp: open_loan_book_def checked_add_Some_iff)
  with CollateralB show ?thesis
    by (intro exI [of _ "total_collateral_a p"] exI [of _ c'] exI [of _ d']
        exI [of _ "total_debt_b p"] exI [of _ n] exI [of _ m]) simp
qed

text \<open>The four totals and the loan count are all a release may change.\<close>

lemma release_loan_Ok:
  assumes "release_loan p sides c d = Ok q"
  shows "\<exists>ca cb da db n. q = p\<lparr>total_collateral_a := ca, total_collateral_b := cb,
      total_debt_a := da, total_debt_b := db, open_loans := n\<rparr> \<and>
    unat (open_loans p) = unat n + 1 \<and>
    unat (total_collateral_a p) = unat ca + (if sides = CollateralA then unat c else 0) \<and>
    unat (total_debt_b p) = unat db + (if sides = CollateralA then unat d else 0) \<and>
    unat (total_collateral_b p) = unat cb + (if sides = CollateralB then unat c else 0) \<and>
    unat (total_debt_a p) = unat da + (if sides = CollateralB then unat d else 0)"
proof (cases sides)
  case CollateralA
  with assms obtain c' d' n where
    "unat (total_collateral_a p) = unat c' + unat c" "unat (total_debt_b p) = unat d' + unat d"
    "unat (open_loans p) = unat n + 1"
    "q = p\<lparr>total_collateral_a := c', total_debt_b := d', open_loans := n\<rparr>"
    by (auto simp: release_loan_def checked_sub_Some_iff)
  with CollateralA show ?thesis
    by (intro exI [of _ c'] exI [of _ "total_collateral_b p"] exI [of _ "total_debt_a p"]
        exI [of _ d'] exI [of _ n]) simp
next
  case CollateralB
  with assms obtain c' d' n where
    "unat (total_collateral_b p) = unat c' + unat c" "unat (total_debt_a p) = unat d' + unat d"
    "unat (open_loans p) = unat n + 1"
    "q = p\<lparr>total_collateral_b := c', total_debt_a := d', open_loans := n\<rparr>"
    by (auto simp: release_loan_def checked_sub_Some_iff)
  with CollateralB show ?thesis
    by (intro exI [of _ "total_collateral_a p"] exI [of _ c'] exI [of _ d']
        exI [of _ "total_debt_b p"] exI [of _ n]) simp
qed

lemma totals_match_open:
  assumes "totals_match p b" "open_loan_book p sides c d slot = Ok q"
  shows "totals_match q
    (add_mset \<lparr>pos_sides = sides, pos_collateral = widen c, pos_principal = widen d\<rparr> b)"
  using assms(1) open_loan_book_Ok [OF assms(2)] by (auto simp: totals_match_def)

lemma totals_match_release:
  assumes "totals_match p b" "x \<in># b"
    "release_loan p (pos_sides x) (pos_collateral x) (pos_principal x) = Ok q"
  shows "totals_match q (b - {#x#})"
  using assms(1) release_loan_Ok [OF assms(3)]
  by (auto simp: totals_match_def total_remove [OF assms(2)] size_Diff_singleton [OF assms(2)])

text \<open>An open position can always be released: no subtraction underflows.\<close>

lemma release_total:
  assumes "totals_match p b" "x \<in># b"
  shows "\<exists>q. release_loan p (pos_sides x) (pos_collateral x) (pos_principal x) = Ok q"
proof -
  have sub: "\<exists>z. checked_sub X Y = Some z" if "unat Y \<le> unat X" for X Y :: "'w::len word"
    using that by (simp add: checked_sub_def word_le_nat_alt)
  have le: "f x \<le> total f b" for f using assms(2) by (rule total_ge)
  have n: "\<exists>z. checked_sub (open_loans p) 1 = Some z"
  proof (intro sub)
    have "0 < size b" using assms(2) by (cases b) auto
    then show "unat (1 :: u64) \<le> unat (open_loans p)" using assms(1) by (simp add: totals_match_def)
  qed
  show ?thesis
  proof (cases "pos_sides x")
    case CollateralA
    have "\<exists>z. checked_sub (total_collateral_a p) (pos_collateral x) = Some z"
      "\<exists>z. checked_sub (total_debt_b p) (pos_principal x) = Some z"
      using assms(1) le [of "collateral_on CollateralA"] le [of "principal_on CollateralA"] CollateralA
      by (intro sub; simp add: totals_match_def)+
    with n CollateralA show ?thesis by (auto simp: release_loan_def)
  next
    case CollateralB
    have "\<exists>z. checked_sub (total_collateral_b p) (pos_collateral x) = Some z"
      "\<exists>z. checked_sub (total_debt_a p) (pos_principal x) = Some z"
      using assms(1) le [of "collateral_on CollateralB"] le [of "principal_on CollateralB"] CollateralB
      by (intro sub; simp add: totals_match_def)+
    with n CollateralB show ?thesis by (auto simp: release_loan_def)
  qed
qed

end
