(* ===== verification/Book_Spec.thy ===== *)
theory Book_Spec
  imports Account_Views Loan_Book
begin

text \<open>
  The abstract specification of the program's books: pools, loans and bands as maps, and one
  transition per kind of effect a handler may have on them. The invariant says that a pool's
  totals are the sums over its open loans, that its bitmaps list exactly the populated bands,
  that a band counts exactly its open loans and lives at its own address, and that every open
  loan sits in the band of its trigger price. Every transition keeps it.
\<close>

section \<open>Parts of a pool\<close>

text \<open>The bands a bitmap marks.\<close>

definition bits :: "pool \<Rightarrow> u8 \<Rightarrow> u32 set" where
  "bits p d = (case band_bitmap p d of Ok bm \<Rightarrow> Collect (bitmap_is_set bm) | _ \<Rightarrow> {})"

text \<open>What never changes after a pool is created: everything but the totals, the indexes, the
  fees, the bitmaps, the reference price and the slots.\<close>

definition params :: "pool \<Rightarrow> pool" where
  "params p = p\<lparr>total_debt_a := 0, total_debt_b := 0, total_collateral_a := 0, total_collateral_b := 0,
     borrow_index_a_wad := 0, borrow_index_b_wad := 0, last_index_update_slot := 0, open_loans := 0,
     next_loan_nonce := 0, last_update_slot := 0, protocol_fees_a := 0, protocol_fees_b := 0,
     band_bitmap_fall := [], band_bitmap_rise := [], ref_price_wad := 0, ref_price_slot := 0\<rparr>"

text \<open>The totals of \<open>q\<close> are those of \<open>p\<close> without the positions \<open>m\<close>.\<close>

definition removed :: "pool \<Rightarrow> pool \<Rightarrow> position_t multiset \<Rightarrow> bool" where
  "removed p q m \<longleftrightarrow>
     unat (total_collateral_a p) = unat (total_collateral_a q) + total (collateral_on CollateralA) m \<and>
     unat (total_collateral_b p) = unat (total_collateral_b q) + total (collateral_on CollateralB) m \<and>
     unat (total_debt_b p) = unat (total_debt_b q) + total (principal_on CollateralA) m \<and>
     unat (total_debt_a p) = unat (total_debt_a q) + total (principal_on CollateralB) m \<and>
     unat (open_loans p) = unat (open_loans q) + size m"

lemma total_union [simp]: "total f (a + b) = total f a + total f b"
  by (simp add: total_def)

lemma removed_refl [simp]: "removed p p {#}"
  by (simp add: removed_def)

lemma removed_trans: "removed p q m \<Longrightarrow> removed q r n \<Longrightarrow> removed p r (m + n)"
  by (simp add: removed_def)

lemma removed_match: "removed p q m \<Longrightarrow> totals_match p (m + b) \<Longrightarrow> totals_match q b"
  by (simp add: removed_def totals_match_def)

lemma removed_add: "removed q p m \<Longrightarrow> totals_match p b \<Longrightarrow> totals_match q (m + b)"
  by (simp add: removed_def totals_match_def)

lemma params_fields:
  assumes "params p = params q"
  shows "swap_fee_bps p = swap_fee_bps q" "protocol_fee_bps p = protocol_fee_bps q"
    "liq_ratio_bps p = liq_ratio_bps q" "max_ltv_bps p = max_ltv_bps q"
    "interest_kink_bps p = interest_kink_bps q" "mint_a p = mint_a q" "mint_b p = mint_b q"
    "vault_a p = vault_a q" "vault_b p = vault_b q" "lp_mint p = lp_mint q"
    "pool_is_initialized p = pool_is_initialized q" "safe_params p = safe_params q"
proof -
  have f: "f (params p) = f (params q)" for f :: "pool \<Rightarrow> 'x" by (simp only: assms)
  note fs = f [of swap_fee_bps] f [of protocol_fee_bps] f [of liq_ratio_bps] f [of max_ltv_bps]
    f [of interest_base_bps_per_year] f [of interest_slope1_bps_per_year]
    f [of interest_slope2_bps_per_year] f [of interest_kink_bps]
    f [of mint_a] f [of mint_b] f [of vault_a] f [of vault_b] f [of lp_mint] f [of pool_discriminator]
  show "swap_fee_bps p = swap_fee_bps q" "protocol_fee_bps p = protocol_fee_bps q"
    "liq_ratio_bps p = liq_ratio_bps q" "max_ltv_bps p = max_ltv_bps q"
    "interest_kink_bps p = interest_kink_bps q" "mint_a p = mint_a q" "mint_b p = mint_b q"
    "vault_a p = vault_a q" "vault_b p = vault_b q" "lp_mint p = lp_mint q"
    "pool_is_initialized p = pool_is_initialized q" "safe_params p = safe_params q"
    using fs by (simp_all add: params_def pool_is_initialized_def safe_params_def)
qed

section \<open>Open loans in the books\<close>

definition open_of :: "books \<Rightarrow> pubkey \<Rightarrow> pubkey set" where
  "open_of s pk = {k. \<exists>l. b_loans s k = Some l \<and> is_open l \<and> loan_pool l = pk}"

definition open_in :: "books \<Rightarrow> pubkey \<Rightarrow> u8 \<Rightarrow> u32 \<Rightarrow> pubkey set" where
  "open_in s pk d bid = {k. \<exists>l. b_loans s k = Some l \<and> is_open l \<and> loan_pool l = pk \<and>
     loan_trigger_direction l = d \<and> loan_band_id l = bid}"

definition position_of :: "loan \<Rightarrow> position_t" where
  "position_of l = \<lparr>pos_sides = (if loan_sides l = 0 then CollateralA else CollateralB),
     pos_collateral = loan_collateral_amount l, pos_principal = loan_debt_principal l\<rparr>"

definition positions :: "books \<Rightarrow> pubkey set \<Rightarrow> position_t multiset" where
  "positions s ks = image_mset (\<lambda>k. position_of (the (b_loans s k))) (mset_set ks)"

section \<open>The invariant\<close>

definition band_for :: "loan_index_band \<Rightarrow> pubkey \<Rightarrow> u8 \<Rightarrow> u32 \<Rightarrow> bool" where
  "band_for b pk d bid \<longleftrightarrow> band_pool b = pk \<and> band_direction b = d \<and> band_band_id b = bid"

definition loan_ok :: "books \<Rightarrow> loan \<Rightarrow> bool" where
  "loan_ok s l \<longleftrightarrow> b_pools s (loan_pool l) \<noteq> None \<and>
     (loan_sides l = 0 \<or> loan_sides l = 1) \<and>
     (loan_trigger_direction l = 0 \<or> loan_trigger_direction l = 1) \<and>
     band_id_for_trigger (loan_trigger_price_wad l) = Ok (loan_band_id l) \<and>
     (\<exists>k b. b_bands s k = Some b \<and>
        band_for b (loan_pool l) (loan_trigger_direction l) (loan_band_id l))"

definition band_at :: "env \<Rightarrow> pubkey \<Rightarrow> loan_index_band \<Rightarrow> pubkey \<Rightarrow> bool" where
  "band_at e program_id b k \<longleftrightarrow>
     (\<exists>bump. band_derive_pda e (band_pool b) (band_direction b) (band_band_id b) program_id = Ok (k, bump))"

definition band_ok :: "env \<Rightarrow> pubkey \<Rightarrow> books \<Rightarrow> pubkey \<Rightarrow> loan_index_band \<Rightarrow> bool" where
  "band_ok e program_id s k b \<longleftrightarrow> band_at e program_id b k \<and>
     finite (open_in s (band_pool b) (band_direction b) (band_band_id b)) \<and>
     card (open_in s (band_pool b) (band_direction b) (band_band_id b)) = unat (band_count b)"

definition pool_ok :: "books \<Rightarrow> pubkey \<Rightarrow> pool \<Rightarrow> bool" where
  "pool_ok s pk p \<longleftrightarrow> safe_params p \<and> finite (open_of s pk) \<and>
     totals_match p (positions s (open_of s pk)) \<and>
     (\<forall>d bid. d = 0 \<or> d = 1 \<longrightarrow> (bid \<in> bits p d \<longleftrightarrow> open_in s pk d bid \<noteq> {}))"

definition book_inv :: "env \<Rightarrow> pubkey \<Rightarrow> books \<Rightarrow> bool" where
  "book_inv e program_id s \<longleftrightarrow>
     (\<forall>k l. b_loans s k = Some l \<longrightarrow> is_open l \<longrightarrow> loan_ok s l) \<and>
     (\<forall>k b. b_bands s k = Some b \<longrightarrow> band_ok e program_id s k b) \<and>
     (\<forall>k p. b_pools s k = Some p \<longrightarrow> pool_ok s k p)"

section \<open>Transitions\<close>

text \<open>A loan closed by a liquidation.\<close>

definition liquidated_loan :: "u64 \<Rightarrow> loan \<Rightarrow> loan" where
  "liquidated_loan slot l = l\<lparr>loan_collateral_amount := 0, loan_debt_principal := 0,
     loan_status := STATUS_LIQUIDATED, loan_closed_slot := slot\<rparr>"

text \<open>The kinds of effect, with the accounts they concern.\<close>

datatype effect =
    Created pubkey
  | Touched pubkey
  | Opened pubkey loan
  | Repaid pubkey
  | Liquidated pubkey u8 "pubkey set" u64
  | RentClaimed pubkey

inductive book_trans :: "env \<Rightarrow> pubkey \<Rightarrow> effect \<Rightarrow> books \<Rightarrow> books \<Rightarrow> bool" for e program_id where
  created: "b_pools s pk = None \<Longrightarrow>
    book_trans e program_id (Created pk) s
      (s\<lparr>b_pools := (b_pools s)(pk \<mapsto> initial_pool m_a m_b v_a v_b lpm b0 b1 b2 b3 slot)\<rparr>)"
| touched: "b_pools s pk = Some p \<Longrightarrow> params q = params p \<Longrightarrow> removed p q {#} \<Longrightarrow> bits q = bits p \<Longrightarrow>
    book_trans e program_id (Touched pk) s (s\<lparr>b_pools := (b_pools s)(pk \<mapsto> q)\<rparr>)"
| opened: "b_pools s (loan_pool l) = Some p \<Longrightarrow> b_loans s lk = None \<Longrightarrow> is_open l \<Longrightarrow>
    loan_sides l = 0 \<or> loan_sides l = 1 \<Longrightarrow>
    loan_trigger_direction l = 0 \<or> loan_trigger_direction l = 1 \<Longrightarrow>
    band_id_for_trigger (loan_trigger_price_wad l) = Ok (loan_band_id l) \<Longrightarrow>
    b_bands s bk = Some b \<or> b_bands s bk = None \<and> band_count b = 0 \<Longrightarrow>
    band_for b (loan_pool l) (loan_trigger_direction l) (loan_band_id l) \<Longrightarrow>
    band_at e program_id b bk \<Longrightarrow>
    unat n = unat (band_count b) + 1 \<Longrightarrow>
    params q = params p \<Longrightarrow> removed q p {#position_of l#} \<Longrightarrow>
    (\<And>d. bits q d = bits p d \<union>
       (if d = loan_trigger_direction l \<and> band_count b = 0 then {loan_band_id l} else {})) \<Longrightarrow>
    book_trans e program_id (Opened lk l) s
      (s\<lparr>b_pools := (b_pools s)(loan_pool l \<mapsto> q), b_loans := (b_loans s)(lk \<mapsto> l),
         b_bands := (b_bands s)(bk \<mapsto> b\<lparr>band_count := n\<rparr>)\<rparr>)"
| repaid: "b_pools s (loan_pool l) = Some p \<Longrightarrow> b_loans s lk = Some l \<Longrightarrow> is_open l \<Longrightarrow>
    b_bands s bk = Some b \<Longrightarrow>
    band_for b (loan_pool l) (loan_trigger_direction l) (loan_band_id l) \<Longrightarrow>
    unat (band_count b) = unat n + 1 \<Longrightarrow>
    params q = params p \<Longrightarrow> removed p q {#position_of l#} \<Longrightarrow>
    (\<And>d. bits q d = bits p d -
       (if d = loan_trigger_direction l \<and> n = 0 then {loan_band_id l} else {})) \<Longrightarrow>
    book_trans e program_id (Repaid lk) s
      (s\<lparr>b_pools := (b_pools s)(loan_pool l \<mapsto> q), b_loans := (b_loans s)(lk := None),
         b_bands := (b_bands s)(bk \<mapsto> b\<lparr>band_count := n\<rparr>)\<rparr>)"
| liquidated: "b_pools s pk = Some p \<Longrightarrow>
    (\<And>k. k \<in> ks \<Longrightarrow> \<exists>l. b_loans s k = Some l \<and> is_open l \<and> loan_pool l = pk \<and>
       loan_trigger_direction l = dir) \<Longrightarrow>
    finite ks \<Longrightarrow>
    params q = params p \<Longrightarrow> removed p q (positions s ks) \<Longrightarrow>
    (\<And>d. bits q d = bits p d - (if d = dir
       then {bid. ks \<inter> open_in s pk d bid \<noteq> {} \<and> open_in s pk d bid \<subseteq> ks} else {})) \<Longrightarrow>
    book_trans e program_id (Liquidated pk dir ks slot) s
      (s\<lparr>b_pools := (b_pools s)(pk \<mapsto> q),
         b_loans := (\<lambda>k. if k \<in> ks then map_option (liquidated_loan slot) (b_loans s k) else b_loans s k),
         b_bands := (\<lambda>k. map_option (\<lambda>b. b\<lparr>band_count := band_count b -
            of_nat (card (ks \<inter> open_in s (band_pool b) (band_direction b) (band_band_id b)))\<rparr>)
            (b_bands s k))\<rparr>)"
| rent_claimed: "b_loans s lk = Some l \<Longrightarrow> \<not> is_open l \<Longrightarrow>
    book_trans e program_id (RentClaimed lk) s (s\<lparr>b_loans := (b_loans s)(lk := None)\<rparr>)"

section \<open>Every transition keeps the invariant\<close>

lemma positions_cong:
  "(\<And>k. k \<in> ks \<Longrightarrow> b_loans s' k = b_loans s k) \<Longrightarrow> positions s' ks = positions s ks"
  unfolding positions_def by (rule image_mset_cong) (metis elem_mset_set empty_iff mset_set.infinite set_mset_empty)

lemma positions_insert:
  "finite ks \<Longrightarrow> k \<notin> ks \<Longrightarrow>
   positions s (insert k ks) = add_mset (position_of (the (b_loans s k))) (positions s ks)"
  by (simp add: positions_def)

lemma positions_empty [simp]: "positions s {} = {#}"
  by (simp add: positions_def)

text \<open>The open loans depend on the loan map only.\<close>

lemma open_cong:
  assumes "b_loans s' = b_loans s"
  shows "open_in s' = open_in s" "open_of s' = open_of s" "positions s' = positions s"
  by (simp_all add: fun_eq_iff open_in_def open_of_def positions_def assms)

lemma open_in_of: "open_in s pk d bid \<subseteq> open_of s pk"
  by (auto simp: open_in_def open_of_def)

lemma inv_loanD: "book_inv e pid s \<Longrightarrow> b_loans s k = Some l \<Longrightarrow> is_open l \<Longrightarrow> loan_ok s l"
  by (simp add: book_inv_def)

lemma inv_bandD: "book_inv e pid s \<Longrightarrow> b_bands s k = Some b \<Longrightarrow> band_ok e pid s k b"
  by (simp add: book_inv_def)

lemma inv_poolD: "book_inv e pid s \<Longrightarrow> b_pools s k = Some p \<Longrightarrow> pool_ok s k p"
  by (simp add: book_inv_def)

text \<open>A band account is the only one for its pool, direction and id.\<close>

lemma band_unique:
  assumes "band_at e pid b k" "band_at e pid b' k'" "band_for b pk d bid" "band_for b' pk d bid"
  shows "k = k'"
  using assms by (auto simp: band_at_def band_for_def)

lemma no_band_no_loan:
  assumes "book_inv e pid s" "b_bands s bk = None" "band_for b pk d bid" "band_at e pid b bk"
  shows "open_in s pk d bid = {}"
proof (rule ccontr)
  assume "open_in s pk d bid \<noteq> {}"
  then obtain k l where l: "b_loans s k = Some l" "is_open l" "loan_pool l = pk"
    "loan_trigger_direction l = d" "loan_band_id l = bid" by (auto simp: open_in_def)
  then obtain k' b' where b': "b_bands s k' = Some b'" "band_for b' pk d bid"
    using inv_loanD [OF assms(1) l(1,2)] by (auto simp: loan_ok_def)
  then have "band_at e pid b' k'" using inv_bandD [OF assms(1) b'(1)] by (simp add: band_ok_def)
  then have "k' = bk" using band_unique b'(2) assms(3,4) by blast
  then show False using b'(1) assms(2) by simp
qed

lemma created_keeps:
  assumes inv: "book_inv e pid s" and "b_pools s pk = None"
  shows "book_inv e pid (s\<lparr>b_pools := (b_pools s)(pk \<mapsto> initial_pool m_a m_b v_a v_b lpm b0 b1 b2 b3 slot)\<rparr>)"
    (is "book_inv e pid ?s")
proof -
  let ?p = "initial_pool m_a m_b v_a v_b lpm b0 b1 b2 b3 slot"
  have eq: "open_in ?s = open_in s" "open_of ?s = open_of s" "positions ?s = positions s"
    by (rule open_cong; simp)+
  have none: "open_of s pk = {}"
    using inv_loanD [OF inv] assms(2) by (fastforce simp: open_of_def loan_ok_def)
  have bits: "bits ?p d = {}" for d
    by (auto simp: bits_def band_bitmap_def initial_pool_def bitmap_is_set_iff split: res.splits)
  have "pool_ok s pk ?p"
    using none open_in_of [of s pk] bits
    by (auto simp: pool_ok_def initial_pool_safe totals_match_def) (simp_all add: initial_pool_def)
  then show ?thesis using inv
    by (auto simp: book_inv_def loan_ok_def band_ok_def pool_ok_def eq)
qed

lemma touched_keeps:
  assumes inv: "book_inv e pid s" and "b_pools s pk = Some p" "params q = params p"
    "removed p q {#}" "bits q = bits p"
  shows "book_inv e pid (s\<lparr>b_pools := (b_pools s)(pk \<mapsto> q)\<rparr>)" (is "book_inv e pid ?s")
proof -
  have eq: "open_in ?s = open_in s" "open_of ?s = open_of s" "positions ?s = positions s"
    by (rule open_cong; simp)+
  have "pool_ok s pk q"
    using inv_poolD [OF inv assms(2)] params_fields(12) [OF assms(3)] assms(5)
      removed_match [OF assms(4), of "positions s (open_of s pk)"] by (simp add: pool_ok_def)
  then show ?thesis using inv
    by (auto simp: book_inv_def loan_ok_def band_ok_def pool_ok_def eq)
qed

text \<open>A loan stays in order when pools and bands stay, whatever their contents.\<close>

lemma loan_ok_mono:
  assumes "loan_ok s l" "b_pools s (loan_pool l) \<noteq> None \<Longrightarrow> b_pools s' (loan_pool l) \<noteq> None"
    "\<And>k b pk d i. b_bands s k = Some b \<Longrightarrow> band_for b pk d i \<Longrightarrow>
      \<exists>b'. b_bands s' k = Some b' \<and> band_for b' pk d i"
  shows "loan_ok s' l"
  using assms unfolding loan_ok_def by meson

text \<open>One loan comes or goes: the affected entries, and that the others stay.\<close>

lemma open_insert:
  assumes "b_loans s lk = None" "is_open l" "b_loans s' = (b_loans s)(lk \<mapsto> l)"
  shows "open_of s' pk = open_of s pk \<union> (if loan_pool l = pk then {lk} else {})"
    "open_in s' pk d bid = open_in s pk d bid \<union>
       (if loan_pool l = pk \<and> loan_trigger_direction l = d \<and> loan_band_id l = bid then {lk} else {})"
  using assms by (auto simp: open_of_def open_in_def split: if_splits)

text \<open>A change of one pool and one band of it: the other pools and bands stay in order when their open
  loans are the same.\<close>

lemma change_keeps:
  assumes inv: "book_inv e pid s"
    and maps: "b_pools s' = (b_pools s)(band_pool c \<mapsto> q)" "b_bands s' = (b_bands s)(bk \<mapsto> c)"
    and loans: "\<And>k l. b_loans s' k = Some l \<Longrightarrow> is_open l \<Longrightarrow> loan_ok s' l"
    and band: "band_ok e pid s' bk c" and pool: "pool_ok s' (band_pool c) q"
    and others: "\<And>pk. pk \<noteq> band_pool c \<Longrightarrow> open_of s' pk = open_of s pk \<and> positions s' (open_of s pk) = positions s (open_of s pk)"
      "\<And>pk d i. \<not> band_for c pk d i \<Longrightarrow> open_in s' pk d i = open_in s pk d i"
  shows "book_inv e pid s'"
proof -
  have bands: "band_ok e pid s' k b" if "b_bands s' k = Some b" for k b
  proof (cases "k = bk")
    case False
    then have ok: "band_ok e pid s k b" using that maps(2) inv_bandD [OF inv] by simp
    have "\<not> band_for c (band_pool b) (band_direction b) (band_band_id b)"
      using False ok band band_unique by (fastforce simp: band_ok_def band_for_def)
    then show ?thesis using ok others(2) by (simp add: band_ok_def)
  qed (use that maps(2) band in simp)
  have pools: "pool_ok s' k p" if "b_pools s' k = Some p" for k p
  proof (cases "k = band_pool c")
    case False
    then have "pool_ok s k p" using that maps(1) inv_poolD [OF inv] by simp
    then show ?thesis using others(1) [OF False] others(2) [of k] False by (simp add: pool_ok_def band_for_def)
  qed (use that maps(1) pool in simp)
  show ?thesis unfolding book_inv_def using loans bands pools by blast
qed

lemma opened_keeps:
  assumes inv: "book_inv e pid s" and p: "b_pools s (loan_pool l) = Some p" and new: "b_loans s lk = None"
    and l: "is_open l" "loan_sides l = 0 \<or> loan_sides l = 1"
      "loan_trigger_direction l = 0 \<or> loan_trigger_direction l = 1"
      "band_id_for_trigger (loan_trigger_price_wad l) = Ok (loan_band_id l)"
    and b: "b_bands s bk = Some b \<or> b_bands s bk = None \<and> band_count b = 0"
      "band_for b (loan_pool l) (loan_trigger_direction l) (loan_band_id l)" "band_at e pid b bk"
    and n: "unat n = unat (band_count b) + 1"
    and q: "params q = params p" "removed q p {#position_of l#}"
      "\<And>d. bits q d = bits p d \<union>
         (if d = loan_trigger_direction l \<and> band_count b = 0 then {loan_band_id l} else {})"
  shows "book_inv e pid (s\<lparr>b_pools := (b_pools s)(loan_pool l \<mapsto> q), b_loans := (b_loans s)(lk \<mapsto> l),
         b_bands := (b_bands s)(bk \<mapsto> b\<lparr>band_count := n\<rparr>)\<rparr>)" (is "book_inv e pid ?s")
proof -
  let ?pk = "loan_pool l" and ?d = "loan_trigger_direction l" and ?id = "loan_band_id l"
  have "b_loans ?s = (b_loans s)(lk \<mapsto> l)" by simp
  note ins = open_insert [OF new l(1) this]
  have lk: "lk \<notin> open_of s pk" for pk using new by (simp add: open_of_def)
  then have lk': "lk \<notin> open_in s pk d i" for pk d i using open_in_of by blast
  have pos: "positions ?s (open_of s pk) = positions s (open_of s pk)" for pk
    using lk [of pk] by (intro positions_cong) auto
  have cnt: "finite (open_in s ?pk ?d ?id) \<and> card (open_in s ?pk ?d ?id) = unat (band_count b)"
  proof (cases "b_bands s bk = None")
    case True
    then show ?thesis using b no_band_no_loan [OF inv True b(2,3)] by auto
  next
    case False
    then show ?thesis using b inv_bandD [OF inv, of bk b] by (auto simp: band_ok_def band_for_def)
  qed
  have loans: "loan_ok ?s l'" if "b_loans ?s k = Some l'" "is_open l'" for k l'
  proof (cases "k = lk")
    case True
    then show ?thesis using that l p b(2)
      by (auto simp: loan_ok_def band_for_def intro!: exI [of _ bk])
  next
    case False
    then have ok: "loan_ok s l'" using that inv_loanD [OF inv] by auto
    then show ?thesis by (rule loan_ok_mono) (use b(1) in \<open>auto simp: band_for_def\<close>)
  qed
  have band: "band_ok e pid ?s bk (b\<lparr>band_count := n\<rparr>)"
    using b(2,3) cnt n lk' by (simp add: band_ok_def band_at_def band_for_def ins)
  have ok: "pool_ok s ?pk p" using inv_poolD [OF inv p] .
  have "positions ?s (insert lk (open_of s ?pk)) = {#position_of l#} + positions s (open_of s ?pk)"
    using ok lk [of ?pk] pos [of ?pk] by (simp add: positions_insert pool_ok_def)
  then have "totals_match q (positions ?s (open_of ?s ?pk))"
    using ok removed_add [OF q(2)] by (simp add: ins pool_ok_def)
  moreover have "i \<in> bits q d \<longleftrightarrow> open_in ?s ?pk d i \<noteq> {}" if "d = 0 \<or> d = 1" for d i
  proof -
    have "i \<in> bits p d \<longleftrightarrow> open_in s ?pk d i \<noteq> {}" using ok that by (auto simp: pool_ok_def)
    moreover have "open_in s ?pk ?d ?id \<noteq> {}" if "band_count b \<noteq> 0" using cnt that by (auto simp: word_eq_unat)
    ultimately show ?thesis unfolding q(3) ins by auto
  qed
  ultimately have pool: "pool_ok ?s ?pk q" using ok params_fields(12) [OF q(1)] by (simp add: pool_ok_def ins(1))
  show ?thesis
    by (rule change_keeps [OF inv _ _ loans band]) (use b(2) pool pos in \<open>auto simp: band_for_def ins\<close>)
qed

lemma open_delete:
  assumes "b_loans s lk = Some l" "is_open l" "b_loans s' = (b_loans s)(lk := None)"
  shows "open_of s' pk = open_of s pk - {lk}" "open_in s' pk d bid = open_in s pk d bid - {lk}"
    "lk \<in> open_of s pk \<longleftrightarrow> loan_pool l = pk"
    "lk \<in> open_in s pk d bid \<longleftrightarrow>
       loan_pool l = pk \<and> loan_trigger_direction l = d \<and> loan_band_id l = bid"
  using assms by (auto simp: open_of_def open_in_def split: if_splits)

lemma positions_delete:
  assumes "finite ks" "k \<in> ks"
  shows "positions s ks = add_mset (position_of (the (b_loans s k))) (positions s (ks - {k}))"
  using positions_insert [of "ks - {k}" k s] assms by (simp add: insert_absorb)

lemma repaid_keeps:
  assumes inv: "book_inv e pid s" and p: "b_pools s (loan_pool l) = Some p"
    and l: "b_loans s lk = Some l" "is_open l"
    and b: "b_bands s bk = Some b" "band_for b (loan_pool l) (loan_trigger_direction l) (loan_band_id l)"
    and n: "unat (band_count b) = unat n + 1"
    and q: "params q = params p" "removed p q {#position_of l#}"
      "\<And>d. bits q d = bits p d -
         (if d = loan_trigger_direction l \<and> n = 0 then {loan_band_id l} else {})"
  shows "book_inv e pid (s\<lparr>b_pools := (b_pools s)(loan_pool l \<mapsto> q), b_loans := (b_loans s)(lk := None),
         b_bands := (b_bands s)(bk \<mapsto> b\<lparr>band_count := n\<rparr>)\<rparr>)" (is "book_inv e pid ?s")
proof -
  let ?pk = "loan_pool l" and ?d = "loan_trigger_direction l" and ?id = "loan_band_id l"
  have "b_loans ?s = (b_loans s)(lk := None)" by simp
  note del = open_delete [OF l this]
  have bok: "band_ok e pid s bk b" using inv_bandD [OF inv b(1)] .
  have cnt: "finite (open_in s ?pk ?d ?id)" "card (open_in s ?pk ?d ?id) = unat n + 1"
    using bok b(2) n by (auto simp: band_ok_def band_for_def)
  have cnt': "card (open_in s ?pk ?d ?id - {lk}) = unat n" using cnt del(4) by (simp add: card_Diff_singleton)
  have loans: "loan_ok ?s l'" if "b_loans ?s k = Some l'" "is_open l'" for k l'
  proof -
    have "loan_ok s l'" using that inv_loanD [OF inv, of k l'] by (auto split: if_splits)
    then show ?thesis by (rule loan_ok_mono) (use b(1) in \<open>auto simp: band_for_def\<close>)
  qed
  have band: "band_ok e pid ?s bk (b\<lparr>band_count := n\<rparr>)"
    using b(2) bok cnt(1) cnt' by (simp add: band_ok_def band_at_def band_for_def del)
  have pos: "positions ?s (open_of s pk - {lk}) = positions s (open_of s pk - {lk})" for pk
    by (rule positions_cong) simp
  have ok: "pool_ok s ?pk p" using inv_poolD [OF inv p] .
  have "positions s (open_of s ?pk) = {#position_of l#} + positions s (open_of s ?pk - {lk})"
    using ok positions_delete [of "open_of s ?pk" lk s] del(3) [of ?pk] l(1) by (simp add: pool_ok_def)
  then have "totals_match q (positions ?s (open_of ?s ?pk))"
    using ok removed_match [OF q(2), of "positions s (open_of s ?pk - {lk})"] pos by (simp add: del(1) pool_ok_def)
  moreover have "i \<in> bits q d \<longleftrightarrow> open_in ?s ?pk d i \<noteq> {}" if d: "d = 0 \<or> d = 1" for d i
  proof -
    have old: "i \<in> bits p d \<longleftrightarrow> open_in s ?pk d i \<noteq> {}" using ok d by (auto simp: pool_ok_def)
    have "open_in s ?pk ?d ?id - {lk} = {} \<longleftrightarrow> n = 0"
      using cnt' cnt(1) card_0_eq [of "open_in s ?pk ?d ?id - {lk}"] by (simp add: word_eq_unat)
    then show ?thesis using old del(4) [of ?pk d i] unfolding q(3) del(2) by (cases "d = ?d \<and> i = ?id") auto
  qed
  ultimately have pool: "pool_ok ?s ?pk q" using ok params_fields(12) [OF q(1)] by (simp add: pool_ok_def del(1))
  have same: "open_of s pk - {lk} = open_of s pk" if "pk \<noteq> ?pk" for pk using that del(3) by auto
  have pos': "positions ?s (open_of s pk) = positions s (open_of s pk)" if "pk \<noteq> ?pk" for pk
    using pos [of pk] by (simp only: same [OF that])
  have same': "open_in s pk d i - {lk} = open_in s pk d i" if "\<not> band_for b pk d i" for pk d i
    using that b(2) del(4) by (auto simp: band_for_def)
  show ?thesis
    by (rule change_keeps [OF inv _ _ loans band])
      (use b(2) pool pos' same same' in \<open>auto simp: band_for_def del(1,2)\<close>)
qed

lemma rent_claimed_keeps:
  assumes inv: "book_inv e pid s" and l: "b_loans s lk = Some l" "\<not> is_open l"
  shows "book_inv e pid (s\<lparr>b_loans := (b_loans s)(lk := None)\<rparr>)" (is "book_inv e pid ?s")
proof -
  have eq: "open_in ?s = open_in s" "open_of ?s = open_of s"
    using l by (auto simp: fun_eq_iff open_in_def open_of_def)
  have pos: "positions ?s (open_of s pk) = positions s (open_of s pk)" for pk
    using l by (intro positions_cong) (auto simp: open_of_def)
  show ?thesis using inv
    by (auto simp: book_inv_def loan_ok_def band_ok_def pool_ok_def eq pos split: if_splits)
qed

lemma positions_split:
  assumes "finite a" "b \<subseteq> a"
  shows "positions s a = positions s b + positions s (a - b)"
proof -
  have "mset_set a = mset_set b + mset_set (a - b)"
    using assms mset_set_Union [of b "a - b"] by (simp add: finite_subset Un_absorb1)
  then show ?thesis by (simp add: positions_def)
qed

lemma not_open_liquidated [simp]: "\<not> is_open (liquidated_loan slot l)"
  by (simp add: liquidated_loan_def is_open_def STATUS_LIQUIDATED_def STATUS_OPEN_def)

lemma liquidated_keeps:
  assumes inv: "book_inv e pid s" and p: "b_pools s pk = Some p"
    and ks: "\<And>k. k \<in> ks \<Longrightarrow> \<exists>l. b_loans s k = Some l \<and> is_open l \<and> loan_pool l = pk \<and>
       loan_trigger_direction l = dir" "finite ks"
    and q: "params q = params p" "removed p q (positions s ks)"
      "\<And>d. bits q d = bits p d - (if d = dir
         then {bid. ks \<inter> open_in s pk d bid \<noteq> {} \<and> open_in s pk d bid \<subseteq> ks} else {})"
  shows "book_inv e pid
      (s\<lparr>b_pools := (b_pools s)(pk \<mapsto> q),
         b_loans := (\<lambda>k. if k \<in> ks then map_option (liquidated_loan slot) (b_loans s k) else b_loans s k),
         b_bands := (\<lambda>k. map_option (\<lambda>b. b\<lparr>band_count := band_count b -
            of_nat (card (ks \<inter> open_in s (band_pool b) (band_direction b) (band_band_id b)))\<rparr>)
            (b_bands s k))\<rparr>)" (is "book_inv e pid ?s")
proof -
  have sub: "ks \<subseteq> open_of s pk" using ks(1) by (fastforce simp: open_of_def)
  have of: "open_of ?s k = open_of s k - ks" and inn: "open_in ?s k d i = open_in s k d i - ks" for k d i
    by (auto simp: open_of_def open_in_def split: if_splits)
  have apart: "ks \<inter> open_in s k d i = {}" if "k \<noteq> pk \<or> d \<noteq> dir" for k d i
    using ks(1) that by (fastforce simp: open_in_def)
  have pos: "positions ?s (open_of s k - ks) = positions s (open_of s k - ks)" for k
    by (rule positions_cong) simp
  have loans: "loan_ok ?s l'" if "b_loans ?s k = Some l'" "is_open l'" for k l'
  proof -
    have "loan_ok s l'" using that inv_loanD [OF inv, of k l'] by (auto split: if_splits)
    then show ?thesis by (rule loan_ok_mono) (auto simp: band_for_def)
  qed
  have bands: "band_ok e pid ?s k b'" if "b_bands ?s k = Some b'" for k b'
  proof -
    from that obtain b where b: "b_bands s k = Some b" and b': "b' = b\<lparr>band_count := band_count b -
        of_nat (card (ks \<inter> open_in s (band_pool b) (band_direction b) (band_band_id b)))\<rparr>" by auto
    let ?o = "open_in s (band_pool b) (band_direction b) (band_band_id b)"
    have ok: "band_ok e pid s k b" using inv_bandD [OF inv b] .
    then have o: "finite ?o" "card ?o = unat (band_count b)" by (simp_all add: band_ok_def)
    have le: "card (ks \<inter> ?o) \<le> unat (band_count b)" using o card_mono [of ?o "ks \<inter> ?o"] by simp
    have "unat (band_count b - of_nat (card (ks \<inter> ?o))) = unat (band_count b) - card (ks \<inter> ?o)"
      using le unat_lt [of "band_count b"] by (simp add: unat_sub word_le_nat_alt unat_of_nat_eq)
    moreover have "card (?o - ks) = card ?o - card (ks \<inter> ?o)"
      using o(1) by (simp add: card_Diff_subset_Int Int_commute)
    ultimately show ?thesis using ok o unfolding b' by (simp add: band_ok_def band_at_def inn)
  qed
  have pools: "pool_ok ?s k p'" if "b_pools ?s k = Some p'" for k p'
  proof (cases "k = pk")
    case True
    then have p': "p' = q" using that by simp
    have ok: "pool_ok s pk p" using inv_poolD [OF inv p] .
    then have "totals_match q (positions ?s (open_of ?s pk))"
      using positions_split [OF _ sub, of s] removed_match [OF q(2)] pos unfolding of
      by (simp add: pool_ok_def)
    moreover have "i \<in> bits q d \<longleftrightarrow> open_in ?s pk d i \<noteq> {}" if "d = 0 \<or> d = 1" for d i
    proof -
      have "i \<in> bits p d \<longleftrightarrow> open_in s pk d i \<noteq> {}" using ok that by (auto simp: pool_ok_def)
      then show ?thesis using apart [of pk d i] unfolding q(3) inn by auto
    qed
    ultimately show ?thesis unfolding p' True using ok params_fields(12) [OF q(1)]
      by (simp add: pool_ok_def of)
  next
    case False
    then have ok: "pool_ok s k p'" using that inv_poolD [OF inv] by simp
    have "open_of s k \<inter> ks = {}" using sub False by (auto simp: open_of_def)
    then have "open_of s k - ks = open_of s k" "\<And>d i. open_in s k d i - ks = open_in s k d i"
      using open_in_of [of s k] by blast+
    then show ?thesis using ok pos [of k] by (simp add: pool_ok_def of inn)
  qed
  show ?thesis unfolding book_inv_def using loans bands pools by blast
qed

lemma book_trans_keeps:
  assumes "book_trans e pid eff s s'" "book_inv e pid s"
  shows "book_inv e pid s'"
  using assms
proof (induction rule: book_trans.induct)
  case created then show ?case by (intro created_keeps)
next
  case touched then show ?case by (intro touched_keeps)
next
  case opened then show ?case by (intro opened_keeps)
next
  case repaid then show ?case by (intro repaid_keeps)
next
  case liquidated then show ?case by (intro liquidated_keeps)
next
  case rent_claimed then show ?case by (intro rent_claimed_keeps)
qed

end
