(* ===== verification/Add_Liquidity.thy ===== *)
theory Add_Liquidity
  imports Events
begin

text \<open>
  \<open>instructions/add_liquidity.rs\<close>: the deposit handler and the share arithmetic behind it.
  The lemmas characterise \<open>derive_deposit\<close> exactly; the properties say that a deposit is
  charged at most what was offered, gets LP worth no more than what it pays, and overpays
  less than one base unit per side.
\<close>

section \<open>Share arithmetic\<close>

definition MIN_FIRST_DEPOSIT :: u64 where "MIN_FIRST_DEPOSIT = 1000000"

definition MINIMUM_LIQUIDITY :: u64 where "MINIMUM_LIQUIDITY = 1000"

definition mul_div_ceil :: "u128 \<Rightarrow> u128 \<Rightarrow> u128 \<Rightarrow> (u128, liquidity_error) res" where
  "mul_div_ceil a b c =
     (if c = 0 then Err MathOverflow
      else
      and_then (ok_or (checked_mul (from_u128 a) (from_u128 b)) MathOverflow) (\<lambda>prod.
      let c = from_u128 c; q = prod div c; r = prod mod c in
      and_then (if r = 0 then Ok q else plus_p q 1) (\<lambda>q.
      ok_or (to_u128 q) MathOverflow)))"

text \<open>\<open>debug_assert!\<close> is compiled out of the deployed program.\<close>

definition derive_deposit ::
  "u128 \<Rightarrow> u128 \<Rightarrow> u128 \<Rightarrow> u128 \<Rightarrow> u128 \<Rightarrow> (u128 \<times> u128 \<times> u128, liquidity_error) res" where
  "derive_deposit amount_a_max amount_b_max accounted_a accounted_b lp_supply =
     (if lp_supply = 0 then
        if amount_a_max < widen MIN_FIRST_DEPOSIT \<or> amount_b_max < widen MIN_FIRST_DEPOSIT
        then Err ZeroAmount
        else
        and_then (ok_or (checked_mul amount_a_max amount_b_max) MathOverflow) (\<lambda>prod.
        and_then (isqrt_u128 prod) (\<lambda>lp.
        if lp < widen MINIMUM_LIQUIDITY then Err ZeroAmount
        else Ok (amount_a_max, amount_b_max, lp)))
      else if accounted_a = 0 \<or> accounted_b = 0 then Err ZeroReserves
      else
        and_then (mul_div amount_a_max accounted_b accounted_a) (\<lambda>ideal_b.
        and_then (if ideal_b \<le> amount_b_max then Ok (amount_a_max, ideal_b)
                  else and_then (mul_div amount_b_max accounted_a accounted_b) (\<lambda>ideal_a.
                       Ok (ideal_a, amount_b_max))) (\<lambda>(a_in, b_in).
        if a_in = 0 \<or> b_in = 0 then Err ZeroAmount
        else
        and_then (mul_div a_in lp_supply accounted_a) (\<lambda>lp_a.
        and_then (mul_div b_in lp_supply accounted_b) (\<lambda>lp_b.
        let lp = min lp_a lp_b in
        if lp = 0 then Err ZeroAmount
        else
        and_then (mul_div_ceil lp accounted_a lp_supply) (\<lambda>charge_a.
        and_then (mul_div_ceil lp accounted_b lp_supply) (\<lambda>charge_b.
        Ok (min charge_a a_in, min charge_b b_in, lp))))))))"

section \<open>The handler\<close>

text \<open>Reading the pool and its reserves, up to the derived amounts.\<close>

definition add_liquidity_quote ::
  "env \<Rightarrow> pool_accounts \<Rightarrow> account_info \<Rightarrow> u64 \<Rightarrow> u64 \<Rightarrow> u64 \<Rightarrow> world \<Rightarrow>
   (pool \<times> u8 \<times> u8 \<times> u8 \<times> u64 \<times> u64 \<times> u64, program_error) res" where
  "add_liquidity_quote e a lp_mint_info amount_a_max amount_b_max min_lp_out w =
     and_then (load_pool w (pool_info a)) (\<lambda>pool.
     if \<not> pool_keys_match pool a \<or> lp_mint pool \<noteq> key lp_mint_info then Err (lerr InvalidPool)
     else
     and_then (into (read_mint_decimals e w (mint_a_info a))) (\<lambda>mint_a_decimals.
     and_then (into (read_mint_decimals e w (mint_b_info a))) (\<lambda>mint_b_decimals.
     and_then (into (read_mint_decimals e w lp_mint_info)) (\<lambda>lp_decimals.
     and_then (into (read_mint_supply e w lp_mint_info)) (\<lambda>lp_supply.
     and_then (into (read_token_amount e w (vault_a_info a))) (\<lambda>real_a.
     and_then (into (read_token_amount e w (vault_b_info a))) (\<lambda>real_b.
     and_then (clock_get e) (\<lambda>slot.
     and_then (into (bump_indexes pool real_a real_b slot)) (\<lambda>pool.
     and_then (into (accounted pool real_a real_b)) (\<lambda>(accounted_a, accounted_b).
     and_then (into (derive_deposit (widen amount_a_max) (widen amount_b_max)
                 accounted_a accounted_b lp_supply)) (\<lambda>(amount_a_in, amount_b_in, lp_to_mint).
     and_then (ok_or (try_narrow amount_a_in) (lerr MathOverflow)) (\<lambda>amount_a_in_u64.
     and_then (ok_or (try_narrow amount_b_in) (lerr MathOverflow)) (\<lambda>amount_b_in_u64.
     and_then (ok_or (try_narrow lp_to_mint) (lerr MathOverflow)) (\<lambda>lp_to_mint_u64.
     if lp_to_mint_u64 < min_lp_out then Err (lerr SlippageExceeded)
     else Ok (pool, mint_a_decimals, mint_b_decimals, lp_decimals,
              amount_a_in_u64, amount_b_in_u64, lp_to_mint_u64)))))))))))))))"

text \<open>Moving the tokens, minting the shares and storing the pool.\<close>

definition add_liquidity_settle ::
  "env \<Rightarrow> pool_accounts \<Rightarrow> account_info \<Rightarrow> account_info \<Rightarrow>
   pool \<times> u8 \<times> u8 \<times> u8 \<times> u64 \<times> u64 \<times> u64 \<Rightarrow> world \<Rightarrow> (world, program_error) res" where
  "add_liquidity_settle e a lp_mint_info user_lp_info q w =
     (case q of (pool, mint_a_decimals, mint_b_decimals, lp_decimals,
                 amount_a_in_u64, amount_b_in_u64, lp_to_mint_u64) \<Rightarrow>
     and_then (transfer_checked e (token_program_a_info a) (user_a_info a) (mint_a_info a)
                 (vault_a_info a) (user_info a) amount_a_in_u64 mint_a_decimals [] w) (\<lambda>w.
     and_then (transfer_checked e (token_program_b_info a) (user_b_info a) (mint_b_info a)
                 (vault_b_info a) (user_info a) amount_b_in_u64 mint_b_decimals [] w) (\<lambda>w.
     and_then (invoke_signed e
                 (MintToChecked (key (token_program_a_info a)) (key lp_mint_info) (key user_lp_info)
                    (key (pool_info a)) lp_to_mint_u64 lp_decimals)
                 [lp_mint_info, user_lp_info, pool_info a] [pool_signer_seeds pool] w) (\<lambda>w.
     and_then (clock_get e) (\<lambda>slot.
     and_then (serialize_into (pool_bytes (pool\<lparr>last_update_slot := slot\<rparr>)) (pool_info a) w) (\<lambda>w.
     Ok (emit (LiquidityAdded (key (pool_info a)) (key (user_info a))
                 amount_a_in_u64 amount_b_in_u64 lp_to_mint_u64) w)))))))"

definition add_liquidity_accounts :: "account_info list \<Rightarrow> pool_accounts" where
  "add_liquidity_accounts accounts =
     \<lparr>pool_info = accounts ! 0, vault_a_info = accounts ! 1, vault_b_info = accounts ! 2,
      user_a_info = accounts ! 4, user_b_info = accounts ! 5,
      mint_a_info = accounts ! 8, mint_b_info = accounts ! 9, user_info = accounts ! 7,
      token_program_a_info = accounts ! 10, token_program_b_info = accounts ! 11\<rparr>"

definition process_add_liquidity ::
  "env \<Rightarrow> pubkey \<Rightarrow> account_info list \<Rightarrow> u64 \<Rightarrow> u64 \<Rightarrow> u64 \<Rightarrow> world \<Rightarrow> (world, program_error) res" where
  "process_add_liquidity e program_id accounts amount_a_max amount_b_max min_lp_out w =
     (if length accounts < 12 then Err PE_NotEnoughAccountKeys
      else
      let a = add_liquidity_accounts accounts;
          lp_mint_info = accounts ! 3; user_lp_info = accounts ! 6 in
      and_then (check_signer_and_token_programs e w a) (\<lambda>_.
      if owner (acct w (pool_info a)) \<noteq> program_id then Err (lerr InvalidAccountOwner)
      else if amount_a_max = 0 \<or> amount_b_max = 0 then Err (lerr ZeroAmount)
      else
      and_then (add_liquidity_quote e a lp_mint_info amount_a_max amount_b_max min_lp_out w) (\<lambda>q.
      add_liquidity_settle e a lp_mint_info user_lp_info q w)))"

lemmas add_liquidity_defs [code_defs] =
  MIN_FIRST_DEPOSIT_def MINIMUM_LIQUIDITY_def mul_div_ceil_def derive_deposit_def

section \<open>Lemmas on the share arithmetic\<close>

lemma unat_min_first [simp]:
  "unat MIN_FIRST_DEPOSIT = 1000000" "unat MINIMUM_LIQUIDITY = 1000"
  by (simp_all add: MIN_FIRST_DEPOSIT_def MINIMUM_LIQUIDITY_def)

lemma mul_div_ceil_Ok_iff:
  "mul_div_ceil a b c = Ok d \<longleftrightarrow> c \<noteq> 0 \<and> unat d = ceil_div (unat a * unat b) (unat c)"
proof (cases "c = 0")
  case False
  let ?P = "from_u128 a * from_u128 b"
  have c: "0 < unat c" using False by (simp add: word_eq_unat)
  have q: "unat (?P div from_u128 c) = unat a * unat b div unat c"
    and r: "unat (?P mod from_u128 c) = unat a * unat b mod unat c"
    by (simp_all add: unat_div unat_mod)
  have r0: "?P mod from_u128 c = 0 \<longleftrightarrow> unat a * unat b mod unat c = 0"
    using r by (metis unat_eq_0_iff)
  have step: "unat (q + 1) = Suc (unat q)" if "plus_p q 1 = (Ok (q + 1) :: (u256, liquidity_error) res)" for q :: u256
    using that by (simp add: plus_p_Ok_iff)
  have fits: "unat (?P div from_u128 c) + unat (1 :: u256) < 2 ^ 256"
    if "unat a * unat b mod unat c \<noteq> 0"
  proof -
    have "unat c \<noteq> 1" using that by auto
    then have "unat a * unat b div unat c \<le> unat a * unat b div 2"
      using c by (intro div_le_mono2) auto
    also have "\<dots> < 2 ^ 256 - 1" using mul256_fits [of a b] by simp
    finally show ?thesis unfolding q by simp
  qed
  have inc: "and_then (plus_p (?P div from_u128 c) 1) (\<lambda>q. ok_or (to_u128 q) MathOverflow) = Ok d \<longleftrightarrow>
      unat d = Suc (unat a * unat b div unat c)" if "unat a * unat b mod unat c \<noteq> 0"
  proof -
    have p: "plus_p (?P div from_u128 c) 1 = (Ok (?P div from_u128 c + 1) :: (u256, liquidity_error) res)"
      by (rule plus_p_fits) (use fits [OF that] in simp)
    show ?thesis unfolding p using step [OF p] q by (simp add: to_u128_Some_iff)
  qed
  show ?thesis
    using False inc q r0
    by (auto simp: mul_div_ceil_def Let_def checked_mul_from_u128 ceil_div_def to_u128_Some_iff
        simp del: and_then_Ok_iff)
qed (simp add: mul_div_ceil_def)

text \<open>A later deposit: what is charged is the rounded-up value of the shares minted, and the
  shares minted fit what was offered.\<close>

lemma share_value_le_offer:
  assumes "0 < A" "lp \<le> x * S div A"
  shows "lp * A \<le> x * (S :: nat)"
  using mult_le_mono1 [OF assms(2), of A] div_mult_le_nat [of "x * S" A] by linarith

lemma derive_deposit_later:
  assumes "derive_deposit a_max b_max A B S = Ok (a_in, b_in, lp)" "S \<noteq> 0"
  shows "unat a_in = ceil_div (unat lp * unat A) (unat S)"
    "unat b_in = ceil_div (unat lp * unat B) (unat S)"
    "unat a_in \<le> unat a_max" "unat b_in \<le> unat b_max" "0 < unat lp"
proof -
  from assms obtain x y lpa lpb ca cb ib where
    AB: "A \<noteq> 0" "B \<noteq> 0" and ib: "mul_div a_max B A = Ok ib"
    and xy: "(if ib \<le> b_max then Ok (a_max, ib) else and_then (mul_div b_max A B) (\<lambda>ia. Ok (ia, b_max))) =
      (Ok (x, y) :: (u128 \<times> u128, liquidity_error) res)"
    and lps: "mul_div x S A = Ok lpa" "mul_div y S B = Ok lpb" "lp = min lpa lpb" "lp \<noteq> 0"
    and charges: "mul_div_ceil lp A S = Ok ca" "mul_div_ceil lp B S = Ok cb"
    and ins: "a_in = min ca x" "b_in = min cb y"
    by (auto simp: derive_deposit_def Let_def split_beta)
  have pos: "0 < unat A" "0 < unat B" "0 < unat S"
    using AB assms(2) by (simp_all add: word_eq_unat)
  have lpa: "unat lp \<le> unat x * unat S div unat A" and lpb: "unat lp \<le> unat y * unat S div unat B"
    using lps by (auto simp: mul_div_Ok_iff min_def word_le_nat_alt)
  have "unat ca \<le> unat x" using lpa pos charges(1)
    by (simp add: mul_div_ceil_Ok_iff ceil_div_le_iff share_value_le_offer)
  moreover have "unat cb \<le> unat y" using lpb pos charges(2)
    by (simp add: mul_div_ceil_Ok_iff ceil_div_le_iff share_value_le_offer)
  ultimately have eq: "a_in = ca" "b_in = cb" using ins by (simp_all add: min_def word_le_nat_alt)
  have "unat x \<le> unat a_max" "unat y \<le> unat b_max"
  proof -
    show "unat x \<le> unat a_max"
    proof (cases "ib \<le> b_max")
      case False
      with xy have x: "unat x = unat b_max * unat A div unat B" by (auto simp: mul_div_Ok_iff)
      have "unat b_max < unat ib" using False by (simp add: word_le_nat_alt)
      then have "unat b_max \<le> unat a_max * unat B div unat A"
        using ib by (simp add: mul_div_Ok_iff)
      then have "unat b_max * unat A \<le> unat a_max * unat B"
        using pos(1) by (simp add: share_value_le_offer)
      then have "unat b_max * unat A div unat B \<le> unat a_max * unat B div unat B"
        by (rule div_le_mono)
      then show ?thesis using x pos(2) by simp
    qed (use xy in simp)
    show "unat y \<le> unat b_max"
      using xy by (cases "ib \<le> b_max") (auto simp: word_le_nat_alt)
  qed
  with eq \<open>unat ca \<le> unat x\<close> \<open>unat cb \<le> unat y\<close>
  show "unat a_in \<le> unat a_max" "unat b_in \<le> unat b_max" by simp_all
  show "unat a_in = ceil_div (unat lp * unat A) (unat S)"
    "unat b_in = ceil_div (unat lp * unat B) (unat S)"
    using charges eq by (simp_all add: mul_div_ceil_Ok_iff)
  show "0 < unat lp" using lps(4) by (simp add: word_eq_unat)
qed

lemma derive_deposit_first:
  assumes "1000000 \<le> unat a_max" "1000000 \<le> unat b_max" "unat a_max * unat b_max < 2 ^ 128"
  obtains lp where "derive_deposit a_max b_max A B 0 = Ok (a_max, b_max, lp)"
    "unat lp * unat lp \<le> unat a_max * unat b_max"
    "unat a_max * unat b_max < (unat lp + 1) * (unat lp + 1)" "1000000 \<le> unat lp"
proof -
  obtain lp where lp: "isqrt_u128 (a_max * b_max) = Ok lp"
    "unat lp * unat lp \<le> unat (a_max * b_max)" "unat (a_max * b_max) < (unat lp + 1) * (unat lp + 1)"
    by (rule isqrt_u128_Ok)
  have prod: "unat (a_max * b_max) = unat a_max * unat b_max"
    using assms(3) by (simp add: unat_times_fits)
  have "1000000 * 1000000 \<le> unat a_max * unat b_max" by (rule mult_le_mono [OF assms(1,2)])
  then have "1000000 * 1000000 < (unat lp + 1) * (unat lp + 1)" using lp(3) prod by linarith
  have big: "1000000 \<le> unat lp"
  proof (rule ccontr)
    assume "\<not> 1000000 \<le> unat lp"
    then have "(unat lp + 1) * (unat lp + 1) \<le> 1000000 * 1000000"
      by (intro mult_le_mono) simp_all
    with \<open>1000000 * 1000000 < (unat lp + 1) * (unat lp + 1)\<close> show False by linarith
  qed
  have "derive_deposit a_max b_max A B 0 = Ok (a_max, b_max, lp)"
    using assms lp(1) big
    by (simp add: derive_deposit_def word_less_nat_alt checked_mul_def del: and_then_Ok_iff)
  then show ?thesis using that lp prod big by simp
qed

lemma derive_deposit_first_rejects:
  assumes "unat a_max < 1000000 \<or> unat b_max < 1000000"
  shows "derive_deposit a_max b_max A B 0 = Err ZeroAmount"
  using assms by (auto simp: derive_deposit_def word_less_nat_alt)

end
