(* ===== verification/Remove_Liquidity.thy ===== *)
theory Remove_Liquidity
  imports Add_Liquidity
begin

text \<open>
  \<open>instructions/remove_liquidity.rs\<close>: the withdrawal handler, the supply floor and the
  proportional share it pays out.
\<close>

section \<open>Supply floor and proportional share\<close>

definition check_supply_floor :: "u128 \<Rightarrow> u128 \<Rightarrow> (unit, liquidity_error) res" where
  "check_supply_floor lp_supply lp_amount =
     and_then (ok_or (checked_sub lp_supply lp_amount) MathUnderflow) (\<lambda>post_supply.
     let floor_supply = widen MINIMUM_LIQUIDITY in
     if floor_supply \<le> lp_supply \<and> post_supply \<noteq> 0 \<and> post_supply < floor_supply
     then Err MinimumLiquidityFloor else Ok ())"

definition withdrawal_amounts ::
  "u128 \<Rightarrow> u128 \<Rightarrow> u128 \<Rightarrow> u128 \<Rightarrow> (u128 \<times> u128, liquidity_error) res" where
  "withdrawal_amounts lp_amount accounted_a accounted_b lp_supply =
     and_then (mul_div lp_amount accounted_a lp_supply) (\<lambda>amount_a_out.
     and_then (mul_div lp_amount accounted_b lp_supply) (\<lambda>amount_b_out.
     if amount_a_out = 0 \<and> accounted_a \<noteq> 0 \<or> amount_b_out = 0 \<and> accounted_b \<noteq> 0
     then Err ZeroAmount else Ok (amount_a_out, amount_b_out)))"

section \<open>The handler\<close>

definition remove_liquidity_quote ::
  "env \<Rightarrow> pool_accounts \<Rightarrow> account_info \<Rightarrow> u64 \<Rightarrow> u64 \<Rightarrow> u64 \<Rightarrow> world \<Rightarrow>
   (pool \<times> u8 \<times> u8 \<times> u8 \<times> u64 \<times> u64, program_error) res" where
  "remove_liquidity_quote e a lp_mint_info lp_amount min_a_out min_b_out w =
     and_then (load_pool w (pool_info a)) (\<lambda>pool.
     if \<not> pool_keys_match pool a \<or> lp_mint pool \<noteq> key lp_mint_info then Err (lerr InvalidPool)
     else
     and_then (into (read_mint_decimals e w (mint_a_info a))) (\<lambda>mint_a_decimals.
     and_then (into (read_mint_decimals e w (mint_b_info a))) (\<lambda>mint_b_decimals.
     and_then (into (read_mint_decimals e w lp_mint_info)) (\<lambda>lp_decimals.
     and_then (into (read_mint_supply e w lp_mint_info)) (\<lambda>lp_supply.
     and_then (into (read_token_amount e w (vault_a_info a))) (\<lambda>real_a.
     and_then (into (read_token_amount e w (vault_b_info a))) (\<lambda>real_b.
     if lp_supply = 0 then Err (lerr ZeroReserves)
     else if lp_supply < widen lp_amount then Err (lerr MathUnderflow)
     else
     and_then (into (check_supply_floor lp_supply (widen lp_amount))) (\<lambda>_.
     and_then (clock_get e) (\<lambda>slot.
     and_then (into (bump_indexes pool real_a real_b slot)) (\<lambda>pool.
     and_then (into (accounted pool real_a real_b)) (\<lambda>(accounted_a, accounted_b).
     and_then (into (swappable pool real_a real_b)) (\<lambda>(swappable_a, swappable_b).
     and_then (into (withdrawal_amounts (widen lp_amount) accounted_a accounted_b lp_supply))
       (\<lambda>(amount_a_out, amount_b_out).
     and_then (ok_or (try_narrow amount_a_out) (lerr MathOverflow)) (\<lambda>amount_a_out_u64.
     and_then (ok_or (try_narrow amount_b_out) (lerr MathOverflow)) (\<lambda>amount_b_out_u64.
     if amount_a_out_u64 < min_a_out \<or> amount_b_out_u64 < min_b_out
     then Err (lerr SlippageExceeded)
     else if swappable_a < widen amount_a_out_u64 \<or> swappable_b < widen amount_b_out_u64
     then Err (lerr InsufficientExecutableLiquidity)
     else Ok (pool, mint_a_decimals, mint_b_decimals, lp_decimals,
              amount_a_out_u64, amount_b_out_u64))))))))))))))))"

definition remove_liquidity_settle ::
  "env \<Rightarrow> pool_accounts \<Rightarrow> account_info \<Rightarrow> account_info \<Rightarrow> u64 \<Rightarrow>
   pool \<times> u8 \<times> u8 \<times> u8 \<times> u64 \<times> u64 \<Rightarrow> world \<Rightarrow> (world, program_error) res" where
  "remove_liquidity_settle e a lp_mint_info user_lp_info lp_amount q w =
     (case q of (pool, mint_a_decimals, mint_b_decimals, lp_decimals,
                 amount_a_out_u64, amount_b_out_u64) \<Rightarrow>
     and_then (invoke e
                 (BurnChecked (key (token_program_a_info a)) (key user_lp_info) (key lp_mint_info)
                    (key (user_info a)) lp_amount lp_decimals)
                 [user_lp_info, lp_mint_info, user_info a] w) (\<lambda>w.
     and_then (transfer_checked e (token_program_a_info a) (vault_a_info a) (mint_a_info a)
                 (user_a_info a) (pool_info a) amount_a_out_u64 mint_a_decimals
                 [pool_signer_seeds pool] w) (\<lambda>w.
     and_then (transfer_checked e (token_program_b_info a) (vault_b_info a) (mint_b_info a)
                 (user_b_info a) (pool_info a) amount_b_out_u64 mint_b_decimals
                 [pool_signer_seeds pool] w) (\<lambda>w.
     and_then (clock_get e) (\<lambda>slot.
     and_then (serialize_into (pool_bytes (pool\<lparr>last_update_slot := slot\<rparr>)) (pool_info a) w) (\<lambda>w.
     Ok (emit (LiquidityRemoved (key (pool_info a)) (key (user_info a)) lp_amount
                 amount_a_out_u64 amount_b_out_u64) w)))))))"

definition remove_liquidity_accounts :: "account_info list \<Rightarrow> pool_accounts" where
  "remove_liquidity_accounts accounts =
     \<lparr>pool_info = accounts ! 0, vault_a_info = accounts ! 1, vault_b_info = accounts ! 2,
      user_a_info = accounts ! 4, user_b_info = accounts ! 5,
      mint_a_info = accounts ! 8, mint_b_info = accounts ! 9, user_info = accounts ! 7,
      token_program_a_info = accounts ! 10, token_program_b_info = accounts ! 11\<rparr>"

definition process_remove_liquidity ::
  "env \<Rightarrow> pubkey \<Rightarrow> account_info list \<Rightarrow> u64 \<Rightarrow> u64 \<Rightarrow> u64 \<Rightarrow> world \<Rightarrow> (world, program_error) res" where
  "process_remove_liquidity e program_id accounts lp_amount min_a_out min_b_out w =
     (if length accounts < 12 then Err PE_NotEnoughAccountKeys
      else
      let a = remove_liquidity_accounts accounts;
          lp_mint_info = accounts ! 3; user_lp_info = accounts ! 6 in
      and_then (check_signer_and_token_programs e w a) (\<lambda>_.
      if owner (acct w (pool_info a)) \<noteq> program_id then Err (lerr InvalidAccountOwner)
      else if lp_amount = 0 then Err (lerr ZeroAmount)
      else
      and_then (remove_liquidity_quote e a lp_mint_info lp_amount min_a_out min_b_out w) (\<lambda>q.
      remove_liquidity_settle e a lp_mint_info user_lp_info lp_amount q w)))"

section \<open>Lemmas\<close>

lemma check_supply_floor_Ok_iff:
  "check_supply_floor S n = Ok u \<longleftrightarrow>
     unat n \<le> unat S \<and> (1000 \<le> unat S \<longrightarrow> unat S - unat n = 0 \<or> 1000 \<le> unat S - unat n)"
proof (cases "unat n \<le> unat S")
  case True
  then have sub: "checked_sub S n = Some (S - n)" "unat (S - n) = unat S - unat n"
    by (simp_all add: checked_sub_def word_le_nat_alt unat_sub)
  have z: "S - n = 0 \<longleftrightarrow> unat S - unat n = 0" using sub(2) by (metis unat_eq_0_iff)
  show ?thesis using True z
    by (auto simp: check_supply_floor_def Let_def sub word_le_nat_alt word_less_nat_alt
        simp del: right_minus_eq)
qed (simp add: check_supply_floor_def checked_sub_def word_le_nat_alt)

lemma withdrawal_amounts_Ok_iff:
  "withdrawal_amounts n A B S = Ok (x, y) \<longleftrightarrow>
     S \<noteq> 0 \<and> unat x = unat n * unat A div unat S \<and> unat y = unat n * unat B div unat S \<and>
     (x = 0 \<longrightarrow> A = 0) \<and> (y = 0 \<longrightarrow> B = 0)"
  by (auto simp: withdrawal_amounts_def mul_div_Ok_iff)

text \<open>What a withdrawal quote establishes.\<close>

lemma remove_liquidity_quote_Ok:
  assumes "remove_liquidity_quote e a lpm n min_a min_b w = Ok (pool, da, db, dl, x, y)"
  obtains p ra rb slot S A B sa sb where
    "load_pool w (pool_info a) = Ok p" "pool_keys_match p a" "lp_mint p = key lpm"
    "read_mint_supply e w lpm = Ok S"
    "read_token_amount e w (vault_a_info a) = Ok ra" "read_token_amount e w (vault_b_info a) = Ok rb"
    "clock_get e = Ok slot" "bump_indexes p ra rb slot = Ok pool"
    "accounted pool ra rb = Ok (A, B)" "swappable pool ra rb = Ok (sa, sb)"
    "check_supply_floor S (widen n) = Ok ()"
    "withdrawal_amounts (widen n) A B S = Ok (widen x, widen y)"
    "unat x \<le> unat sa" "unat y \<le> unat sb" "min_a \<le> x" "min_b \<le> y"
  using assms
  by (auto simp: remove_liquidity_quote_def split_beta word_less_nat_alt word_le_nat_alt
      try_narrow_u64_widen not_less)

end
