(* ===== verification/Entrypoint.thy ===== *)
theory Entrypoint
  imports Add_Liquidity Remove_Liquidity Claims Initialize_Pool Swap
begin

text \<open>
  \<open>lib.rs\<close>: the instruction enum with its borsh encoding and the dispatcher.
\<close>

section \<open>Instructions\<close>

datatype liquidity_instruction =
    InitializePool
  | AddLiquidity u64 u64 u64
      \<comment> \<open>amount_a_max, amount_b_max, min_lp_out\<close>
  | RemoveLiquidity u64 u64 u64
      \<comment> \<open>lp_amount, min_a_out, min_b_out\<close>
  | OpenLoan u8 u64 u64 u64
      \<comment> \<open>sides, collateral_amount, debt_amount, nonce\<close>
  | RepayLoan
  | ClaimProtocolFees
  | ClaimLiquidatedRent
  | Swap u64 u64 bool u32 bytes
      \<comment> \<open>amount_in, min_out, a_to_b, band_boundary, band_loan_counts\<close>

text \<open>Borsh writes the variant's index as one byte and a vector as its length in four bytes
  followed by its elements.\<close>

fun instruction_bytes :: "liquidity_instruction \<Rightarrow> bytes" where
  "instruction_bytes InitializePool = [0]"
| "instruction_bytes (AddLiquidity a b m) = [1] @ put_word 8 a @ put_word 8 b @ put_word 8 m"
| "instruction_bytes (RemoveLiquidity l a b) = [2] @ put_word 8 l @ put_word 8 a @ put_word 8 b"
| "instruction_bytes (OpenLoan s c d n) =
     [3] @ put_word 1 s @ put_word 8 c @ put_word 8 d @ put_word 8 n"
| "instruction_bytes RepayLoan = [4]"
| "instruction_bytes ClaimProtocolFees = [5]"
| "instruction_bytes ClaimLiquidatedRent = [6]"
| "instruction_bytes (Swap i m dir bb ks) =
     [7] @ put_word 8 i @ put_word 8 m @ put_bool dir @ put_word 4 bb
       @ put_word 4 (of_nat (length ks) :: u32) @ ks"

definition get_vec :: "bytes \<Rightarrow> (bytes \<times> bytes) option" where
  "get_vec bs = do { (n :: u32, bs) \<leftarrow> get_word 4 bs; get_bytes (unat n) bs }"

definition get_instruction :: "bytes \<Rightarrow> (liquidity_instruction \<times> bytes) option" where
  "get_instruction bs = do {
     (tag, bs) \<leftarrow> get_bytes 1 bs;
     if tag = [0] then Some (InitializePool, bs)
     else if tag = [1] then do {
       (a, bs) \<leftarrow> get_word 8 bs; (b, bs) \<leftarrow> get_word 8 bs; (m, bs) \<leftarrow> get_word 8 bs;
       Some (AddLiquidity a b m, bs) }
     else if tag = [2] then do {
       (l, bs) \<leftarrow> get_word 8 bs; (a, bs) \<leftarrow> get_word 8 bs; (b, bs) \<leftarrow> get_word 8 bs;
       Some (RemoveLiquidity l a b, bs) }
     else if tag = [3] then do {
       (s, bs) \<leftarrow> get_word 1 bs; (c, bs) \<leftarrow> get_word 8 bs; (d, bs) \<leftarrow> get_word 8 bs;
       (n, bs) \<leftarrow> get_word 8 bs;
       Some (OpenLoan s c d n, bs) }
     else if tag = [4] then Some (RepayLoan, bs)
     else if tag = [5] then Some (ClaimProtocolFees, bs)
     else if tag = [6] then Some (ClaimLiquidatedRent, bs)
     else if tag = [7] then do {
       (i, bs) \<leftarrow> get_word 8 bs; (m, bs) \<leftarrow> get_word 8 bs; (dir, bs) \<leftarrow> get_bool bs;
       (bb, bs) \<leftarrow> get_word 4 bs; (ks, bs) \<leftarrow> get_vec bs;
       Some (Swap i m dir bb ks, bs) }
     else None }"

definition instruction_try_from_slice :: "bytes \<Rightarrow> liquidity_instruction option" where
  "instruction_try_from_slice bs = from_slice get_instruction bs"

section \<open>Dispatch\<close>

text \<open>\<open>crate::id()\<close>: the base58 address \<open>ChiefQnUMyz7V1U9odcoxCar66ngVZn1wXFDecnN7yQw\<close>.\<close>

definition program_address :: pubkey where
  "program_address = 0xaddee1b1f9b065389a4c3eb0de0a4f69082d8aa6edbe0551a17ec65f73ad40ec"

fun dispatch ::
  "env \<Rightarrow> pubkey \<Rightarrow> account_info list \<Rightarrow> liquidity_instruction \<Rightarrow> world \<Rightarrow> (world, program_error) res" where
  "dispatch e program_id accounts InitializePool w = process_initialize_pool e program_id accounts w"
| "dispatch e program_id accounts (AddLiquidity amount_a_max amount_b_max min_lp_out) w =
     process_add_liquidity e program_id accounts amount_a_max amount_b_max min_lp_out w"
| "dispatch e program_id accounts (RemoveLiquidity lp_amount min_a_out min_b_out) w =
     process_remove_liquidity e program_id accounts lp_amount min_a_out min_b_out w"
| "dispatch e program_id accounts (OpenLoan sides collateral_amount debt_amount nonce) w =
     process_open_loan e program_id accounts sides collateral_amount debt_amount nonce w"
| "dispatch e program_id accounts RepayLoan w = process_repay_loan e program_id accounts w"
| "dispatch e program_id accounts ClaimProtocolFees w =
     process_claim_protocol_fees e program_id accounts w"
| "dispatch e program_id accounts ClaimLiquidatedRent w =
     process_claim_liquidated_rent e program_id accounts w"
| "dispatch e program_id accounts (Swap amount_in min_out a_to_b band_boundary band_loan_counts) w =
     process_swap e program_id accounts amount_in min_out a_to_b band_boundary band_loan_counts w"

definition process_instruction ::
  "env \<Rightarrow> pubkey \<Rightarrow> account_info list \<Rightarrow> bytes \<Rightarrow> world \<Rightarrow> (world, program_error) res" where
  "process_instruction e program_id accounts instruction_data w =
     (if program_id \<noteq> program_address then Err PE_IncorrectProgramId
      else
      and_then (ok_or (instruction_try_from_slice instruction_data) PE_InvalidInstructionData) (\<lambda>ix.
      dispatch e program_id accounts ix w))"

section \<open>Lemmas\<close>

lemma get_vec_put: "length ks < 2 ^ 32 \<Longrightarrow>
  get_vec (put_word 4 (of_nat (length ks) :: u32) @ ks @ r) = Some (ks, r)"
  by (simp add: get_vec_def unat_of_nat_eq)

lemma get_instruction_bytes:
  assumes "\<And>i m d b ks. ix = Swap i m d b ks \<Longrightarrow> length ks < 2 ^ 32"
  shows "get_instruction (instruction_bytes ix @ r) = Some (ix, r)"
proof -
  have tag: "get_bytes (Suc 0) (x # xs) = Some ([x], xs)" for x :: u8 and xs by (simp add: get_bytes_def)
  show ?thesis
    using assms by (cases ix) (simp_all add: get_instruction_def tag get_vec_put)
qed

lemma instruction_try_from_slice_bytes:
  assumes "\<And>i m d b ks. ix = Swap i m d b ks \<Longrightarrow> length ks < 2 ^ 32"
  shows "instruction_try_from_slice (instruction_bytes ix) = Some ix"
  unfolding instruction_try_from_slice_def
  by (rule from_slice_put) (rule get_instruction_bytes [OF assms])

text \<open>The format is canonical: what decodes is an encoding of a vector that fits its length field.\<close>

definition encodable :: "liquidity_instruction \<Rightarrow> bool" where
  "encodable ix \<longleftrightarrow> (case ix of Swap _ _ _ _ ks \<Rightarrow> length ks < 2 ^ 32 | _ \<Rightarrow> True)"

lemma get_bool_Some: "get_bool bs = Some (b, r) \<Longrightarrow> bs = put_bool b @ r"
  by (auto simp: get_bool_def put_bool_def bind_eq_Some_conv get_bytes_Some split: if_splits)

lemma get_vec_Some:
  assumes "get_vec bs = Some (ks, r)"
  shows "bs = put_word 4 (of_nat (length ks) :: u32) @ ks @ r" "length ks < 2 ^ 32"
proof -
  from assms obtain n :: u32 and b1 where n: "get_word 4 bs = Some (n, b1)" "b1 = ks @ r" "length ks = unat n"
    by (auto simp: get_vec_def bind_eq_Some_conv get_bytes_Some)
  show "bs = put_word 4 (of_nat (length ks) :: u32) @ ks @ r"
    using get_word_Some [OF _ n(1)] n(2,3) by simp
  show "length ks < 2 ^ 32" using unat_lt [of n] n(3) by simp
qed

lemma field_Some:
  "get_word (Suc 0) bs = Some (s :: u8, r) \<Longrightarrow> bs = put_word (Suc 0) s @ r"
  "get_word 4 bs = Some (n :: u32, r) \<Longrightarrow> bs = put_word 4 n @ r"
  "get_word 8 bs = Some (x :: u64, r) \<Longrightarrow> bs = put_word 8 x @ r"
  by (rule get_word_Some; simp)+

lemma get_instruction_canonical:
  assumes "get_instruction bs = Some (ix, r)"
  shows "bs = instruction_bytes ix @ r \<and> encodable ix"
proof -
  from assms obtain tag b1 where t: "bs = tag @ b1" "get_instruction (tag @ b1) = Some (ix, r)" "length tag = 1"
    by (auto simp: get_instruction_def bind_eq_Some_conv get_bytes_Some)
  then obtain n where n: "tag = [n]" by (auto simp: length_Suc_conv)
  note dec = t(2) [unfolded get_instruction_def, simplified n]
  show ?thesis
    using dec unfolding t(1) n
    by (auto simp: get_bytes_def bind_eq_Some_conv encodable_def dest!: field_Some get_bool_Some dest: get_vec_Some split: if_splits)
qed

lemma refused_unless_encoded:
  assumes "\<forall>ix. encodable ix \<longrightarrow> bs \<noteq> instruction_bytes ix"
  shows "instruction_try_from_slice bs = None"
proof (rule ccontr)
  assume "instruction_try_from_slice bs \<noteq> None"
  then obtain ix where "get_instruction bs = Some (ix, [])"
    by (auto simp: instruction_try_from_slice_def from_slice_Some)
  then show False using get_instruction_canonical assms by force
qed

lemma run_encoded:
  assumes "encodable ix"
  shows "process_instruction e program_address accounts (instruction_bytes ix) w =
    dispatch e program_address accounts ix w"
  using instruction_try_from_slice_bytes [of ix] assms
  by (simp add: process_instruction_def encodable_def split: liquidity_instruction.splits)

text \<open>C37: the entry point on the wire. A leading byte from 0 to 7 followed by the little-endian
  fields of that instruction runs the handler of that name with these arguments in this order; any
  other program id is refused before the data is looked at; and every byte string that is not one
  of these encodings is refused: an unknown leading byte, a short or an overlong string, a flag that
  is neither 0 nor 1.\<close>

theorem process_instruction_dispatches:
  "process_instruction e program_address accounts [0] w = process_initialize_pool e program_address accounts w \<and>
   process_instruction e program_address accounts ([1] @ put_word 8 x @ put_word 8 y @ put_word 8 z) w =
     process_add_liquidity e program_address accounts x y z w \<and>
   process_instruction e program_address accounts ([2] @ put_word 8 x @ put_word 8 y @ put_word 8 z) w =
     process_remove_liquidity e program_address accounts x y z w \<and>
   process_instruction e program_address accounts ([3] @ put_word 1 s @ put_word 8 x @ put_word 8 y @ put_word 8 z) w =
     process_open_loan e program_address accounts s x y z w \<and>
   process_instruction e program_address accounts [4] w = process_repay_loan e program_address accounts w \<and>
   process_instruction e program_address accounts [5] w = process_claim_protocol_fees e program_address accounts w \<and>
   process_instruction e program_address accounts [6] w = process_claim_liquidated_rent e program_address accounts w \<and>
   (length ks < 2 ^ 32 \<longrightarrow>
     process_instruction e program_address accounts ([7] @ put_word 8 x @ put_word 8 y @ [if a_to_b then 1 else 0] @
       put_word 4 bb @ put_word 4 (of_nat (length ks) :: u32) @ ks) w =
     process_swap e program_address accounts x y a_to_b bb ks w) \<and>
   (k \<noteq> program_address \<longrightarrow> process_instruction e k accounts bs w = Err PE_IncorrectProgramId) \<and>
   (7 < tag \<longrightarrow> process_instruction e program_address accounts (tag # bs) w = Err PE_InvalidInstructionData) \<and>
   ((\<forall>ix. encodable ix \<longrightarrow> bs \<noteq> instruction_bytes ix) \<longrightarrow>
     process_instruction e program_address accounts bs w = Err PE_InvalidInstructionData)"
proof -
  let ?run = "\<lambda>ix. process_instruction e program_address accounts (instruction_bytes ix) w"
  have run: "?run ix = dispatch e program_address accounts ix w" if "encodable ix" for ix
    by (rule run_encoded [OF that])
  have refuse: "process_instruction e program_address accounts bs w = Err PE_InvalidInstructionData"
    if "\<forall>ix. encodable ix \<longrightarrow> bs \<noteq> instruction_bytes ix" for bs
    using refused_unless_encoded [OF that] by (simp add: process_instruction_def)
  have "\<forall>ix. encodable ix \<longrightarrow> tag # bs \<noteq> instruction_bytes ix" if "7 < tag"
  proof (intro allI impI)
    fix ix show "tag # bs \<noteq> instruction_bytes ix" using that by (cases ix) auto
  qed
  then have tag: "7 < tag \<longrightarrow> process_instruction e program_address accounts (tag # bs) w = Err PE_InvalidInstructionData"
    using refuse by blast
  note plain = run [of InitializePool] run [of "AddLiquidity x y z"] run [of "RemoveLiquidity x y z"]
    run [of "OpenLoan s x y z"] run [of RepayLoan] run [of ClaimProtocolFees] run [of ClaimLiquidatedRent]
  have "length ks < 2 ^ 32 \<longrightarrow> ?run (Swap x y a_to_b bb ks) = dispatch e program_address accounts (Swap x y a_to_b bb ks) w"
    by (intro impI run) (simp add: encodable_def)
  then show ?thesis
    using plain tag refuse [of bs]
    by (simp add: encodable_def put_bool_def process_instruction_def)
qed

theorem process_instruction_dispatches_witness:
  "\<forall>e accounts w.
    process_instruction e program_address accounts ([7] @ put_word 8 (5 :: u64) @ put_word 8 (1 :: u64) @ [1] @
      put_word 4 (64 :: u32) @ put_word 4 (2 :: u32) @ [1, 2]) w =
      process_swap e program_address accounts 5 1 True 64 [1, 2] w \<and>
    process_instruction e 0 accounts [4] w = Err PE_IncorrectProgramId \<and>
    process_instruction e program_address accounts [8, 0] w = Err PE_InvalidInstructionData \<and>
    process_instruction e program_address accounts [] w = Err PE_InvalidInstructionData"
proof (intro allI)
  fix e accounts w
  have none: "\<forall>ix. encodable ix \<longrightarrow> [] \<noteq> instruction_bytes ix"
  proof (intro allI impI)
    fix ix show "[] \<noteq> instruction_bytes ix" by (cases ix) auto
  qed
  have "0 \<noteq> program_address" by (simp add: program_address_def)
  with none show "process_instruction e program_address accounts ([7] @ put_word 8 (5 :: u64) @ put_word 8 (1 :: u64) @ [1] @
      put_word 4 (64 :: u32) @ put_word 4 (2 :: u32) @ [1, 2]) w =
      process_swap e program_address accounts 5 1 True 64 [1, 2] w \<and>
    process_instruction e 0 accounts [4] w = Err PE_IncorrectProgramId \<and>
    process_instruction e program_address accounts [8, 0] w = Err PE_InvalidInstructionData \<and>
    process_instruction e program_address accounts [] w = Err PE_InvalidInstructionData"
    using process_instruction_dispatches [of e accounts w 5 1 0 0 "[1, 2]" True 64 0 "[]" 8]
      process_instruction_dispatches [of e accounts w 0 0 0 0 "[]" True 64 0 "[4]" 8]
      process_instruction_dispatches [of e accounts w 0 0 0 0 "[]" True 64 0 "[0]" 8]
    by simp
qed

end
