(* ===== verification/Handler_Refinement.thy ===== *)
theory Handler_Refinement
  imports Book_Spec Entrypoint
begin

text \<open>
  The handlers other than the swap implement the specification of the books: whatever a
  successful call does to the ledger is one transition of \<open>book_trans\<close> on the program's pools,
  loans and bands, or nothing. Deposits, withdrawals and fee claims only touch a pool; creating
  a pool, opening, repaying and claiming rent are the transitions of these names.
\<close>

section \<open>Touching a pool\<close>

definition touch :: "pool \<Rightarrow> pool \<Rightarrow> bool" where
  "touch p q \<longleftrightarrow> params q = params p \<and> removed p q {#} \<and> bits q = bits p \<and> pool_wf q = pool_wf p"

lemma touch_refl [simp]: "touch p p"
  by (simp add: touch_def)

lemma touch_trans: "touch p q \<Longrightarrow> touch q r \<Longrightarrow> touch p r"
  using removed_trans [of p q "{#}" r "{#}"] by (simp add: touch_def)

lemma touch_fields [simp]:
  "touch p (q\<lparr>last_update_slot := s\<rparr>) = touch p q"
  "touch p (q\<lparr>protocol_fees_a := x\<rparr>) = touch p q"
  "touch p (q\<lparr>protocol_fees_b := x\<rparr>) = touch p q"
  "touch p (q\<lparr>ref_price_wad := r\<rparr>) = touch p q"
  "touch p (q\<lparr>ref_price_slot := s\<rparr>) = touch p q"
  "touch p (q\<lparr>borrow_index_a_wad := r\<rparr>) = touch p q"
  "touch p (q\<lparr>borrow_index_b_wad := r\<rparr>) = touch p q"
  "touch p (q\<lparr>last_index_update_slot := s\<rparr>) = touch p q"
  by (simp_all add: touch_def params_def removed_def bits_def band_bitmap_def pool_wf_def fun_eq_iff)

lemma touch_bump: "bump_indexes p ra rb slot = Ok q \<Longrightarrow> touch p q"
  using bump_indexes_frame [of p ra rb slot q] by auto

lemma touch_live:
  assumes "touch p q" shows "pool_is_initialized q = pool_is_initialized p" "pool_wf q = pool_wf p"
  using assms params_fields(11) [of q p] by (simp_all add: touch_def)

lemma write_touched:
  assumes "pools pid w (key i) = Some p" "touch p q" "serialize_into (pool_bytes q) i w = Ok w'"
  shows "book_trans e pid (Touched (key i)) (books_of pid w) (books_of pid w')"
proof -
  have "books_of pid w' = (books_of pid w)\<lparr>b_pools := (pools pid w)(key i \<mapsto> q)\<rparr>"
    using entry_account(1) [OF assms(1)] touch_live [OF assms(2)] assms(3) by (intro write_pool) auto
  then show ?thesis
    using book_trans.touched [of "books_of pid w" "key i" p q e pid] assms(1,2) by (simp add: touch_def)
qed

section \<open>Deposits, withdrawals and fee claims\<close>

lemma checked_token_programs:
  "check_signer_and_token_programs e w a = Ok u \<Longrightarrow> is_valid_token_program e (key (token_program_a_info a))"
  "check_signer_and_token_programs e w a = Ok u \<Longrightarrow> is_valid_token_program e (key (token_program_b_info a))"
  unfolding check_signer_and_token_programs_Ok_iff by blast+

text \<open>The stages of a successful call, with the accounts at their positions.\<close>

lemma add_liquidity_effect:
  assumes "process_add_liquidity e pid accounts amount_a_max amount_b_max min_lp_out w = Ok w'"
  obtains p pool ra rb slot S A B x y z da db dl w1 w2 w3 w4 slot' ev where
    "check_signer_and_token_programs e w (add_liquidity_accounts accounts) = Ok ()" "owner (acct w (accounts ! 0)) = pid"
    "load_pool w (accounts ! 0) = Ok p" "pool_keys_match p (add_liquidity_accounts accounts)"
    "read_mint_supply e w (accounts ! 3) = Ok S"
    "read_token_amount e w (accounts ! 1) = Ok ra" "read_token_amount e w (accounts ! 2) = Ok rb"
    "bump_indexes p ra rb slot = Ok pool" "accounted pool ra rb = Ok (A, B)"
    "derive_deposit (widen amount_a_max) (widen amount_b_max) A B S = Ok (widen x, widen y, widen z)" "min_lp_out \<le> z"
    "transfer_checked e (accounts ! 10) (accounts ! 4) (accounts ! 8) (accounts ! 1) (accounts ! 7) x da [] w = Ok w1"
    "transfer_checked e (accounts ! 11) (accounts ! 5) (accounts ! 9) (accounts ! 2) (accounts ! 7) y db [] w1 = Ok w2"
    "invoke_signed e (MintToChecked (key (accounts ! 10)) (key (accounts ! 3)) (key (accounts ! 6)) (key (accounts ! 0)) z dl)
       [accounts ! 3, accounts ! 6, accounts ! 0] [pool_signer_seeds pool] w2 = Ok w3"
    "serialize_into (pool_bytes (pool\<lparr>last_update_slot := slot'\<rparr>)) (accounts ! 0) w3 = Ok w4" "w' = emit ev w4"
proof -
  let ?a = "add_liquidity_accounts accounts"
  have a: "pool_info ?a = accounts ! 0" "vault_a_info ?a = accounts ! 1" "vault_b_info ?a = accounts ! 2"
    "mint_a_info ?a = accounts ! 8" "mint_b_info ?a = accounts ! 9" "user_a_info ?a = accounts ! 4"
    "user_b_info ?a = accounts ! 5" "user_info ?a = accounts ! 7" "token_program_a_info ?a = accounts ! 10"
    "token_program_b_info ?a = accounts ! 11" by (simp_all add: add_liquidity_accounts_def)
  from assms obtain pool da db dl x y z where
    chk: "check_signer_and_token_programs e w ?a = Ok ()" "owner (acct w (accounts ! 0)) = pid"
    and quote: "add_liquidity_quote e ?a (accounts ! 3) amount_a_max amount_b_max min_lp_out w =
      Ok (pool, da, db, dl, x, y, z)"
    and settle: "add_liquidity_settle e ?a (accounts ! 3) (accounts ! 6) (pool, da, db, dl, x, y, z) w = Ok w'"
    by (auto simp: process_add_liquidity_def Let_def a)
  from quote obtain p ra rb slot S A B where p: "load_pool w (accounts ! 0) = Ok p" "pool_keys_match p ?a"
    and S: "read_mint_supply e w (accounts ! 3) = Ok S"
    and r: "read_token_amount e w (accounts ! 1) = Ok ra" "read_token_amount e w (accounts ! 2) = Ok rb"
    and q: "bump_indexes p ra rb slot = Ok pool" "accounted pool ra rb = Ok (A, B)"
      "derive_deposit (widen amount_a_max) (widen amount_b_max) A B S = Ok (widen x, widen y, widen z)" "min_lp_out \<le> z"
    by (auto simp: add_liquidity_quote_def a try_narrow_u64_widen)
  from settle obtain w1 w2 w3 w4 slot' ev where
    "transfer_checked e (accounts ! 10) (accounts ! 4) (accounts ! 8) (accounts ! 1) (accounts ! 7) x da [] w = Ok w1"
    "transfer_checked e (accounts ! 11) (accounts ! 5) (accounts ! 9) (accounts ! 2) (accounts ! 7) y db [] w1 = Ok w2"
    "invoke_signed e (MintToChecked (key (accounts ! 10)) (key (accounts ! 3)) (key (accounts ! 6)) (key (accounts ! 0)) z dl)
       [accounts ! 3, accounts ! 6, accounts ! 0] [pool_signer_seeds pool] w2 = Ok w3"
    "serialize_into (pool_bytes (pool\<lparr>last_update_slot := slot'\<rparr>)) (accounts ! 0) w3 = Ok w4" "w' = emit ev w4"
    by (auto simp: add_liquidity_settle_def a simp del: serialize_into_Ok_iff)
  with chk p S r q show thesis by (rule that)
qed

lemma remove_liquidity_effect:
  assumes "process_remove_liquidity e pid accounts lp_amount min_a_out min_b_out w = Ok w'"
  obtains p pool ra rb slot S A B sa sb x y da db dl w1 w2 w3 w4 slot' ev where
    "check_signer_and_token_programs e w (remove_liquidity_accounts accounts) = Ok ()" "owner (acct w (accounts ! 0)) = pid"
    "load_pool w (accounts ! 0) = Ok p" "pool_keys_match p (remove_liquidity_accounts accounts)"
    "read_mint_supply e w (accounts ! 3) = Ok S"
    "read_token_amount e w (accounts ! 1) = Ok ra" "read_token_amount e w (accounts ! 2) = Ok rb"
    "bump_indexes p ra rb slot = Ok pool" "accounted pool ra rb = Ok (A, B)" "swappable pool ra rb = Ok (sa, sb)"
    "withdrawal_amounts (widen lp_amount) A B S = Ok (widen x, widen y)"
    "unat x \<le> unat sa" "unat y \<le> unat sb" "min_a_out \<le> x" "min_b_out \<le> y"
    "invoke_signed e (BurnChecked (key (accounts ! 10)) (key (accounts ! 6)) (key (accounts ! 3)) (key (accounts ! 7)) lp_amount dl)
       [accounts ! 6, accounts ! 3, accounts ! 7] [] w = Ok w1"
    "transfer_checked e (accounts ! 10) (accounts ! 1) (accounts ! 8) (accounts ! 4) (accounts ! 0) x da [pool_signer_seeds pool] w1 = Ok w2"
    "transfer_checked e (accounts ! 11) (accounts ! 2) (accounts ! 9) (accounts ! 5) (accounts ! 0) y db [pool_signer_seeds pool] w2 = Ok w3"
    "serialize_into (pool_bytes (pool\<lparr>last_update_slot := slot'\<rparr>)) (accounts ! 0) w3 = Ok w4" "w' = emit ev w4"
proof -
  let ?a = "remove_liquidity_accounts accounts"
  have a: "pool_info ?a = accounts ! 0" "vault_a_info ?a = accounts ! 1" "vault_b_info ?a = accounts ! 2"
    "mint_a_info ?a = accounts ! 8" "mint_b_info ?a = accounts ! 9" "user_a_info ?a = accounts ! 4"
    "user_b_info ?a = accounts ! 5" "user_info ?a = accounts ! 7" "token_program_a_info ?a = accounts ! 10"
    "token_program_b_info ?a = accounts ! 11" by (simp_all add: remove_liquidity_accounts_def)
  from assms obtain pool da db dl x y where
    chk: "check_signer_and_token_programs e w ?a = Ok ()" "owner (acct w (accounts ! 0)) = pid"
    and quote: "remove_liquidity_quote e ?a (accounts ! 3) lp_amount min_a_out min_b_out w = Ok (pool, da, db, dl, x, y)"
    and settle: "remove_liquidity_settle e ?a (accounts ! 3) (accounts ! 6) lp_amount (pool, da, db, dl, x, y) w = Ok w'"
    by (auto simp: process_remove_liquidity_def Let_def a)
  obtain p ra rb slot S A B sa sb where p: "load_pool w (accounts ! 0) = Ok p"
    "pool_keys_match p ?a" and "lp_mint p = key (accounts ! 3)"
    and S: "read_mint_supply e w (accounts ! 3) = Ok S"
    and r: "read_token_amount e w (accounts ! 1) = Ok ra" "read_token_amount e w (accounts ! 2) = Ok rb"
    and "clock_get e = Ok slot" and bump: "bump_indexes p ra rb slot = Ok pool"
    and acc: "accounted pool ra rb = Ok (A, B)" "swappable pool ra rb = Ok (sa, sb)"
    and "check_supply_floor S (widen lp_amount) = Ok ()"
    and am: "withdrawal_amounts (widen lp_amount) A B S = Ok (widen x, widen y)"
    and le: "unat x \<le> unat sa" "unat y \<le> unat sb" "min_a_out \<le> x" "min_b_out \<le> y"
    by (rule remove_liquidity_quote_Ok [OF quote, unfolded a])
  from settle obtain w1 w2 w3 w4 slot' ev where
    "invoke_signed e (BurnChecked (key (accounts ! 10)) (key (accounts ! 6)) (key (accounts ! 3)) (key (accounts ! 7)) lp_amount dl)
       [accounts ! 6, accounts ! 3, accounts ! 7] [] w = Ok w1"
    "transfer_checked e (accounts ! 10) (accounts ! 1) (accounts ! 8) (accounts ! 4) (accounts ! 0) x da [pool_signer_seeds pool] w1 = Ok w2"
    "transfer_checked e (accounts ! 11) (accounts ! 2) (accounts ! 9) (accounts ! 5) (accounts ! 0) y db [pool_signer_seeds pool] w2 = Ok w3"
    "serialize_into (pool_bytes (pool\<lparr>last_update_slot := slot'\<rparr>)) (accounts ! 0) w3 = Ok w4" "w' = emit ev w4"
    by (auto simp: remove_liquidity_settle_def invoke_def a simp del: serialize_into_Ok_iff)
  with chk p S r bump acc am le show thesis by (rule that)
qed

text \<open>A claim of protocol fees either finds none or pays them.\<close>

lemma claim_fees_effect:
  assumes "process_claim_protocol_fees e pid accounts w = Ok w'"
  obtains p where "owner (acct w (accounts ! 0)) = pid" "load_pool w (accounts ! 0) = Ok p"
    "is_valid_token_program e (key (accounts ! 7))" "is_valid_token_program e (key (accounts ! 8))"
    "read_token_owner e w (accounts ! 3) = Ok PROTOCOL_FEE_RECIPIENT"
    "read_token_owner e w (accounts ! 4) = Ok PROTOCOL_FEE_RECIPIENT"
    "vault_a p = key (accounts ! 1)" "vault_b p = key (accounts ! 2)"
    "mint_a p = key (accounts ! 5)" "mint_b p = key (accounts ! 6)"
    "protocol_fees_a p = 0 \<and> protocol_fees_b p = 0 \<and> w' = w \<or>
     (\<exists>da db w1 w2 w3 slot ev.
        (if 0 < protocol_fees_a p
         then transfer_checked e (accounts ! 7) (accounts ! 1) (accounts ! 5) (accounts ! 3)
                (accounts ! 0) (protocol_fees_a p) da [pool_signer_seeds p] w else Ok w) = Ok w1 \<and>
        (if 0 < protocol_fees_b p
         then transfer_checked e (accounts ! 8) (accounts ! 2) (accounts ! 6) (accounts ! 4)
                (accounts ! 0) (protocol_fees_b p) db [pool_signer_seeds p] w1 else Ok w1) = Ok w2 \<and>
        serialize_into (pool_bytes (p\<lparr>protocol_fees_a := 0, protocol_fees_b := 0,
          last_update_slot := slot\<rparr>)) (accounts ! 0) w2 = Ok w3 \<and> w' = emit ev w3)"
proof -
  from assms obtain p where
    facts: "owner (acct w (accounts ! 0)) = pid" "load_pool w (accounts ! 0) = Ok p"
      "is_valid_token_program e (key (accounts ! 7))" "is_valid_token_program e (key (accounts ! 8))"
      "read_token_owner e w (accounts ! 3) = Ok PROTOCOL_FEE_RECIPIENT"
      "read_token_owner e w (accounts ! 4) = Ok PROTOCOL_FEE_RECIPIENT"
      "vault_a p = key (accounts ! 1)" "vault_b p = key (accounts ! 2)"
      "mint_a p = key (accounts ! 5)" "mint_b p = key (accounts ! 6)"
    and run: "(if protocol_fees_a p = 0 \<and> protocol_fees_b p = 0 then Ok w else claim_fees_pay e accounts p w) = Ok w'"
    by (auto simp: process_claim_protocol_fees_def Let_def validate_token_program_for_mint_def split: if_splits)
  from run have "protocol_fees_a p = 0 \<and> protocol_fees_b p = 0 \<and> w' = w \<or> claim_fees_pay e accounts p w = Ok w'"
    by (simp split: if_splits)
  then show thesis
    unfolding claim_fees_pay_def Let_def and_then_Ok_iff into_Ok_iff res.inject by (intro that [OF facts]) blast
qed

lemma add_liquidity_refines:
  assumes iso: "isolation_law e pid"
    and "process_add_liquidity e pid accounts amount_a_max amount_b_max min_lp_out w = Ok w'"
  shows "book_trans e pid (Touched (key (accounts ! 0))) (books_of pid w) (books_of pid w')"
proof (rule add_liquidity_effect [OF assms(2)])
  fix p pool ra rb slot x y z da db dl w1 w2 w3 w4 slot' ev
  assume chk: "check_signer_and_token_programs e w (add_liquidity_accounts accounts) = Ok ()"
    and p: "owner (acct w (accounts ! 0)) = pid" "load_pool w (accounts ! 0) = Ok p" "bump_indexes p ra rb slot = Ok pool"
    and w: "transfer_checked e (accounts ! 10) (accounts ! 4) (accounts ! 8) (accounts ! 1) (accounts ! 7) x da [] w = Ok w1"
      "transfer_checked e (accounts ! 11) (accounts ! 5) (accounts ! 9) (accounts ! 2) (accounts ! 7) y db [] w1 = Ok w2"
      "invoke_signed e (MintToChecked (key (accounts ! 10)) (key (accounts ! 3)) (key (accounts ! 6)) (key (accounts ! 0)) z dl)
        [accounts ! 3, accounts ! 6, accounts ! 0] [pool_signer_seeds pool] w2 = Ok w3"
      "serialize_into (pool_bytes (pool\<lparr>last_update_slot := slot'\<rparr>)) (accounts ! 0) w3 = Ok w4" "w' = emit ev w4"
  have tok: "is_valid_token_program e (key (accounts ! 10))" "is_valid_token_program e (key (accounts ! 11))"
    using checked_token_programs [OF chk] by (simp_all add: add_liquidity_accounts_def)
  have eq: "books_of pid w3 = books_of pid w"
    using books_transfer [OF iso tok(1) w(1)] books_transfer [OF iso tok(2) w(2)]
      books_invoke [OF iso _ w(3)] tok(1) by (simp add: external_def)
  then have "pools pid w3 (key (accounts ! 0)) = Some p" using loaded_pool [OF p(2,1)] by (metis books_of_simps(1))
  from write_touched [OF this _ w(4)] show ?thesis using touch_bump [OF p(3)] eq w(5) by simp
qed

lemma remove_liquidity_refines:
  assumes iso: "isolation_law e pid"
    and "process_remove_liquidity e pid accounts lp_amount min_a_out min_b_out w = Ok w'"
  shows "book_trans e pid (Touched (key (accounts ! 0))) (books_of pid w) (books_of pid w')"
proof (rule remove_liquidity_effect [OF assms(2)])
  fix p pool ra rb slot x y da db dl w1 w2 w3 w4 slot' ev
  assume chk: "check_signer_and_token_programs e w (remove_liquidity_accounts accounts) = Ok ()"
    and p: "owner (acct w (accounts ! 0)) = pid" "load_pool w (accounts ! 0) = Ok p" "bump_indexes p ra rb slot = Ok pool"
    and w: "invoke_signed e (BurnChecked (key (accounts ! 10)) (key (accounts ! 6)) (key (accounts ! 3)) (key (accounts ! 7)) lp_amount dl)
       [accounts ! 6, accounts ! 3, accounts ! 7] [] w = Ok w1"
      "transfer_checked e (accounts ! 10) (accounts ! 1) (accounts ! 8) (accounts ! 4) (accounts ! 0) x da [pool_signer_seeds pool] w1 = Ok w2"
      "transfer_checked e (accounts ! 11) (accounts ! 2) (accounts ! 9) (accounts ! 5) (accounts ! 0) y db [pool_signer_seeds pool] w2 = Ok w3"
      "serialize_into (pool_bytes (pool\<lparr>last_update_slot := slot'\<rparr>)) (accounts ! 0) w3 = Ok w4" "w' = emit ev w4"
  have tok: "is_valid_token_program e (key (accounts ! 10))" "is_valid_token_program e (key (accounts ! 11))"
    using checked_token_programs [OF chk] by (simp_all add: remove_liquidity_accounts_def)
  have eq: "books_of pid w3 = books_of pid w"
    using books_transfer [OF iso tok(1) w(2)] books_transfer [OF iso tok(2) w(3)]
      books_invoke [OF iso _ w(1)] tok(1) by (simp add: external_def)
  then have "pools pid w3 (key (accounts ! 0)) = Some p" using loaded_pool [OF p(2,1)] by (metis books_of_simps(1))
  from write_touched [OF this _ w(4)] show ?thesis using touch_bump [OF p(3)] eq w(5) by simp
qed

lemma claim_fees_refines:
  assumes iso: "isolation_law e pid"
    and "process_claim_protocol_fees e pid accounts w = Ok w'"
  shows "book_trans e pid (Touched (key (accounts ! 0))) (books_of pid w) (books_of pid w') \<or>
    w' = w \<and> (\<exists>p. pools pid w (key (accounts ! 0)) = Some p \<and> protocol_fees_a p = 0 \<and> protocol_fees_b p = 0)"
    (is "_ \<or> ?idle")
proof (cases ?idle)
  case False
  obtain p da db w1 w2 w3 slot ev where own: "owner (acct w (accounts ! 0)) = pid" and p: "load_pool w (accounts ! 0) = Ok p"
    and tok: "is_valid_token_program e (key (accounts ! 7))" "is_valid_token_program e (key (accounts ! 8))"
    and w1: "(if 0 < protocol_fees_a p
          then transfer_checked e (accounts ! 7) (accounts ! 1) (accounts ! 5) (accounts ! 3)
                 (accounts ! 0) (protocol_fees_a p) da [pool_signer_seeds p] w else Ok w) = Ok w1"
    and w2: "(if 0 < protocol_fees_b p
          then transfer_checked e (accounts ! 8) (accounts ! 2) (accounts ! 6) (accounts ! 4)
                 (accounts ! 0) (protocol_fees_b p) db [pool_signer_seeds p] w1 else Ok w1) = Ok w2"
    and w3: "serialize_into (pool_bytes (p\<lparr>protocol_fees_a := 0, protocol_fees_b := 0,
          last_update_slot := slot\<rparr>)) (accounts ! 0) w2 = Ok w3"
    and w': "w' = emit ev w3"
    by (rule claim_fees_effect [OF assms(2)]) (use False loaded_pool in blast)
  have "books_of pid w1 = books_of pid w"
    using w1 books_transfer [OF iso tok(1)] by (auto split: if_splits)
  moreover have "books_of pid w2 = books_of pid w1"
    using w2 books_transfer [OF iso tok(2)] by (auto split: if_splits)
  ultimately have eq: "books_of pid w2 = books_of pid w" by simp
  then have "pools pid w2 (key (accounts ! 0)) = Some p"
    using loaded_pool [OF p own] by (metis books_of_simps(1))
  from write_touched [OF this _ w3] show ?thesis using eq w' by simp
qed simp

lemma claim_rent_refines:
  assumes "process_claim_liquidated_rent e pid accounts w = Ok w'"
  shows "book_trans e pid (RentClaimed (key (accounts ! 0))) (books_of pid w) (books_of pid w')"
proof -
  let ?i = "accounts ! 0"
  let ?w = "put_data ?i (map (\<lambda>_. 0) (data (acct w ?i))) w"
  from assms obtain l w2 ev where own: "owner (acct w ?i) = pid" and l: "load_loan w ?i = Ok l"
    "loan_is_initialized l" "loan_status l = STATUS_LIQUIDATED"
    and w2: "drain ?i (accounts ! 1) ?w = Ok w2" and w': "w' = emit ev w2"
    by (auto simp: process_claim_liquidated_rent_def Let_def)
  have entry: "loans pid w (key ?i) = Some l" using loaded_loan [OF l(1,2) own] .
  have "books_of pid w2 = books_of pid ?w"
    using w2 by (auto simp: drain_def Let_def split: if_splits)
  also have "\<dots> = (books_of pid w)\<lparr>b_loans := (loans pid w)(key ?i := None)\<rparr>"
    using entry_account(2) [OF entry] by (intro zero_loan) simp
  finally have "books_of pid w' = (books_of pid w)\<lparr>b_loans := (b_loans (books_of pid w))(key ?i := None)\<rparr>"
    using w' by simp
  moreover have "\<not> is_open l" using l(3) by (simp add: is_open_def STATUS_LIQUIDATED_def STATUS_OPEN_def)
  ultimately show ?thesis using book_trans.rent_claimed [of "books_of pid w" "key ?i" l] entry by simp
qed

section \<open>Creating a pool\<close>

lemma quiet_vault:
  assumes iso: "isolation_law e pid" and "is_valid_token_program e (key prog)"
    and "create_vault e prog sys payer pool_i mint_i vault_i seed bump rent w = Ok w'"
  shows "quiet pid w w'"
proof -
  from assms(3) obtain size w1 where
    w1: "create_pda_account e payer vault_i sys size (key prog) [seed, put_key (key pool_i), [bump]] rent w = Ok w1"
    and w': "invoke_signed e (InitializeAccount3 (key prog) (key vault_i) (key mint_i) (key pool_i))
        [vault_i, mint_i] [[seed, put_key (key pool_i), [bump]]] w1 = Ok w'"
    by (auto simp: create_vault_def Let_def)
  have "quiet pid w1 w'" by (rule quiet_invoke [OF iso _ w']) (simp add: external_def assms(2))
  with quiet_create [OF iso w1] show ?thesis by (rule quiet_trans)
qed

lemma quiet_lp_mint:
  assumes iso: "isolation_law e pid" and "is_valid_token_program e (key prog)"
    and "create_lp_mint e prog sys payer pool_i lp_i bump rent w = Ok w'"
  shows "quiet pid w w'"
proof -
  from assms(3) obtain size w1 where
    w1: "create_pda_account e payer lp_i sys size (key prog) [LP_MINT_SEED, put_key (key pool_i), [bump]] rent w = Ok w1"
    and w': "invoke_signed e (InitializeMint2 (key prog) (key lp_i) (key pool_i) None LP_MINT_DECIMALS)
        [lp_i] [[LP_MINT_SEED, put_key (key pool_i), [bump]]] w1 = Ok w'"
    by (auto simp: create_lp_mint_def Let_def)
  have "quiet pid w1 w'" by (rule quiet_invoke [OF iso _ w']) (simp add: external_def assms(2))
  with quiet_create [OF iso w1] show ?thesis by (rule quiet_trans)
qed

lemma validated_token_program:
  "validate_token_program_for_mint e w prog mint_i = Ok u \<Longrightarrow> is_valid_token_program e (key prog)"
  unfolding validate_token_program_for_mint_def guard_Ok_iff by blast

lemma initialize_checks_Ok:
  assumes "initialize_pool_checks e pid accounts w = Ok r"
  shows "is_valid_token_program e (key (accounts ! 8))" "is_valid_token_program e (key (accounts ! 9))"
    "data (acct w (accounts ! 0)) = []"
proof -
  from assms obtain u v where
    v: "validate_token_program_for_mint e w (accounts ! 8) (accounts ! 1) = Ok u"
    "validate_token_program_for_mint e w (accounts ! 9) (accounts ! 2) = Ok v"
    and d: "data_is_empty w (accounts ! 0)"
    unfolding initialize_pool_checks_def Let_def guard_Ok_iff and_then_Ok_iff into_Ok_iff split_beta
    by blast
  show "is_valid_token_program e (key (accounts ! 8))" "is_valid_token_program e (key (accounts ! 9))"
    by (rule validated_token_program [OF v(1)], rule validated_token_program [OF v(2)])
  show "data (acct w (accounts ! 0)) = []" using d by (simp add: data_is_empty_def)
qed

text \<open>What a successful creation did, stage by stage, and the books it left.\<close>

lemma initialize_effect:
  assumes iso: "isolation_law e pid" and sysl: "system_law e"
    and "process_initialize_pool e pid accounts w = Ok w'"
  obtains c0 c1 c2 c3 rent slot w1 w2 w3 w4 w5 ev where
    "initialize_pool_checks e pid accounts w = Ok (c0, c1, c2, c3)"
    "create_pda_account e (accounts ! 6) (accounts ! 0) (accounts ! 7) POOL_LEN pid
       [POOL_SEED, put_key (key (accounts ! 1)), put_key (key (accounts ! 2)), [c0]] rent w = Ok w1"
    "create_vault e (accounts ! 8) (accounts ! 7) (accounts ! 6) (accounts ! 0) (accounts ! 1)
       (accounts ! 3) VAULT_A_SEED c1 rent w1 = Ok w2"
    "create_vault e (accounts ! 9) (accounts ! 7) (accounts ! 6) (accounts ! 0) (accounts ! 2)
       (accounts ! 4) VAULT_B_SEED c2 rent w2 = Ok w3"
    "create_lp_mint e (accounts ! 8) (accounts ! 7) (accounts ! 6) (accounts ! 0) (accounts ! 5)
       c3 rent w3 = Ok w4"
    "serialize_into (pool_bytes (initial_pool (key (accounts ! 1)) (key (accounts ! 2))
       (key (accounts ! 3)) (key (accounts ! 4)) (key (accounts ! 5)) c0 c1 c2 c3 slot)) (accounts ! 0) w4 = Ok w5"
    "w' = emit ev w5" "owner (acct w4 (accounts ! 0)) = pid" "pools pid w (key (accounts ! 0)) = None"
    "books_of pid w' = (books_of pid w)\<lparr>b_pools := (pools pid w)(key (accounts ! 0) \<mapsto>
       initial_pool (key (accounts ! 1)) (key (accounts ! 2)) (key (accounts ! 3)) (key (accounts ! 4))
         (key (accounts ! 5)) c0 c1 c2 c3 slot)\<rparr>"
proof -
  let ?i = "accounts ! 0"
  from assms(3) obtain c0 c1 c2 c3 rent slot w1 w2 w3 w4 w5 ev where
    chk: "initialize_pool_checks e pid accounts w = Ok (c0, c1, c2, c3)"
    and w1: "create_pda_account e (accounts ! 6) ?i (accounts ! 7) POOL_LEN pid
       [POOL_SEED, put_key (key (accounts ! 1)), put_key (key (accounts ! 2)), [c0]] rent w = Ok w1"
    and w2: "create_vault e (accounts ! 8) (accounts ! 7) (accounts ! 6) ?i (accounts ! 1)
       (accounts ! 3) VAULT_A_SEED c1 rent w1 = Ok w2"
    and w3: "create_vault e (accounts ! 9) (accounts ! 7) (accounts ! 6) ?i (accounts ! 2)
       (accounts ! 4) VAULT_B_SEED c2 rent w2 = Ok w3"
    and w4: "create_lp_mint e (accounts ! 8) (accounts ! 7) (accounts ! 6) ?i (accounts ! 5)
       c3 rent w3 = Ok w4"
    and w5: "serialize_into (pool_bytes (initial_pool (key (accounts ! 1)) (key (accounts ! 2))
       (key (accounts ! 3)) (key (accounts ! 4)) (key (accounts ! 5)) c0 c1 c2 c3 slot)) ?i w4 = Ok w5"
    and w': "w' = emit ev w5"
    unfolding process_initialize_pool_def Let_def guard_Ok_iff and_then_Ok_iff split_beta res.inject
    by (metis prod.collapse)
  note c = initialize_checks_Ok [OF chk]
  have new: "owner (acct w1 ?i) = pid" "length (data (acct w1 ?i)) = POOL_LEN"
    using created_account [OF sysl _ w1] by (simp_all add: POOL_LEN_def)
  have q: "quiet pid w1 w4"
    using quiet_vault [OF iso c(1) w2] quiet_vault [OF iso c(2) w3] quiet_lp_mint [OF iso c(1) w4]
    by (blast intro: quiet_trans)
  then have acct: "owner (acct w4 ?i) = pid" "length (data (acct w4 ?i)) = POOL_LEN"
    using quiet_acct [OF q new(1)] new by simp_all
  have eq: "books_of pid w4 = books_of pid w"
    using quiet_books [OF q] quiet_books [OF quiet_create [OF iso w1]] by simp
  have none: "pools pid w (key ?i) = None"
    using c(3) by (simp add: views acct_def pool_kind.view_None_length POOL_LEN_def)
  have books: "books_of pid w' = (books_of pid w)\<lparr>b_pools := (pools pid w)(key ?i \<mapsto>
       initial_pool (key (accounts ! 1)) (key (accounts ! 2)) (key (accounts ! 3)) (key (accounts ! 4))
         (key (accounts ! 5)) c0 c1 c2 c3 slot)\<rparr>"
    using write_pool [OF acct initial_pool_wf initial_pool_initialized w5] eq w'
    by (metis books_of_simps(1) books_unchanged(1))
  show thesis by (rule that [OF chk w1 w2 w3 w4 w5 w' acct(1) none books])
qed

lemma initialize_refines:
  assumes "isolation_law e pid" "system_law e" "process_initialize_pool e pid accounts w = Ok w'"
  shows "book_trans e pid (Created (key (accounts ! 0))) (books_of pid w) (books_of pid w')"
proof (rule initialize_effect [OF assms])
  fix c0 c1 c2 c3 slot
  assume "pools pid w (key (accounts ! 0)) = None"
    and "books_of pid w' = (books_of pid w)\<lparr>b_pools := (pools pid w)(key (accounts ! 0) \<mapsto>
       initial_pool (key (accounts ! 1)) (key (accounts ! 2)) (key (accounts ! 3)) (key (accounts ! 4))
         (key (accounts ! 5)) c0 c1 c2 c3 slot)\<rparr>"
  then show ?thesis using book_trans.created [of "books_of pid w" "key (accounts ! 0)"] by simp
qed

section \<open>Repaying a loan\<close>

text \<open>The two bitmap updates as set operations.\<close>

lemma bits_update:
  assumes "band_bitmap_mut p d f = Ok q" "pool_wf p"
    "\<And>bm bm'. length bm = 16 \<Longrightarrow> f bm = Ok bm' \<Longrightarrow> length bm' = 16 \<and> Collect (bitmap_is_set bm') = g (Collect (bitmap_is_set bm))"
  shows "bits q d' = (if d' = d then g (bits p d) else bits p d')"
    "params q = params p" "removed p q {#}" "pool_wf q" "d = 0 \<or> d = 1"
proof -
  have len: "length (band_bitmap_fall p) = 16" "length (band_bitmap_rise p) = 16"
    using assms(2) by (simp_all add: pool_wf_def)
  consider bm where "d = 0" "f (band_bitmap_fall p) = Ok bm" "q = p\<lparr>band_bitmap_fall := bm\<rparr>"
    | bm where "d = 1" "f (band_bitmap_rise p) = Ok bm" "q = p\<lparr>band_bitmap_rise := bm\<rparr>"
    using assms(1) by (auto simp: band_bitmap_mut_def split: if_splits)
  then have "bits q d' = (if d' = d then g (bits p d) else bits p d') \<and>
    params q = params p \<and> removed p q {#} \<and> pool_wf q \<and> (d = 0 \<or> d = 1)"
  proof cases
    case 1
    then show ?thesis using assms(2) assms(3) [OF len(1) 1(2)]
      by (auto simp: bits_def band_bitmap_def params_def removed_def pool_wf_def)
  next
    case 2
    then show ?thesis using assms(2) assms(3) [OF len(2) 2(2)]
      by (auto simp: bits_def band_bitmap_def params_def removed_def pool_wf_def)
  qed
  then show "bits q d' = (if d' = d then g (bits p d) else bits p d')"
    "params q = params p" "removed p q {#}" "pool_wf q" "d = 0 \<or> d = 1" by simp_all
qed

lemma bits_set:
  assumes "band_bitmap_mut p d (\<lambda>bm. bitmap_set bm i) = Ok q" "pool_wf p"
  shows "bits q d' = bits p d' \<union> (if d' = d then {i} else {})"
    "params q = params p" "removed p q {#}" "pool_wf q"
  using bits_update [OF assms, of "insert i"] bitmap.set_inv bitmap.members_set by auto

lemma bits_clear:
  assumes "band_bitmap_mut p d (\<lambda>bm. bitmap_clear bm i) = Ok q" "pool_wf p"
  shows "bits q d' = bits p d' - (if d' = d then {i} else {})"
    "params q = params p" "removed p q {#}" "pool_wf q"
  using bits_update [OF assms, of "\<lambda>x. x - {i}"] bitmap.clear_inv bitmap.members_clear by auto

lemma release_removed:
  assumes "release_loan p sides c d = Ok q"
  shows "removed p q {#\<lparr>pos_sides = sides, pos_collateral = c, pos_principal = d\<rparr>#}"
    "params q = params p" "bits q = bits p" "pool_wf q = pool_wf p"
  using release_loan_Ok [OF assms]
  by (auto simp: removed_def params_def bits_def band_bitmap_def fun_eq_iff pool_wf_def)

lemma slot_only [simp]:
  "params (p\<lparr>last_update_slot := s\<rparr>) = params p" "bits (p\<lparr>last_update_slot := s\<rparr>) = bits p"
  "removed p (q\<lparr>last_update_slot := s\<rparr>) m = removed p q m" "pool_wf (p\<lparr>last_update_slot := s\<rparr>) = pool_wf p"
  by (simp_all add: params_def removed_def bits_def band_bitmap_def fun_eq_iff pool_wf_def)

lemma repay_book_Ok:
  assumes "repay_book p l sides b slot = Ok (q, b')" "pool_wf p"
  obtains n where "b' = b\<lparr>band_count := n\<rparr>" "unat (band_count b) = unat n + 1"
    "params q = params p" "pool_wf q"
    "removed p q {#\<lparr>pos_sides = sides, pos_collateral = loan_collateral_amount l,
       pos_principal = loan_debt_principal l\<rparr>#}"
    "\<And>d. bits q d = bits p d - (if d = band_direction b \<and> n = 0 then {band_band_id b} else {})"
proof -
  let ?x = "\<lparr>pos_sides = sides, pos_collateral = loan_collateral_amount l, pos_principal = loan_debt_principal l\<rparr>"
  from assms(1) obtain p1 n where
    rel: "release_loan p sides (loan_collateral_amount l) (loan_debt_principal l) = Ok p1"
    and n: "unat (band_count b) = unat n + unat (1 :: u32)" and b': "b' = b\<lparr>band_count := n\<rparr>"
    and q: "(if band_count b' = 0 then band_bitmap_mut (p1\<lparr>last_update_slot := slot\<rparr>) (band_direction b')
               (\<lambda>bm. bitmap_clear bm (band_band_id b')) else Ok (p1\<lparr>last_update_slot := slot\<rparr>)) = Ok q"
    unfolding repay_book_def Let_def and_then_Ok_iff ok_or_Ok_iff checked_sub_Some_iff res.inject
      prod.inject by blast
  have n: "unat (band_count b) = unat n + 1" using n by simp
  let ?p2 = "p1\<lparr>last_update_slot := slot\<rparr>"
  note r = release_removed [OF rel]
  have p2: "params ?p2 = params p" "pool_wf ?p2" "removed p ?p2 {#?x#}" "bits ?p2 = bits p"
    using r assms(2) by simp_all
  show ?thesis
  proof (cases "n = 0")
    case True
    with q have m: "band_bitmap_mut ?p2 (band_direction b) (\<lambda>bm. bitmap_clear bm (band_band_id b)) = Ok q"
      unfolding b' by simp
    show ?thesis
      using bits_clear [OF m p2(2)] p2 True removed_trans [OF p2(3), of q "{#}"]
      by (intro that [OF b' n]) simp_all
  next
    case False
    then have "q = ?p2" using q unfolding b' by simp
    then show ?thesis using p2 False by (intro that [OF b' n]) simp_all
  qed
qed

lemma quiet_repay_transfers:
  assumes iso: "isolation_law e pid"
    and tok: "is_valid_token_program e (key (token_program_a_info a))"
      "is_valid_token_program e (key (token_program_b_info a))"
    and "repay_transfers e a sides owed_u64 coll pool w = Ok w'"
  shows "quiet pid w w'"
proof (cases sides)
  case CollateralA
  with assms(4) obtain da db w1 where
    "transfer_checked e (token_program_b_info a) (user_b_info a) (mint_b_info a)
       (vault_b_info a) (user_info a) owed_u64 db [] w = Ok w1"
    "transfer_checked e (token_program_a_info a) (vault_a_info a) (mint_a_info a)
       (user_a_info a) (pool_info a) coll da [pool_signer_seeds pool] w1 = Ok w'"
    by (auto simp: repay_transfers_def)
  then show ?thesis using quiet_transfer [OF iso] tok by (blast intro: quiet_trans)
next
  case CollateralB
  with assms(4) obtain da db w1 where
    "transfer_checked e (token_program_a_info a) (user_a_info a) (mint_a_info a)
       (vault_a_info a) (user_info a) owed_u64 da [] w = Ok w1"
    "transfer_checked e (token_program_b_info a) (vault_b_info a) (mint_b_info a)
       (user_b_info a) (pool_info a) coll db [pool_signer_seeds pool] w1 = Ok w'"
    by (auto simp: repay_transfers_def)
  then show ?thesis using quiet_transfer [OF iso] tok by (blast intro: quiet_trans)
qed

lemma close_books:
  assumes "close_account i dest w = Ok w'" "loans pid w (key i) = Some l"
  shows "books_of pid w' = (books_of pid w)\<lparr>b_loans := (loans pid w)(key i := None)\<rparr>"
proof -
  from assms(1) obtain n where
    w': "w' = (let v = put_lamports dest n (put_lamports i 0 w) in
      put_data i (map (\<lambda>_. 0) (data (acct v i))) v)"
    by (auto simp: close_account_def Let_def)
  let ?v = "put_lamports dest n (put_lamports i 0 w)"
  have eq: "books_of pid ?v = books_of pid w" by simp
  then have "loans pid ?v = loans pid w" by (metis books_of_simps(2))
  moreover from this have "length (data (acct ?v i)) = LOAN_LEN"
    using entry_account(2) assms(2) by metis
  ultimately show ?thesis unfolding w' Let_def using zero_loan [of ?v i pid] eq by simp
qed

lemma sides_position:
  "loan_sides_from_u8 (loan_sides l) = Ok sides \<Longrightarrow>
   position_of l = \<lparr>pos_sides = sides, pos_collateral = loan_collateral_amount l,
     pos_principal = loan_debt_principal l\<rparr>"
  by (auto simp: position_of_def loan_sides_from_u8_def split: if_splits)

text \<open>The writes of a repayment, as updates of the books.\<close>

lemma repay_close_books:
  assumes "repay_close a loan_info band_info q l b slot owed_u64 w = Ok w'"
    and entries: "pools pid w (key (pool_info a)) = Some p" "loans pid w (key loan_info) = Some l0"
      "bands pid w (key band_info) = Some b0"
    and wf: "pool_wf q" "pool_is_initialized q" "loan_wf l" "loan_is_initialized l"
      "loan_index_band_wf b" "band_is_initialized b"
  shows "books_of pid w' = (books_of pid w)
    \<lparr>b_pools := (pools pid w)(key (pool_info a) \<mapsto> q), b_loans := (loans pid w)(key loan_info := None),
     b_bands := (bands pid w)(key band_info \<mapsto> b)\<rparr>"
proof -
  let ?l = "l\<lparr>loan_status := STATUS_REPAID, loan_closed_slot := slot\<rparr>"
  from assms(1) obtain w1 w2 w3 w4 ev where
    w1: "serialize_into (loan_index_band_bytes b) band_info w = Ok w1"
    and w2: "serialize_into (loan_bytes ?l) loan_info w1 = Ok w2"
    and w3: "close_account loan_info (user_info a) w2 = Ok w3"
    and w4: "serialize_into (pool_bytes q) (pool_info a) w3 = Ok w4"
    and w': "w' = emit ev w4"
    unfolding repay_close_def Let_def and_then_Ok_iff res.inject by blast
  have b1: "books_of pid w1 = (books_of pid w)\<lparr>b_bands := (bands pid w)(key band_info \<mapsto> b)\<rparr>"
    using entry_account(3) [OF entries(3)] wf(5,6) w1 by (intro write_band) auto
  then have m1: "pools pid w1 = pools pid w" "loans pid w1 = loans pid w"
    by (simp_all add: books_of_def)
  have "loan_wf ?l" "loan_is_initialized ?l"
    using wf(3,4) by (simp_all add: loan_wf_def loan_is_initialized_def)
  then have b2: "books_of pid w2 = (books_of pid w1)\<lparr>b_loans := (loans pid w1)(key loan_info \<mapsto> ?l)\<rparr>"
    using entry_account(2) [of pid w1 loan_info l0] entries(2) m1 w2 by (intro write_loan) auto
  then have m2: "pools pid w2 = pools pid w" "loans pid w2 = (loans pid w)(key loan_info \<mapsto> ?l)"
    using m1 by (simp_all add: books_of_def)
  then have b3: "books_of pid w3 = (books_of pid w2)\<lparr>b_loans := (loans pid w2)(key loan_info := None)\<rparr>"
    by (intro close_books [OF w3, where l = ?l]) simp
  then have m3: "pools pid w3 = pools pid w" using m2 by (simp add: books_of_def)
  have "books_of pid w4 = (books_of pid w3)\<lparr>b_pools := (pools pid w3)(key (pool_info a) \<mapsto> q)\<rparr>"
    using entry_account(1) [of pid w3 "pool_info a" p] entries(1) m3 wf(1,2) w4 by (intro write_pool) auto
  then show ?thesis using w' b1 b2 b3 m1 m2 m3 by simp
qed

lemma repay_load_Ok:
  assumes "repay_load e pid a loan_info band_info w = Ok (p, l, b)"
  shows "load_pool w (pool_info a) = Ok p" "load_loan w loan_info = Ok l" "loan_is_initialized l"
    "is_open l" "loan_pool l = key (pool_info a)" "loan_borrower l = key (user_info a)"
    "load_band w band_info = Ok b" "band_is_initialized b"
    "band_for b (loan_pool l) (loan_trigger_direction l) (loan_band_id l)" "pool_keys_match p a"
  using assms by (auto simp: repay_load_def band_for_def)

text \<open>What a successful repayment did, stage by stage, and the books it left.\<close>

lemma repay_effect:
  assumes iso: "isolation_law e pid" and "process_repay_loan e pid accounts w = Ok w'"
  obtains p l b ra rb slot p1 owe sides coll w1 q n where
    "repay_load e pid (loan_handler_accounts accounts 10) (accounts ! 8) (accounts ! 9) w = Ok (p, l, b)"
    "pools pid w (key (accounts ! 0)) = Some p" "loans pid w (key (accounts ! 8)) = Some l"
    "bands pid w (key (accounts ! 9)) = Some b"
    "read_token_amount e w (accounts ! 1) = Ok ra" "read_token_amount e w (accounts ! 2) = Ok rb"
    "clock_get e = Ok slot" "repay_amounts p l ra rb slot = Ok (p1, owe, sides, coll)"
    "repay_transfers e (loan_handler_accounts accounts 10) sides owe coll p1 w = Ok w1" "quiet pid w w1"
    "repay_book p1 (l\<lparr>loan_last_touch_slot := slot\<rparr>) sides b slot = Ok (q, b\<lparr>band_count := n\<rparr>)"
    "repay_close (loan_handler_accounts accounts 10) (accounts ! 8) (accounts ! 9) q
       (l\<lparr>loan_last_touch_slot := slot\<rparr>) (b\<lparr>band_count := n\<rparr>) slot owe w1 = Ok w'"
    "touch p p1" "unat (band_count b) = unat n + 1" "params q = params p1" "removed p q {#position_of l#}"
    "\<forall>d. bits q d = bits p1 d - (if d = band_direction b \<and> n = 0 then {band_band_id b} else {})"
    "books_of pid w' = (books_of pid w)\<lparr>b_pools := (pools pid w)(loan_pool l \<mapsto> q),
       b_loans := (loans pid w)(key (accounts ! 8) := None),
       b_bands := (bands pid w)(key (accounts ! 9) \<mapsto> b\<lparr>band_count := n\<rparr>)\<rparr>"
proof -
  let ?a = "loan_handler_accounts accounts 10" and ?li = "accounts ! 8" and ?bi = "accounts ! 9"
  have a: "pool_info ?a = accounts ! 0" "vault_a_info ?a = accounts ! 1" "vault_b_info ?a = accounts ! 2"
    by (simp_all add: loan_handler_accounts_def)
  from assms(2) obtain u p l b slot ra rb p1 owe sides coll w1 q b' where
    chk: "check_signer_and_token_programs e w ?a = Ok u"
    and own: "owner (acct w (pool_info ?a)) = pid" "owner (acct w ?li) = pid" "owner (acct w ?bi) = pid"
    and load: "repay_load e pid ?a ?li ?bi w = Ok (p, l, b)"
    and r: "read_token_amount e w (vault_a_info ?a) = Ok ra" "read_token_amount e w (vault_b_info ?a) = Ok rb"
    and clk: "clock_get e = Ok slot" and am: "repay_amounts p l ra rb slot = Ok (p1, owe, sides, coll)"
    and w1: "repay_transfers e ?a sides owe coll p1 w = Ok w1"
    and book: "repay_book p1 (l\<lparr>loan_last_touch_slot := slot\<rparr>) sides b slot = Ok (q, b')"
    and close: "repay_close ?a ?li ?bi q (l\<lparr>loan_last_touch_slot := slot\<rparr>) b' slot owe w1 = Ok w'"
    unfolding process_repay_loan_def Let_def guard_Ok_iff and_then_Ok_iff into_Ok_iff split_paired_all
      case_prod_beta de_Morgan_disj not_not
    by (metis prod.collapse)
  note ld = repay_load_Ok [OF load]
  from am have bump: "bump_indexes p ra rb slot = Ok p1" and sd: "loan_sides_from_u8 (loan_sides l) = Ok sides"
    by (auto simp: repay_amounts_def)
  have entries: "pools pid w (key (pool_info ?a)) = Some p" "loans pid w (key ?li) = Some l"
    "bands pid w (key ?bi) = Some b"
    using loaded_pool [OF ld(1) own(1)] loaded_loan [OF ld(2,3) own(2)] loaded_band [OF ld(7,8) own(3)] .
  have qt: "quiet pid w w1" by (rule quiet_repay_transfers [OF iso checked_token_programs [OF chk] w1])
  note m = quiet_maps [OF qt]
  have touch: "touch p p1" by (rule touch_bump [OF bump])
  have p1: "pool_wf p1" "pool_is_initialized p1"
    using entry_account(1) [OF entries(1)] touch_live [OF touch] by simp_all
  obtain n where n: "b' = b\<lparr>band_count := n\<rparr>" "unat (band_count b) = unat n + 1"
    "params q = params p1" "pool_wf q" "removed p1 q {#\<lparr>pos_sides = sides,
        pos_collateral = loan_collateral_amount (l\<lparr>loan_last_touch_slot := slot\<rparr>),
        pos_principal = loan_debt_principal (l\<lparr>loan_last_touch_slot := slot\<rparr>)\<rparr>#}"
    "\<And>d. bits q d = bits p1 d - (if d = band_direction b \<and> n = 0 then {band_band_id b} else {})"
    using book p1(1) by (rule repay_book_Ok) blast
  have "books_of pid w' = (books_of pid w1)
    \<lparr>b_pools := (pools pid w1)(key (pool_info ?a) \<mapsto> q), b_loans := (loans pid w1)(key ?li := None),
     b_bands := (bands pid w1)(key ?bi \<mapsto> b')\<rparr>"
  proof (rule repay_close_books [OF close])
    show "pools pid w1 (key (pool_info ?a)) = Some p" "loans pid w1 (key ?li) = Some l"
      "bands pid w1 (key ?bi) = Some b" using entries m by simp_all
    show "pool_is_initialized q" using params_fields(11) [OF n(3)] p1(2) by simp
    show "loan_wf (l\<lparr>loan_last_touch_slot := slot\<rparr>)" "loan_is_initialized (l\<lparr>loan_last_touch_slot := slot\<rparr>)"
      using entry_account(2) [OF entries(2)]
      by (simp_all add: loan_wf_def loan_is_initialized_def LOAN_DISCRIMINATOR_def)
    show "loan_index_band_wf b'" "band_is_initialized b'"
      using entry_account(3) [OF entries(3)] n(1)
      by (simp_all add: loan_index_band_wf_def band_is_initialized_def LOAN_INDEX_BAND_DISCRIMINATOR_def)
  qed (rule n(4))
  then have eq: "books_of pid w' = (books_of pid w)\<lparr>b_pools := (pools pid w)(loan_pool l \<mapsto> q),
     b_loans := (loans pid w)(key ?li := None), b_bands := (bands pid w)(key ?bi \<mapsto> b\<lparr>band_count := n\<rparr>)\<rparr>"
    using quiet_books [OF qt] m ld(5) n(1) by simp
  have rem: "removed p q {#position_of l#}"
    using touch n(5) sides_position [OF sd] removed_trans [of p p1 "{#}" q] by (simp add: touch_def)
  have bits: "\<forall>d. bits q d = bits p1 d - (if d = band_direction b \<and> n = 0 then {band_band_id b} else {})"
    using n(6) by blast
  show thesis
    by (rule that [OF load entries [unfolded a] r [unfolded a] clk am w1 qt book [unfolded n(1)] close [unfolded n(1)]
          touch n(2,3) rem bits eq])
qed

lemma repay_refines:
  assumes iso: "isolation_law e pid" and "process_repay_loan e pid accounts w = Ok w'"
  shows "book_trans e pid (Repaid (key (accounts ! 8))) (books_of pid w) (books_of pid w')"
proof (rule repay_effect [OF assms])
  fix p l b q p1 n
  assume load: "repay_load e pid (loan_handler_accounts accounts 10) (accounts ! 8) (accounts ! 9) w = Ok (p, l, b)"
    and entries: "pools pid w (key (accounts ! 0)) = Some p" "loans pid w (key (accounts ! 8)) = Some l"
      "bands pid w (key (accounts ! 9)) = Some b"
    and facts: "touch p p1" "unat (band_count b) = unat n + 1" "params q = params p1"
      "removed p q {#position_of l#}"
      "\<forall>d. bits q d = bits p1 d - (if d = band_direction b \<and> n = 0 then {band_band_id b} else {})"
    and eq: "books_of pid w' = (books_of pid w)\<lparr>b_pools := (pools pid w)(loan_pool l \<mapsto> q),
       b_loans := (loans pid w)(key (accounts ! 8) := None),
       b_bands := (bands pid w)(key (accounts ! 9) \<mapsto> b\<lparr>band_count := n\<rparr>)\<rparr>"
  note ld = repay_load_Ok [OF load]
  have pk: "pool_info (loan_handler_accounts accounts 10) = accounts ! 0" by (simp add: loan_handler_accounts_def)
  have "book_trans e pid (Repaid (key (accounts ! 8))) (books_of pid w)
    ((books_of pid w)\<lparr>b_pools := (b_pools (books_of pid w))(loan_pool l \<mapsto> q),
       b_loans := (b_loans (books_of pid w))(key (accounts ! 8) := None),
       b_bands := (b_bands (books_of pid w))(key (accounts ! 9) \<mapsto> b\<lparr>band_count := n\<rparr>)\<rparr>)"
    by (rule book_trans.repaid [OF _ _ ld(4) _ ld(9) facts(2) _ facts(4)])
      (use entries ld(5,9) facts pk in \<open>auto simp: touch_def band_for_def\<close>)
  then show ?thesis unfolding eq by simp
qed

section \<open>Opening a loan\<close>

text \<open>Nobody holds the key of a program-derived address, so only the program itself can have an
  account with data created at one of its band addresses.\<close>

definition pda_law :: "env \<Rightarrow> pubkey \<Rightarrow> world \<Rightarrow> bool" where
  "pda_law e program_id w \<longleftrightarrow>
     (\<forall>pk d bid k bump. band_derive_pda e pk d bid program_id = Ok (k, bump) \<longrightarrow>
        data (ledger w k) \<noteq> [] \<longrightarrow> owner (ledger w k) = program_id)"

lemma allocate_band_Ok:
  assumes iso: "isolation_law e pid" and sysl: "system_law e"
    and "open_loan_allocate_band e pid a bi sys bid d bump rent w = Ok w'"
  obtains (live) "w' = w" "data (acct w bi) \<noteq> []"
  | (fresh) v where "quiet pid w v" "bands pid w (key bi) = None" "owner (acct v bi) = pid"
      "length (data (acct v bi)) = LOAN_INDEX_BAND_LEN"
      "serialize_into (loan_index_band_bytes (new_band (key (pool_info a)) bid d bump)) bi v = Ok w'"
proof -
  let ?seeds = "[BAND_SEED, put_key (key (pool_info a)), [d], put_word 4 bid, [bump]]"
  let ?zero = "is_zeroed_program_account w bi pid LOAN_INDEX_BAND_LEN"
  let ?m = "saturating_sub (rent LOAN_INDEX_BAND_LEN) (lamports (acct w bi))"
  consider (new) "data (acct w bi) = []" | (zeroed) "data (acct w bi) \<noteq> []" "?zero"
    | (old) "data (acct w bi) \<noteq> []" "\<not> ?zero" by blast
  then show ?thesis
  proof cases
    case new
    with assms(3) obtain v where
      v: "create_pda_account e (user_info a) bi sys LOAN_INDEX_BAND_LEN pid ?seeds rent w = Ok v"
      and w': "serialize_into (loan_index_band_bytes (new_band (key (pool_info a)) bid d bump)) bi v = Ok w'"
      by (auto simp: open_loan_allocate_band_def Let_def data_is_empty_def simp del: serialize_into_Ok_iff)
    have "bands pid w (key bi) = None"
      using new by (simp add: views acct_def band_kind.view_None_length LOAN_INDEX_BAND_LEN_def)
    moreover have "owner (acct v bi) = pid" "length (data (acct v bi)) = LOAN_INDEX_BAND_LEN"
      using created_account [OF sysl _ v] by (simp_all add: LOAN_INDEX_BAND_LEN_def)
    ultimately show ?thesis using fresh [OF quiet_create [OF iso v]] w' by blast
  next
    case zeroed
    then have z: "owner (acct w bi) = pid" "length (data (acct w bi)) = LOAN_INDEX_BAND_LEN"
      "list_all (\<lambda>b. b = 0) (data (acct w bi))"
      by (auto simp: is_zeroed_program_account_def split: if_splits)
    from zeroed assms(3) obtain v where
      v: "(if 0 < ?m then invoke e (SysTransfer (key (user_info a)) (key bi) ?m) [user_info a, bi, sys] w
           else Ok w) = Ok v"
      and w': "serialize_into (loan_index_band_bytes (new_band (key (pool_info a)) bid d bump)) bi v = Ok w'"
      by (auto simp: open_loan_allocate_band_def Let_def data_is_empty_def simp del: serialize_into_Ok_iff)
    have q: "quiet pid w v"
    proof (cases "0 < ?m")
      case True
      with v have "invoke_signed e (SysTransfer (key (user_info a)) (key bi) ?m) [user_info a, bi, sys] [] w = Ok v"
        by (simp add: invoke_def)
      then show ?thesis by (rule quiet_system [OF iso]) simp
    qed (use v in simp)
    have "bands pid w (key bi) = None"
      using z(3) by (simp add: views acct_def band_kind.view_None_zero)
    then show ?thesis using fresh [OF q] quiet_acct [OF q z(1)] z(2) w' by simp
  next
    case old
    with assms(3) have "w' = w" by (simp add: open_loan_allocate_band_def Let_def data_is_empty_def)
    then show ?thesis using live old(1) by blast
  qed
qed

text \<open>Allocation and the first writes: the loan account is new and empty, the band is either live
  already or new with no members, and nothing else changes in the books.\<close>

lemma open_allocate_Ok:
  assumes iso: "isolation_law e pid" and sysl: "system_law e" and pda: "pda_law e pid w"
    and "open_loan_allocate e pid a li bi sys nonce p trigger dir w = Ok (bump, bid, b, q, slot, w')"
  obtains "loans pid w (key li) = None" "key li \<noteq> key bi"
    "owner (acct w' li) = pid" "length (data (acct w' li)) = LOAN_LEN"
    "band_id_for_trigger trigger = Ok bid" "band_for b (key (pool_info a)) (direction_byte dir) bid"
    "band_at e pid b (key bi)" "bands pid w' (key bi) = Some b"
    "bands pid w (key bi) = Some b \<or> bands pid w (key bi) = None \<and> band_count b = 0"
    "books_of pid w' = (books_of pid w)\<lparr>b_bands := (bands pid w)(key bi \<mapsto> b)\<rparr>"
    "(if band_count b = 0 then band_bitmap_mut p (direction_byte dir) (\<lambda>bm. bitmap_set bm bid) else Ok p) = Ok q"
proof -
  let ?d = "direction_byte dir"
  from assms(4) obtain rent w1 bb where
    bid: "band_id_for_trigger trigger = Ok bid"
    and pdab: "band_derive_pda e (key (pool_info a)) ?d bid pid = Ok (key bi, bb)"
    and empty: "data (acct w li) = []"
    and w1: "create_pda_account e (user_info a) li sys LOAN_LEN pid
       [LOAN_SEED, put_key (key (pool_info a)), put_key (key (user_info a)), put_word 8 nonce, [bump]] rent w = Ok w1"
    and w': "open_loan_allocate_band e pid a bi sys bid ?d bb rent w1 = Ok w'"
    and b: "load_band w' bi = Ok b" "band_is_initialized b" "band_pool b = key (pool_info a)"
      "band_band_id b = bid" "band_direction b = ?d"
    and q: "(if band_count b = 0 then into (band_bitmap_mut p ?d (\<lambda>bm. bitmap_set bm bid)) else Ok p) = Ok q"
    by (auto simp: open_loan_allocate_def Let_def data_is_empty_def)
  have loan: "owner (acct w1 li) = pid" "length (data (acct w1 li)) = LOAN_LEN"
    and frame: "\<forall>j. j \<noteq> key li \<longrightarrow> same_contents (ledger w j) (ledger w1 j)"
    using created_account [OF sysl _ w1] by (simp_all add: LOAN_LEN_def)
  have q1: "quiet pid w w1" by (rule quiet_create [OF iso w1])
  have none: "loans pid w (key li) = None"
    using empty by (simp add: views acct_def loan_kind.view_None_length LOAN_LEN_def)
  have blen: "length (data (acct w' bi)) = LOAN_INDEX_BAND_LEN"
    using b(1) by (simp add: load_band_Ok_iff length_loan_index_band_bytes)
  have bfor: "band_for b (key (pool_info a)) ?d bid" and bat: "band_at e pid b (key bi)"
    using b pdab by (auto simp: band_for_def band_at_def)
  have q': "(if band_count b = 0 then band_bitmap_mut p ?d (\<lambda>bm. bitmap_set bm bid) else Ok p) = Ok q"
    using q by (cases "band_count b = 0") auto
  from w' show ?thesis
  proof (cases rule: allocate_band_Ok [OF iso sysl, consumes 1, case_names live fresh])
    case live
    have ne: "key li \<noteq> key bi"
      using loan(2) blen live(1) by (auto simp: acct_def kind_lens)
    have "data (ledger w (key bi)) \<noteq> []" using frame ne live(2) by (simp add: acct_def same_contents_def)
    then have "owner (acct w bi) = pid" using pda pdab unfolding pda_law_def acct_def by blast
    then have "owner (acct w1 bi) = pid" using frame ne by (simp add: acct_def same_contents_def)
    then have bm: "bands pid w1 (key bi) = Some b" using loaded_band [OF b(1,2)] live(1) by simp
    then have bw: "bands pid w (key bi) = Some b" using quiet_maps(3) [OF q1] by simp
    have "(bands pid w)(key bi \<mapsto> b) = bands pid w" using bw by (simp add: fun_upd_idem)
    then have eq: "books_of pid w' = (books_of pid w)\<lparr>b_bands := (bands pid w)(key bi \<mapsto> b)\<rparr>"
      using quiet_books [OF q1] live(1) by (simp add: books_of_def)
    show ?thesis
      by (rule that [OF none ne _ _ bid bfor bat _ _ eq q']) (use loan live bm bw in simp_all)
  next
    case (fresh v)
    have q2: "quiet pid w v" using q1 fresh(1) by (rule quiet_trans)
    have lv: "owner (acct v li) = pid" "length (data (acct v li)) = LOAN_LEN"
      using quiet_acct [OF fresh(1) loan(1)] loan by simp_all
    have ne: "key li \<noteq> key bi" using lv(2) fresh(4) by (auto simp: acct_def kind_lens)
    let ?b = "new_band (key (pool_info a)) bid ?d bb"
    have nb: "loan_index_band_wf ?b" "band_is_initialized ?b" "band_count ?b = 0"
      by (simp_all add: new_band_def loan_index_band_wf_def band_is_initialized_def
          LOAN_INDEX_BAND_DISCRIMINATOR_def)
    have w'': "w' = put_data bi (loan_index_band_bytes ?b) v"
      using fresh(4,5) nb(1) by (simp add: length_loan_index_band_bytes)
    have eq: "books_of pid w' = (books_of pid v)\<lparr>b_bands := (bands pid v)(key bi \<mapsto> ?b)\<rparr>"
      by (rule write_band [OF fresh(3,4) nb(1,2) fresh(5)])
    have "b = ?b" using b(1) nb(1) band_codec.enc_inject [of ?b b] unfolding w''
      by (simp add: load_band_Ok_iff)
    moreover have "bands pid w (key bi) = None" using fresh(2) quiet_maps(3) [OF q1] by simp
    moreover have "acct w' li = acct v li" unfolding w'' using ne by simp
    ultimately show ?thesis
      using eq quiet_books [OF q2] quiet_maps(3) [OF q2] lv nb(3)
      by (intro that [OF none ne _ _ bid bfor bat _ _ _ q']) (simp_all add: books_of_def)
  qed
qed

lemma quiet_open_transfers:
  assumes iso: "isolation_law e pid"
    and tok: "is_valid_token_program e (key (token_program_a_info a))"
      "is_valid_token_program e (key (token_program_b_info a))"
    and "open_loan_transfers e a sides c d pool w = Ok w'"
  shows "quiet pid w w'"
proof (cases sides)
  case CollateralA
  with assms(4) obtain da db w1 where
    "transfer_checked e (token_program_a_info a) (user_a_info a) (mint_a_info a)
       (vault_a_info a) (user_info a) c da [] w = Ok w1"
    "transfer_checked e (token_program_b_info a) (vault_b_info a) (mint_b_info a)
       (user_b_info a) (pool_info a) d db [pool_signer_seeds pool] w1 = Ok w'"
    by (auto simp: open_loan_transfers_def)
  then show ?thesis using quiet_transfer [OF iso] tok by (blast intro: quiet_trans)
next
  case CollateralB
  with assms(4) obtain da db w1 where
    "transfer_checked e (token_program_b_info a) (user_b_info a) (mint_b_info a)
       (vault_b_info a) (user_info a) c db [] w = Ok w1"
    "transfer_checked e (token_program_a_info a) (vault_a_info a) (mint_a_info a)
       (user_a_info a) (pool_info a) d da [pool_signer_seeds pool] w1 = Ok w'"
    by (auto simp: open_loan_transfers_def)
  then show ?thesis using quiet_transfer [OF iso] tok by (blast intro: quiet_trans)
qed

lemma open_book_added:
  assumes "open_loan_book p sides c d slot = Ok q"
  shows "removed q p {#\<lparr>pos_sides = sides, pos_collateral = widen c, pos_principal = widen d\<rparr>#}"
    "params q = params p" "bits q = bits p" "pool_wf q = pool_wf p"
  using open_loan_book_Ok [OF assms]
  by (auto simp: removed_def params_def bits_def band_bitmap_def fun_eq_iff pool_wf_def)

text \<open>The loan and the band are written, then the pool.\<close>

lemma open_store_books:
  assumes "open_loan_store a li bi sides_byte c d nonce p trigger dir bump bid b slot w = Ok w'"
    and acc: "owner (acct w li) = pid" "length (data (acct w li)) = LOAN_LEN" "key li \<noteq> key bi"
    and b: "bands pid w (key bi) = Some b"
  obtains snapshot n where "unat n = unat (band_count b) + 1" "borrow_index_for_debt_side p sides_byte = Ok snapshot"
    "books_of pid w' = (books_of pid w)
      \<lparr>b_loans := (loans pid w)(key li \<mapsto> new_loan (key (pool_info a)) (key (user_info a)) nonce bump
         sides_byte c d snapshot slot trigger (direction_byte dir) bid),
       b_bands := (bands pid w)(key bi \<mapsto> b\<lparr>band_count := n\<rparr>)\<rparr>"
proof -
  from assms(1) obtain snapshot w1 n where
    w1: "serialize_into (loan_bytes (new_loan (key (pool_info a)) (key (user_info a)) nonce bump
         sides_byte c d snapshot slot trigger (direction_byte dir) bid)) li w = Ok w1"
    and n: "unat n = unat (band_count b) + unat (1 :: u32)"
    and w2: "serialize_into (loan_index_band_bytes (b\<lparr>band_count := n\<rparr>)) bi w1 = Ok w'"
    and snap: "borrow_index_for_debt_side p sides_byte = Ok snapshot"
    unfolding open_loan_store_def and_then_Ok_iff ok_or_Ok_iff checked_add_Some_iff into_Ok_iff by blast
  let ?l = "new_loan (key (pool_info a)) (key (user_info a)) nonce bump
         sides_byte c d snapshot slot trigger (direction_byte dir) bid"
  have "loan_wf ?l" "loan_is_initialized ?l"
    by (simp_all add: new_loan_def loan_wf_def loan_is_initialized_def LOAN_DISCRIMINATOR_def)
  from write_loan [OF acc(1,2) this w1]
  have b1: "books_of pid w1 = (books_of pid w)\<lparr>b_loans := (loans pid w)(key li \<mapsto> ?l)\<rparr>" .
  then have m1: "bands pid w1 = bands pid w" by (simp add: books_of_def)
  then have e1: "bands pid w1 (key bi) = Some b" using b by simp
  have "books_of pid w' = (books_of pid w1)\<lparr>b_bands := (bands pid w1)(key bi \<mapsto> b\<lparr>band_count := n\<rparr>)\<rparr>"
    using entry_account(3) [OF e1] w2
    by (intro write_band) (auto simp: loan_index_band_wf_def band_is_initialized_def
        LOAN_INDEX_BAND_DISCRIMINATOR_def)
  then show ?thesis using that n snap b1 m1 by simp
qed

text \<open>What a successful opening did, stage by stage, and the books it left.\<close>

lemma open_effect:
  assumes iso: "isolation_law e pid" and sysl: "system_law e" and pda: "pda_law e pid w"
    and "process_open_loan e pid accounts sides_byte c d nonce w = Ok w'"
  obtains p p1 sides trigger dir bump bid b p2 slot w1 w2 w3 q snap n l where
    "check_signer_and_token_programs e w (loan_handler_accounts accounts 11) = Ok ()"
    "pools pid w (key (accounts ! 0)) = Some p"
    "open_loan_terms e (loan_handler_accounts accounts 11) sides_byte c d p w = Ok (p1, sides, trigger, dir)"
    "touch p p1" "loan_sides_from_u8 sides_byte = Ok sides"
    "open_loan_allocate e pid (loan_handler_accounts accounts 11) (accounts ! 8) (accounts ! 9) (accounts ! 10)
       nonce p1 trigger dir w = Ok (bump, bid, b, p2, slot, w1)"
    "loans pid w (key (accounts ! 8)) = None" "band_id_for_trigger trigger = Ok bid"
    "band_for b (key (accounts ! 0)) (direction_byte dir) bid" "band_at e pid b (key (accounts ! 9))"
    "bands pid w (key (accounts ! 9)) = Some b \<or> bands pid w (key (accounts ! 9)) = None \<and> band_count b = 0"
    "open_loan_store (loan_handler_accounts accounts 11) (accounts ! 8) (accounts ! 9) sides_byte c d nonce p2
       trigger dir bump bid b slot w1 = Ok w2"
    "open_loan_transfers e (loan_handler_accounts accounts 11) sides c d p2 w2 = Ok w3"
    "open_loan_book p2 sides c d slot = Ok q" "params q = params p1" "pool_wf q"
    "ledger w' = ledger (put_data (accounts ! 0) (pool_bytes q) w3)"
    "removed q p {#\<lparr>pos_sides = sides, pos_collateral = widen c, pos_principal = widen d\<rparr>#}"
    "\<forall>x. bits q x = bits p1 x \<union> (if x = direction_byte dir \<and> band_count b = 0 then {bid} else {})"
    "l = new_loan (key (accounts ! 0)) (key (accounts ! 7)) nonce bump sides_byte c d snap slot trigger
       (direction_byte dir) bid"
    "unat n = unat (band_count b) + 1" "borrow_index_for_debt_side p2 sides_byte = Ok snap"
    "books_of pid w' = (books_of pid w)\<lparr>b_pools := (pools pid w)(key (accounts ! 0) \<mapsto> q),
       b_loans := (loans pid w)(key (accounts ! 8) \<mapsto> l),
       b_bands := (bands pid w)(key (accounts ! 9) \<mapsto> b\<lparr>band_count := n\<rparr>)\<rparr>"
proof -
  let ?a = "loan_handler_accounts accounts 11" and ?li = "accounts ! 8" and ?bi = "accounts ! 9"
  let ?pk = "key (accounts ! 0)"
  have a: "pool_info ?a = accounts ! 0" "user_info ?a = accounts ! 7" by (simp_all add: loan_handler_accounts_def)
  from assms(4) obtain u p p1 sides trigger dir bump bid b p2 slot w1 w2 w3 q w4 ev where
    chk: "check_signer_and_token_programs e w ?a = Ok u" and own: "owner (acct w (pool_info ?a)) = pid"
    and p: "load_pool w (pool_info ?a) = Ok p"
    and terms: "open_loan_terms e ?a sides_byte c d p w = Ok (p1, sides, trigger, dir)"
    and alloc: "open_loan_allocate e pid ?a ?li ?bi (accounts ! 10) nonce p1 trigger dir w =
      Ok (bump, bid, b, p2, slot, w1)"
    and store: "open_loan_store ?a ?li ?bi sides_byte c d nonce p2 trigger dir bump bid b slot w1 = Ok w2"
    and w3: "open_loan_transfers e ?a sides c d p2 w2 = Ok w3"
    and book: "open_loan_book p2 sides c d slot = Ok q"
    and w4: "serialize_into (pool_bytes q) (pool_info ?a) w3 = Ok w4" and w': "w' = emit ev w4"
    unfolding process_open_loan_def Let_def guard_Ok_iff and_then_Ok_iff into_Ok_iff
      case_prod_beta de_Morgan_disj not_not res.inject
    by (metis prod.collapse)
  from terms have sd: "loan_sides_from_u8 sides_byte = Ok sides" and touch: "touch p p1"
    by (auto simp: open_loan_terms_def intro: touch_bump)
  have pe: "pools pid w ?pk = Some p" using loaded_pool [OF p own] by (simp add: a)
  have p1: "pool_wf p1" "pool_is_initialized p1"
    using entry_account(1) [OF pe] touch_live [OF touch] by simp_all
  obtain al: "loans pid w (key ?li) = None" "key ?li \<noteq> key ?bi"
    "owner (acct w1 ?li) = pid" "length (data (acct w1 ?li)) = LOAN_LEN"
    "band_id_for_trigger trigger = Ok bid" "band_for b (key (pool_info ?a)) (direction_byte dir) bid"
    "band_at e pid b (key ?bi)" "bands pid w1 (key ?bi) = Some b"
    "bands pid w (key ?bi) = Some b \<or> bands pid w (key ?bi) = None \<and> band_count b = 0"
    "books_of pid w1 = (books_of pid w)\<lparr>b_bands := (bands pid w)(key ?bi \<mapsto> b)\<rparr>"
    "(if band_count b = 0 then band_bitmap_mut p1 (direction_byte dir) (\<lambda>bm. bitmap_set bm bid) else Ok p1) = Ok p2"
    using alloc by (rule open_allocate_Ok [OF iso sysl pda])
  have p2: "params p2 = params p1" "removed p1 p2 {#}" "pool_wf p2"
    "\<And>x. bits p2 x = bits p1 x \<union> (if x = direction_byte dir \<and> band_count b = 0 then {bid} else {})"
    using al(11) bits_set [of p1 "direction_byte dir" bid p2] p1(1) by (auto split: if_splits)
  obtain snap n where n: "unat n = unat (band_count b) + 1"
    and snap: "borrow_index_for_debt_side p2 sides_byte = Ok snap"
    and b2: "books_of pid w2 = (books_of pid w1)
      \<lparr>b_loans := (loans pid w1)(key ?li \<mapsto> new_loan (key (pool_info ?a)) (key (user_info ?a)) nonce bump
         sides_byte c d snap slot trigger (direction_byte dir) bid),
       b_bands := (bands pid w1)(key ?bi \<mapsto> b\<lparr>band_count := n\<rparr>)\<rparr>"
    using store al(3,4,2,8) by (rule open_store_books)
  let ?l = "new_loan ?pk (key (accounts ! 7)) nonce bump sides_byte c d snap slot trigger (direction_byte dir) bid"
  note bk = open_book_added [OF book]
  have q3: "quiet pid w2 w3" by (rule quiet_open_transfers [OF iso checked_token_programs [OF chk] w3])
  have m1: "pools pid w1 = pools pid w" "loans pid w1 = loans pid w"
    "bands pid w1 = (bands pid w)(key ?bi \<mapsto> b)" using al(10) by (simp_all add: books_of_def)
  have b3: "books_of pid w3 = (books_of pid w)\<lparr>b_loans := (loans pid w)(key ?li \<mapsto> ?l),
      b_bands := (bands pid w)(key ?bi \<mapsto> b\<lparr>band_count := n\<rparr>)\<rparr>"
    using quiet_books [OF q3] b2 al(10) m1 by (simp add: a)
  then have m3: "pools pid w3 = pools pid w" by (simp add: books_of_def)
  have q: "params q = params p1" "pool_wf q" "pool_is_initialized q"
    using bk p2 p1 params_fields(11) [of q p1] by simp_all
  then have "books_of pid w4 = (books_of pid w3)\<lparr>b_pools := (pools pid w3)(?pk \<mapsto> q)\<rparr>"
    using entry_account(1) [of pid w3 "accounts ! 0" p] pe m3 w4 unfolding a by (intro write_pool) auto
  then have eq: "books_of pid w' = (books_of pid w)\<lparr>b_pools := (pools pid w)(?pk \<mapsto> q),
      b_loans := (loans pid w)(key ?li \<mapsto> ?l), b_bands := (bands pid w)(key ?bi \<mapsto> b\<lparr>band_count := n\<rparr>)\<rparr>"
    using b3 m3 w' by simp
  have "length (data (acct w3 (accounts ! 0))) = POOL_LEN"
    using entry_account(1) [of pid w3 "accounts ! 0" p] pe m3 by simp
  then have put: "ledger w' = ledger (put_data (accounts ! 0) (pool_bytes q) w3)"
    using w4 q(2) w' unfolding a by (simp add: length_pool_bytes)
  have rem: "removed q p {#\<lparr>pos_sides = sides, pos_collateral = widen c, pos_principal = widen d\<rparr>#}"
    using bk(1) p2(2) touch by (auto simp: touch_def removed_def)
  have bits: "\<forall>x. bits q x = bits p1 x \<union> (if x = direction_byte dir \<and> band_count b = 0 then {bid} else {})"
    using bk(3) p2(4) by simp
  show thesis
    by (rule that [OF chk [simplified] pe terms touch sd alloc al(1,5) al(6) [unfolded a] al(7,9) store w3 book q(1,2) put rem bits
          refl n snap eq])
qed

lemma open_refines:
  assumes iso: "isolation_law e pid" and sysl: "system_law e" and pda: "pda_law e pid w"
    and "process_open_loan e pid accounts sides_byte c d nonce w = Ok w'"
  shows "\<exists>l. book_trans e pid (Opened (key (accounts ! 8)) l) (books_of pid w) (books_of pid w') \<and>
    loan_pool l = key (accounts ! 0) \<and> loan_borrower l = key (accounts ! 7) \<and>
    loan_sides l = sides_byte \<and> loan_collateral_amount l = widen c \<and> loan_debt_principal l = widen d"
proof (rule open_effect [OF assms])
  fix p p1 sides trigger dir bump bid b slot q snap n l
  let ?s = "books_of pid w" and ?lk = "key (accounts ! 8)" and ?bk = "key (accounts ! 9)"
  assume pe: "pools pid w (key (accounts ! 0)) = Some p" and touch: "touch p p1"
    and sd: "loan_sides_from_u8 sides_byte = Ok sides"
    and al: "loans pid w ?lk = None" "band_id_for_trigger trigger = Ok bid"
      "band_for b (key (accounts ! 0)) (direction_byte dir) bid" "band_at e pid b ?bk"
      "bands pid w ?bk = Some b \<or> bands pid w ?bk = None \<and> band_count b = 0"
    and q: "params q = params p1"
      "removed q p {#\<lparr>pos_sides = sides, pos_collateral = widen c, pos_principal = widen d\<rparr>#}"
      "\<forall>x. bits q x = bits p1 x \<union> (if x = direction_byte dir \<and> band_count b = 0 then {bid} else {})"
    and l: "l = new_loan (key (accounts ! 0)) (key (accounts ! 7)) nonce bump sides_byte c d snap slot trigger
       (direction_byte dir) bid"
    and n: "unat n = unat (band_count b) + 1"
    and eq: "books_of pid w' = ?s\<lparr>b_pools := (pools pid w)(key (accounts ! 0) \<mapsto> q),
       b_loans := (loans pid w)(?lk \<mapsto> l), b_bands := (bands pid w)(?bk \<mapsto> b\<lparr>band_count := n\<rparr>)\<rparr>"
  have f: "loan_pool l = key (accounts ! 0)" "is_open l" "loan_sides l = sides_byte"
    "loan_trigger_direction l = direction_byte dir" "loan_band_id l = bid" "loan_trigger_price_wad l = trigger"
    by (simp_all add: l new_loan_def is_open_def)
  have pos: "position_of l = \<lparr>pos_sides = sides, pos_collateral = widen c, pos_principal = widen d\<rparr>"
    using sides_position [of l sides] sd f(3) by (simp add: l new_loan_def)
  have "book_trans e pid (Opened ?lk l) ?s (?s\<lparr>b_pools := (b_pools ?s)(loan_pool l \<mapsto> q),
       b_loans := (b_loans ?s)(?lk \<mapsto> l), b_bands := (b_bands ?s)(?bk \<mapsto> b\<lparr>band_count := n\<rparr>)\<rparr>)"
  proof (rule book_trans.opened [where p = p])
    show "loan_sides l = 0 \<or> loan_sides l = 1"
      using sd by (auto simp: f(3) loan_sides_from_u8_def split: if_splits)
    show "loan_trigger_direction l = 0 \<or> loan_trigger_direction l = 1" unfolding f(4) by (cases dir) simp_all
    show "bits q x = bits p x \<union> (if x = loan_trigger_direction l \<and> band_count b = 0 then {loan_band_id l} else {})" for x
      using q(3) touch by (simp add: f touch_def)
  qed (use pe al n q(1,2) pos touch in \<open>simp_all add: f touch_def\<close>)
  then show ?thesis unfolding eq by (intro exI [of _ l]) (simp add: f(1), simp add: l new_loan_def)
qed

end
