(* ===== verification/Math_Properties.thy ===== *)
theory Math_Properties
  imports Pool_State
begin

text \<open>
  Properties of the arithmetic of \<open>math.rs\<close> and of the pool's own operations in
  \<open>state.rs\<close>, each with a witness at concrete values where it has hypotheses.
\<close>

section \<open>Constant-product quoting\<close>

text \<open>The product does not fall as soon as the input side grows by what the quote counted as
  input after the fee.\<close>

lemma product_after_growth:
  assumes "in_after_fee_nat x fee \<le> g"
  shows "(r_in :: nat) * r_out \<le> (r_in + g) * (r_out - quote_nat x r_in r_out fee)"
proof -
  let ?i = "in_after_fee_nat x fee" and ?o = "quote_nat x r_in r_out fee"
  have "?o * (r_in + ?i) \<le> ?i * r_out" unfolding quote_nat_def by (rule div_mult_le_nat)
  then have "(r_in + ?i) * ?o \<le> ?i * r_out" by (simp add: mult.commute)
  then have "(r_in + ?i) * r_out - ?i * r_out \<le> (r_in + ?i) * r_out - (r_in + ?i) * ?o"
    by (rule diff_le_mono2)
  then have "r_in * r_out \<le> (r_in + ?i) * (r_out - ?o)"
    by (simp add: distrib_right diff_mult_distrib2)
  also have "\<dots> \<le> (r_in + g) * (r_out - ?o)" using assms by (intro mult_le_mono1) simp
  finally show ?thesis .
qed

lemmas product_after_quote = product_after_growth [OF in_after_fee_le]

text \<open>C20: every quote of the constant-product curve pays out strictly less than the output
  reserve, and the product of the reserves after the trade is at least the product before it:
  no sequence of quotes can drain a side or lower the invariant.\<close>

theorem cpmm_quote_safe:
  assumes "cpmm_quote_out amount_in reserve_in reserve_out fee = Ok out"
  shows "unat out < unat reserve_out \<and>
    unat reserve_in * unat reserve_out
      \<le> (unat reserve_in + unat amount_in) * (unat reserve_out - unat out)"
proof -
  from assms have nz: "reserve_in \<noteq> 0" "reserve_out \<noteq> 0"
    and out: "unat out = quote_nat (unat amount_in) (unat reserve_in) (unat reserve_out) (unat fee)"
    by (simp_all add: cpmm_quote_out_Ok_iff)
  have "0 < unat reserve_in" "0 < unat reserve_out" using nz by (simp_all add: word_eq_unat)
  then show ?thesis unfolding out using quote_nat_less product_after_quote by blast
qed

theorem cpmm_quote_safe_witness:
  "cpmm_quote_out 1000 100000 200000 30 = Ok 1974 \<and>
   unat (1974 :: u128) < unat (200000 :: u128) \<and>
   unat (100000 :: u128) * unat (200000 :: u128)
      \<le> (unat (100000 :: u128) + unat (1000 :: u128)) * (unat (200000 :: u128) - unat (1974 :: u128))"
proof -
  have q: "cpmm_quote_out 1000 100000 200000 30 = Ok 1974"
    by (simp add: cpmm_quote_out_Ok_iff quote_nat_def in_after_fee_nat_def)
  show ?thesis using q cpmm_quote_safe [OF q] by blast
qed

text \<open>C36: a quote always exists for positive amounts and reserves and a fee below 100%, whatever
  their size, and it equals the exact formula
  \<open>floor(in' * out / (in + in'))\<close> with \<open>in' = floor(amount * (10000 - fee) / 10000)\<close>:
  the 256-bit intermediates never overflow.\<close>

theorem cpmm_quote_total:
  assumes "amount_in \<noteq> 0" "reserve_in \<noteq> 0" "reserve_out \<noteq> 0" "unat fee < 10000"
  shows "\<exists>out. cpmm_quote_out amount_in reserve_in reserve_out fee = Ok out \<and>
    unat out = (unat amount_in * (10000 - unat fee) div 10000) * unat reserve_out
      div (unat reserve_in + unat amount_in * (10000 - unat fee) div 10000)"
  using cpmm_quote_out_eq [OF assms] by (metis quote_nat_def in_after_fee_nat_def)

theorem cpmm_quote_total_witness:
  "\<exists>out. cpmm_quote_out (- 1) (- 1) (- 1) 9999 = Ok out \<and>
    unat out = (unat (- 1 :: u128) * (10000 - unat (9999 :: u16)) div 10000) * unat (- 1 :: u128)
      div (unat (- 1 :: u128) + unat (- 1 :: u128) * (10000 - unat (9999 :: u16)) div 10000)"
  by (rule cpmm_quote_total) simp_all

section \<open>Square root\<close>

text \<open>C33: \<open>isqrt_u128\<close> terminates on every input without a panic and returns the floor of the
  square root.\<close>

theorem isqrt_floor:
  "\<exists>r. isqrt_u128 n = Ok r \<and> unat r * unat r \<le> unat n \<and> unat n < (unat r + 1) * (unat r + 1)"
  by (rule isqrt_u128_Ok [of n]) blast

section \<open>Interest\<close>

text \<open>C22: the debt of a loan is the principal scaled by the growth of the borrow index, rounded
  up: for any index pair between 1.0 and the cap, and any principal that fits 64 bits, it exists
  (no overflow in 128 bits), is at least the principal, and is the least integer that covers
  \<open>principal * index / snapshot\<close>.\<close>

theorem owed_exact:
  assumes "unat p < 2 ^ 64" "10 ^ 18 \<le> unat s" "unat s \<le> unat c" "unat c \<le> 2 ^ 64 * 10 ^ 18"
  shows "\<exists>r. owed_from_index p s c = Ok r \<and> unat p \<le> unat r \<and>
    (\<forall>x. unat p * unat c \<le> x * unat s \<longleftrightarrow> unat r \<le> x)"
proof -
  let ?x = "ceil_div (unat p * unat c) (unat s)"
  have s: "0 < unat s" using assms(2) by simp
  have "unat p * unat c \<le> unat p * 2 ^ 64 * unat s"
    using assms(2,4) by (simp add: mult.assoc)
  then have "?x \<le> unat p * 2 ^ 64" using s by (simp add: ceil_div_le_iff)
  also have "\<dots> < 2 ^ 128" using assms(1) by simp
  finally have fits: "unat (of_nat ?x :: u128) = ?x" by (intro unat_of_nat_eq) simp
  then have ok: "owed_from_index p s c = Ok (of_nat ?x)"
    using assms s by (auto simp: owed_from_index_Ok_iff)
  have "unat p * unat s \<le> unat p * unat c" using assms(3) by simp
  also have "\<dots> \<le> ?x * unat s" using s by (rule ceil_div_ge)
  finally have "unat p \<le> ?x" using s by simp
  with ok fits s show ?thesis by (auto simp: ceil_div_le_iff)
qed

theorem owed_exact_witness:
  "\<exists>r. owed_from_index 1000001 1000000000000000000 1050000000000000000 = Ok r \<and>
    unat (1000001 :: u128) \<le> unat r \<and>
    (\<forall>x. unat (1000001 :: u128) * unat (1050000000000000000 :: u128) \<le> x * unat (1000000000000000000 :: u128)
       \<longleftrightarrow> unat r \<le> x)"
  by (rule owed_exact) simp_all

text \<open>C34: the borrow rate is defined for every utilisation up to 100% and every kink other than
  zero, lies between the base rate and the sum of base and both slopes, and does not decrease
  when utilisation grows.\<close>

lemma borrow_rate_nat_bounds:
  assumes "u \<le> 10 ^ 18" "0 < k" "k \<le> 10000"
  shows "base * 10 ^ 14 \<le> borrow_rate_nat u base s1 s2 k"
    "borrow_rate_nat u base s1 s2 k \<le> (base + s1 + s2) * 10 ^ 14"
proof -
  have "s1 * 10 ^ 14 * u div (k * 10 ^ 14) \<le> s1 * 10 ^ 14" if "u \<le> k * 10 ^ 14"
    using that by (rule mult_frac_le)
  moreover have "s2 * 10 ^ 14 * (u - k * 10 ^ 14) div (10 ^ 18 - k * 10 ^ 14) \<le> s2 * 10 ^ 14"
    using assms(1) by (intro mult_frac_le) simp
  ultimately show "borrow_rate_nat u base s1 s2 k \<le> (base + s1 + s2) * 10 ^ 14"
    by (auto simp: borrow_rate_nat_def Let_def distrib_right)
qed (simp add: borrow_rate_nat_def Let_def)

lemma borrow_rate_nat_mono:
  assumes "u \<le> v" "v \<le> 10 ^ 18"
  shows "borrow_rate_nat u base s1 s2 k \<le> borrow_rate_nat v base s1 s2 k"
proof -
  consider "v \<le> k * 10 ^ 14" | "u \<le> k * 10 ^ 14" "k * 10 ^ 14 < v" | "k * 10 ^ 14 < u"
    using assms(1) by linarith
  then show ?thesis
  proof cases
    case 1
    then show ?thesis using assms(1) by (simp add: borrow_rate_nat_def Let_def div_le_mono)
  next
    case 2
    then have "s1 * 10 ^ 14 * u div (k * 10 ^ 14) \<le> s1 * 10 ^ 14" by (intro mult_frac_le)
    with 2 show ?thesis by (simp add: borrow_rate_nat_def Let_def)
  next
    case 3
    have "s2 * 10 ^ 14 * (u - k * 10 ^ 14) div (10 ^ 18 - k * 10 ^ 14)
        \<le> s2 * 10 ^ 14 * (v - k * 10 ^ 14) div (10 ^ 18 - k * 10 ^ 14)"
      using assms(1) by (intro div_le_mono mult_le_mono2 diff_le_mono)
    with 3 assms(1) show ?thesis by (simp add: borrow_rate_nat_def Let_def)
  qed
qed

theorem borrow_rate_bounded_monotone:
  assumes "unat u \<le> unat v" "unat v \<le> 10 ^ 18" "kink \<noteq> 0" "unat kink \<le> 10000"
  shows "\<exists>r r'. compute_borrow_rate_wad_per_year u base s1 s2 kink = Ok r \<and>
    compute_borrow_rate_wad_per_year v base s1 s2 kink = Ok r' \<and>
    unat base * 10 ^ 14 \<le> unat r \<and> unat r \<le> unat r' \<and>
    unat r' \<le> (unat base + unat s1 + unat s2) * 10 ^ 14"
proof -
  have k: "0 < unat kink" using assms(3) by (simp add: word_eq_unat)
  have u: "unat u \<le> 10 ^ 18" using assms(1,2) by (rule le_trans)
  obtain r where r: "compute_borrow_rate_wad_per_year u base s1 s2 kink = Ok r"
    "unat r = borrow_rate_nat (unat u) (unat base) (unat s1) (unat s2) (unat kink)"
    using u assms(3) by (rule compute_borrow_rate_Ok)
  obtain r' where r': "compute_borrow_rate_wad_per_year v base s1 s2 kink = Ok r'"
    "unat r' = borrow_rate_nat (unat v) (unat base) (unat s1) (unat s2) (unat kink)"
    using assms(2,3) by (rule compute_borrow_rate_Ok)
  show ?thesis
    using r r' borrow_rate_nat_bounds [OF u k assms(4)] borrow_rate_nat_bounds [OF assms(2) k assms(4)]
      borrow_rate_nat_mono [OF assms(1,2)] by (metis (no_types, lifting))
qed

theorem borrow_rate_bounded_monotone_witness:
  "\<exists>r r'. compute_borrow_rate_wad_per_year 500000000000000000 0 400 30000 8000 = Ok r \<and>
    compute_borrow_rate_wad_per_year 900000000000000000 0 400 30000 8000 = Ok r' \<and>
    unat (0 :: u16) * 10 ^ 14 \<le> unat r \<and> unat r \<le> unat r' \<and>
    unat r' \<le> (unat (0 :: u16) + unat (400 :: u16) + unat (30000 :: u16)) * 10 ^ 14"
  by (rule borrow_rate_bounded_monotone) simp_all

text \<open>C35: accruing an index is exact up to the cap: below the cap the index grows by
  \<open>floor(index * rate * slots / (slots per year * WAD))\<close>, never past the cap, and never
  shrinks, at any rate and any number of elapsed slots.\<close>

theorem bump_index_exact:
  assumes "unat idx \<le> unat INDEX_CAP_WAD"
  shows "unat (bump_index_wad idx rate slots) =
      min (unat INDEX_CAP_WAD)
        (unat idx + unat idx * unat rate * unat slots div (unat SLOTS_PER_YEAR * unat WAD)) \<and>
    unat idx \<le> unat (bump_index_wad idx rate slots)"
  using assms bump_nat_mono [of "unat idx" "unat rate" "unat slots"]
  by (auto simp: bump_index_wad_eq bump_nat_def min_def)

theorem bump_index_exact_witness:
  "unat (bump_index_wad 1000000000000000000 40000000000000000 78840000) =
      min (unat INDEX_CAP_WAD)
        (unat (1000000000000000000 :: u128) + unat (1000000000000000000 :: u128)
           * unat (40000000000000000 :: u128) * unat (78840000 :: u64)
           div (unat SLOTS_PER_YEAR * unat WAD)) \<and>
    unat (1000000000000000000 :: u128) \<le> unat (bump_index_wad 1000000000000000000 40000000000000000 78840000)"
  by (rule bump_index_exact) simp

section \<open>Liquidation triggers and price bands\<close>

text \<open>C21: the trigger price stored with a loan decides liquidation exactly: a loan with collateral
  A is liquidatable at a price iff the collateral's value times 100% is at most the debt times
  the liquidation ratio; a loan with collateral B iff one unit of price resolution more would
  make the collateral worth less than the debt times the ratio.\<close>

theorem trigger_decides_liquidation:
  assumes "recompute_trigger sides c d ratio = Ok (trigger, dir)"
  shows "is_liquidatable trigger dir price \<longleftrightarrow>
    (case sides of
       CollateralA \<Rightarrow> unat price * (unat c * 10000) \<le> unat d * unat ratio * 10 ^ 18
     | CollateralB \<Rightarrow> unat c * 10000 * 10 ^ 18 < (unat price + 1) * (unat d * unat ratio))"
proof (cases sides)
  case CollateralA
  with assms have t: "c \<noteq> 0" "dir = OnFall" "unat trigger = unat d * unat ratio * 10 ^ 18 div (unat c * 10000)"
    by (simp_all add: recompute_trigger_A_Ok_iff)
  then have "0 < unat c * 10000" by (simp add: word_eq_unat)
  from le_div_iff_mult_le [OF this, of "unat price" "unat d * unat ratio * 10 ^ 18"]
  show ?thesis
    unfolding CollateralA t(2) by (simp only: is_liquidatable.simps word_le_nat_alt t(3) loan_sides.case)
next
  case CollateralB
  with assms have t: "d \<noteq> 0" "ratio \<noteq> 0" "dir = OnRise"
    "unat trigger = unat c * 10000 * 10 ^ 18 div (unat d * unat ratio)"
    by (simp_all add: recompute_trigger_B_Ok_iff)
  then have pos: "0 < unat d * unat ratio" by (simp add: word_eq_unat)
  have "unat c * 10000 * 10 ^ 18 div (unat d * unat ratio) \<le> unat price \<longleftrightarrow>
      \<not> unat price + 1 \<le> unat c * 10000 * 10 ^ 18 div (unat d * unat ratio)" by linarith
  also have "\<dots> \<longleftrightarrow> unat c * 10000 * 10 ^ 18 < (unat price + 1) * (unat d * unat ratio)"
    using le_div_iff_mult_le [OF pos] by (simp add: not_le)
  finally show ?thesis using t CollateralB by (simp add: word_le_nat_alt)
qed

theorem trigger_decides_liquidation_witness:
  "recompute_trigger CollateralA 1000 500 11000 = Ok (550000000000000000, OnFall) \<and>
   (is_liquidatable 550000000000000000 OnFall 540000000000000000 \<longleftrightarrow>
    (case CollateralA of
       CollateralA \<Rightarrow> unat (540000000000000000 :: u128) * (unat (1000 :: u128) * 10000)
                        \<le> unat (500 :: u128) * unat (11000 :: u16) * 10 ^ 18
     | CollateralB \<Rightarrow> unat (1000 :: u128) * 10000 * 10 ^ 18
                        < (unat (540000000000000000 :: u128) + 1) * (unat (500 :: u128) * unat (11000 :: u16))))"
proof -
  have t: "recompute_trigger CollateralA 1000 500 11000 = Ok (550000000000000000, OnFall)"
    by (simp add: recompute_trigger_A_Ok_iff)
  show ?thesis using t trigger_decides_liquidation [OF t] by blast
qed

lemma band_id_total: "x \<noteq> 0 \<Longrightarrow> \<exists>b. band_id_for_trigger x = Ok b \<and> unat b = bit_len (unat x) + 4"
proof -
  assume "x \<noteq> 0"
  moreover have "bit_len (unat x) \<le> 128" using u128_lt [of x] by (rule bit_len_le)
  then have "unat (of_nat (bit_len (unat x) + 4) :: u32) = bit_len (unat x) + 4"
    by (intro unat_of_nat_eq) simp
  ultimately show ?thesis using band_id_for_trigger_Ok_iff by blast
qed

lemma band_id_mono:
  assumes "band_id_for_trigger x = Ok b" "band_id_for_trigger y = Ok b'" "unat x \<le> unat y"
  shows "b \<le> b'"
  using assms by (simp add: band_id_for_trigger_Ok_iff word_le_nat_alt bit_len_mono)

text \<open>C27: every non-zero price has a band, the bands are the powers of two (a price lies between
  the minimum of its band and the minimum of the next one), and a higher price never has a
  lower band. The swap's completeness check rests on this.\<close>

theorem band_brackets_price:
  assumes "x \<noteq> 0" "unat x \<le> unat y"
  shows "\<exists>b b' m. band_id_for_trigger x = Ok b \<and> band_id_for_trigger y = Ok b' \<and> b \<le> b' \<and>
    band_min_wad b = Ok m \<and> unat m \<le> unat x \<and> unat x < 2 * unat m \<and>
    (\<forall>m'. band_max_wad b = Ok m' \<longrightarrow> unat x < unat m')"
proof -
  have y: "y \<noteq> 0" using assms by (auto simp: word_eq_unat)
  obtain b where b: "band_id_for_trigger x = Ok b" "unat b = bit_len (unat x) + 4"
    using band_id_total [OF assms(1)] by blast
  obtain b' where b': "band_id_for_trigger y = Ok b'" using band_id_total [OF y] by blast
  have x: "0 < unat x" using assms(1) by (simp add: word_eq_unat)
  have len: "0 < bit_len (unat x)" "bit_len (unat x) \<le> 128"
    using x u128_lt [of x] by (simp_all add: bit_len_pos bit_len_le)
  let ?m = "2 ^ (bit_len (unat x) - 1) :: nat"
  have "?m < 2 ^ 128" using len by (intro power_strict_increasing) auto
  then have m: "unat (of_nat ?m :: u128) = ?m" by (intro unat_of_nat_eq) simp
  have "band_min_wad b = Ok (of_nat ?m)"
    using b(2) len m by (simp add: band_min_wad_Ok_iff)
  moreover have "?m \<le> unat x" using x by (rule bit_len_lower)
  moreover have upper: "unat x < 2 ^ bit_len (unat x)" by (rule bit_len_upper)
  moreover have dbl: "(2 :: nat) ^ bit_len (unat x) = 2 * ?m"
    using power_Suc [of "2 :: nat" "bit_len (unat x) - 1", unfolded Suc_diff_1 [OF len(1)]] .
  moreover have "unat x < unat m'" if "band_max_wad b = Ok m'" for m'
  proof -
    have "unat (b + 1) = unat b + 1" using b(2) len by (simp add: unat_plus_fits)
    with that b(2) len have "unat m' = 2 ^ bit_len (unat x)"
      by (auto simp: band_max_wad_def plus_p_Ok_iff band_min_wad_Ok_iff split: if_splits)
    then show ?thesis using upper by simp
  qed
  ultimately show ?thesis
    using b(1) b' band_id_mono [OF b(1) b' assms(2)]
    by (intro exI [of _ b] exI [of _ b'] exI [of _ "of_nat ?m :: u128"] conjI allI impI)
      (simp_all only: m)
qed

theorem band_brackets_price_witness:
  "\<exists>b b' m. band_id_for_trigger 1000000000000000000 = Ok b \<and>
    band_id_for_trigger 3000000000000000000 = Ok b' \<and> b \<le> b' \<and>
    band_min_wad b = Ok m \<and> unat m \<le> unat (1000000000000000000 :: u128) \<and>
    unat (1000000000000000000 :: u128) < 2 * unat m \<and>
    (\<forall>m'. band_max_wad b = Ok m' \<longrightarrow> unat (1000000000000000000 :: u128) < unat m')"
  by (rule band_brackets_price) simp_all

section \<open>Reference price\<close>

text \<open>C28: the reference price update never fails, stays between the old reference and the spot
  price, and when the old reference is set and less than the window has passed it moves at most
  the fraction \<open>elapsed / 150\<close> of the gap: a spot price manipulated within one slot
  cannot move it at all.\<close>

theorem ema_bounded:
  "\<exists>r. ema_ref_price_wad prev spot n = Ok r \<and>
    (prev \<noteq> 0 \<longrightarrow> min (unat prev) (unat spot) \<le> unat r \<and> unat r \<le> max (unat prev) (unat spot)) \<and>
    (prev \<noteq> 0 \<and> unat n < 150 \<longrightarrow>
       150 * (unat r - unat prev) \<le> unat n * (unat spot - unat prev) \<and>
       150 * (unat prev - unat r) \<le> unat n * (unat prev - unat spot))"
proof -
  obtain r where r: "ema_ref_price_wad prev spot n = Ok r"
    "unat r = (if prev = 0 \<or> 150 \<le> unat n then unat spot
        else if unat prev \<le> unat spot
        then unat prev + (unat spot - unat prev) * unat n div 150
        else unat prev - (unat prev - unat spot) * unat n div 150)"
    by (rule ema_ref_price_wad_Ok)
  have sc: "x * unat n div 150 \<le> x" if "unat n < 150" for x using that by (intro mult_frac_le) simp
  have ex: "150 * (x * unat n div 150) \<le> unat n * x" for x
    using div_mult_le_nat [of "x * unat n" 150] by (simp add: mult.commute)
  show ?thesis
  proof (intro exI conjI impI)
    show "ema_ref_price_wad prev spot n = Ok r" by (rule r(1))
    show "min (unat prev) (unat spot) \<le> unat r" "unat r \<le> max (unat prev) (unat spot)"
      if "prev \<noteq> 0"
      using r(2) that sc [of "unat spot - unat prev"] sc [of "unat prev - unat spot"]
      by (auto split: if_splits simp: not_le)
    show "150 * (unat r - unat prev) \<le> unat n * (unat spot - unat prev)"
      "150 * (unat prev - unat r) \<le> unat n * (unat prev - unat spot)" if "prev \<noteq> 0 \<and> unat n < 150"
    proof -
      have "(unat prev - unat spot) * unat n div 150 \<le> unat prev"
        using that sc [of "unat prev - unat spot"] by linarith
      then show "150 * (unat prev - unat r) \<le> unat n * (unat prev - unat spot)"
        using r(2) that ex [of "unat prev - unat spot"] by (auto split: if_splits)
      show "150 * (unat r - unat prev) \<le> unat n * (unat spot - unat prev)"
        using r(2) that ex [of "unat spot - unat prev"] by (auto split: if_splits)
    qed
  qed
qed

theorem ema_bounded_witness:
  "\<exists>r. ema_ref_price_wad 1000 4000 15 = Ok r \<and>
    ((1000 :: u128) \<noteq> 0 \<longrightarrow> min (unat (1000 :: u128)) (unat (4000 :: u128)) \<le> unat r \<and>
       unat r \<le> max (unat (1000 :: u128)) (unat (4000 :: u128))) \<and>
    ((1000 :: u128) \<noteq> 0 \<and> unat (15 :: u64) < 150 \<longrightarrow>
       150 * (unat r - unat (1000 :: u128)) \<le> unat (15 :: u64) * (unat (4000 :: u128) - unat (1000 :: u128)) \<and>
       150 * (unat (1000 :: u128) - unat r) \<le> unat (15 :: u64) * (unat (1000 :: u128) - unat (4000 :: u128)))"
  by (rule ema_bounded)

end
