(* ===== verification/State_Properties.thy ===== *)
theory State_Properties
  imports Events Initialize_Pool
begin

text \<open>
  Properties of the stored state: the byte layout of the three account types, the accrual of
  the interest indexes, the band bitmaps as sets and the event format.
\<close>

section \<open>Layout\<close>

text \<open>C32: the three account types are stored losslessly and without slack: a byte string decodes
  to a value iff it is exactly the encoding of that (well-formed) value, and the encodings have
  the declared sizes 434, 210 and 88.\<close>

theorem account_layouts:
  "(pool_try_from_slice bs = Some p \<longleftrightarrow> pool_wf p \<and> bs = pool_bytes p) \<and>
   (loan_try_from_slice bs = Some l \<longleftrightarrow> loan_wf l \<and> bs = loan_bytes l) \<and>
   (loan_index_band_try_from_slice bs = Some b \<longleftrightarrow>
      loan_index_band_wf b \<and> bs = loan_index_band_bytes b) \<and>
   (pool_wf p \<longrightarrow> length (pool_bytes p) = POOL_LEN \<and> POOL_LEN = 434) \<and>
   (loan_wf l \<longrightarrow> length (loan_bytes l) = LOAN_LEN \<and> LOAN_LEN = 210) \<and>
   (loan_index_band_wf b \<longrightarrow>
      length (loan_index_band_bytes b) = LOAN_INDEX_BAND_LEN \<and> LOAN_INDEX_BAND_LEN = 88)"
  by (simp add: pool_codec.dec_iff loan_codec.dec_iff band_codec.dec_iff pool_codec.enc_length
      loan_codec.enc_length band_codec.enc_length POOL_LEN_def LOAN_LEN_def LOAN_INDEX_BAND_LEN_def)

definition sample_pool :: pool where
  "sample_pool = (initial_pool 3 4 5 6 7 255 254 253 252 100)
     \<lparr>total_debt_b := 40000, total_collateral_a := 70000, protocol_fees_a := 11,
      protocol_fees_b := 13, open_loans := 1, next_loan_nonce := 1,
      band_bitmap_fall := replicate 8 0 @ [1] @ replicate 7 0\<rparr>"

definition sample_loan :: loan where
  "sample_loan =
     \<lparr>loan_discriminator = LOAN_DISCRIMINATOR, loan_pool = 2, loan_borrower = 9, loan_nonce = 0,
      loan_bump = 255, loan_sides = 0, loan_collateral_amount = 70000,
      loan_debt_principal = 40000, loan_borrow_index_snapshot_wad = WAD,
      loan_last_touch_slot = 100, loan_trigger_price_wad = 628571428571428571,
      loan_trigger_direction = 0, loan_status = STATUS_OPEN, loan_status_pad = replicate 6 0,
      loan_band_id = 64, loan_opened_slot = 100, loan_closed_slot = 0,
      loan_reserved = replicate 28 0\<rparr>"

definition sample_band :: loan_index_band where
  "sample_band =
     \<lparr>band_discriminator = LOAN_INDEX_BAND_DISCRIMINATOR, band_pool = 2, band_band_id = 64,
      band_direction = 0, band_bump = 255, band_pad = replicate 2 0, band_count = 1,
      band_pad2 = replicate 4 0, band_reserved = replicate 32 0\<rparr>"

lemma sample_wf [simp]: "pool_wf sample_pool" "loan_wf sample_loan" "loan_index_band_wf sample_band"
  using initial_pool_wf [of 3 4 5 6 7 255 254 253 252 100]
  by (simp_all add: sample_pool_def sample_loan_def sample_band_def pool_wf_def loan_wf_def
      loan_index_band_wf_def LOAN_DISCRIMINATOR_def LOAN_INDEX_BAND_DISCRIMINATOR_def)

lemma sample_initialized [simp]:
  "pool_is_initialized sample_pool" "loan_is_initialized sample_loan" "band_is_initialized sample_band"
  by (simp_all add: sample_pool_def sample_loan_def sample_band_def pool_is_initialized_def
      loan_is_initialized_def band_is_initialized_def initial_pool_def)

theorem account_layouts_witness:
  "pool_wf sample_pool \<and> length (pool_bytes sample_pool) = POOL_LEN \<and>
   loan_wf sample_loan \<and> length (loan_bytes sample_loan) = LOAN_LEN \<and>
   loan_index_band_wf sample_band \<and>
   length (loan_index_band_bytes sample_band) = LOAN_INDEX_BAND_LEN \<and>
   pool_try_from_slice (pool_bytes sample_pool) = Some sample_pool"
  using account_layouts [of "pool_bytes sample_pool" sample_pool sample_loan sample_band] by simp

section \<open>Interest accrual of a pool\<close>

text \<open>C26: bringing a pool's indexes up to date cannot fail while the accounted reserves are
  defined and the kink is set; it changes nothing but the two indexes and their slot, never
  lowers an index, keeps both at or below the cap, and leaves the reserves LPs and borrowers are
  measured by exactly as they were.\<close>

theorem bump_indexes_sound:
  assumes "accounted p real_a real_b = Ok acc" "interest_kink_bps p \<noteq> 0"
    "unat (borrow_index_a_wad p) \<le> unat INDEX_CAP_WAD" "unat (borrow_index_b_wad p) \<le> unat INDEX_CAP_WAD"
  shows "\<exists>ia ib s. bump_indexes p real_a real_b slot =
      Ok (p\<lparr>borrow_index_a_wad := ia, borrow_index_b_wad := ib, last_index_update_slot := s\<rparr>) \<and>
    unat (borrow_index_a_wad p) \<le> unat ia \<and> unat ia \<le> unat INDEX_CAP_WAD \<and>
    unat (borrow_index_b_wad p) \<le> unat ib \<and> unat ib \<le> unat INDEX_CAP_WAD \<and>
    accounted (p\<lparr>borrow_index_a_wad := ia, borrow_index_b_wad := ib, last_index_update_slot := s\<rparr>)
      real_a real_b = Ok acc"
proof -
  obtain q where q: "bump_indexes p real_a real_b slot = Ok q"
    using bump_indexes_total [OF assms(1,2)] by blast
  obtain ia ib s where eq: "q = p\<lparr>borrow_index_a_wad := ia, borrow_index_b_wad := ib,
      last_index_update_slot := s\<rparr>"
    and le: "unat (borrow_index_a_wad p) \<le> unat ia" "unat (borrow_index_b_wad p) \<le> unat ib"
    using bump_indexes_frame [OF q] by blast
  have cap: "unat INDEX_CAP_WAD = 2 ^ 64 * 10 ^ 18" by simp
  have "unat ia \<le> unat INDEX_CAP_WAD" "unat ib \<le> unat INDEX_CAP_WAD"
    using bump_indexes_cap [OF q] assms(3,4) unfolding cap eq by simp_all
  then show ?thesis
    using q le assms(1) bump_indexes_accounting(1) [OF q] unfolding eq
    by (intro exI [of _ ia] exI [of _ ib] exI [of _ s] conjI) simp_all
qed

lemma sample_pool_simps:
  "total_debt_a sample_pool = 0" "total_debt_b sample_pool = 40000"
  "total_collateral_a sample_pool = 70000" "total_collateral_b sample_pool = 0"
  "protocol_fees_a sample_pool = 11" "protocol_fees_b sample_pool = 13"
  "swap_fee_bps sample_pool = 30" "protocol_fee_bps sample_pool = 5"
  "liq_ratio_bps sample_pool = 11000" "max_ltv_bps sample_pool = 8000"
  "interest_kink_bps sample_pool = 8000"
  "borrow_index_a_wad sample_pool = WAD" "borrow_index_b_wad sample_pool = WAD"
  "last_index_update_slot sample_pool = 100" "ref_price_wad sample_pool = 0"
  "ref_price_slot sample_pool = 0" "open_loans sample_pool = 1" "next_loan_nonce sample_pool = 1"
  "mint_a sample_pool = 3" "mint_b sample_pool = 4" "vault_a sample_pool = 5"
  "vault_b sample_pool = 6" "lp_mint sample_pool = 7" "pool_bump sample_pool = 255"
  "band_bitmap_fall sample_pool = replicate 8 0 @ [1] @ replicate 7 0"
  "band_bitmap_rise sample_pool = replicate 16 0"
  by (simp_all add: sample_pool_def initial_pool_def initialize_pool_consts)

lemma sample_accounted: "accounted sample_pool 1070011 960013 = Ok (1000000, 1000000)"
  by (simp add: accounted_Ok_iff swappable_Ok_iff sample_pool_simps)
    (rule conjI, rule exI [of _ 1000000], simp, rule exI [of _ 960000], simp)

theorem bump_indexes_sound_witness:
  "accounted sample_pool 1070011 960013 = Ok (1000000, 1000000) \<and>
   (\<exists>ia ib s. bump_indexes sample_pool 1070011 960013 7884100 =
      Ok (sample_pool\<lparr>borrow_index_a_wad := ia, borrow_index_b_wad := ib, last_index_update_slot := s\<rparr>) \<and>
    unat (borrow_index_a_wad sample_pool) \<le> unat ia \<and> unat ia \<le> unat INDEX_CAP_WAD \<and>
    unat (borrow_index_b_wad sample_pool) \<le> unat ib \<and> unat ib \<le> unat INDEX_CAP_WAD \<and>
    accounted (sample_pool\<lparr>borrow_index_a_wad := ia, borrow_index_b_wad := ib, last_index_update_slot := s\<rparr>)
      1070011 960013 = Ok (1000000, 1000000))"
  using sample_accounted
    bump_indexes_sound [OF sample_accounted, where slot = 7884100] by (simp add: sample_pool_simps)

section \<open>Band bitmaps\<close>

text \<open>C31: the 128-bit bitmap behaves as a set of band ids: setting succeeds exactly for ids up to
  127 and adds that id only, clearing removes that id only, and the range iterator lists exactly
  the members in the range, in ascending order.\<close>

theorem bitmap_is_a_set:
  assumes "length bm = 16" "i \<le> MAX_BAND_ID"
  shows "\<exists>bm1 bm2. bitmap_set bm i = Ok bm1 \<and> length bm1 = 16 \<and>
    Collect (bitmap_is_set bm1) = insert i (Collect (bitmap_is_set bm)) \<and>
    bitmap_clear bm1 i = Ok bm2 \<and> length bm2 = 16 \<and>
    Collect (bitmap_is_set bm2) = Collect (bitmap_is_set bm) - {i} \<and>
    set (bitmap_iter_set_range bm lo hi) = {j. bitmap_is_set bm j \<and> lo \<le> j \<and> j \<le> hi} \<and>
    sorted (map unat (bitmap_iter_set_range bm lo hi)) \<and>
    (\<forall>j. MAX_BAND_ID < j \<longrightarrow> bitmap_set bm j = Err SettingExceedsMaximum)"
proof -
  obtain bm1 where s: "bitmap_set bm i = Ok bm1" using bitmap.set_Ok [OF assms(2,1)] by blast
  have l1: "length bm1 = 16" by (rule bitmap.set_inv [OF assms(1) s])
  obtain bm2 where c: "bitmap_clear bm1 i = Ok bm2" using bitmap.clear_Ok [OF assms(2) l1] by blast
  have "bitmap_set bm j = Err SettingExceedsMaximum" if "MAX_BAND_ID < j" for j
    using that by (simp add: bitmap_set_def)
  then show ?thesis
    using s c l1 bitmap.clear_inv [OF l1 c] bitmap.members_set [OF assms(1) s]
      bitmap.set_clear_cancel [OF assms(1) s c]
    by - (rule exI [of _ bm1], rule exI [of _ bm2],
        intro conjI allI impI bitmap.iter_set bitmap.iter_sorted)
qed

theorem bitmap_is_a_set_witness:
  "\<exists>bm1 bm2. bitmap_set (replicate 16 0) 64 = Ok bm1 \<and> length bm1 = 16 \<and>
    Collect (bitmap_is_set bm1) = insert 64 (Collect (bitmap_is_set (replicate 16 0))) \<and>
    bitmap_clear bm1 64 = Ok bm2 \<and> length bm2 = 16 \<and>
    Collect (bitmap_is_set bm2) = Collect (bitmap_is_set (replicate 16 0)) - {64} \<and>
    set (bitmap_iter_set_range (replicate 16 0) 60 70) =
      {j. bitmap_is_set (replicate 16 0) j \<and> 60 \<le> j \<and> j \<le> 70} \<and>
    sorted (map unat (bitmap_iter_set_range (replicate 16 0) 60 70)) \<and>
    (\<forall>j. MAX_BAND_ID < j \<longrightarrow> bitmap_set (replicate 16 0) j = Err SettingExceedsMaximum)"
  by (rule bitmap_is_a_set) (simp_all add: MAX_BAND_ID_def)

section \<open>Events\<close>

text \<open>C38: a client that reads a log line by its first eight bytes recovers the event that was
  emitted, for every one of the nine events; the emission adds exactly this line to the log and
  changes no account.\<close>

theorem emitted_events_decode:
  "decode_event (event_bytes ev) = Some ev \<and>
   log (emit ev w) = log w @ [event_bytes ev] \<and> ledger (emit ev w) = ledger w"
  by (simp add: decode_event_bytes)

end
