(* ===== verification/Sample_World.thy ===== *)
theory Sample_World
  imports State_Properties Claims
begin

text \<open>
  A concrete environment and ledger, used only to show that the hypotheses of the handler
  properties can hold: a token program that stores mint, owner and amount as plain bytes, a
  system program, fixed addresses, and a pool with one million of accounted reserves on each
  side, one open loan of 40000 B against 70000 A, and some accrued protocol fees.
\<close>

section \<open>A token program\<close>

definition token_bytes :: "token_account \<Rightarrow> bytes" where
  "token_bytes t = put_key (token_mint t) @ put_key (token_owner t) @ put_word 8 (token_amount t)"

definition get_token :: "bytes \<Rightarrow> (token_account \<times> bytes) option" where
  "get_token bs = do {
     (m, bs) \<leftarrow> get_key bs; (ow, bs) \<leftarrow> get_key bs; (n, bs) \<leftarrow> get_word 8 bs;
     Some (\<lparr>token_mint = m, token_owner = ow, token_amount = n\<rparr>, bs) }"

definition token_of :: "bytes \<Rightarrow> token_account option" where
  "token_of bs = from_slice get_token bs"

definition mint_bytes :: "mint \<Rightarrow> bytes" where
  "mint_bytes m = put_word 8 (mint_supply m) @ put_word 1 (mint_decimals m)"

definition get_mint :: "bytes \<Rightarrow> (mint \<times> bytes) option" where
  "get_mint bs = do {
     (n, bs) \<leftarrow> get_word 8 bs; (d, bs) \<leftarrow> get_word 1 bs;
     Some (\<lparr>mint_supply = n, mint_decimals = d\<rparr>, bs) }"

definition mint_of :: "bytes \<Rightarrow> (mint, program_error) res" where
  "mint_of bs = ok_or (from_slice get_mint bs) PE_InvalidAccountData"

lemma token_of_bytes [simp]: "token_of (token_bytes t) = Some t"
  unfolding token_of_def by (rule from_slice_put) (simp add: get_token_def token_bytes_def)

lemma mint_of_bytes [simp]: "mint_of (mint_bytes m) = Ok m"
proof -
  have "from_slice get_mint (mint_bytes m) = Some m"
    by (rule from_slice_put) (simp add: get_mint_def mint_bytes_def)
  then show ?thesis by (simp add: mint_of_def)
qed

definition signed_for :: "account_info list \<Rightarrow> bytes list list \<Rightarrow> pubkey \<Rightarrow> bool" where
  "signed_for infos seeds k \<longleftrightarrow> seeds \<noteq> [] \<or> list_ex (\<lambda>i. key i = k \<and> is_signer i) infos"

definition token_transfer ::
  "pubkey \<Rightarrow> pubkey \<Rightarrow> pubkey \<Rightarrow> pubkey \<Rightarrow> u64 \<Rightarrow> ledger_t \<Rightarrow> (ledger_t, program_error) res" where
  "token_transfer src m dst auth amount l =
     (case (token_of (data (l src)), token_of (data (l dst))) of
        (Some s, Some d) \<Rightarrow>
          if token_mint s \<noteq> m \<or> token_mint d \<noteq> m then Err PE_InvalidAccountData
          else if token_owner s \<noteq> auth then Err PE_IllegalOwner
          else if token_amount s < amount then Err PE_InsufficientFunds
          else if src = dst then Ok l
          else
          and_then (ok_or (checked_add (token_amount d) amount) PE_InvalidArgument) (\<lambda>n.
          Ok (l(src := (l src)\<lparr>data := token_bytes (s\<lparr>token_amount := token_amount s - amount\<rparr>)\<rparr>,
                dst := (l dst)\<lparr>data := token_bytes (d\<lparr>token_amount := n\<rparr>)\<rparr>)))
      | _ \<Rightarrow> Err PE_InvalidAccountData)"

definition token_supply_change ::
  "bool \<Rightarrow> pubkey \<Rightarrow> pubkey \<Rightarrow> u64 \<Rightarrow> ledger_t \<Rightarrow> (ledger_t, program_error) res" where
  "token_supply_change up m acc amount l =
     and_then (mint_of (data (l m))) (\<lambda>mm.
     if m = acc then Err PE_InvalidAccountData
     else
     and_then (ok_or (token_of (data (l acc))) PE_InvalidAccountData) (\<lambda>t.
     let f = (if up then checked_add else checked_sub) in
     and_then (ok_or (f (mint_supply mm) amount) PE_InsufficientFunds) (\<lambda>s.
     and_then (ok_or (f (token_amount t) amount) PE_InsufficientFunds) (\<lambda>n.
     Ok (l(m := (l m)\<lparr>data := mint_bytes (mm\<lparr>mint_supply := s\<rparr>)\<rparr>,
           acc := (l acc)\<lparr>data := token_bytes (t\<lparr>token_amount := n\<rparr>)\<rparr>))))))"

definition move_lamports ::
  "pubkey \<Rightarrow> pubkey \<Rightarrow> u64 \<Rightarrow> ledger_t \<Rightarrow> (ledger_t, program_error) res" where
  "move_lamports src dst n l =
     and_then (ok_or (checked_sub (lamports (l src)) n) PE_InsufficientFunds) (\<lambda>a.
     let l = l(src := (l src)\<lparr>lamports := a\<rparr>) in
     and_then (ok_or (checked_add (lamports (l dst)) n) PE_InvalidArgument) (\<lambda>b.
     Ok (l(dst := (l dst)\<lparr>lamports := b\<rparr>))))"

text \<open>A program writes only accounts it owns, and the system program hands out only empty ones.\<close>

definition owned_by :: "pubkey \<Rightarrow> pubkey list \<Rightarrow> ledger_t \<Rightarrow> bool" where
  "owned_by prog ks l \<longleftrightarrow> list_all (\<lambda>k. owner (l k) = prog) ks"

fun sample_cpi ::
  "cpi \<Rightarrow> account_info list \<Rightarrow> bytes list list \<Rightarrow> ledger_t \<Rightarrow> (ledger_t, program_error) res" where
  "sample_cpi (TransferChecked prog src m dst auth amount dec) infos seeds l =
     (if \<not> owned_by prog [src, dst] l then Err PE_IllegalOwner
      else if signed_for infos seeds auth then token_transfer src m dst auth amount l
      else Err PE_MissingRequiredSignature)"
| "sample_cpi (MintToChecked prog m dst auth amount dec) infos seeds l =
     (if \<not> owned_by prog [m, dst] l then Err PE_IllegalOwner
      else token_supply_change True m dst amount l)"
| "sample_cpi (BurnChecked prog acc m auth amount dec) infos seeds l =
     (if \<not> owned_by prog [m, acc] l then Err PE_IllegalOwner
      else if map_option token_owner (token_of (data (l acc))) \<noteq> Some auth then Err PE_IllegalOwner
      else token_supply_change False m acc amount l)"
| "sample_cpi (InitializeAccount3 prog acc m own) infos seeds l =
     (if \<not> owned_by prog [acc] l \<or> \<not> list_all (\<lambda>b. b = 0) (data (l acc)) then Err PE_IllegalOwner
      else Ok (l(acc := (l acc)\<lparr>data := token_bytes
                 \<lparr>token_mint = m, token_owner = own, token_amount = 0\<rparr>\<rparr>)))"
| "sample_cpi (InitializeMint2 prog m auth freeze dec) infos seeds l =
     (if \<not> owned_by prog [m] l \<or> \<not> list_all (\<lambda>b. b = 0) (data (l m)) then Err PE_IllegalOwner
      else Ok (l(m := (l m)\<lparr>data := mint_bytes \<lparr>mint_supply = 0, mint_decimals = dec\<rparr>\<rparr>)))"
| "sample_cpi (CreateAccount payer new n space own) infos seeds l =
     (if \<not> owned_by 0 [new] l then Err PE_IllegalOwner
      else
      and_then (move_lamports payer new n l) (\<lambda>l.
      Ok (l(new := (l new)\<lparr>data := replicate (unat space) 0, owner := own\<rparr>))))"
| "sample_cpi (SysTransfer src dst n) infos seeds l = move_lamports src dst n l"
| "sample_cpi (Allocate k space) infos seeds l =
     (if \<not> owned_by 0 [k] l then Err PE_IllegalOwner
      else Ok (l(k := (l k)\<lparr>data := replicate (unat space) 0\<rparr>)))"
| "sample_cpi (Assign k own) infos seeds l =
     (if \<not> owned_by 0 [k] l \<or> \<not> list_all (\<lambda>b. b = 0) (data (l k)) then Err PE_IllegalOwner
      else Ok (l(k := (l k)\<lparr>owner := own\<rparr>)))"

section \<open>The environment\<close>

text \<open>Fixed addresses: pool 2, vaults 5 and 6, LP mint 7, loans at 20 plus the nonce, bands at
  100 plus the band id.\<close>

definition sample_find :: "bytes list \<Rightarrow> pubkey \<Rightarrow> (pubkey \<times> u8) option" where
  "sample_find seeds pid =
     (if seeds ! 0 = POOL_SEED then Some (2, 255)
      else if seeds ! 0 = VAULT_A_SEED then Some (5, 254)
      else if seeds ! 0 = VAULT_B_SEED then Some (6, 253)
      else if seeds ! 0 = LP_MINT_SEED then Some (7, 252)
      else if seeds ! 0 = LOAN_SEED then Some (20 + of_nat (le_nat (seeds ! 3)), 255)
      else Some (100 + of_nat (le_nat (seeds ! 3)), 255))"

definition sample_env :: env where
  "sample_env =
     \<lparr>clock_get = Ok 100, rent_get = Ok (\<lambda>n. of_nat (n + 128)),
      rent_from_account_info = (\<lambda>k d. Ok (\<lambda>n. of_nat (n + 128))),
      find_program_address = sample_find,
      create_program_address = (\<lambda>seeds pid. map_option fst (sample_find seeds pid)),
      token_2022_id = 1, system_program_id = 0,
      token_account_len = 72, token_account_len_2022 = Ok 72,
      token_mint_len = 9, token_mint_len_2022 = Ok 9,
      unpack_token_account = token_of, unpack_mint = mint_of,
      get_extension_types = (\<lambda>d. Ok []), get_close_authority = (\<lambda>d. Ok None),
      cpi_invoke = sample_cpi\<rparr>"

lemma sample_env_simps [simp]:
  "clock_get sample_env = Ok 100" "rent_get sample_env = Ok (\<lambda>n. of_nat (n + 128))"
  "rent_from_account_info sample_env = (\<lambda>k d. Ok (\<lambda>n. of_nat (n + 128)))"
  "find_program_address sample_env = sample_find"
  "create_program_address sample_env seeds pid = map_option fst (sample_find seeds pid)"
  "token_2022_id sample_env = 1" "system_program_id sample_env = 0"
  "token_account_len sample_env = 72" "token_mint_len sample_env = 9"
  "unpack_token_account sample_env = token_of" "unpack_mint sample_env = mint_of"
  "get_extension_types sample_env d = Ok []" "cpi_invoke sample_env = sample_cpi"
  by (simp_all add: sample_env_def)

lemma sample_transfer_law: "transfer_law sample_env m"
proof -
  have "\<exists>s d. token_of (data (l src)) = Some s \<and> token_of (data (l dst)) = Some d \<and>
      token_mint s = m \<and> token_mint d = m \<and> unat amount \<le> unat (token_amount s) \<and>
      (src = dst \<longrightarrow> l' = l) \<and>
      (src \<noteq> dst \<longrightarrow>
         unat (token_amount d) + unat amount < 2 ^ 64 \<and>
         token_of (data (l' src)) = Some (s\<lparr>token_amount := token_amount s - amount\<rparr>) \<and>
         token_of (data (l' dst)) = Some (d\<lparr>token_amount := token_amount d + amount\<rparr>) \<and>
         (\<forall>k. k \<noteq> src \<longrightarrow> k \<noteq> dst \<longrightarrow> l' k = l k))"
    if "token_transfer src m dst auth amount l = Ok l'" for src dst auth amount l l'
    using that
    by (auto simp: token_transfer_def checked_add_def word_less_nat_alt not_less
        split: option.splits if_splits)
  then show ?thesis by (auto simp: transfer_law_def split: if_splits)
qed

section \<open>The ledger\<close>

definition plain :: "pubkey \<Rightarrow> bytes \<Rightarrow> account" where
  "plain own bs = \<lparr>lamports = 1000000, data = bs, owner = own\<rparr>"

definition sample_token :: "pubkey \<Rightarrow> pubkey \<Rightarrow> u64 \<Rightarrow> account" where
  "sample_token m own n =
     plain SPL_TOKEN_PROGRAM_ID (token_bytes \<lparr>token_mint = m, token_owner = own, token_amount = n\<rparr>)"

definition sample_mint :: "u64 \<Rightarrow> account" where
  "sample_mint supply = plain SPL_TOKEN_PROGRAM_ID (mint_bytes \<lparr>mint_supply = supply, mint_decimals = 6\<rparr>)"

text \<open>User 8 with token accounts 10 (A), 11 (B) and 12 (LP); borrower 9 with 13 and 14; fee
  destinations 15 and 16; the open loan 20 in band 64 at 164; program id 99.\<close>

definition sample_ledger :: "pool \<Rightarrow> ledger_t" where
  "sample_ledger p = (\<lambda>_. \<lparr>lamports = 0, data = [], owner = 0\<rparr>)
     (2 := plain 99 (pool_bytes p), 3 := sample_mint 9000000, 4 := sample_mint 9000000,
      5 := sample_token 3 2 1070011, 6 := sample_token 4 2 960013, 7 := sample_mint 1000000,
      8 := plain 0 [], 9 := plain 0 [],
      10 := sample_token 3 8 500000, 11 := sample_token 4 8 500000, 12 := sample_token 7 8 1000000,
      13 := sample_token 3 9 500000, 14 := sample_token 4 9 500000,
      15 := sample_token 3 PROTOCOL_FEE_RECIPIENT 0, 16 := sample_token 4 PROTOCOL_FEE_RECIPIENT 0,
      20 := plain 99 (loan_bytes sample_loan), 164 := plain 99 (loan_index_band_bytes sample_band))"

definition sample_world :: "pool \<Rightarrow> world" where
  "sample_world p = \<lparr>ledger = sample_ledger p, log = []\<rparr>"

definition info :: "pubkey \<Rightarrow> account_info" where
  "info k = \<lparr>key = k, is_signer = False\<rparr>"

definition signer :: "pubkey \<Rightarrow> account_info" where
  "signer k = \<lparr>key = k, is_signer = True\<rparr>"

lemma info_simps [simp]:
  "key (info k) = k" "\<not> is_signer (info k)" "key (signer k) = k" "is_signer (signer k)"
  by (simp_all add: info_def signer_def)

lemma sample_account_simps [simp]:
  "data (plain ow bs) = bs" "owner (plain ow bs) = ow" "lamports (plain ow bs) = 1000000"
  "data (sample_mint n) = mint_bytes \<lparr>mint_supply = n, mint_decimals = 6\<rparr>"
  "owner (sample_mint n) = SPL_TOKEN_PROGRAM_ID"
  "data (sample_token m ow a) = token_bytes \<lparr>token_mint = m, token_owner = ow, token_amount = a\<rparr>"
  by (simp_all add: plain_def sample_mint_def sample_token_def)

lemma sample_acct [simp]: "acct (sample_world p) i = sample_ledger p (key i)"
  by (simp add: acct_def sample_world_def)

lemma sample_load_pool [simp]: 
  "key i = 2 \<Longrightarrow> pool_wf p \<Longrightarrow> pool_is_initialized p \<Longrightarrow> load_pool (sample_world p) i = Ok p"
  by (simp add: load_pool_Ok_iff sample_ledger_def)

lemma sample_load_loan [simp]: "key i = 20 \<Longrightarrow> load_loan (sample_world p) i = Ok sample_loan"
  by (simp add: load_loan_Ok_iff sample_ledger_def)

lemma sample_load_band [simp]: "key i = 164 \<Longrightarrow> load_band (sample_world p) i = Ok sample_band"
  by (simp add: load_band_Ok_iff sample_ledger_def)

lemma sample_vaults [simp]:
  "key i = 5 \<Longrightarrow> read_token_amount sample_env (sample_world p) i = Ok 1070011"
  "key i = 6 \<Longrightarrow> read_token_amount sample_env (sample_world p) i = Ok 960013"
  by (simp_all add: read_token_amount_Ok_iff balance_def sample_ledger_def sample_world_def)

lemma sample_mints [simp]:
  "key i = 3 \<or> key i = 4 \<or> key i = 7 \<Longrightarrow> read_mint_decimals sample_env (sample_world p) i = Ok 6"
  "key i = 7 \<Longrightarrow> read_mint_supply sample_env (sample_world p) i = Ok 1000000"
  by (auto simp: read_mint_decimals_def read_mint_supply_def sample_ledger_def widen_def)

lemma sample_bump [simp]: "bump_indexes sample_pool ra rb 100 = Ok sample_pool"
  by (rule bump_indexes_same_slot) (simp add: sample_pool_simps)

lemma sample_token_programs:
  "key tp = SPL_TOKEN_PROGRAM_ID \<Longrightarrow> key i = 3 \<or> key i = 4 \<Longrightarrow>
   validate_token_program_for_mint sample_env (sample_world p) tp i = Ok ()"
  by (auto simp: validate_token_program_for_mint_def is_valid_token_program_def sample_ledger_def)

end
