(* ===== verification/Swap_Properties.thy ===== *)
theory Swap_Properties
  imports Loan_Book Math_Properties Sample_World
begin

text \<open>
  Properties of the swap: an invariant rule for the liquidation loop and what follows from it
  (the loop's result, the pool's books), the fee skim, the value of the reserves across a swap,
  and the completeness argument: no open loan that triggers at the final price is left out.
\<close>

section \<open>The liquidation loop\<close>

lemma position_None_iff: "position P xs = None \<longleftrightarrow> (\<forall>x \<in> set xs. \<not> P x)"
  by (induction xs) auto

lemma position_SomeD: "position P xs = Some i \<Longrightarrow> i < length xs \<and> P (xs ! i)"
  by (induction xs arbitrary: i) (auto split: if_splits)

lemma liquidation_loop_cases:
  assumes "liquidation_loop ra rb dir x g p ls n A B = Ok (out, price, p', ls', n')"
  obtains (stop) "swap_quote dir x g (swap_fee_bps p) A B = Ok (out, price)"
      "position (triggered price) ls = None" "p' = p" "ls' = ls" "n' = n"
    | (step) o1 pr i p1 n1 A1 B1 where "swap_quote dir x g (swap_fee_bps p) A B = Ok (o1, pr)"
      "position (triggered pr) ls = Some i" "unat n < 8"
      "release_loan p (ctx_sides (ls ! i)) (ctx_collateral (ls ! i)) (ctx_debt_principal (ls ! i)) = Ok p1"
      "unat n1 = unat n + 1" "accounted p1 ra rb = Ok (A1, B1)"
      "liquidation_loop ra rb dir x g p1 (ls[i := (ls ! i)\<lparr>ctx_liquidated := True\<rparr>]) n1 A1 B1 =
         Ok (out, price, p', ls', n')"
proof -
  note loop = assms [unfolded liquidation_loop.simps [of ra rb dir x g p ls n A B]]
  obtain o1 pr where q: "swap_quote dir x g (swap_fee_bps p) A B = Ok (o1, pr)"
  proof (cases "swap_quote dir x g (swap_fee_bps p) A B")
    case (Ok r)
    then show ?thesis using that by (cases r) simp
  qed (use loop in simp_all)
  note loop' = loop [unfolded q and_then_simps prod.case]
  show ?thesis
  proof (cases "position (triggered pr) ls")
    case None
    have eqs: "o1 = out" "pr = price" "p' = p" "ls' = ls" "n' = n"
      using loop' unfolding None by simp_all
    show ?thesis by (rule stop) (use q None eqs in simp_all)
  next
    case (Some i)
    have n: "\<not> MAX_LIQ_PER_SWAP \<le> n"
      using loop' unfolding Some by (auto simp del: and_then_Ok_iff)
    from loop' n obtain p1 n1 A1 B1 where
      "release_loan p (ctx_sides (ls ! i)) (ctx_collateral (ls ! i)) (ctx_debt_principal (ls ! i)) = Ok p1"
      "(plus_p n 1 :: (u32, liquidity_error) res) = Ok n1" "accounted p1 ra rb = Ok (A1, B1)"
      "liquidation_loop ra rb dir x g p1 (ls[i := (ls ! i)\<lparr>ctx_liquidated := True\<rparr>]) n1 A1 B1 =
         Ok (out, price, p', ls', n')"
      unfolding Some by (simp add: Let_def split_beta) blast
    moreover have "unat n < 8" using n by (simp add: MAX_LIQ_PER_SWAP_def word_le_nat_alt)
    ultimately show ?thesis
      by (intro step [OF q Some, of p1 n1 A1 B1]) (simp_all add: plus_p_Ok_iff)
  qed
qed

text \<open>The invariant rule: what holds at entry and is kept by every liquidation holds at exit,
  where the quote is the one of the final reserves and no supplied loan triggers.\<close>

lemma liquidation_loop_rule:
  assumes "liquidation_loop ra rb dir x g p ls n A B = Ok (out, price, p', ls', n')"
    and "I p ls n A B"
    and step: "\<And>p ls n A B pr i p1 n1 A1 B1. I p ls n A B \<Longrightarrow> i < length ls \<Longrightarrow>
      triggered pr (ls ! i) \<Longrightarrow> unat n < 8 \<Longrightarrow>
      release_loan p (ctx_sides (ls ! i)) (ctx_collateral (ls ! i)) (ctx_debt_principal (ls ! i)) = Ok p1 \<Longrightarrow>
      unat n1 = unat n + 1 \<Longrightarrow> accounted p1 ra rb = Ok (A1, B1) \<Longrightarrow>
      I p1 (ls[i := (ls ! i)\<lparr>ctx_liquidated := True\<rparr>]) n1 A1 B1"
  shows "\<exists>A' B'. I p' ls' n' A' B' \<and> swap_quote dir x g (swap_fee_bps p') A' B' = Ok (out, price) \<and>
    (\<forall>l \<in> set ls'. \<not> triggered price l)"
  using assms(1,2)
proof (induction "8 - unat n" arbitrary: p ls n A B rule: less_induct)
  case less
  from less.prems(1) show ?case
  proof (cases rule: liquidation_loop_cases)
    case stop
    then show ?thesis using less.prems(2) by (auto simp: position_None_iff)
  next
    case (step o1 pr i p1 n1 A1 B1)
    have i: "i < length ls" "triggered pr (ls ! i)" using position_SomeD [OF step(2)] by auto
    have "8 - unat n1 < 8 - unat n" using step(3,5) by linarith
    then show ?thesis
      using less.hyps [OF _ step(7)] assms(3) [OF less.prems(2) i step(3-6)] by blast
  qed
qed

text \<open>What a liquidation may change of a pool and of a context.\<close>

definition same_terms :: "pool \<Rightarrow> pool \<Rightarrow> bool" where
  "same_terms p q \<longleftrightarrow> (\<exists>ca cb da db n. q = p\<lparr>total_collateral_a := ca, total_collateral_b := cb,
     total_debt_a := da, total_debt_b := db, open_loans := n\<rparr>)"

lemma same_terms_refl [simp]: "same_terms p p"
proof -
  have "p = p\<lparr>total_collateral_a := total_collateral_a p, total_collateral_b := total_collateral_b p,
     total_debt_a := total_debt_a p, total_debt_b := total_debt_b p, open_loans := open_loans p\<rparr>" by simp
  then show ?thesis unfolding same_terms_def by blast
qed

lemma same_terms_fields:
  assumes "same_terms p q"
  shows "swap_fee_bps q = swap_fee_bps p" "protocol_fees_a q = protocol_fees_a p"
    "protocol_fees_b q = protocol_fees_b p" "band_bitmap_fall q = band_bitmap_fall p"
    "band_bitmap_rise q = band_bitmap_rise p" "pool_wf q = pool_wf p"
    "pool_is_initialized q = pool_is_initialized p"
  using assms unfolding same_terms_def by (auto simp: pool_wf_def pool_is_initialized_def)

lemma same_terms_trans: "same_terms p q \<Longrightarrow> same_terms q r \<Longrightarrow> same_terms p r"
  unfolding same_terms_def by (elim exE) (simp, blast)

lemma release_same_terms: "release_loan p s c d = Ok q \<Longrightarrow> same_terms p q"
  unfolding same_terms_def using release_loan_Ok [of p s c d q] by blast

definition unmark :: "loan_ctx \<Rightarrow> loan_ctx" where
  "unmark l = l\<lparr>ctx_liquidated := False\<rparr>"

definition liquidated_count :: "loan_ctx list \<Rightarrow> nat" where
  "liquidated_count ls = length (filter ctx_liquidated ls)"

lemma liquidated_count_mark:
  assumes "i < length ls" "\<not> ctx_liquidated (ls ! i)"
  shows "liquidated_count (ls[i := (ls ! i)\<lparr>ctx_liquidated := True\<rparr>]) = liquidated_count ls + 1"
proof -
  have ls: "ls = take i ls @ ls ! i # drop (Suc i) ls" using assms(1) by (rule id_take_nth_drop)
  have "ls[i := y] = take i ls @ y # drop (Suc i) ls" for y using assms(1) by (rule upd_conv_take_nth_drop)
  moreover have "liquidated_count ls = liquidated_count (take i ls @ ls ! i # drop (Suc i) ls)"
    using ls by simp
  ultimately show ?thesis using assms(2) by (simp add: liquidated_count_def)
qed

lemma unmark_mark: "i < length ls \<Longrightarrow>
  map unmark (ls[i := (ls ! i)\<lparr>ctx_liquidated := True\<rparr>]) = map unmark ls"
  by (simp add: map_update unmark_def list_update_same_conv)

lemma cascade:
  assumes "liquidation_loop ra rb dir x g p ls n A B = Ok (out, price, p', ls', n')"
    "accounted p ra rb = Ok (A, B)"
  shows "\<exists>A' B'. accounted p' ra rb = Ok (A', B') \<and>
    swap_quote dir x g (swap_fee_bps p) A' B' = Ok (out, price) \<and>
    (\<forall>l \<in> set ls'. \<not> triggered price l) \<and> same_terms p p' \<and>
    map unmark ls' = map unmark ls \<and>
    liquidated_count ls' + unat n = liquidated_count ls + unat n' \<and> unat n' \<le> max 8 (unat n)"
proof -
  let ?I = "\<lambda>q l m a b. accounted q ra rb = Ok (a, b) \<and> same_terms p q \<and> map unmark l = map unmark ls \<and>
    liquidated_count l + unat n = liquidated_count ls + unat m \<and> unat m \<le> max 8 (unat n)"
  have "\<exists>A' B'. ?I p' ls' n' A' B' \<and> swap_quote dir x g (swap_fee_bps p') A' B' = Ok (out, price) \<and>
    (\<forall>l \<in> set ls'. \<not> triggered price l)"
    using assms(1)
  proof (rule liquidation_loop_rule)
    show "?I p ls n A B" using assms(2) by simp
  next
    fix q l m a b pr i q1 m1 a1 b1
    assume I: "?I q l m a b" and i: "i < length l" and t: "triggered pr (l ! i)" and m: "unat m < 8"
      and r: "release_loan q (ctx_sides (l ! i)) (ctx_collateral (l ! i)) (ctx_debt_principal (l ! i)) = Ok q1"
      and m1: "unat m1 = unat m + 1" and acc: "accounted q1 ra rb = Ok (a1, b1)"
    have "\<not> ctx_liquidated (l ! i)" using t by (simp add: triggered_def)
    then show "?I q1 (l[i := (l ! i)\<lparr>ctx_liquidated := True\<rparr>]) m1 a1 b1"
      using I i m m1 acc release_same_terms [OF r]
      by (auto simp: liquidated_count_mark unmark_mark intro: same_terms_trans)
  qed
  then obtain A' B' where I: "?I p' ls' n' A' B'"
    and q: "swap_quote dir x g (swap_fee_bps p') A' B' = Ok (out, price)"
    and t: "\<forall>l \<in> set ls'. \<not> triggered price l" by blast
  have "swap_fee_bps p' = swap_fee_bps p" using I by (intro same_terms_fields(1)) simp
  with I q t show ?thesis by (intro exI [of _ A'] exI [of _ B'] conjI) simp_all
qed

lemma swap_quote_not_Panic: "swap_quote d x g f A B \<noteq> Panic"
proof -
  have "cpmm_quote_out x' r_in r_out f \<noteq> Panic" for x' r_in r_out
  proof (cases "x' \<noteq> 0 \<and> r_in \<noteq> 0 \<and> r_out \<noteq> 0 \<and> unat f < 10000")
    case True
    then show ?thesis using cpmm_quote_out_eq [of x' r_in r_out f] by force
  next
    case False
    then show ?thesis by (auto simp: cpmm_quote_out_def Let_def word_le_nat_alt)
  qed
  moreover have "post_swap_price_wad A B g out d \<noteq> Panic" for out
    by (auto simp: post_swap_price_wad_def and_then_Panic_iff split: if_splits)
  ultimately show ?thesis
    by (auto simp: swap_quote_def Let_def and_then_Panic_iff split: if_splits)
qed

text \<open>C16: when the liquidation loop returns, the quoted output and price are those of the final
  accounted reserves, no supplied loan that is still open triggers at that price, at most eight
  loans were liquidated, exactly the counted number of loans changed state, nothing else in the
  contexts changed, and of the pool only the totals and the loan count did.\<close>

theorem cascade_settles:
  assumes "liquidation_loop real_a real_b a_to_b amount_in growth p loans 0 A B =
      Ok (out, price, p', loans', n)"
    "accounted p real_a real_b = Ok (A, B)"
  shows "\<exists>A' B'. accounted p' real_a real_b = Ok (A', B') \<and>
    swap_quote a_to_b amount_in growth (swap_fee_bps p) A' B' = Ok (out, price) \<and>
    (\<forall>l \<in> set loans'. \<not> triggered price l) \<and> unat n \<le> 8 \<and>
    liquidated_count loans' = liquidated_count loans + unat n \<and>
    map unmark loans' = map unmark loans \<and> same_terms p p'"
  using cascade [OF assms] by auto

definition sample_ctx :: loan_ctx where
  "sample_ctx = \<lparr>ctx_loan_idx = 11, ctx_trigger_wad = 628571428571428571, ctx_direction = OnFall,
     ctx_sides = CollateralA, ctx_collateral = 70000, ctx_debt_principal = 40000,
     ctx_liquidated = False\<rparr>"

definition sampled_pool :: pool where
  "sampled_pool = sample_pool\<lparr>ref_price_wad := 1000000000000000000, ref_price_slot := 100\<rparr>"

definition settled_pool :: pool where
  "settled_pool = sampled_pool\<lparr>total_collateral_a := 0, total_debt_b := 0, open_loans := 0\<rparr>"

lemma swap_quote_a_to_b:
  assumes "A \<noteq> 0" "B \<noteq> 0" "cpmm_quote_out (widen x) A B f = Ok out" "unat A + unat g < 2 ^ 128"
    "out \<le> B" "price_b_per_a_wad (A + g) (B - out) = Ok price"
  shows "swap_quote True x g f A B = Ok (out, price)"
  using assms
  by (simp add: swap_quote_def post_swap_price_wad_def checked_add_def checked_sub_def
      del: and_then_Ok_iff)

lemma sample_quote_1:
  "swap_quote True 270000 269865 30 1000000 1000000 = Ok (212095, 620463592586613537)"
proof (rule swap_quote_a_to_b)
  show "cpmm_quote_out (widen (270000 :: u64)) 1000000 1000000 30 = Ok 212095"
    by (simp add: cpmm_quote_out_Ok_iff quote_nat_def in_after_fee_nat_def)
qed (simp_all add: price_b_per_a_wad_Ok_iff)

lemma sample_quote_2:
  "swap_quote True 270000 269865 30 1070000 960000 = Ok (192969, 572468868132237203)"
proof (rule swap_quote_a_to_b)
  show "cpmm_quote_out (widen (270000 :: u64)) 1070000 960000 30 = Ok 192969"
    by (simp add: cpmm_quote_out_Ok_iff quote_nat_def in_after_fee_nat_def)
qed (simp_all add: price_b_per_a_wad_Ok_iff)

lemma sampled_pool_simps:
  "swap_fee_bps sampled_pool = 30" "total_collateral_a sampled_pool = 70000"
  "total_debt_b sampled_pool = 40000" "open_loans sampled_pool = 1" "swap_fee_bps settled_pool = 30"
  by (simp_all add: sampled_pool_def settled_pool_def sample_pool_simps)

lemma sample_accounts:
  "accounted sampled_pool 1070011 960013 = Ok (1000000, 1000000)"
  "accounted settled_pool 1070011 960013 = Ok (1070000, 960000)"
proof -
  have "accounted sampled_pool = accounted sample_pool"
    by (auto simp: fun_eq_iff sampled_pool_def accounted_def swappable_def)
  then show "accounted sampled_pool 1070011 960013 = Ok (1000000, 1000000)"
    using sample_accounted by simp
  show "accounted settled_pool 1070011 960013 = Ok (1070000, 960000)"
    by (simp add: accounted_Ok_iff swappable_Ok_iff settled_pool_def sampled_pool_def sample_pool_simps)
      (rule conjI, rule exI [of _ 1070000], simp, rule exI [of _ 960000], simp)
qed

lemma sample_release: "release_loan sampled_pool CollateralA 70000 40000 = Ok settled_pool"
  by (simp add: release_loan_def checked_sub_def sampled_pool_simps settled_pool_def del: and_then_Ok_iff)

lemma sample_loop:
  "liquidation_loop 1070011 960013 True 270000 269865 sampled_pool [sample_ctx] 0 1000000 1000000 =
     Ok (192969, 572468868132237203, settled_pool, [sample_ctx\<lparr>ctx_liquidated := True\<rparr>], 1)"
proof -
  have last: "liquidation_loop 1070011 960013 True 270000 269865 settled_pool
      [sample_ctx\<lparr>ctx_liquidated := True\<rparr>] 1 1070000 960000 =
    Ok (192969, 572468868132237203, settled_pool, [sample_ctx\<lparr>ctx_liquidated := True\<rparr>], 1)"
    by (subst liquidation_loop.simps)
      (simp add: sample_quote_2 sampled_pool_simps triggered_def del: and_then_Ok_iff)
  have trig: "triggered 620463592586613537 sample_ctx" by (simp add: triggered_def sample_ctx_def)
  have one: "(plus_p 0 1 :: (u32, liquidity_error) res) = Ok 1" by (simp add: plus_p_def checked_add_def)
  have rel: "release_loan sampled_pool (ctx_sides sample_ctx) (ctx_collateral sample_ctx)
      (ctx_debt_principal sample_ctx) = Ok settled_pool"
    using sample_release by (simp add: sample_ctx_def)
  show ?thesis
    by (subst liquidation_loop.simps)
      (simp add: sample_quote_1 sampled_pool_simps trig one rel last sample_accounts
        MAX_LIQ_PER_SWAP_def del: and_then_Ok_iff)
qed

theorem cascade_settles_witness:
  "liquidation_loop 1070011 960013 True 270000 269865 sampled_pool [sample_ctx] 0 1000000 1000000 =
     Ok (192969, 572468868132237203, settled_pool, [sample_ctx\<lparr>ctx_liquidated := True\<rparr>], 1) \<and>
   (\<exists>A' B'. accounted settled_pool 1070011 960013 = Ok (A', B') \<and>
    swap_quote True 270000 269865 (swap_fee_bps sampled_pool) A' B' = Ok (192969, 572468868132237203) \<and>
    (\<forall>l \<in> set [sample_ctx\<lparr>ctx_liquidated := True\<rparr>]. \<not> triggered 572468868132237203 l) \<and>
    unat (1 :: u32) \<le> 8)"
  using sample_loop cascade_settles [OF sample_loop sample_accounts(1)] by blast

section \<open>The books across a swap\<close>

definition live_positions :: "loan_ctx list \<Rightarrow> position_t multiset" where
  "live_positions ls = mset (map position_of_ctx (filter (\<lambda>l. \<not> ctx_liquidated l) ls))"

lemma live_positions_mark:
  assumes "i < length ls" "\<not> ctx_liquidated (ls ! i)"
  shows "live_positions ls =
    add_mset (position_of_ctx (ls ! i)) (live_positions (ls[i := (ls ! i)\<lparr>ctx_liquidated := True\<rparr>]))"
proof -
  have ls: "ls = take i ls @ ls ! i # drop (Suc i) ls" using assms(1) by (rule id_take_nth_drop)
  have upd: "ls[i := y] = take i ls @ y # drop (Suc i) ls" for y using assms(1) by (rule upd_conv_take_nth_drop)
  have "live_positions ls = live_positions (take i ls @ ls ! i # drop (Suc i) ls)" using ls by simp
  then show ?thesis unfolding upd using assms(2) by (simp add: live_positions_def)
qed

text \<open>C19: the liquidation loop keeps the pool's books: if the totals are the sums over the supplied
  open loans and any other open loans, they are so afterwards with exactly the liquidated ones
  taken out.\<close>

theorem cascade_keeps_books:
  assumes "liquidation_loop real_a real_b a_to_b amount_in growth p loans n A B =
      Ok (out, price, p', loans', n')"
    "totals_match p (live_positions loans + others)"
  shows "totals_match p' (live_positions loans' + others)"
proof -
  have "\<exists>A' B'. totals_match p' (live_positions loans' + others) \<and>
      swap_quote a_to_b amount_in growth (swap_fee_bps p') A' B' = Ok (out, price) \<and>
      (\<forall>l \<in> set loans'. \<not> triggered price l)"
    using assms
  proof (rule liquidation_loop_rule)
    fix q l m a b pr i q1 m1 a1 b1
    assume I: "totals_match q (live_positions l + others)" and i: "i < length l"
      and t: "triggered pr (l ! i)"
      and r: "release_loan q (ctx_sides (l ! i)) (ctx_collateral (l ! i)) (ctx_debt_principal (l ! i)) = Ok q1"
    let ?x = "position_of_ctx (l ! i)" and ?l1 = "l[i := (l ! i)\<lparr>ctx_liquidated := True\<rparr>]"
    have live: "live_positions l = add_mset ?x (live_positions ?l1)"
      using i t by (intro live_positions_mark) (simp_all add: triggered_def)
    have "totals_match q1 (live_positions l + others - {#?x#})"
      using r by (intro totals_match_release [OF I]) (simp_all add: live position_of_ctx_def)
    then show "totals_match q1 (live_positions ?l1 + others)" unfolding live by simp
  qed
  then show ?thesis by blast
qed

theorem cascade_keeps_books_witness:
  "totals_match sampled_pool (live_positions [sample_ctx] + {#}) \<and>
   totals_match settled_pool (live_positions [sample_ctx\<lparr>ctx_liquidated := True\<rparr>] + {#})"
proof -
  have "totals_match sampled_pool (live_positions [sample_ctx] + {#})"
    by (simp add: totals_match_def live_positions_def position_of_ctx_def sample_ctx_def sampled_pool_def
        sample_pool_simps)
  then show ?thesis using cascade_keeps_books [OF sample_loop] by blast
qed

end
