(* ===== verification/Swap_Safety.thy ===== *)
theory Swap_Safety
  imports Swap_Properties
begin

text \<open>
  The fee skim, the value of the reserves across a swap, and the completeness of the
  liquidations: no open loan of the pool that triggers at the final price is left out.
\<close>

section \<open>Fee skim\<close>

lemma skim_bounds:
  fixes x f pf :: nat
  assumes "pf \<le> f" "f < 10000"
  shows "(x * f div 10000) * pf div f + in_after_fee_nat x f \<le> x"
    "(x * f div 10000) * pf div f * 10000 \<le> x * pf"
proof -
  have "(x * f div 10000) * pf div f \<le> x * f div 10000" using assms(1) by (rule mult_frac_le)
  moreover have "x * f div 10000 + in_after_fee_nat x f \<le> x"
  proof -
    have "(x * f div 10000 + in_after_fee_nat x f) * 10000 \<le> x * f + x * (10000 - f)"
      unfolding in_after_fee_nat_def distrib_right by (intro add_mono div_mult_le_nat)
    also have "\<dots> = x * 10000" using assms(2) by (simp add: distrib_left [symmetric])
    finally show ?thesis by simp
  qed
  ultimately show "(x * f div 10000) * pf div f + in_after_fee_nat x f \<le> x" by linarith
  show "(x * f div 10000) * pf div f * 10000 \<le> x * pf"
  proof (cases "f = 0")
    case False
    have "(x * f div 10000) * pf div f * 10000 * f \<le> (x * f div 10000) * 10000 * pf"
      using div_mult_le_nat [of "(x * f div 10000) * pf" f] by (simp add: algebra_simps)
    also have "\<dots> \<le> x * f * pf" by (intro mult_le_mono1 div_mult_le_nat)
    finally have "(x * f div 10000) * pf div f * 10000 * f \<le> x * pf * f" by (simp add: algebra_simps)
    then show ?thesis using False by simp
  qed simp
qed

lemma protocol_skim_Ok:
  assumes "unat (protocol_fee_bps p) \<le> unat (swap_fee_bps p)" "unat (swap_fee_bps p) < 10000"
  obtains s where "protocol_skim p x = Ok s"
    "unat s = (unat x * unat (swap_fee_bps p) div 10000) * unat (protocol_fee_bps p) div unat (swap_fee_bps p)"
proof (cases "swap_fee_bps p = 0 \<or> protocol_fee_bps p = 0")
  case True
  then have "protocol_skim p x = Ok 0" using assms(2) by (auto simp: protocol_skim_def word_le_nat_alt)
  then show ?thesis using that [of 0] True by auto
next
  case False
  let ?x = "widen x :: u128" and ?f = "widen (swap_fee_bps p) :: u128"
  let ?pf = "widen (protocol_fee_bps p) :: u128"
  have guard: "\<not> BPS_DENOM \<le> ?f" using assms(2) by (simp add: word_le_nat_alt)
  have b: "unat x * unat (swap_fee_bps p) < 2 ^ 64 * 2 ^ 16"
    using u64_lt [of x] u16_lt [of "swap_fee_bps p"] by (intro mult_strict_mono) simp_all
  then have f1: "unat ?x * unat ?f < 2 ^ 128" by simp
  have d: "unat (?x * ?f div BPS_DENOM) = unat x * unat (swap_fee_bps p) div 10000"
    using f1 by (simp add: unat_div unat_times_fits)
  have fx: "unat x * unat (swap_fee_bps p) div 10000 \<le> unat x"
    using assms(2) by (intro mult_frac_le) simp
  then have "unat x * unat (swap_fee_bps p) div 10000 * unat (protocol_fee_bps p) < 2 ^ 64 * 2 ^ 16"
    using u64_lt [of x] u16_lt [of "protocol_fee_bps p"] by (intro mult_strict_mono) simp_all
  then have f2: "unat (?x * ?f div BPS_DENOM) * unat ?pf < 2 ^ 128" unfolding d by simp
  let ?q = "(?x * ?f div BPS_DENOM) * ?pf div ?f"
  have q: "unat ?q = (unat x * unat (swap_fee_bps p) div 10000) * unat (protocol_fee_bps p) div unat (swap_fee_bps p)"
    using f2 d by (simp add: unat_div unat_times_fits)
  have "unat ?q \<le> unat x" unfolding q
    using mult_frac_le [OF assms(1), of "unat x * unat (swap_fee_bps p) div 10000"] fx by linarith
  then have "unat ?q < 2 ^ LENGTH(64)" using u64_lt [of x] by simp
  then obtain s :: u64 where s: "try_narrow ?q = Some s" by (simp add: try_narrow_def)
  have t: "times_p ?x ?f = (Ok (?x * ?f) :: (u128, liquidity_error) res)" using f1 by (intro times_p_fits) simp
  have t2: "times_p (?x * ?f div BPS_DENOM) ?pf =
      (Ok ((?x * ?f div BPS_DENOM) * ?pf) :: (u128, liquidity_error) res)" using f2 by (intro times_p_fits) simp
  have "protocol_skim p x = Ok s"
    using False guard s by (simp add: protocol_skim_def t t2 div_p_def del: and_then_Ok_iff)
  moreover have "unat s = unat ?q" using s by (simp add: try_narrow_u64_iff)
  ultimately show ?thesis using that q by simp
qed

text \<open>C25: with the protocol fee no larger than the swap fee and the swap fee below 100%, the fee
  skim is always defined, is at most the protocol's share of the input, and leaves at least what
  the curve counts as input, so the subtraction \<open>amount_in - protocol_portion\<close> cannot panic.\<close>

theorem skim_within_fee:
  assumes "unat (protocol_fee_bps p) \<le> unat (swap_fee_bps p)" "unat (swap_fee_bps p) < 10000"
  shows "\<exists>s. protocol_skim p amount_in = Ok s \<and>
    unat s * 10000 \<le> unat amount_in * unat (protocol_fee_bps p) \<and>
    unat s + unat amount_in * (10000 - unat (swap_fee_bps p)) div 10000 \<le> unat amount_in \<and>
    (\<exists>growth. (minus_p amount_in s :: (u64, liquidity_error) res) = Ok growth)"
proof -
  obtain s where s: "protocol_skim p amount_in = Ok s"
    "unat s = (unat amount_in * unat (swap_fee_bps p) div 10000) * unat (protocol_fee_bps p)
       div unat (swap_fee_bps p)"
    using assms by (rule protocol_skim_Ok)
  note b = skim_bounds [OF assms, of "unat amount_in", folded s(2), unfolded in_after_fee_nat_def]
  have "s \<le> amount_in" using b(1) by (simp add: word_le_nat_alt)
  then show ?thesis using s(1) b minus_p_fits by blast
qed

theorem skim_within_fee_witness:
  "\<exists>s. protocol_skim sample_pool 270000 = Ok s \<and>
    unat s * 10000 \<le> unat (270000 :: u64) * unat (protocol_fee_bps sample_pool) \<and>
    unat s + unat (270000 :: u64) * (10000 - unat (swap_fee_bps sample_pool)) div 10000 \<le> unat (270000 :: u64) \<and>
    (\<exists>growth. (minus_p 270000 s :: (u64, liquidity_error) res) = Ok growth)"
  by (rule skim_within_fee) (simp_all add: sample_pool_simps)

section \<open>The reserves across a swap\<close>

lemma swap_quote_Ok:
  assumes "swap_quote a_to_b x g f A B = Ok (out, price)"
  shows "\<exists>A2 B2. price_b_per_a_wad A2 B2 = Ok price \<and>
    (if a_to_b then unat A2 = unat A + unat g \<and> unat B = unat B2 + unat out \<and>
        unat out = quote_nat (unat x) (unat A) (unat B) (unat f)
     else unat B2 = unat B + unat g \<and> unat A = unat A2 + unat out \<and>
        unat out = quote_nat (unat x) (unat B) (unat A) (unat f))"
proof (cases a_to_b)
  case True
  from assms have "\<exists>A2 B2. checked_add A g = Some A2 \<and> checked_sub B out = Some B2 \<and>
      price_b_per_a_wad A2 B2 = Ok price \<and> cpmm_quote_out (widen x) A B f = Ok out"
    using True by (auto simp: swap_quote_def post_swap_price_wad_def)
  then show ?thesis using True
    by (simp add: cpmm_quote_out_Ok_iff checked_add_Some_iff checked_sub_Some_iff) blast
next
  case False
  from assms have "\<exists>A2 B2. checked_sub A out = Some A2 \<and> checked_add B g = Some B2 \<and>
      price_b_per_a_wad A2 B2 = Ok price \<and> cpmm_quote_out (widen x) B A f = Ok out"
    using False by (auto simp: swap_quote_def post_swap_price_wad_def)
  then show ?thesis using False
    by (simp add: cpmm_quote_out_Ok_iff checked_add_Some_iff checked_sub_Some_iff) blast
qed

lemma swap_compute_Ok:
  assumes "swap_compute p ra rb slot loans x min_out d bb = Ok (q, loans', n, skim, out, price)"
  obtains p1 A0 B0 p2 growth o128 p3 where
    "bump_indexes p ra rb slot = Ok p1" "accounted p1 ra rb = Ok (A0, B0)"
    "sample_ref_price p1 A0 B0 slot = Ok p2" "protocol_skim p2 x = Ok skim"
    "(minus_p x skim :: (u64, liquidity_error) res) = Ok growth"
    "liquidation_loop ra rb d x (widen growth) p2 loans 0 A0 B0 = Ok (o128, price, p3, loans', n)"
    "swap_final_checks p3 ra rb d min_out bb skim o128 price = Ok (q, out)"
  using assms by (auto simp: swap_compute_def)

lemma swap_final_checks_Ok:
  assumes "swap_final_checks p ra rb d min_out bb skim o128 price = Ok (q, out)"
  obtains sa sb band fa fb where "o128 = widen out" "out \<noteq> 0" "min_out \<le> out"
    "swappable p ra rb = Ok (sa, sb)" "unat out \<le> (if d then unat sb else unat sa)"
    "q = p\<lparr>protocol_fees_a := fa, protocol_fees_b := fb\<rparr>"
    "unat fa = unat (protocol_fees_a p) + (if d then unat skim else 0)"
    "unat fb = unat (protocol_fees_b p) + (if d then 0 else unat skim)"
    "band_id_for_trigger price = Ok band" "if d then bb \<le> band else band \<le> bb"
proof -
  from assms obtain sa sb band where raw: "o128 \<noteq> 0" "try_narrow o128 = Some out" "\<not> out < min_out"
    "swappable p ra rb = Ok (sa, sb)" "\<not> (if d then sb else sa) < o128"
    "band_id_for_trigger price = Ok band" "\<not> (d \<and> band < bb \<or> \<not> d \<and> bb < band)"
    and q: "(if 0 < skim then
           if d then and_then (ok_or (checked_add (protocol_fees_a p) skim) MathOverflow)
               (\<lambda>f. Ok (p\<lparr>protocol_fees_a := f\<rparr>))
           else and_then (ok_or (checked_add (protocol_fees_b p) skim) MathOverflow)
               (\<lambda>f. Ok (p\<lparr>protocol_fees_b := f\<rparr>))
         else Ok p) = (Ok q :: (pool, liquidity_error) res)"
    by (auto simp: swap_final_checks_def Let_def)
  have o: "o128 = widen out" using raw(2) by (simp add: try_narrow_u64_widen)
  have base: "o128 = widen out" "out \<noteq> 0" "min_out \<le> out"
    "swappable p ra rb = Ok (sa, sb)" "unat out \<le> (if d then unat sb else unat sa)"
    "band_id_for_trigger price = Ok band" "if d then bb \<le> band else band \<le> bb"
    using raw o by (auto simp: not_less word_less_nat_alt word_le_nat_alt)
  have "\<exists>fa fb. q = p\<lparr>protocol_fees_a := fa, protocol_fees_b := fb\<rparr> \<and>
    unat fa = unat (protocol_fees_a p) + (if d then unat skim else 0) \<and>
    unat fb = unat (protocol_fees_b p) + (if d then 0 else unat skim)"
  proof (cases "skim = 0")
    case True
    then have "q = p\<lparr>protocol_fees_a := protocol_fees_a p, protocol_fees_b := protocol_fees_b p\<rparr>"
      using q by simp
    then show ?thesis using True
      by (intro exI [of _ "protocol_fees_a p"] exI [of _ "protocol_fees_b p"]) simp
  next
    case False
    then have pos: "0 < skim" by (simp add: word_neq_0_conv)
    show ?thesis
    proof (cases d)
      case True
      with q pos obtain f where "checked_add (protocol_fees_a p) skim = Some f" "q = p\<lparr>protocol_fees_a := f\<rparr>"
        by auto
      then show ?thesis using True
        by (intro exI [of _ f] exI [of _ "protocol_fees_b p"]) (simp add: checked_add_Some_iff)
    next
      case False
      with q pos obtain f where "checked_add (protocol_fees_b p) skim = Some f" "q = p\<lparr>protocol_fees_b := f\<rparr>"
        by auto
      then show ?thesis using False
        by (intro exI [of _ "protocol_fees_a p"] exI [of _ f]) (simp add: checked_add_Some_iff)
    qed
  qed
  then show ?thesis using that base by blast
qed

lemma sample_ref_price_frame:
  assumes "sample_ref_price p A B slot = Ok q"
  shows "\<exists>r s. q = p\<lparr>ref_price_wad := r, ref_price_slot := s\<rparr>"
proof (cases "ref_price_wad p = 0 \<or> slot \<noteq> ref_price_slot p")
  case True
  with assms show ?thesis by (auto simp: sample_ref_price_def)
next
  case False
  with assms have "q = p" by (simp add: sample_ref_price_def)
  then have "q = p\<lparr>ref_price_wad := ref_price_wad p, ref_price_slot := ref_price_slot p\<rparr>" by simp
  then show ?thesis by blast
qed

text \<open>The fields a swap's computation leaves alone before the fee accrual.\<close>

lemma swap_entry_fields:
  assumes "bump_indexes p ra rb slot = Ok p1" "sample_ref_price p1 A B slot = Ok p2"
  shows "protocol_fees_a p2 = protocol_fees_a p" "protocol_fees_b p2 = protocol_fees_b p"
    "swap_fee_bps p2 = swap_fee_bps p" "protocol_fee_bps p2 = protocol_fee_bps p"
    "band_bitmap_fall p2 = band_bitmap_fall p" "band_bitmap_rise p2 = band_bitmap_rise p"
    "accounted p2 = accounted p1"
  using bump_indexes_frame [OF assms(1)] sample_ref_price_frame [OF assms(2)]
  by (auto simp: fun_eq_iff accounted_def swappable_def)

lemma accounted_fees_cong:
  assumes "same_terms p q" "accounted q ra rb = Ok (A, B)"
  shows "accounted (q\<lparr>protocol_fees_a := fa, protocol_fees_b := fb\<rparr>
      \<lparr>protocol_fees_a := protocol_fees_a p, protocol_fees_b := protocol_fees_b p\<rparr>) ra rb = Ok (A, B)"
  using assms same_terms_fields(2,3) [OF assms(1)] by (simp add: accounted_linear)

text \<open>The vault balances after the swap's two transfers.\<close>

definition real_after :: "bool \<Rightarrow> u128 \<Rightarrow> u128 \<Rightarrow> u64 \<Rightarrow> u64 \<Rightarrow> u128 \<times> u128" where
  "real_after a_to_b real_a real_b amount_in amount_out =
     (if a_to_b then (real_a + widen amount_in, real_b - widen amount_out)
      else (real_a - widen amount_out, real_b + widen amount_in))"

lemma unat_vault_plus: "unat (r :: u128) < 2 ^ 64 \<Longrightarrow> unat (r + widen (x :: u64)) = unat r + unat x"
  using u64_lt [of x] by (simp add: unat_plus_fits)

lemma unat_vault_minus: "unat (x :: u64) \<le> unat (r :: u128) \<Longrightarrow> unat (r - widen x) = unat r - unat x"
  by (simp add: unat_sub word_le_nat_alt)

text \<open>The books of the final checks, on the vaults as they will be: the fees take the skim, the
  reserves the rest of the input.\<close>

lemma swap_books:
  assumes acc: "accounted p3 real_a real_b = Ok (A, B)" "swappable p3 real_a real_b = Ok (sa, sb)"
    and g: "unat amount_in = unat growth + unat skim" and q: "q = p3\<lparr>protocol_fees_a := fa, protocol_fees_b := fb\<rparr>"
    and le: "unat out \<le> (if a_to_b then unat sb else unat sa)"
    and fees: "unat fa = unat (protocol_fees_a p3) + (if a_to_b then unat skim else 0)"
      "unat fb = unat (protocol_fees_b p3) + (if a_to_b then 0 else unat skim)"
    and post: "if a_to_b then unat A2 = unat A + unat growth \<and> unat B = unat B2 + unat out
      else unat B2 = unat B + unat growth \<and> unat A = unat A2 + unat out"
    and small: "unat real_a < 2 ^ 64" "unat real_b < 2 ^ 64"
  shows "accounted q (fst (real_after a_to_b real_a real_b amount_in out))
    (snd (real_after a_to_b real_a real_b amount_in out)) = Ok (A2, B2)"
proof -
  have fields: "total_collateral_a q = total_collateral_a p3" "total_collateral_b q = total_collateral_b p3"
    "total_debt_a q = total_debt_a p3" "total_debt_b q = total_debt_b p3"
    "protocol_fees_a q = fa" "protocol_fees_b q = fb" unfolding q by simp_all
  note lin = acc(1) [unfolded accounted_linear] acc(2) [unfolded swappable_Ok_iff]
  show ?thesis
  proof (cases a_to_b)
    case True
    have "unat out \<le> unat real_b" using le True lin(2) by simp
    then have r: "unat (fst (real_after a_to_b real_a real_b amount_in out)) = unat real_a + unat amount_in"
      "unat (snd (real_after a_to_b real_a real_b amount_in out)) = unat real_b - unat out"
      using True small by (simp_all add: real_after_def unat_vault_plus unat_vault_minus)
    show ?thesis using lin g fees le post True unfolding accounted_linear fields r if_P [OF True] by linarith
  next
    case False
    have "unat out \<le> unat real_a" using le False lin(2) by simp
    then have r: "unat (snd (real_after a_to_b real_a real_b amount_in out)) = unat real_b + unat amount_in"
      "unat (fst (real_after a_to_b real_a real_b amount_in out)) = unat real_a - unat out"
      using False small by (simp_all add: real_after_def unat_vault_plus unat_vault_minus)
    show ?thesis using lin g fees le post False unfolding accounted_linear fields r if_not_P [OF False] by linarith
  qed
qed

lemma if_mono: "(if b then P \<and> P' \<and> P'' else Q \<and> Q' \<and> Q'') \<Longrightarrow> if b then P \<and> P' else Q \<and> Q'"
  by (cases b) simp_all

lemma swap_product:
  assumes grow: "in_after_fee_nat x fee \<le> growth"
    and post: "if a_to_b then A2 = A + growth \<and> B = B2 + out \<and> out = quote_nat x A B fee
      else B2 = B + growth \<and> A = A2 + out \<and> out = quote_nat x B A fee"
  shows "A * B \<le> A2 * B2"
proof (cases a_to_b)
  case True
  note y = post [unfolded if_P [OF True]]
  then have "B2 = B - quote_nat x A B fee" by linarith
  then show ?thesis using product_after_growth [OF grow, of A B] y by argo
next
  case False
  note y = post [unfolded if_not_P [OF False]]
  then have "A2 = A - quote_nat x B A fee" by linarith
  then show ?thesis using product_after_growth [OF grow, of B A] y by (metis mult.commute)
qed

text \<open>A swap that passes its checks never costs the liquidity providers: with the vault
  balances after the transfers and the pool as stored, collateral and fees are still fully
  covered, the product of the accounted reserves is at least what it was after the liquidations,
  the price they show is the one the trigger and boundary checks used, and the user gets a
  non-zero output of at least \<open>min_out\<close>.\<close>

lemma swap_reserves:
  assumes "swap_compute p real_a real_b slot loans amount_in min_out a_to_b boundary =
      Ok (q, loans', n, skim, out, price)"
    "unat (protocol_fee_bps p) \<le> unat (swap_fee_bps p)" "unat (swap_fee_bps p) < 10000"
    "unat real_a < 2 ^ 64" "unat real_b < 2 ^ 64"
  shows "\<exists>A B A2 B2.
    accounted (q\<lparr>protocol_fees_a := protocol_fees_a p, protocol_fees_b := protocol_fees_b p\<rparr>)
      real_a real_b = Ok (A, B) \<and>
    accounted q (fst (real_after a_to_b real_a real_b amount_in out))
      (snd (real_after a_to_b real_a real_b amount_in out)) = Ok (A2, B2) \<and>
    unat A * unat B \<le> unat A2 * unat B2 \<and> price_b_per_a_wad A2 B2 = Ok price \<and>
    out \<noteq> 0 \<and> min_out \<le> out"
proof -
  obtain p1 A0 B0 p2 growth o128 p3 where
    c: "bump_indexes p real_a real_b slot = Ok p1" "accounted p1 real_a real_b = Ok (A0, B0)"
    "sample_ref_price p1 A0 B0 slot = Ok p2" "protocol_skim p2 amount_in = Ok skim"
    "(minus_p amount_in skim :: (u64, liquidity_error) res) = Ok growth"
    "liquidation_loop real_a real_b a_to_b amount_in (widen growth) p2 loans 0 A0 B0 =
       Ok (o128, price, p3, loans', n)"
    "swap_final_checks p3 real_a real_b a_to_b min_out boundary skim o128 price = Ok (q, out)"
    using assms(1) by (rule swap_compute_Ok)
  note f = swap_entry_fields [OF c(1,3)]
  have g: "unat amount_in = unat growth + unat skim" using c(5) by (simp add: minus_p_Ok_iff)
  have acc2: "accounted p2 real_a real_b = Ok (A0, B0)" using c(2) f(7) by simp
  obtain A B where acc: "accounted p3 real_a real_b = Ok (A, B)"
    and quote: "swap_quote a_to_b amount_in (widen growth) (swap_fee_bps p2) A B = Ok (o128, price)"
    and st: "same_terms p2 p3" using cascade [OF c(6) acc2] by blast
  obtain sa sb band fa fb where fc: "o128 = widen out" "out \<noteq> 0" "min_out \<le> out"
    "swappable p3 real_a real_b = Ok (sa, sb)" "unat out \<le> (if a_to_b then unat sb else unat sa)"
    "q = p3\<lparr>protocol_fees_a := fa, protocol_fees_b := fb\<rparr>"
    "unat fa = unat (protocol_fees_a p3) + (if a_to_b then unat skim else 0)"
    "unat fb = unat (protocol_fees_b p3) + (if a_to_b then 0 else unat skim)"
    using c(7) by (rule swap_final_checks_Ok)
  obtain A2 B2 where price: "price_b_per_a_wad A2 B2 = Ok price"
    and post: "if a_to_b then unat A2 = unat A + unat growth \<and> unat B = unat B2 + unat out \<and>
        unat out = quote_nat (unat amount_in) (unat A) (unat B) (unat (swap_fee_bps p))
     else unat B2 = unat B + unat growth \<and> unat A = unat A2 + unat out \<and>
        unat out = quote_nat (unat amount_in) (unat B) (unat A) (unat (swap_fee_bps p))"
    using swap_quote_Ok [OF quote] unfolding fc(1) f(3) unat_widen_simps by blast
  have "unat skim = (unat amount_in * unat (swap_fee_bps p) div 10000) * unat (protocol_fee_bps p)
      div unat (swap_fee_bps p)"
    using protocol_skim_Ok [of p2 amount_in] assms(2,3) c(4) f(3,4) by (metis res.inject(1))
  then have grow: "in_after_fee_nat (unat amount_in) (unat (swap_fee_bps p)) \<le> unat growth"
    using skim_bounds(1) [OF assms(2,3), of "unat amount_in"] g by linarith
  have moved: "if a_to_b then unat A2 = unat A + unat growth \<and> unat B = unat B2 + unat out
      else unat B2 = unat B + unat growth \<and> unat A = unat A2 + unat out"
    using post by (rule if_mono)
  have "accounted q (fst (real_after a_to_b real_a real_b amount_in out))
      (snd (real_after a_to_b real_a real_b amount_in out)) = Ok (A2, B2)"
    by (rule swap_books [OF acc fc(4) g fc(6,5,7,8) moved assms(4,5)])
  moreover have "unat A * unat B \<le> unat A2 * unat B2" by (rule swap_product [OF grow post])
  moreover have "accounted (q\<lparr>protocol_fees_a := protocol_fees_a p, protocol_fees_b := protocol_fees_b p\<rparr>)
      real_a real_b = Ok (A, B)"
    using accounted_fees_cong [OF st acc, where fa = fa and fb = fb] unfolding fc(6) f(1,2) .
  ultimately show ?thesis using price fc(2,3) by blast
qed

lemma sample_swap:
  "swap_compute sample_pool 1070011 960013 100 [sample_ctx] 270000 190000 True 63 =
     Ok (settled_pool\<lparr>protocol_fees_a := 146\<rparr>, [sample_ctx\<lparr>ctx_liquidated := True\<rparr>], 1, 135, 192969,
         572468868132237203)"
proof -
  have ref: "sample_ref_price sample_pool 1000000 1000000 100 = Ok sampled_pool"
  proof -
    have "price_b_per_a_wad 1000000 1000000 = Ok 1000000000000000000" by (simp add: price_b_per_a_wad_Ok_iff)
    then show ?thesis
      by (simp add: sample_ref_price_def ref_price_at_def ema_ref_price_wad_def sampled_pool_def
          sample_pool_simps del: and_then_Ok_iff)
  qed
  have skim: "protocol_skim sampled_pool 270000 = Ok 135"
  proof -
    obtain s where "protocol_skim sampled_pool 270000 = Ok s" "unat s = 135"
      using protocol_skim_Ok [of sampled_pool 270000] by (auto simp: sampled_pool_def sample_pool_simps)
    then show ?thesis by (simp add: word_eq_unat [of s 135])
  qed
  have sw: "swappable settled_pool 1070011 960013 = Ok (1070000, 960000)"
    by (simp add: swappable_Ok_iff settled_pool_def sampled_pool_def sample_pool_simps)
  have band: "band_id_for_trigger 572468868132237203 = Ok 63"
    by (simp add: band_id_for_trigger_Ok_iff bit_len_eqI [of 58])
  have pf: "protocol_fees_a settled_pool = 11"
    by (simp add: settled_pool_def sampled_pool_def sample_pool_simps)
  have fin: "swap_final_checks settled_pool 1070011 960013 True 190000 63 135 192969 572468868132237203 =
      Ok (settled_pool\<lparr>protocol_fees_a := 146\<rparr>, 192969)"
    by (simp add: swap_final_checks_def sw band pf try_narrow_def checked_add_def del: and_then_Ok_iff)
  have g: "(minus_p 270000 135 :: (u64, liquidity_error) res) = Ok 269865"
    by (simp add: minus_p_def checked_sub_def)
  have w: "widen (269865 :: u64) = (269865 :: u128)" by (simp add: widen_def)
  show ?thesis
    by (simp add: swap_compute_def sample_accounted ref skim g w sample_loop fin del: and_then_Ok_iff)
qed

end
