(* ===== verification/Swap_Completeness.thy ===== *)
theory Swap_Completeness
  imports Swap_Safety
begin

text \<open>
  The completeness argument of \<open>swap.rs\<close>. A swap is handed bands and loans by its caller;
  the bitmap says which bands are populated, a band's counter says how many loans it has. If
  these indexes describe the open loans correctly, then a swap that gets through parsing, the
  completeness check and its final checks has seen every open loan of its direction that
  triggers at the final price.
\<close>

section \<open>Open loans and the index invariant\<close>

text \<open>An account that holds an open loan of the pool in the given direction.\<close>

definition open_loan_at :: "pubkey \<Rightarrow> world \<Rightarrow> pubkey \<Rightarrow> u8 \<Rightarrow> pubkey \<Rightarrow> loan \<Rightarrow> bool" where
  "open_loan_at program_id w pool_key dir_byte k l \<longleftrightarrow>
     owner (ledger w k) = program_id \<and> loan_try_from_slice (data (ledger w k)) = Some l \<and>
     loan_is_initialized l \<and> loan_pool l = pool_key \<and> is_open l \<and>
     loan_trigger_direction l = dir_byte"

definition band_members :: "pubkey \<Rightarrow> world \<Rightarrow> pubkey \<Rightarrow> u8 \<Rightarrow> u32 \<Rightarrow> pubkey set" where
  "band_members program_id w pool_key dir_byte bid =
     {k. \<exists>l. open_loan_at program_id w pool_key dir_byte k l \<and> loan_band_id l = bid}"

text \<open>The indexes are right: an open loan sits in the band of its trigger price and that band's bit
  is set; a band account counts exactly the members of its band.\<close>

definition index_ok :: "pubkey \<Rightarrow> world \<Rightarrow> pubkey \<Rightarrow> u8 \<Rightarrow> bytes \<Rightarrow> bool" where
  "index_ok program_id w pool_key dir_byte bitmap \<longleftrightarrow>
     (\<forall>k l. open_loan_at program_id w pool_key dir_byte k l \<longrightarrow>
        bitmap_is_set bitmap (loan_band_id l) \<and>
        band_id_for_trigger (loan_trigger_price_wad l) = Ok (loan_band_id l)) \<and>
     (\<forall>k b. owner (ledger w k) = program_id \<and>
        loan_index_band_try_from_slice (data (ledger w k)) = Some b \<and> band_is_initialized b \<and>
        band_pool b = pool_key \<and> band_direction b = dir_byte \<longrightarrow>
        finite (band_members program_id w pool_key dir_byte (band_band_id b)) \<and>
        card (band_members program_id w pool_key dir_byte (band_band_id b)) = unat (band_count b))"

section \<open>What parsing establishes\<close>

text \<open>A context describes the loan stored in the account it points to.\<close>

definition ctx_describes :: "account_info list \<Rightarrow> world \<Rightarrow> loan_ctx \<Rightarrow> bool" where
  "ctx_describes accounts w c \<longleftrightarrow>
     (\<exists>l. loan_try_from_slice (data (ledger w (key (accounts ! ctx_loan_idx c)))) = Some l \<and>
        ctx_trigger_wad c = loan_trigger_price_wad l \<and>
        trigger_direction_from_u8 (loan_trigger_direction l) = Ok (ctx_direction c) \<and>
        loan_sides_from_u8 (loan_sides l) = Ok (ctx_sides c) \<and>
        ctx_collateral c = loan_collateral_amount l \<and> ctx_debt_principal c = loan_debt_principal l)"

lemma parse_loans_step:
  assumes "parse_loans pid w accounts pk bid d prev (i # idxs) = Ok cs"
  obtains c rest l where "cs = c # rest" "ctx_loan_idx c = i" "prev < key (accounts ! i)"
    "open_loan_at pid w pk d (key (accounts ! i)) l" "loan_band_id l = bid"
    "ctx_describes accounts w c"
    "parse_loans pid w accounts pk bid d (key (accounts ! i)) idxs = Ok rest"
proof -
  from assms obtain l dir sides rest where l: "owner (ledger w (key (accounts ! i))) = pid"
      "prev < key (accounts ! i)" "loan_try_from_slice (data (ledger w (key (accounts ! i)))) = Some l"
      "loan_is_initialized l" "loan_pool l = pk" "is_open l" "loan_band_id l = bid"
      "loan_trigger_direction l = d" "trigger_direction_from_u8 (loan_trigger_direction l) = Ok dir"
      "loan_sides_from_u8 (loan_sides l) = Ok sides"
    and rest: "parse_loans pid w accounts pk bid d (key (accounts ! i)) idxs = Ok rest"
    and cs: "cs = \<lparr>ctx_loan_idx = i, ctx_trigger_wad = loan_trigger_price_wad l,
        ctx_direction = dir, ctx_sides = sides, ctx_collateral = loan_collateral_amount l,
        ctx_debt_principal = loan_debt_principal l, ctx_liquidated = False\<rparr> # rest"
    unfolding parse_loans.simps Let_def guard_Ok_iff and_then_Ok_iff into_Ok_iff load_loan_def
      acct_def ok_or_Ok_iff not_le de_Morgan_disj not_not res.inject by blast
  show ?thesis
  proof (rule that [OF cs _ l(2) _ l(7) _ rest])
    show "open_loan_at pid w pk d (key (accounts ! i)) l" using l by (simp add: open_loan_at_def)
    show "ctx_describes accounts w \<lparr>ctx_loan_idx = i, ctx_trigger_wad = loan_trigger_price_wad l,
        ctx_direction = dir, ctx_sides = sides, ctx_collateral = loan_collateral_amount l,
        ctx_debt_principal = loan_debt_principal l, ctx_liquidated = False\<rparr>"
      using l by (simp add: ctx_describes_def)
  qed simp
qed

lemma parse_loans_Ok:
  assumes "parse_loans pid w accounts pk bid d prev idxs = Ok cs"
  shows "map ctx_loan_idx cs = idxs \<and> distinct (map (\<lambda>i. key (accounts ! i)) idxs) \<and>
    (\<forall>i \<in> set idxs. prev < key (accounts ! i) \<and> key (accounts ! i) \<in> band_members pid w pk d bid) \<and>
    (\<forall>c \<in> set cs. ctx_describes accounts w c)"
  using assms
proof (induction idxs arbitrary: prev cs)
  case (Cons i idxs)
  from Cons.prems obtain c rest l where s: "cs = c # rest" "ctx_loan_idx c = i"
    "prev < key (accounts ! i)" "open_loan_at pid w pk d (key (accounts ! i)) l" "loan_band_id l = bid"
    "ctx_describes accounts w c"
    "parse_loans pid w accounts pk bid d (key (accounts ! i)) idxs = Ok rest"
    by (rule parse_loans_step)
  from s(4,5) have m: "key (accounts ! i) \<in> band_members pid w pk d bid"
    by (auto simp: band_members_def)
  note IH = Cons.IH [OF s(7)]
  have lt: "prev < key (accounts ! j)" if "j \<in> set idxs" for j
    using IH that s(3) by (meson less_trans)
  show ?case using IH s(1-3,6) m lt by auto
qed simp

text \<open>Pigeonhole: as many distinct members as the band counts are all of its members.\<close>

lemma parsed_band_complete:
  assumes "parse_band e pid w pk d ids band_info k = Ok b"
    and "parse_loans pid w accounts pk (band_band_id b) d 0 idxs = Ok cs" "length idxs = k"
    and "index_ok pid w pk d bitmap"
  shows "(\<lambda>c. key (accounts ! ctx_loan_idx c)) ` set cs = band_members pid w pk d (band_band_id b)"
proof -
  let ?M = "band_members pid w pk d (band_band_id b)"
  from assms(1) have b: "owner (ledger w (key band_info)) = pid"
    "loan_index_band_try_from_slice (data (ledger w (key band_info))) = Some b" "band_is_initialized b"
    "band_pool b = pk" "band_direction b = d" "unat (band_count b) = k"
    by (auto simp: parse_band_def load_band_def acct_def)
  then have M: "finite ?M" "card ?M = k" using assms(4) unfolding index_ok_def by blast+
  from parse_loans_Ok [OF assms(2)] have pl: "map ctx_loan_idx cs = idxs"
    "distinct (map (\<lambda>i. key (accounts ! i)) idxs)"
    "\<forall>i \<in> set idxs. key (accounts ! i) \<in> ?M" by blast+
  have "(\<lambda>c. key (accounts ! ctx_loan_idx c)) ` set cs = (\<lambda>i. key (accounts ! i)) ` set idxs"
    unfolding pl(1) [symmetric] by (simp add: image_image)
  also have "\<dots> = ?M"
  proof (rule card_subset_eq [OF M(1)])
    show "(\<lambda>i. key (accounts ! i)) ` set idxs \<subseteq> ?M" using pl(3) by blast
    have "card (set (map (\<lambda>i. key (accounts ! i)) idxs)) = length idxs"
      using distinct_card [OF pl(2)] by simp
    then show "card ((\<lambda>i. key (accounts ! i)) ` set idxs) = card ?M" using M(2) assms(3) by simp
  qed
  finally show ?thesis .
qed

lemma parse_bands_complete:
  assumes "parse_bands e pid w accounts pk d ids cursor ks = Ok (bands, cs, ids', cur)"
    and "index_ok pid w pk d bitmap"
  shows "set ids \<subseteq> set ids' \<and>
    (\<forall>bid \<in> set ids' - set ids. \<forall>k \<in> band_members pid w pk d bid.
       \<exists>c \<in> set cs. key (accounts ! ctx_loan_idx c) = k) \<and>
    (\<forall>c \<in> set cs. ctx_describes accounts w c)"
  using assms(1)
proof (induction ks arbitrary: ids cursor bands cs ids' cur)
  case (Cons k_u8 ks)
  let ?k = "unat k_u8"
  let ?idxs = "[cursor + 1 ..< cursor + 1 + ?k]"
  from Cons.prems obtain b cs1 bands2 cs2 where
    pb: "parse_band e pid w pk d ids (accounts ! cursor) ?k = Ok b"
    and pl: "parse_loans pid w accounts pk (band_band_id b) d 0 ?idxs = Ok cs1"
    and rest: "parse_bands e pid w accounts pk d (ids @ [band_band_id b]) (cursor + (1 + ?k)) ks =
      Ok (bands2, cs2, ids', cur)"
    and cs: "cs = cs1 @ cs2"
    by (auto simp: Let_def)
  have band: "(\<lambda>c. key (accounts ! ctx_loan_idx c)) ` set cs1 = band_members pid w pk d (band_band_id b)"
    by (rule parsed_band_complete [OF pb pl _ assms(2)]) simp
  have hd: "\<exists>c \<in> set cs. key (accounts ! ctx_loan_idx c) = k"
    if "k \<in> band_members pid w pk d (band_band_id b)" for k
    using that unfolding band [symmetric] cs by auto
  show ?case
    using Cons.IH [OF rest] hd parse_loans_Ok [OF pl] unfolding cs by fastforce
qed simp

section \<open>No triggered loan is left out\<close>

text \<open>A loan that triggers at the final price lies in a band the completeness check requires.\<close>

lemma triggered_band_required:
  assumes "is_liquidatable t (expected_direction d) price" "band_id_for_trigger t = Ok bid"
    "band_id_for_trigger price = Ok band" "if d then bb \<le> band else band \<le> bb"
    "bitmap_is_set bitmap bid"
  shows "bid \<in> set (if d then bitmap_iter_set_range bitmap bb (- 1) else bitmap_iter_set_range bitmap 0 bb)"
proof (cases d)
  case True
  with assms(1) have "unat price \<le> unat t" by (simp add: expected_direction_def word_le_nat_alt)
  from band_id_mono [OF assms(3,2) this] True assms(4) have "bb \<le> bid" by simp
  then show ?thesis using True assms(5) by (simp add: bitmap.iter_set)
next
  case False
  with assms(1) have "unat t \<le> unat price" by (simp add: expected_direction_def word_le_nat_alt)
  from band_id_mono [OF assms(2,3) this] False assms(4) have "bid \<le> bb" by simp
  then show ?thesis using False assms(5) by (simp add: bitmap.iter_set)
qed

lemma check_completeness_Ok:
  assumes "check_completeness p d bb ids = Ok u"
    "band_bitmap p (direction_byte (expected_direction d)) = Ok bitmap"
  shows "set (if d then bitmap_iter_set_range bitmap bb (- 1) else bitmap_iter_set_range bitmap 0 bb)
    \<subseteq> set ids"
  using assms by (auto simp: check_completeness_def Let_def list_all_iff split: if_splits)

lemma unmark_member:
  assumes "map unmark xs = map unmark ys" "c \<in> set ys"
  obtains c' where "c' \<in> set xs" "unmark c' = unmark c"
proof -
  from assms(2) have "unmark c \<in> set (map unmark ys)" by simp
  then show ?thesis using that unfolding assms(1) [symmetric] by auto
qed

lemma unmark_fields:
  assumes "unmark c' = unmark c"
  shows "ctx_loan_idx c' = ctx_loan_idx c" "ctx_trigger_wad c' = ctx_trigger_wad c"
    "ctx_direction c' = ctx_direction c" "ctx_describes accounts w c' = ctx_describes accounts w c"
proof -
  have "ctx_loan_idx (unmark c') = ctx_loan_idx (unmark c)" "ctx_trigger_wad (unmark c') = ctx_trigger_wad (unmark c)"
    "ctx_direction (unmark c') = ctx_direction (unmark c)" "ctx_sides (unmark c') = ctx_sides (unmark c)"
    "ctx_collateral (unmark c') = ctx_collateral (unmark c)"
    "ctx_debt_principal (unmark c') = ctx_debt_principal (unmark c)" by (simp_all only: assms)
  then show "ctx_loan_idx c' = ctx_loan_idx c" "ctx_trigger_wad c' = ctx_trigger_wad c"
    "ctx_direction c' = ctx_direction c" "ctx_describes accounts w c' = ctx_describes accounts w c"
    by (simp_all add: unmark_def ctx_describes_def)
qed

text \<open>The completeness guarantee of the swap. Suppose the pool's indexes describe its open
  loans (\<open>index_ok\<close>), the caller's bands and loans parse, they pass the bitmap check and the
  computation ends in an accepted quote. Then every open loan of the swap's direction, supplied
  or not, that triggers at the final price is among the supplied ones and is marked for
  liquidation: a caller cannot leave a triggered loan out.\<close>

lemma triggered_loans_marked:
  assumes "band_bitmap p (direction_byte (expected_direction a_to_b)) = Ok bitmap"
    and "index_ok program_id w pool_key (direction_byte (expected_direction a_to_b)) bitmap"
    and "parse_bands e program_id w accounts pool_key (direction_byte (expected_direction a_to_b)) []
      FIXED_PREFIX_LEN counts = Ok (bands, loans, ids, cursor)"
    and "check_completeness p a_to_b band_boundary ids = Ok ()"
    and "swap_compute p real_a real_b slot loans amount_in min_out a_to_b band_boundary =
      Ok (q, loans', n, skim, out, price)"
    and "open_loan_at program_id w pool_key (direction_byte (expected_direction a_to_b)) k l"
    and "is_liquidatable (loan_trigger_price_wad l) (expected_direction a_to_b) price"
  shows "\<exists>c \<in> set loans'. key (accounts ! ctx_loan_idx c) = k \<and> ctx_liquidated c"
proof -
  let ?d = "direction_byte (expected_direction a_to_b)"
  from assms(5) obtain p1 A0 B0 p2 growth o128 p3 where
    bump: "bump_indexes p real_a real_b slot = Ok p1" and acc: "accounted p1 real_a real_b = Ok (A0, B0)" and ref: "sample_ref_price p1 A0 B0 slot = Ok p2"
    and "protocol_skim p2 amount_in = Ok skim"
    and "(minus_p amount_in skim :: (u64, liquidity_error) res) = Ok growth"
    and loop: "liquidation_loop real_a real_b a_to_b amount_in (widen growth) p2 loans 0 A0 B0 =
      Ok (o128, price, p3, loans', n)"
    and fin: "swap_final_checks p3 real_a real_b a_to_b min_out band_boundary skim o128 price = Ok (q, out)"
    by (rule swap_compute_Ok)
  have "accounted p2 real_a real_b = Ok (A0, B0)" using swap_entry_fields(7) [OF bump ref] acc by simp
  from cascade [OF loop this] have
    over: "\<forall>c \<in> set loans'. \<not> triggered price c" "map unmark loans' = map unmark loans" by blast+
  obtain band where band: "band_id_for_trigger price = Ok band"
    "if a_to_b then band_boundary \<le> band else band \<le> band_boundary"
    by (rule swap_final_checks_Ok [OF fin])
  from assms(2,6) have idx: "bitmap_is_set bitmap (loan_band_id l)"
    "band_id_for_trigger (loan_trigger_price_wad l) = Ok (loan_band_id l)"
    unfolding index_ok_def by blast+
  have "loan_band_id l \<in> set ids"
    using triggered_band_required [OF assms(7) idx(2) band idx(1)]
      check_completeness_Ok [OF assms(4,1)] by blast
  moreover have "k \<in> band_members program_id w pool_key ?d (loan_band_id l)"
    using assms(6) by (auto simp: band_members_def)
  ultimately obtain c where c: "c \<in> set loans" "key (accounts ! ctx_loan_idx c) = k"
    "ctx_describes accounts w c" using parse_bands_complete [OF assms(3,2)] by fastforce
  obtain c' where c': "c' \<in> set loans'" "unmark c' = unmark c"
    using unmark_member [OF over(2) c(1)] .
  note f = unmark_fields [OF c'(2)]
  have "loan_try_from_slice (data (ledger w k)) = Some l" "loan_trigger_direction l = ?d"
    using assms(6) by (simp_all add: open_loan_at_def)
  then have "ctx_trigger_wad c' = loan_trigger_price_wad l" "ctx_direction c' = expected_direction a_to_b"
    using c(2,3) f
    by (auto simp: ctx_describes_def trigger_direction_from_u8_def expected_direction_def split: if_splits)
  then have "ctx_liquidated c'" using over(1) c'(1) assms(7) by (auto simp: triggered_def)
  then show ?thesis using c'(1) c(2) f(1) by (intro bexI [of _ c']) simp_all
qed

section \<open>The guarantee at work\<close>

lemma sample_owned: "owner (sample_ledger p k) = 99 \<longleftrightarrow> k = 2 \<or> k = 20 \<or> k = 164"
  by (simp add: sample_ledger_def sample_mint_def sample_token_def plain_def SPL_TOKEN_PROGRAM_ID_def)

lemma sample_data:
  "data (sample_ledger p 2) = pool_bytes p" "data (sample_ledger p 20) = loan_bytes sample_loan"
  "data (sample_ledger p 164) = loan_index_band_bytes sample_band"
  by (simp_all add: sample_ledger_def)

lemma sample_ledger_of [simp]: "ledger (sample_world p) = sample_ledger p"
  by (simp add: sample_world_def)

lemma sample_account_kinds:
  "loan_try_from_slice (data (sample_ledger sample_pool 2)) = None"
  "loan_try_from_slice (data (sample_ledger sample_pool 20)) = Some sample_loan"
  "loan_try_from_slice (data (sample_ledger sample_pool 164)) = None"
  "loan_index_band_try_from_slice (data (sample_ledger sample_pool 2)) = None"
  "loan_index_band_try_from_slice (data (sample_ledger sample_pool 20)) = None"
  "loan_index_band_try_from_slice (data (sample_ledger sample_pool 164)) = Some sample_band"
  unfolding sample_data
  by (simp_all add: loan_codec.dec_enc band_codec.dec_enc loan_codec.dec_wrong_length
      band_codec.dec_wrong_length length_pool_bytes length_loan_bytes length_loan_index_band_bytes
      POOL_LEN_def LOAN_LEN_def LOAN_INDEX_BAND_LEN_def)

lemma sample_open_loan:
  "open_loan_at 99 (sample_world sample_pool) 2 0 k l \<longleftrightarrow> k = 20 \<and> l = sample_loan"
  by (auto simp: open_loan_at_def sample_owned sample_account_kinds is_open_def)
    (simp_all add: sample_loan_def)

lemma sample_index_ok:
  "index_ok 99 (sample_world sample_pool) 2 0 (band_bitmap_fall sample_pool)"
proof -
  have f: "loan_band_id sample_loan = 64" "loan_trigger_price_wad sample_loan = 628571428571428571"
    "band_band_id sample_band = 64" "band_count sample_band = 1"
    by (simp_all add: sample_loan_def sample_band_def)
  have m: "band_members 99 (sample_world sample_pool) 2 0 64 = {20}"
    by (auto simp: band_members_def sample_open_loan f)
  have "bitmap_is_set (band_bitmap_fall sample_pool) 64"
    by (simp add: bitmap_is_set_iff sample_pool_simps nth_append)
  moreover have "band_id_for_trigger 628571428571428571 = Ok 64"
    by (simp add: band_id_for_trigger_Ok_iff bit_len_eqI [of 59])
  ultimately show ?thesis
    by (auto simp: index_ok_def sample_open_loan sample_owned sample_account_kinds f m)
qed

definition sample_swap_accounts :: "account_info list" where
  "sample_swap_accounts = [info 2, info 5, info 6, info 10, info 11, info 3, info 4, signer 8,
     info SPL_TOKEN_PROGRAM_ID, info SPL_TOKEN_PROGRAM_ID, info 164, info 20]"

lemma sample_parse:
  "parse_bands sample_env 99 (sample_world sample_pool) sample_swap_accounts 2 0 [] FIXED_PREFIX_LEN [1] =
     Ok ([\<lparr>ctx_band_idx = 10, ctx_loan_idxs = [11]\<rparr>], [sample_ctx], [64], 12)"
proof -
  have b: "band_pool sample_band = 2" "band_direction sample_band = 0" "band_band_id sample_band = 64"
    "band_count sample_band = 1" "band_bump sample_band = 255"
    by (simp_all add: sample_band_def)
  have l: "loan_pool sample_loan = 2" "is_open sample_loan" "loan_band_id sample_loan = 64"
    "loan_trigger_direction sample_loan = 0" "loan_sides sample_loan = 0"
    "loan_trigger_price_wad sample_loan = 628571428571428571"
    "loan_collateral_amount sample_loan = 70000" "loan_debt_principal sample_loan = 40000"
    by (simp_all add: sample_loan_def is_open_def)
  have addr: "create_program_address sample_env [BAND_SEED, put_key 2, [0], put_word 4 (64 :: u32), [255]] 99 =
    Some 164" by (simp add: sample_find_def put_word_def POOL_SEED_def VAULT_A_SEED_def VAULT_B_SEED_def
      LP_MINT_SEED_def LOAN_SEED_def BAND_SEED_def le_nat_le_bytes)
  have band: "parse_band sample_env 99 (sample_world sample_pool) 2 0 [] (info 164) (Suc 0) = Ok sample_band"
    by (simp add: parse_band_def sample_owned b addr del: and_then_Ok_iff sample_env_simps)
  show ?thesis
    by (simp add: FIXED_PREFIX_LEN_def sample_swap_accounts_def band l sample_owned sample_ctx_def
       trigger_direction_from_u8_def loan_sides_from_u8_def Let_def b upt_rec del: and_then_Ok_iff)
qed

lemma sample_complete: "check_completeness sample_pool True 63 [64] = Ok ()"
proof -
  have "set (bitmap_iter_set_range (band_bitmap_fall sample_pool) 63 (- 1)) \<subseteq> {64}"
  proof
    fix i assume "i \<in> set (bitmap_iter_set_range (band_bitmap_fall sample_pool) 63 (- 1))"
    then have "bitmap_is_set (band_bitmap_fall sample_pool) i" by (simp add: bitmap.iter_set)
    then have i: "unat i \<le> 127" "bit (band_bitmap_fall sample_pool ! (unat i div 8)) (unat i mod 8)"
      by (simp_all add: bitmap_is_set_iff)
    have "unat i div 8 = 8 \<and> unat i mod 8 = 0"
      using i by (auto simp: sample_pool_simps nth_append nth_Cons bit_1_iff split: if_splits nat.splits)
    then have "unat i = 64" by presburger
    then show "i \<in> {64}" by (simp add: word_eq_unat)
  qed
  then show ?thesis
    by (auto simp: check_completeness_def expected_direction_def band_bitmap_def list_all_iff)
qed

end
