(* ===== verification/Swap_Refinement.thy ===== *)
theory Swap_Refinement
  imports Handler_Refinement Swap_Completeness
begin

text \<open>
  The swap implements the \<open>liquidated\<close> transition: the accounts it parses are entries of the
  books, the loop's releases are the removal of the liquidated positions from the totals, and
  the persisted loans, bands and bits are the ones of the transition. Together with the
  completeness argument this gives the swap's end-to-end guarantee.
\<close>

section \<open>What parsing establishes, in terms of the books\<close>

definition ctx_key :: "account_info list \<Rightarrow> loan_ctx \<Rightarrow> pubkey" where
  "ctx_key accounts c = key (accounts ! ctx_loan_idx c)"

definition ctx_ok :: "pubkey \<Rightarrow> world \<Rightarrow> account_info list \<Rightarrow> pubkey \<Rightarrow> u8 \<Rightarrow> u32 \<Rightarrow> loan_ctx \<Rightarrow> bool" where
  "ctx_ok pid w accounts pk d bid c \<longleftrightarrow> \<not> ctx_liquidated c \<and>
     (\<exists>l. loans pid w (ctx_key accounts c) = Some l \<and> is_open l \<and> loan_pool l = pk \<and>
        loan_trigger_direction l = d \<and> loan_band_id l = bid \<and> position_of l = position_of_ctx c \<and>
        ctx_trigger_wad c = loan_trigger_price_wad l \<and> trigger_direction_from_u8 d = Ok (ctx_direction c))"

lemma open_loan_at_iff:
  "open_loan_at pid w pk d k l \<longleftrightarrow> loans pid w k = Some l \<and> is_open l \<and> loan_pool l = pk \<and>
     loan_trigger_direction l = d"
  by (auto simp: open_loan_at_def loans_Some loan_try_from_slice_Some)

lemma band_members_open_in: "band_members pid w pk d bid = open_in (books_of pid w) pk d bid"
  by (auto simp: band_members_def open_in_def open_loan_at_iff)

lemma parse_loans_unmarked:
  "parse_loans pid w accounts pk bid d prev idxs = Ok cs \<Longrightarrow> \<forall>c \<in> set cs. \<not> ctx_liquidated c"
proof (induction idxs arbitrary: prev cs)
  case (Cons i idxs)
  from Cons.prems obtain c rest where "cs = c # rest" "\<not> ctx_liquidated c"
    "parse_loans pid w accounts pk bid d (key (accounts ! i)) idxs = Ok rest"
    unfolding parse_loans.simps Let_def guard_Ok_iff and_then_Ok_iff res.inject
    by (auto simp del: parse_loans.simps)
  then show ?case using Cons.IH by auto
qed simp

lemma parse_loans_ctx_ok:
  assumes "parse_loans pid w accounts pk bid d prev idxs = Ok cs"
  shows "map ctx_loan_idx cs = idxs" "distinct (map (ctx_key accounts) cs)"
    "\<forall>c \<in> set cs. ctx_ok pid w accounts pk d bid c"
proof -
  from parse_loans_Ok [OF assms] have pl: "map ctx_loan_idx cs = idxs"
    "distinct (map (\<lambda>i. key (accounts ! i)) idxs)"
    "\<forall>i \<in> set idxs. key (accounts ! i) \<in> band_members pid w pk d bid"
    "\<forall>c \<in> set cs. ctx_describes accounts w c" by blast+
  show "map ctx_loan_idx cs = idxs" by (rule pl(1))
  show "distinct (map (ctx_key accounts) cs)"
    using pl(2) unfolding pl(1) [symmetric] by (simp add: ctx_key_def [abs_def] comp_def)
  show "\<forall>c \<in> set cs. ctx_ok pid w accounts pk d bid c"
  proof
    fix c assume c: "c \<in> set cs"
    then have "ctx_loan_idx c \<in> set idxs" unfolding pl(1) [symmetric] by simp
    then obtain l where l: "loans pid w (ctx_key accounts c) = Some l" "is_open l" "loan_pool l = pk"
      "loan_trigger_direction l = d" "loan_band_id l = bid"
      using pl(3) by (auto simp: band_members_def open_loan_at_iff ctx_key_def)
    then have "loan_try_from_slice (data (ledger w (key (accounts ! ctx_loan_idx c)))) = Some l"
      by (simp add: loans_Some ctx_key_def loan_codec.dec_enc)
    then have "ctx_trigger_wad c = loan_trigger_price_wad l" "trigger_direction_from_u8 d = Ok (ctx_direction c)"
      "loan_sides_from_u8 (loan_sides l) = Ok (ctx_sides c)"
      "ctx_collateral c = loan_collateral_amount l" "ctx_debt_principal c = loan_debt_principal l"
      using pl(4) c l(4) by (auto simp: ctx_describes_def)
    then show "ctx_ok pid w accounts pk d bid c"
      using l parse_loans_unmarked [OF assms] c sides_position [of l "ctx_sides c"]
      by (simp add: ctx_ok_def position_of_ctx_def)
  qed
qed

text \<open>One supplied band with its loans.\<close>

definition group_ok ::
  "pubkey \<Rightarrow> world \<Rightarrow> account_info list \<Rightarrow> pubkey \<Rightarrow> u8 \<Rightarrow> band_ctx \<times> loan_index_band \<times> loan_ctx list \<Rightarrow> bool" where
  "group_ok pid w accounts pk d g \<longleftrightarrow> (case g of (bc, b, cs) \<Rightarrow>
     bands pid w (key (accounts ! ctx_band_idx bc)) = Some b \<and> band_pool b = pk \<and> band_direction b = d \<and>
     ctx_loan_idxs bc = map ctx_loan_idx cs \<and> distinct (map (ctx_key accounts) cs) \<and>
     (\<forall>c \<in> set cs. ctx_ok pid w accounts pk d (band_band_id b) c))"

lemma parse_bands_groups:
  assumes "parse_bands e pid w accounts pk d ids cursor ks = Ok (bcs, cs, ids', cur)"
  shows "\<exists>gs. bcs = map fst gs \<and> cs = concat (map (\<lambda>g. snd (snd g)) gs) \<and>
    ids' = ids @ map (\<lambda>g. band_band_id (fst (snd g))) gs \<and>
    (distinct ids \<longrightarrow> distinct ids') \<and> (\<forall>g \<in> set gs. group_ok pid w accounts pk d g)"
  using assms
proof (induction ks arbitrary: ids cursor bcs cs ids' cur)
  case (Cons k_u8 ks)
  let ?k = "unat k_u8"
  let ?idxs = "[cursor + 1 ..< cursor + 1 + ?k]"
  from Cons.prems obtain b cs1 bcs2 cs2 where
    pb: "parse_band e pid w pk d ids (accounts ! cursor) ?k = Ok b"
    and pl: "parse_loans pid w accounts pk (band_band_id b) d 0 ?idxs = Ok cs1"
    and rest: "parse_bands e pid w accounts pk d (ids @ [band_band_id b]) (cursor + (1 + ?k)) ks =
      Ok (bcs2, cs2, ids', cur)"
    and bcs: "bcs = \<lparr>ctx_band_idx = cursor, ctx_loan_idxs = ?idxs\<rparr> # bcs2" and cs: "cs = cs1 @ cs2"
    by (auto simp: Let_def)
  from Cons.IH [OF rest] obtain gs where gs: "bcs2 = map fst gs"
    "cs2 = concat (map (\<lambda>g. snd (snd g)) gs)"
    "ids' = (ids @ [band_band_id b]) @ map (\<lambda>g. band_band_id (fst (snd g))) gs"
    "distinct (ids @ [band_band_id b]) \<longrightarrow> distinct ids'"
    "\<forall>g \<in> set gs. group_ok pid w accounts pk d g" by blast
  from pb have b: "owner (acct w (accounts ! cursor)) = pid" "load_band w (accounts ! cursor) = Ok b"
    "band_is_initialized b" "band_pool b = pk" "band_direction b = d" "band_band_id b \<notin> set ids"
    by (auto simp: parse_band_def)
  note l = parse_loans_ctx_ok [OF pl]
  let ?g = "(\<lparr>ctx_band_idx = cursor, ctx_loan_idxs = ?idxs\<rparr>, b, cs1)"
  have "group_ok pid w accounts pk d ?g"
    using loaded_band [OF b(2,3,1)] b l unfolding group_ok_def by simp
  then show ?case using gs b(6) bcs cs by (intro exI [of _ "?g # gs"]) auto
qed simp

section \<open>Persisting the liquidations\<close>

definition marked :: "loan_ctx list \<Rightarrow> nat \<Rightarrow> bool" where
  "marked cs i \<longleftrightarrow> (case find (\<lambda>l. ctx_loan_idx l = i) cs of Some c \<Rightarrow> ctx_liquidated c | None \<Rightarrow> False)"

definition mark_loans :: "u64 \<Rightarrow> pubkey set \<Rightarrow> (pubkey \<rightharpoonup> loan) \<Rightarrow> pubkey \<rightharpoonup> loan" where
  "mark_loans slot ks m = (\<lambda>k. if k \<in> ks then map_option (liquidated_loan slot) (m k) else m k)"

definition keys_at :: "account_info list \<Rightarrow> nat set \<Rightarrow> pubkey set" where
  "keys_at accounts is = (\<lambda>i. key (accounts ! i)) ` is"

lemma liquidated_loan_idem [simp]: "liquidated_loan slot (liquidated_loan slot l) = liquidated_loan slot l"
  by (simp add: liquidated_loan_def)

lemma mark_loans_union: "mark_loans slot a (mark_loans slot b m) = mark_loans slot (a \<union> b) m"
  by (auto simp: fun_eq_iff mark_loans_def option.map_comp comp_def)

lemma marked_Cons:
  "{j \<in> set (i # is). marked cs j} = (if marked cs i then {i} else {}) \<union> {j \<in> set is. marked cs j}"
  by auto

lemma mark_loans_empty [simp]: "mark_loans slot {} m = m"
  by (simp add: mark_loans_def)

lemma mark_loans_dom: "mark_loans slot ks m k = None \<longleftrightarrow> m k = None"
  by (simp add: mark_loans_def)

lemma keys_at_simps [simp]:
  "keys_at accounts {} = {}" "keys_at accounts (insert i is) = insert (key (accounts ! i)) (keys_at accounts is)"
  "keys_at accounts (is \<union> js) = keys_at accounts is \<union> keys_at accounts js"
  by (auto simp: keys_at_def)

lemma liquidated_loan_live:
  "loan_wf l \<Longrightarrow> loan_wf (liquidated_loan slot l)"
  "loan_is_initialized l \<Longrightarrow> loan_is_initialized (liquidated_loan slot l)"
  by (simp_all add: liquidated_loan_def loan_wf_def loan_is_initialized_def)

lemma entry_loads:
  "loans pid w (key i) = Some l \<Longrightarrow> load_loan w i = Ok l"
  "bands pid w (key i) = Some b \<Longrightarrow> load_band w i = Ok b"
  by (simp_all add: loans_Some bands_Some load_loan_Ok_iff load_band_Ok_iff acct_def)

lemma persist_loans_books:
  assumes "persist_loans slot accounts cs idxs n w = Ok (m, w')"
    "\<forall>i \<in> set idxs. loans pid w (key (accounts ! i)) \<noteq> None"
  shows "books_of pid w' = (books_of pid w)
      \<lparr>b_loans := mark_loans slot (keys_at accounts {i \<in> set idxs. marked cs i}) (loans pid w)\<rparr> \<and>
    unat m = unat n + length (filter (marked cs) idxs)"
  using assms
proof (induction idxs arbitrary: n w)
  case Nil
  then show ?case by (simp add: books_of_def)
next
  case (Cons i idxs)
  let ?i = "accounts ! i"
  from Cons.prems(1) obtain c where c: "find (\<lambda>l. ctx_loan_idx l = i) cs = Some c" by auto
  show ?case
  proof (cases "ctx_liquidated c")
    case False
    then have nm: "\<not> marked cs i" using c by (simp add: marked_def)
    have "persist_loans slot accounts cs idxs n w = Ok (m, w')" using Cons.prems(1) c False by simp
    from Cons.IH [OF this] Cons.prems(2) nm show ?thesis unfolding marked_Cons by simp
  next
    case True
    then have mk: "marked cs i" using c by (simp add: marked_def)
    from Cons.prems(1) c True obtain l ev w1 n1 where
      l: "load_loan w ?i = Ok l"
      and w1: "serialize_into (loan_bytes (liquidated_loan slot l)) ?i (emit ev w) = Ok w1"
      and n1: "unat n1 = unat n + 1"
      and rest: "persist_loans slot accounts cs idxs n1 w1 = Ok (m, w')"
      by (auto simp: Let_def plus_p_Ok_iff liquidated_loan_def simp del: serialize_into_Ok_iff)
    obtain l' where l': "loans pid w (key ?i) = Some l'" using Cons.prems(2) by auto
    then have "l' = l" using l entry_loads(1) by fastforce
    then have acc: "owner (acct (emit ev w) ?i) = pid" "length (data (acct (emit ev w) ?i)) = LOAN_LEN"
      "loan_wf l" "loan_is_initialized l" "loans pid w (key ?i) = Some l"
      using entry_account(2) [OF l'] l' by simp_all
    have "books_of pid w1 = (books_of pid (emit ev w))
        \<lparr>b_loans := (loans pid (emit ev w))(key ?i \<mapsto> liquidated_loan slot l)\<rparr>"
      by (rule write_loan [OF acc(1,2) _ _ w1]) (use acc in \<open>simp_all add: liquidated_loan_live\<close>)
    then have b1: "books_of pid w1 = (books_of pid w)\<lparr>b_loans := mark_loans slot {key ?i} (loans pid w)\<rparr>"
      using acc(5) by (simp add: books_of_def views mark_loans_def fun_upd_def cong: if_cong)
    then have m1: "loans pid w1 = mark_loans slot {key ?i} (loans pid w)" by (simp add: books_of_def)
    have "\<forall>i \<in> set idxs. loans pid w1 (key (accounts ! i)) \<noteq> None"
      using Cons.prems(2) by (simp add: m1 mark_loans_dom del: not_None_eq)
    from Cons.IH [OF rest this] show ?thesis
      using mk n1 b1 unfolding m1 marked_Cons by (simp add: mark_loans_union)
  qed
qed

text \<open>How many loans of a band were liquidated, and the band's new count.\<close>

definition hits :: "loan_ctx list \<Rightarrow> band_ctx \<Rightarrow> nat" where
  "hits cs bc = length (filter (marked cs) (ctx_loan_idxs bc))"

definition lowered :: "account_info list \<Rightarrow> loan_ctx list \<Rightarrow> band_ctx list \<Rightarrow> (pubkey \<rightharpoonup> loan_index_band) \<Rightarrow>
    pubkey \<rightharpoonup> loan_index_band" where
  "lowered accounts cs bcs m = (\<lambda>k. map_option (\<lambda>b. b\<lparr>band_count := band_count b -
     of_nat (sum_list (map (\<lambda>bc. if key (accounts ! ctx_band_idx bc) = k then hits cs bc else 0) bcs))\<rparr>) (m k))"

lemma lowered_Nil [simp]: "lowered accounts cs [] m = m"
  by (simp add: lowered_def fun_eq_iff option.map_ident)

lemma lowered_Cons:
  "lowered accounts cs (bc # bcs) m = lowered accounts cs bcs (lowered accounts cs [bc] m)"
  by (simp add: lowered_def fun_eq_iff option.map_comp comp_def algebra_simps)

lemma lowered_other:
  "k \<notin> set (map (\<lambda>bc. key (accounts ! ctx_band_idx bc)) bcs) \<Longrightarrow> lowered accounts cs bcs m k = m k"
proof (induction bcs arbitrary: m)
  case (Cons bc bcs)
  have "lowered accounts cs [bc] m k = m k" using Cons.prems by (auto simp: lowered_def option.map_ident)
  with Cons show ?case by (simp add: lowered_Cons [of accounts cs bc bcs])
qed simp

text \<open>One band: its loans are marked, its count lowered, its bit cleared when it becomes empty.\<close>

lemma persist_band_step:
  assumes "persist_bands slot accounts cs d (bc # bcs) p w = Ok (q, w')"
    and b: "bands pid w (key (accounts ! ctx_band_idx bc)) = Some b" "band_direction b = d"
    and "\<forall>i \<in> set (ctx_loan_idxs bc). loans pid w (key (accounts ! i)) \<noteq> None" and wf: "pool_wf p"
  obtains p1 w1 where "persist_bands slot accounts cs d bcs p1 w1 = Ok (q, w')"
    "books_of pid w1 = (books_of pid w)
      \<lparr>b_loans := mark_loans slot (keys_at accounts {i \<in> set (ctx_loan_idxs bc). marked cs i}) (loans pid w),
       b_bands := lowered accounts cs [bc] (bands pid w)\<rparr>"
    "params p1 = params p" "removed p p1 {#}" "pool_wf p1"
    "\<And>x. bits p1 x = bits p x -
      (if x = d \<and> hits cs bc \<noteq> 0 \<and> hits cs bc = unat (band_count b) then {band_band_id b} else {})"
proof -
  let ?bi = "accounts ! ctx_band_idx bc"
  have lb: "load_band w ?bi = Ok b" using b(1) by (rule entry_loads)
  note st = assms(1) [unfolded persist_bands.simps Let_def lb and_then_simps]
  obtain r where pl: "persist_loans slot accounts cs (ctx_loan_idxs bc) 0 w = Ok r"
    using and_then_Ok_iff [THEN iffD1, OF st] by blast
  obtain m v where r: "r = (m, v)" by (cases r)
  note pl = pl [unfolded r]
  note rest = st [unfolded pl and_then_simps prod.case]
  from persist_loans_books [OF pl assms(4)] have
    v: "books_of pid v = (books_of pid w)\<lparr>b_loans :=
        mark_loans slot (keys_at accounts {i \<in> set (ctx_loan_idxs bc). marked cs i}) (loans pid w)\<rparr>"
    and m: "unat m = hits cs bc" by (simp_all add: hits_def)
  show ?thesis
  proof (cases "m = 0")
    case True
    then have h: "hits cs bc = 0" using m by simp
    have "lowered accounts cs [bc] (bands pid w) = bands pid w"
      using h by (simp add: lowered_def fun_eq_iff option.map_ident)
    moreover have "persist_bands slot accounts cs d bcs p v = Ok (q, w')" using rest True by simp
    ultimately show ?thesis using h v wf by (intro that [of p v]) (simp_all add: books_of_def)
  next
    case False
    with rest obtain n p1 w1 where n: "checked_sub (band_count b) m = Some n"
      and p1: "(if n = 0 then band_bitmap_mut p d (\<lambda>bm. bitmap_clear bm (band_band_id b)) else Ok p) = Ok p1"
      and w1: "serialize_into (loan_index_band_bytes (b\<lparr>band_count := n\<rparr>)) ?bi v = Ok w1"
      and rest': "persist_bands slot accounts cs d bcs p1 w1 = Ok (q, w')"
      by (auto simp del: serialize_into_Ok_iff split: if_splits)
    have un: "unat (band_count b) = unat n + hits cs bc" "n = band_count b - m"
      using n m by (auto simp: checked_sub_def word_le_nat_alt unat_sub split: if_splits)
    have vm: "bands pid v = bands pid w" "loans pid v =
        mark_loans slot (keys_at accounts {i \<in> set (ctx_loan_idxs bc). marked cs i}) (loans pid w)"
      "pools pid v = pools pid w"
      using v by (simp_all add: books_of_def)
    have ev: "bands pid v (key ?bi) = Some b" using vm(1) b(1) by simp
    have "books_of pid w1 = (books_of pid v)\<lparr>b_bands := (bands pid v)(key ?bi \<mapsto> b\<lparr>band_count := n\<rparr>)\<rparr>"
      using entry_account(3) [OF ev] w1
      by (intro write_band) (auto simp: loan_index_band_wf_def band_is_initialized_def
          LOAN_INDEX_BAND_DISCRIMINATOR_def)
    moreover have "(bands pid w)(key ?bi \<mapsto> b\<lparr>band_count := n\<rparr>) = lowered accounts cs [bc] (bands pid w)"
      using b(1) un(2) m by (auto simp: lowered_def fun_eq_iff option.map_ident simp flip: m)
    ultimately have "books_of pid w1 = (books_of pid w)
      \<lparr>b_loans := mark_loans slot (keys_at accounts {i \<in> set (ctx_loan_idxs bc). marked cs i}) (loans pid w),
       b_bands := lowered accounts cs [bc] (bands pid w)\<rparr>"
      using v vm by simp
    moreover have "hits cs bc \<noteq> 0" using False m by (metis unat_eq_0_iff)
    ultimately show ?thesis
      using rest' p1 un(1) wf bits_clear [of p d "band_band_id b" p1]
      by (intro that [of p1 w1]) (auto simp: word_eq_unat [of n 0] split: if_splits)
  qed
qed

text \<open>The ids whose bit is cleared.\<close>

definition emptied :: "account_info list \<Rightarrow> loan_ctx list \<Rightarrow> band_ctx list \<Rightarrow> (pubkey \<rightharpoonup> loan_index_band) \<Rightarrow> u32 set" where
  "emptied accounts cs bcs m = {bid. \<exists>bc \<in> set bcs. \<exists>b. m (key (accounts ! ctx_band_idx bc)) = Some b \<and>
     band_band_id b = bid \<and> hits cs bc \<noteq> 0 \<and> hits cs bc = unat (band_count b)}"

lemma persist_bands_books:
  assumes "persist_bands slot accounts cs d bcs p w = Ok (q, w')"
    and "\<forall>bc \<in> set bcs. \<exists>b. bands pid w (key (accounts ! ctx_band_idx bc)) = Some b \<and> band_direction b = d"
    and "\<forall>bc \<in> set bcs. \<forall>i \<in> set (ctx_loan_idxs bc). loans pid w (key (accounts ! i)) \<noteq> None"
    and "distinct (map (\<lambda>bc. key (accounts ! ctx_band_idx bc)) bcs)" and "pool_wf p"
  shows "books_of pid w' = (books_of pid w)
      \<lparr>b_loans := mark_loans slot (keys_at accounts {i \<in> (\<Union>bc \<in> set bcs. set (ctx_loan_idxs bc)). marked cs i})
         (loans pid w),
       b_bands := lowered accounts cs bcs (bands pid w)\<rparr> \<and>
    params q = params p \<and> removed p q {#} \<and> pool_wf q \<and>
    (\<forall>x. bits q x = bits p x - (if x = d then emptied accounts cs bcs (bands pid w) else {}))"
  using assms
proof (induction bcs arbitrary: p w)
  case Nil
  then show ?case by (simp add: books_of_def emptied_def)
next
  case (Cons bc bcs)
  let ?k = "\<lambda>bc. key (accounts ! ctx_band_idx bc)"
  let ?M = "\<lambda>is. mark_loans slot (keys_at accounts {i \<in> is. marked cs i})"
  obtain b where b: "bands pid w (?k bc) = Some b" "band_direction b = d" using Cons.prems(2) by auto
  have lo: "\<forall>i \<in> set (ctx_loan_idxs bc). loans pid w (key (accounts ! i)) \<noteq> None" using Cons.prems(3) by simp
  obtain p1 w1 where st: "persist_bands slot accounts cs d bcs p1 w1 = Ok (q, w')"
    "books_of pid w1 = (books_of pid w)\<lparr>b_loans := ?M (set (ctx_loan_idxs bc)) (loans pid w),
       b_bands := lowered accounts cs [bc] (bands pid w)\<rparr>"
    "params p1 = params p" "removed p p1 {#}" "pool_wf p1"
    "\<And>x. bits p1 x = bits p x -
      (if x = d \<and> hits cs bc \<noteq> 0 \<and> hits cs bc = unat (band_count b) then {band_band_id b} else {})"
    using persist_band_step [OF Cons.prems(1) b lo Cons.prems(5)] by blast
  have m1: "loans pid w1 = ?M (set (ctx_loan_idxs bc)) (loans pid w)"
    "bands pid w1 = lowered accounts cs [bc] (bands pid w)"
    using st(2) by (simp_all add: books_of_def)
  have same: "bands pid w1 (?k bc') = bands pid w (?k bc')" if "bc' \<in> set bcs" for bc'
  proof -
    have "?k bc' \<in> ?k ` set bcs" using that by blast
    moreover have "?k bc \<notin> ?k ` set bcs" using Cons.prems(4) by simp
    ultimately have "?k bc' \<noteq> ?k bc" by metis
    then show ?thesis unfolding m1 by (intro lowered_other) simp
  qed
  have "\<forall>bc' \<in> set bcs. \<exists>b. bands pid w1 (?k bc') = Some b \<and> band_direction b = d"
    using same Cons.prems(2) by simp
  moreover have "\<forall>bc' \<in> set bcs. \<forall>i \<in> set (ctx_loan_idxs bc'). loans pid w1 (key (accounts ! i)) \<noteq> None"
    using Cons.prems(3) by (simp add: m1(1) mark_loans_dom del: not_None_eq)
  moreover have "distinct (map ?k bcs)" using Cons.prems(4) by simp
  ultimately have IH: "books_of pid w' = (books_of pid w1)
      \<lparr>b_loans := ?M (\<Union>bc \<in> set bcs. set (ctx_loan_idxs bc)) (loans pid w1),
       b_bands := lowered accounts cs bcs (bands pid w1)\<rparr>"
    "params q = params p1" "removed p1 q {#}" "pool_wf q"
    "\<And>x. bits q x = bits p1 x - (if x = d then emptied accounts cs bcs (bands pid w1) else {})"
    using Cons.IH [OF st(1) _ _ _ st(5)] by blast+
  have em: "emptied accounts cs (bc # bcs) (bands pid w) =
      (if hits cs bc \<noteq> 0 \<and> hits cs bc = unat (band_count b) then {band_band_id b} else {}) \<union>
      emptied accounts cs bcs (bands pid w1)"
    using b(1) same unfolding emptied_def by auto
  have un: "{i \<in> (\<Union>bc \<in> set (bc # bcs). set (ctx_loan_idxs bc)). marked cs i} =
      {i \<in> (\<Union>bc \<in> set bcs. set (ctx_loan_idxs bc)). marked cs i} \<union> {i \<in> set (ctx_loan_idxs bc). marked cs i}"
    by auto
  have "books_of pid w' = (books_of pid w)
      \<lparr>b_loans := ?M (\<Union>bc \<in> set (bc # bcs). set (ctx_loan_idxs bc)) (loans pid w),
       b_bands := lowered accounts cs (bc # bcs) (bands pid w)\<rparr>"
    unfolding IH(1) un keys_at_simps(3) by (simp add: m1 mark_loans_union lowered_Cons [of _ _ bc bcs] st(2))
  moreover have "bits q x = bits p x - (if x = d then emptied accounts cs (bc # bcs) (bands pid w) else {})" for x
    unfolding IH(5) st(6) em by auto
  ultimately show ?case
    using IH(2-4) st(3) removed_trans [OF st(4) IH(3)] by simp
qed

section \<open>The loop's releases\<close>

definition hit_positions :: "loan_ctx list \<Rightarrow> position_t multiset" where
  "hit_positions cs = image_mset position_of_ctx (mset (filter ctx_liquidated cs))"

lemma hit_positions_mark:
  assumes "i < length cs" "\<not> ctx_liquidated (cs ! i)"
  shows "hit_positions (cs[i := (cs ! i)\<lparr>ctx_liquidated := True\<rparr>]) =
    add_mset (position_of_ctx (cs ! i)) (hit_positions cs)"
proof -
  have cs: "cs = take i cs @ cs ! i # drop (Suc i) cs" using assms(1) by (rule id_take_nth_drop)
  have "cs[i := y] = take i cs @ y # drop (Suc i) cs" for y using assms(1) by (rule upd_conv_take_nth_drop)
  moreover have "hit_positions cs = hit_positions (take i cs @ cs ! i # drop (Suc i) cs)" using cs by simp
  ultimately show ?thesis using assms(2) by (simp add: hit_positions_def position_of_ctx_def)
qed

lemma loop_removed:
  assumes "liquidation_loop ra rb dir x g p cs n A B = Ok (out, price, q, cs', n')"
    "\<forall>c \<in> set cs. \<not> ctx_liquidated c"
  shows "removed p q (hit_positions cs')"
proof -
  have z: "hit_positions cs = {#}" using assms(2) by (simp add: hit_positions_def filter_empty_conv)
  have "\<exists>A' B'. removed p q (hit_positions cs') \<and>
      swap_quote dir x g (swap_fee_bps q) A' B' = Ok (out, price) \<and> (\<forall>l \<in> set cs'. \<not> triggered price l)"
    using assms(1)
  proof (rule liquidation_loop_rule [where I = "\<lambda>q l m a b. removed p q (hit_positions l)"])
    show "removed p p (hit_positions cs)" using z by simp
  next
    fix q l and m :: u32 and a b :: u128 and pr i q1 and m1 :: u32 and a1 b1 :: u128
    assume I: "removed p q (hit_positions l)" and i: "i < length l" and t: "triggered pr (l ! i)"
      and r: "release_loan q (ctx_sides (l ! i)) (ctx_collateral (l ! i)) (ctx_debt_principal (l ! i)) = Ok q1"
    have "removed p q1 (hit_positions l + {#position_of_ctx (l ! i)#})"
      using removed_trans [OF I release_removed(1) [OF r]] by (simp add: position_of_ctx_def)
    then show "removed p q1 (hit_positions (l[i := (l ! i)\<lparr>ctx_liquidated := True\<rparr>]))"
      using i t by (simp add: hit_positions_mark triggered_def)
  qed
  then show ?thesis by blast
qed

section \<open>The supplied bands and the liquidated keys\<close>

text \<open>The contexts after the loop are those parsed from the groups, some of them marked.\<close>

definition supplied ::
  "pubkey \<Rightarrow> world \<Rightarrow> account_info list \<Rightarrow> pubkey \<Rightarrow> u8 \<Rightarrow> (band_ctx \<times> loan_index_band \<times> loan_ctx list) list \<Rightarrow>
   loan_ctx list \<Rightarrow> bool" where
  "supplied pid w accounts pk d gs cs \<longleftrightarrow>
     (\<forall>g \<in> set gs. group_ok pid w accounts pk d g) \<and>
     distinct (map (\<lambda>g. band_band_id (fst (snd g))) gs) \<and>
     map unmark cs = map unmark (concat (map (\<lambda>g. snd (snd g)) gs))"

definition hit_keys :: "account_info list \<Rightarrow> loan_ctx list \<Rightarrow> pubkey set" where
  "hit_keys accounts cs = ctx_key accounts ` {c \<in> set cs. ctx_liquidated c}"

lemma map_unmark_cong:
  assumes "map unmark xs = map unmark ys" "\<And>c c'. unmark c = unmark c' \<Longrightarrow> f c = f c'"
  shows "map f xs = map f ys"
  using assms(1)
proof (induction xs arbitrary: ys)
  case (Cons x xs)
  then obtain y ys' where ys: "ys = y # ys'" "unmark x = unmark y" "map unmark xs = map unmark ys'"
    by (cases ys) simp_all
  then have "f x = f y" "map f xs = map f ys'" using assms(2) Cons.IH by blast+
  then show ?case using ys(1) by simp
qed simp

lemma distinct_by:
  assumes "distinct (map h xs)" "\<And>x y. x \<in> set xs \<Longrightarrow> y \<in> set xs \<Longrightarrow> f x = f y \<Longrightarrow> h x = h y"
  shows "distinct (map f xs)"
proof -
  have "distinct xs" "inj_on h (set xs)" using assms(1) by (simp_all add: distinct_map)
  moreover from this have "inj_on f (set xs)" by (intro inj_onI) (meson assms(2) inj_onD)
  ultimately show ?thesis by (simp add: distinct_map)
qed

lemma group_entry:
  assumes "group_ok pid w accounts pk d g" "c \<in> set (snd (snd g))"
  obtains l where "loans pid w (ctx_key accounts c) = Some l" "is_open l" "loan_pool l = pk"
    "loan_trigger_direction l = d" "loan_band_id l = band_band_id (fst (snd g))"
    "position_of l = position_of_ctx c" "ctx_trigger_wad c = loan_trigger_price_wad l"
    "trigger_direction_from_u8 d = Ok (ctx_direction c)"
  using assms by (cases g) (auto simp: group_ok_def ctx_ok_def)

lemma group_band:
  assumes "group_ok pid w accounts pk d g"
  shows "bands pid w (key (accounts ! ctx_band_idx (fst g))) = Some (fst (snd g))"
    "band_pool (fst (snd g)) = pk" "band_direction (fst (snd g)) = d"
  using assms by (auto simp: group_ok_def split: prod.splits)

lemma distinct_group_keys:
  assumes "\<forall>g \<in> set gs. group_ok pid w accounts pk d g"
    "distinct (map (\<lambda>g. band_band_id (fst (snd g))) gs)"
  shows "distinct (map (ctx_key accounts) (concat (map (\<lambda>g. snd (snd g)) gs)))"
  using assms
proof (induction gs)
  case (Cons g gs)
  have "ctx_key accounts c \<noteq> ctx_key accounts c'"
    if c: "c \<in> set (snd (snd g))" and g': "g' \<in> set gs" and c': "c' \<in> set (snd (snd g'))" for c c' g'
  proof
    assume eq: "ctx_key accounts c = ctx_key accounts c'"
    have ok: "group_ok pid w accounts pk d g" "group_ok pid w accounts pk d g'"
      using Cons.prems(1) g' by simp_all
    obtain l where "loans pid w (ctx_key accounts c) = Some l" "loan_band_id l = band_band_id (fst (snd g))"
      by (rule group_entry [OF ok(1) c])
    moreover obtain l' where "loans pid w (ctx_key accounts c') = Some l'"
      "loan_band_id l' = band_band_id (fst (snd g'))" by (rule group_entry [OF ok(2) c'])
    ultimately show False using eq Cons.prems(2) g' by auto
  qed
  moreover have "distinct (map (ctx_key accounts) (snd (snd g)))"
    using Cons.prems(1) by (cases g) (auto simp: group_ok_def)
  moreover have "distinct (map (ctx_key accounts) (concat (map (\<lambda>g. snd (snd g)) gs)))"
    by (rule Cons.IH) (use Cons.prems in simp_all)
  ultimately show ?case by (simp del: map_concat) (auto simp del: map_concat)
qed simp

lemma supplied_keys:
  assumes "supplied pid w accounts pk d gs cs"
  shows "distinct (map (ctx_key accounts) cs)" "distinct (map ctx_loan_idx cs)"
    "ctx_loan_idx ` set cs = (\<Union>bc \<in> set (map fst gs). set (ctx_loan_idxs bc))"
proof -
  let ?all = "concat (map (\<lambda>g. snd (snd g)) gs)"
  have eq: "map unmark cs = map unmark ?all" using assms by (simp add: supplied_def)
  have "map (ctx_key accounts) cs = map (ctx_key accounts) ?all"
    by (rule map_unmark_cong [OF eq]) (drule unmark_fields(1), simp add: ctx_key_def)
  moreover have "distinct (map (ctx_key accounts) ?all)"
    by (rule distinct_group_keys [of gs pid w accounts pk d]) (use assms in \<open>simp_all add: supplied_def\<close>)
  ultimately show d: "distinct (map (ctx_key accounts) cs)" by (simp only:)
  then show "distinct (map ctx_loan_idx cs)" by (rule distinct_by) (simp add: ctx_key_def)
  have "map ctx_loan_idx cs = map ctx_loan_idx ?all"
    by (rule map_unmark_cong [OF eq]) (rule unmark_fields(1))
  then have "ctx_loan_idx ` set cs = ctx_loan_idx ` set ?all" by (metis set_map)
  also have "\<dots> = (\<Union>g \<in> set gs. ctx_loan_idx ` set (snd (snd g)))" by auto
  also have "\<dots> = (\<Union>g \<in> set gs. set (ctx_loan_idxs (fst g)))"
  proof (rule SUP_cong [OF refl])
    fix g assume "g \<in> set gs"
    then have "group_ok pid w accounts pk d g" using assms by (simp add: supplied_def)
    then show "ctx_loan_idx ` set (snd (snd g)) = set (ctx_loan_idxs (fst g))"
      by (cases g) (simp add: group_ok_def)
  qed
  finally show "ctx_loan_idx ` set cs = (\<Union>bc \<in> set (map fst gs). set (ctx_loan_idxs bc))" by simp
qed

lemma supplied_entry:
  assumes "supplied pid w accounts pk d gs cs" "c \<in> set cs"
  obtains g l where "g \<in> set gs" "ctx_loan_idx c \<in> set (ctx_loan_idxs (fst g))"
    "loans pid w (ctx_key accounts c) = Some l" "is_open l" "loan_pool l = pk"
    "loan_trigger_direction l = d" "loan_band_id l = band_band_id (fst (snd g))"
    "position_of l = position_of_ctx c" "ctx_trigger_wad c = loan_trigger_price_wad l"
    "trigger_direction_from_u8 d = Ok (ctx_direction c)"
proof -
  let ?all = "concat (map (\<lambda>g. snd (snd g)) gs)"
  have eq: "map unmark ?all = map unmark cs" using assms(1) by (simp add: supplied_def)
  obtain c0 where c0: "c0 \<in> set ?all" "unmark c0 = unmark c"
    using unmark_member [OF eq assms(2)] .
  then obtain g where g: "g \<in> set gs" "c0 \<in> set (snd (snd g))" by auto
  have ok: "group_ok pid w accounts pk d g" using assms(1) g(1) by (simp add: supplied_def)
  note f = unmark_fields(1-3) [OF c0(2)]
  have "position_of_ctx (unmark c0) = position_of_ctx (unmark c)" using c0(2) by simp
  then have pos: "position_of_ctx c0 = position_of_ctx c" by (simp add: position_of_ctx_def unmark_def)
  have idx: "ctx_loan_idx c \<in> set (ctx_loan_idxs (fst g))"
  proof -
    have "ctx_loan_idx c0 \<in> ctx_loan_idx ` set (snd (snd g))" using g(2) by simp
    then show ?thesis using ok f(1) by (cases g) (simp add: group_ok_def)
  qed
  from group_entry [OF ok g(2)] obtain l where "loans pid w (ctx_key accounts c0) = Some l" "is_open l"
    "loan_pool l = pk" "loan_trigger_direction l = d" "loan_band_id l = band_band_id (fst (snd g))"
    "position_of l = position_of_ctx c0" "ctx_trigger_wad c0 = loan_trigger_price_wad l"
    "trigger_direction_from_u8 d = Ok (ctx_direction c0)" by blast
  then show ?thesis using that [OF g(1) idx] f pos by (simp add: ctx_key_def)
qed

lemma marked_iff:
  "distinct (map ctx_loan_idx cs) \<Longrightarrow>
   marked cs i \<longleftrightarrow> (\<exists>c \<in> set cs. ctx_loan_idx c = i \<and> ctx_liquidated c)"
proof (induction cs)
  case (Cons c cs)
  then show ?case by (cases "ctx_loan_idx c = i") (auto simp: marked_def image_iff)
qed (simp add: marked_def)

lemma keys_at_hit:
  assumes "supplied pid w accounts pk d gs cs"
  shows "keys_at accounts {i \<in> (\<Union>bc \<in> set (map fst gs). set (ctx_loan_idxs bc)). marked cs i} =
    hit_keys accounts cs"
proof -
  have "{i \<in> ctx_loan_idx ` set cs. marked cs i} = ctx_loan_idx ` {c \<in> set cs. ctx_liquidated c}"
    unfolding marked_iff [OF supplied_keys(2) [OF assms]] by (auto simp: image_iff) (metis)
  then show ?thesis unfolding supplied_keys(3) [OF assms, symmetric]
    by (simp add: keys_at_def hit_keys_def ctx_key_def image_image)
qed

lemma positions_hit:
  assumes "supplied pid w accounts pk d gs cs"
  shows "positions (books_of pid w) (hit_keys accounts cs) = hit_positions cs"
proof -
  let ?f = "filter ctx_liquidated cs"
  have d: "distinct (map (ctx_key accounts) ?f)"
    using supplied_keys(1) [OF assms] by (rule distinct_map_filter)
  have "hit_keys accounts cs = set (map (ctx_key accounts) ?f)" by (simp add: hit_keys_def)
  then have "mset_set (hit_keys accounts cs) = mset (map (ctx_key accounts) ?f)"
    using mset_set_set [OF d] by simp
  then have "positions (books_of pid w) (hit_keys accounts cs) =
      mset (map (\<lambda>c. position_of (the (loans pid w (ctx_key accounts c)))) ?f)"
    by (simp add: positions_def image_mset.compositionality comp_def)
  also have "\<dots> = mset (map position_of_ctx ?f)"
  proof (intro arg_cong [where f = mset] map_cong refl)
    fix c assume "c \<in> set ?f"
    then have "c \<in> set cs" by simp
    from supplied_entry [OF assms this] obtain l where "loans pid w (ctx_key accounts c) = Some l"
      "position_of l = position_of_ctx c" by blast
    then show "position_of (the (loans pid w (ctx_key accounts c))) = position_of_ctx c" by simp
  qed
  finally show ?thesis by (simp add: hit_positions_def)
qed

text \<open>A band's hits are the liquidated keys among its open loans.\<close>

lemma hits_card:
  assumes sup: "supplied pid w accounts pk d gs cs" and g: "(bc, b, cl) \<in> set gs"
  shows "hits cs bc = card (hit_keys accounts cs \<inter> open_in (books_of pid w) pk d (band_band_id b))"
proof -
  have ok: "group_ok pid w accounts pk d (bc, b, cl)" using sup g by (simp add: supplied_def)
  then have idxs: "ctx_loan_idxs bc = map ctx_loan_idx cl" and dist: "distinct (map (ctx_key accounts) cl)"
    by (simp_all add: group_ok_def)
  note mk = marked_iff [OF supplied_keys(2) [OF sup]]
  let ?f = "filter (\<lambda>c. marked cs (ctx_loan_idx c)) cl"
  have "hit_keys accounts cs \<inter> open_in (books_of pid w) pk d (band_band_id b) = set (map (ctx_key accounts) ?f)"
  proof (intro equalityI subsetI)
    fix k assume "k \<in> hit_keys accounts cs \<inter> open_in (books_of pid w) pk d (band_band_id b)"
    then obtain c l where c: "c \<in> set cs" "ctx_liquidated c" "k = ctx_key accounts c"
      and l: "loans pid w k = Some l" "loan_band_id l = band_band_id b"
      by (auto simp: hit_keys_def open_in_def)
    obtain g' l' where g': "g' \<in> set gs" "ctx_loan_idx c \<in> set (ctx_loan_idxs (fst g'))"
      "loans pid w (ctx_key accounts c) = Some l'" "loan_band_id l' = band_band_id (fst (snd g'))"
      by (rule supplied_entry [OF sup c(1)])
    then have "band_band_id (fst (snd g')) = band_band_id (fst (snd (bc, b, cl)))" using l c(3) by simp
    then have "g' = (bc, b, cl)" using sup g g'(1)
      unfolding supplied_def distinct_map inj_on_def by blast
    then obtain c0 where "c0 \<in> set cl" "ctx_loan_idx c0 = ctx_loan_idx c" using g'(2) idxs by auto
    then have "c0 \<in> set ?f" "k = ctx_key accounts c0" using c mk by (auto simp: ctx_key_def)
    then show "k \<in> set (map (ctx_key accounts) ?f)" by simp
  next
    fix k assume "k \<in> set (map (ctx_key accounts) ?f)"
    then obtain c where c: "c \<in> set cl" "marked cs (ctx_loan_idx c)" "k = ctx_key accounts c" by auto
    then obtain c' where c': "c' \<in> set cs" "ctx_loan_idx c' = ctx_loan_idx c" "ctx_liquidated c'"
      using mk by auto
    have "c \<in> set (snd (snd (bc, b, cl)))" using c(1) by simp
    from group_entry [OF ok this] obtain l where "loans pid w (ctx_key accounts c) = Some l" "is_open l"
      "loan_pool l = pk" "loan_trigger_direction l = d" "loan_band_id l = band_band_id b"
      by (metis fst_conv snd_conv)
    then have "k \<in> open_in (books_of pid w) pk d (band_band_id b)" using c(3) by (auto simp: open_in_def)
    moreover have "k = ctx_key accounts c'" using c' c(3) by (simp add: ctx_key_def)
    then have "k \<in> hit_keys accounts cs" using c' by (simp add: hit_keys_def)
    ultimately show "k \<in> hit_keys accounts cs \<inter> open_in (books_of pid w) pk d (band_band_id b)" by simp
  qed
  moreover have "card (set (map (ctx_key accounts) ?f)) = length ?f"
    using distinct_card [OF distinct_map_filter [OF dist]] by simp
  ultimately show ?thesis by (simp add: hits_def idxs filter_map comp_def)
qed

lemma supplied_band_keys:
  assumes "supplied pid w accounts pk d gs cs"
  shows "distinct (map (\<lambda>bc. key (accounts ! ctx_band_idx bc)) (map fst gs))"
proof -
  have "distinct (map (\<lambda>g. key (accounts ! ctx_band_idx (fst g))) gs)"
  proof (rule distinct_by)
    show "distinct (map (\<lambda>g. band_band_id (fst (snd g))) gs)" using assms by (simp add: supplied_def)
    fix g g' assume "g \<in> set gs" "g' \<in> set gs"
      "key (accounts ! ctx_band_idx (fst g)) = key (accounts ! ctx_band_idx (fst g'))"
    moreover from this have "group_ok pid w accounts pk d g" "group_ok pid w accounts pk d g'"
      using assms by (simp_all add: supplied_def)
    ultimately show "band_band_id (fst (snd g)) = band_band_id (fst (snd g'))"
      using group_band(1) [of pid w accounts pk d g] group_band(1) [of pid w accounts pk d g'] by simp
  qed
  then show ?thesis by (simp add: comp_def)
qed

lemma sum_list_single:
  assumes "distinct (map f xs)" "x \<in> set xs"
  shows "sum_list (map (\<lambda>y. if f y = f x then h y else 0) xs) = (h x :: nat)"
  using assms
proof (induction xs)
  case (Cons y ys)
  show ?case
  proof (cases "y = x")
    case True
    then have z: "map (\<lambda>z. if f z = f x then h z else 0) ys = map (\<lambda>_. 0) ys"
      using Cons.prems(1) by (intro map_cong) (auto simp: image_iff)
    have "sum_list (map (\<lambda>z. if f z = f x then h z else 0) ys) = 0" unfolding z by simp
    then show ?thesis using True by (simp del: sum_list_eq_0_iff)
  next
    case False
    then show ?thesis using Cons by auto
  qed
qed simp

lemma lowered_spec:
  assumes sup: "supplied pid w accounts pk d gs cs" and inv: "book_inv e pid (books_of pid w)"
  shows "lowered accounts cs (map fst gs) (bands pid w) =
    (\<lambda>k. map_option (\<lambda>b. b\<lparr>band_count := band_count b - of_nat (card (hit_keys accounts cs \<inter>
       open_in (books_of pid w) (band_pool b) (band_direction b) (band_band_id b)))\<rparr>) (bands pid w k))"
proof
  fix k
  let ?key = "\<lambda>bc. key (accounts ! ctx_band_idx bc)"
  let ?n = "\<lambda>b. card (hit_keys accounts cs \<inter>
       open_in (books_of pid w) (band_pool b) (band_direction b) (band_band_id b))"
  show "lowered accounts cs (map fst gs) (bands pid w) k =
    map_option (\<lambda>b. b\<lparr>band_count := band_count b - of_nat (?n b)\<rparr>) (bands pid w k)"
  proof (cases "bands pid w k")
    case None
    then show ?thesis by (simp add: lowered_def)
  next
    case (Some b)
    show ?thesis
    proof (cases "k \<in> set (map ?key (map fst gs))")
      case True
      then obtain bc b' cl where g: "(bc, b', cl) \<in> set gs" and k: "?key bc = k" by auto
      have "group_ok pid w accounts pk d (bc, b', cl)" using sup g by (simp add: supplied_def)
      then have b: "b' = b" "band_pool b = pk" "band_direction b = d"
        using Some k by (auto simp: group_ok_def)
      have "sum_list (map (\<lambda>bc. if ?key bc = k then hits cs bc else 0) (map fst gs)) = hits cs bc"
        using sum_list_single [OF supplied_band_keys [OF sup], of bc "hits cs"] g k by force
      then show ?thesis using Some hits_card [OF sup g] b by (simp add: lowered_def)
    next
      case False
      have "hit_keys accounts cs \<inter>
          open_in (books_of pid w) (band_pool b) (band_direction b) (band_band_id b) = {}" (is "?S = {}")
      proof (rule ccontr)
        assume "?S \<noteq> {}"
        then obtain c l where c: "c \<in> set cs" and l: "loans pid w (ctx_key accounts c) = Some l"
          "band_for b (loan_pool l) (loan_trigger_direction l) (loan_band_id l)"
          by (fastforce simp: hit_keys_def open_in_def band_for_def)
        obtain g l' where g: "g \<in> set gs" "loans pid w (ctx_key accounts c) = Some l'"
          "loan_pool l' = pk" "loan_trigger_direction l' = d" "loan_band_id l' = band_band_id (fst (snd g))"
          by (rule supplied_entry [OF sup c])
        have "group_ok pid w accounts pk d g" using sup g(1) by (simp add: supplied_def)
        then have b': "bands pid w (?key (fst g)) = Some (fst (snd g))"
          "band_for (fst (snd g)) (loan_pool l) (loan_trigger_direction l) (loan_band_id l)"
          using g l(1) by (auto simp: group_ok_def band_for_def split_beta)
        have "band_at e pid b k" "band_at e pid (fst (snd g)) (?key (fst g))"
          using inv_bandD [OF inv, of k b] inv_bandD [OF inv, of "?key (fst g)" "fst (snd g)"] Some b'(1)
          by (simp_all add: band_ok_def)
        then have "k = ?key (fst g)" using band_unique l(2) b'(2) by blast
        then show False using False g(1) by simp
      qed
      then have "?n b = 0" by simp
      then show ?thesis using Some lowered_other [OF False] by simp
    qed
  qed
qed

lemma emptied_spec:
  assumes sup: "supplied pid w accounts pk d gs cs" and inv: "book_inv e pid (books_of pid w)"
  shows "emptied accounts cs (map fst gs) (bands pid w) =
    {bid. hit_keys accounts cs \<inter> open_in (books_of pid w) pk d bid \<noteq> {} \<and>
       open_in (books_of pid w) pk d bid \<subseteq> hit_keys accounts cs}"
proof -
  let ?K = "hit_keys accounts cs" and ?o = "open_in (books_of pid w) pk d"
  let ?key = "\<lambda>bc. key (accounts ! ctx_band_idx bc)"
  have band: "bands pid w (?key bc) = Some b \<and> finite (?o (band_band_id b)) \<and>
      card (?o (band_band_id b)) = unat (band_count b)" if "(bc, b, cl) \<in> set gs" for bc b cl
  proof -
    have "group_ok pid w accounts pk d (bc, b, cl)" using sup that by (simp add: supplied_def)
    then show ?thesis using inv_bandD [OF inv, of "?key bc" b] by (auto simp: group_ok_def band_ok_def)
  qed
  have iff: "hits cs bc \<noteq> 0 \<and> hits cs bc = unat (band_count b) \<longleftrightarrow>
      ?K \<inter> ?o (band_band_id b) \<noteq> {} \<and> ?o (band_band_id b) \<subseteq> ?K" if g: "(bc, b, cl) \<in> set gs" for bc b cl
  proof -
    have fin: "finite (?o (band_band_id b))" and cnt: "card (?o (band_band_id b)) = unat (band_count b)"
      using band [OF g] by simp_all
    have "card (?K \<inter> ?o (band_band_id b)) = card (?o (band_band_id b)) \<longleftrightarrow> ?o (band_band_id b) \<subseteq> ?K"
      using card_subset_eq [OF fin, of "?K \<inter> ?o (band_band_id b)"] by (auto simp: inf.absorb2)
    then show ?thesis using fin hits_card [OF sup g] cnt by simp
  qed
  show ?thesis
  proof (intro equalityI subsetI)
    fix bid assume "bid \<in> emptied accounts cs (map fst gs) (bands pid w)"
    then obtain g b where g: "g \<in> set gs" "bands pid w (?key (fst g)) = Some b" "band_band_id b = bid"
      "hits cs (fst g) \<noteq> 0" "hits cs (fst g) = unat (band_count b)" by (auto simp: emptied_def)
    obtain bc b' cl where gg: "g = (bc, b', cl)" by (cases g)
    then have "b' = b" using band g(1,2) by auto
    then show "bid \<in> {bid. ?K \<inter> ?o bid \<noteq> {} \<and> ?o bid \<subseteq> ?K}" using iff [of bc b cl] g gg by auto
  next
    fix bid assume bid: "bid \<in> {bid. ?K \<inter> ?o bid \<noteq> {} \<and> ?o bid \<subseteq> ?K}"
    then obtain c l where c: "c \<in> set cs" "loans pid w (ctx_key accounts c) = Some l" "loan_band_id l = bid"
      by (auto simp: hit_keys_def open_in_def)
    obtain g l' where g: "g \<in> set gs" "loans pid w (ctx_key accounts c) = Some l'"
      "loan_band_id l' = band_band_id (fst (snd g))" by (rule supplied_entry [OF sup c(1)])
    obtain bc b cl where gg: "g = (bc, b, cl)" by (cases g)
    then have "band_band_id b = bid" using g c by simp
    then show "bid \<in> emptied accounts cs (map fst gs) (bands pid w)"
      using iff [of bc b cl] band [of bc b cl] g(1) gg bid unfolding emptied_def by force
  qed
qed

section \<open>The swap as a transition\<close>

lemma same_terms_parts:
  assumes "same_terms p q"
  shows "params q = params p" "bits q = bits p" "pool_wf q = pool_wf p"
  using assms unfolding same_terms_def
  by (auto simp: params_def bits_def band_bitmap_def fun_eq_iff pool_wf_def)

lemma swap_compute_effect:
  assumes "swap_compute p ra rb slot cs x mn dir bb = Ok (q, cs', n, skim, out, price)"
    "\<forall>c \<in> set cs. \<not> ctx_liquidated c"
  shows "params q = params p" "pool_wf q = pool_wf p" "bits q = bits p"
    "removed p q (hit_positions cs')" "map unmark cs' = map unmark cs"
proof -
  from assms(1) obtain p1 A0 B0 p2 growth o128 p3 where
    c: "bump_indexes p ra rb slot = Ok p1" "accounted p1 ra rb = Ok (A0, B0)"
    "sample_ref_price p1 A0 B0 slot = Ok p2" "protocol_skim p2 x = Ok skim"
    "(minus_p x skim :: (u64, liquidity_error) res) = Ok growth"
    "liquidation_loop ra rb dir x (widen growth) p2 cs 0 A0 B0 = Ok (o128, price, p3, cs', n)"
    "swap_final_checks p3 ra rb dir mn bb skim o128 price = Ok (q, out)"
    by (rule swap_compute_Ok)
  have t: "touch p p2"
    using touch_bump [OF c(1)] sample_ref_price_frame [OF c(3)] by auto
  have "accounted p2 ra rb = Ok (A0, B0)" using c(2) swap_entry_fields(7) [OF c(1,3)] by simp
  from cascade [OF c(6) this] have st: "same_terms p2 p3" and un: "map unmark cs' = map unmark cs" by blast+
  note st' = same_terms_parts [OF st]
  obtain fa fb where q: "q = p3\<lparr>protocol_fees_a := fa, protocol_fees_b := fb\<rparr>"
    by (rule swap_final_checks_Ok [OF c(7)])
  have qt: "touch p3 q" unfolding q by simp
  have rm: "removed p2 p3 (hit_positions cs')" by (rule loop_removed [OF c(6) assms(2)])
  show "params q = params p" "pool_wf q = pool_wf p" "bits q = bits p"
    using t qt st' by (simp_all add: touch_def)
  show "removed p q (hit_positions cs')"
    using removed_trans [OF _ removed_trans [OF rm], of p "{#}" q "{#}"] t qt by (simp add: touch_def)
  show "map unmark cs' = map unmark cs" by (rule un)
qed

lemma quiet_swap_transfers:
  assumes iso: "isolation_law e pid"
    and tok: "is_valid_token_program e (key (token_program_a_info a))"
      "is_valid_token_program e (key (token_program_b_info a))"
    and "swap_transfers e a dir x out da db pool w = Ok w'"
  shows "quiet pid w w'"
proof (cases dir)
  case True
  with assms(4) obtain w1 where
    "transfer_checked e (token_program_a_info a) (user_a_info a) (mint_a_info a)
       (vault_a_info a) (user_info a) x da [] w = Ok w1"
    "transfer_checked e (token_program_b_info a) (vault_b_info a) (mint_b_info a)
       (user_b_info a) (pool_info a) out db [pool_signer_seeds pool] w1 = Ok w'"
    by (auto simp: swap_transfers_def)
  then show ?thesis using quiet_transfer [OF iso] tok by (blast intro: quiet_trans)
next
  case False
  with assms(4) obtain w1 where
    "transfer_checked e (token_program_b_info a) (user_b_info a) (mint_b_info a)
       (vault_b_info a) (user_info a) x db [] w = Ok w1"
    "transfer_checked e (token_program_a_info a) (vault_a_info a) (mint_a_info a)
       (user_a_info a) (pool_info a) out da [pool_signer_seeds pool] w1 = Ok w'"
    by (auto simp: swap_transfers_def)
  then show ?thesis using quiet_transfer [OF iso] tok by (blast intro: quiet_trans)
qed

text \<open>The stages of a successful swap.\<close>

lemma process_swap_Ok:
  assumes "process_swap e pid accounts x mn dir bb counts w = Ok w'"
  obtains u p bcs cs ids da db ra rb slot q cs' n skim out price q2 w1 w2 w3 ev where
    "check_signer_and_token_programs e w (swap_accounts accounts) = Ok u"
    "owner (acct w (pool_info (swap_accounts accounts))) = pid"
    "load_pool w (pool_info (swap_accounts accounts)) = Ok p"
    "pool_keys_match p (swap_accounts accounts)"
    "parse_bands e pid w accounts (key (pool_info (swap_accounts accounts)))
       (direction_byte (expected_direction dir)) [] FIXED_PREFIX_LEN counts = Ok (bcs, cs, ids, length accounts)"
    "check_completeness p dir bb ids = Ok ()"
    "read_token_amount e w (vault_a_info (swap_accounts accounts)) = Ok ra"
    "read_token_amount e w (vault_b_info (swap_accounts accounts)) = Ok rb"
    "clock_get e = Ok slot"
    "swap_compute p ra rb slot cs x mn dir bb = Ok (q, cs', n, skim, out, price)"
    "persist_bands slot accounts cs' (direction_byte (expected_direction dir)) bcs q w = Ok (q2, w1)"
    "swap_transfers e (swap_accounts accounts) dir x out da db q2 w1 = Ok w2"
    "serialize_into (pool_bytes (q2\<lparr>last_update_slot := slot\<rparr>)) (pool_info (swap_accounts accounts)) w2 = Ok w3"
    "w' = emit ev w3"
  using assms
  by (auto simp: process_swap_def Let_def persist_liquidations_def split_beta simp del: serialize_into_Ok_iff)

lemma parsed_supplied:
  assumes "parse_bands e pid w accounts pk d [] cursor counts = Ok (bcs, cs, ids, cur)"
    "map unmark cs' = map unmark cs"
  obtains gs where "bcs = map fst gs" "supplied pid w accounts pk d gs cs'"
    "\<forall>c \<in> set cs. \<not> ctx_liquidated c"
proof -
  from parse_bands_groups [OF assms(1)] obtain gs where gs: "bcs = map fst gs"
    "cs = concat (map (\<lambda>g. snd (snd g)) gs)" "ids = map (\<lambda>g. band_band_id (fst (snd g))) gs"
    "distinct ids" "\<forall>g \<in> set gs. group_ok pid w accounts pk d g" by auto
  have "supplied pid w accounts pk d gs cs'" using gs assms(2) by (simp add: supplied_def)
  moreover have "\<forall>c \<in> set cs. \<not> ctx_liquidated c"
    using gs(2,5) by (fastforce simp: group_ok_def ctx_ok_def)
  ultimately show ?thesis using that gs(1) by blast
qed

lemma swap_effect:
  assumes iso: "isolation_law e pid" and inv: "book_inv e pid (books_of pid w)"
    and "process_swap e pid accounts x mn dir bb counts w = Ok w'"
  defines "pk \<equiv> key (pool_info (swap_accounts accounts))"
    and "d \<equiv> direction_byte (expected_direction dir)"
  obtains p q gs cs slot cs0 ids ra rb q0 n skim out price q2 w1 w2 w3 da db ev where
    "pools pid w pk = Some p" "supplied pid w accounts pk d gs cs"
    "params q = params p" "removed p q (hit_positions cs)"
    "\<forall>y. bits q y = bits p y - (if y = d then {bid. hit_keys accounts cs \<inter> open_in (books_of pid w) pk d bid \<noteq> {} \<and>
        open_in (books_of pid w) pk d bid \<subseteq> hit_keys accounts cs} else {})"
    "books_of pid w' = (books_of pid w)\<lparr>b_pools := (pools pid w)(pk \<mapsto> q),
       b_loans := mark_loans slot (hit_keys accounts cs) (loans pid w),
       b_bands := (\<lambda>k. map_option (\<lambda>b. b\<lparr>band_count := band_count b - of_nat (card (hit_keys accounts cs \<inter>
          open_in (books_of pid w) (band_pool b) (band_direction b) (band_band_id b)))\<rparr>) (bands pid w k))\<rparr>"
    "pool_keys_match p (swap_accounts accounts)"
    "parse_bands e pid w accounts pk d [] FIXED_PREFIX_LEN counts = Ok (map fst gs, cs0, ids, length accounts)"
    "check_completeness p dir bb ids = Ok ()"
    "read_token_amount e w (vault_a_info (swap_accounts accounts)) = Ok ra"
    "read_token_amount e w (vault_b_info (swap_accounts accounts)) = Ok rb"
    "swap_compute p ra rb slot cs0 x mn dir bb = Ok (q0, cs, n, skim, out, price)"
    "persist_bands slot accounts cs d (map fst gs) q0 w = Ok (q2, w1)"
    "swap_transfers e (swap_accounts accounts) dir x out da db q2 w1 = Ok w2"
    "q = q2\<lparr>last_update_slot := slot\<rparr>"
    "serialize_into (pool_bytes q) (pool_info (swap_accounts accounts)) w2 = Ok w3"
    "w' = emit ev w3"
proof -
  from assms(3) obtain u p bcs cs0 ids da db ra rb slot q cs n skim out price q2 w1 w2 w3 ev where
    chk: "check_signer_and_token_programs e w (swap_accounts accounts) = Ok u"
    and own: "owner (acct w (pool_info (swap_accounts accounts))) = pid"
    and ld: "load_pool w (pool_info (swap_accounts accounts)) = Ok p"
    and km: "pool_keys_match p (swap_accounts accounts)"
    and parse: "parse_bands e pid w accounts pk d [] FIXED_PREFIX_LEN counts = Ok (bcs, cs0, ids, length accounts)"
    and cc: "check_completeness p dir bb ids = Ok ()"
    and rab: "read_token_amount e w (vault_a_info (swap_accounts accounts)) = Ok ra"
      "read_token_amount e w (vault_b_info (swap_accounts accounts)) = Ok rb"
    and "clock_get e = Ok slot"
    and comp: "swap_compute p ra rb slot cs0 x mn dir bb = Ok (q, cs, n, skim, out, price)"
    and pers: "persist_bands slot accounts cs d bcs q w = Ok (q2, w1)"
    and w2: "swap_transfers e (swap_accounts accounts) dir x out da db q2 w1 = Ok w2"
    and w3: "serialize_into (pool_bytes (q2\<lparr>last_update_slot := slot\<rparr>)) (pool_info (swap_accounts accounts)) w2 = Ok w3"
    and w': "w' = emit ev w3"
    unfolding pk_def d_def by (rule process_swap_Ok)
  have un0: "\<forall>c \<in> set cs0. \<not> ctx_liquidated c" by (rule parsed_supplied [OF parse refl])
  note ce = swap_compute_effect [OF comp un0]
  obtain gs where bcs: "bcs = map fst gs" and sup: "supplied pid w accounts pk d gs cs"
    by (rule parsed_supplied [OF parse ce(5)])
  have p: "pools pid w pk = Some p" using loaded_pool [OF ld own] by (simp add: pk_def)
  have wfq: "pool_wf q" "pool_is_initialized q"
    using p ce(1,2) params_fields(11) [of q p] by (simp_all add: pools_Some)
  have gb: "\<exists>b. bands pid w (key (accounts ! ctx_band_idx bc)) = Some b \<and> band_direction b = d" if "bc \<in> set bcs" for bc
    using that sup group_band unfolding bcs supplied_def by fastforce
  have gl: "loans pid w (key (accounts ! i)) \<noteq> None" if "bc \<in> set bcs" "i \<in> set (ctx_loan_idxs bc)" for bc i
  proof -
    have "i \<in> ctx_loan_idx ` set cs" using that supplied_keys(3) [OF sup] bcs by blast
    then obtain c where "c \<in> set cs" "i = ctx_loan_idx c" by blast
    then show ?thesis using supplied_entry [OF sup] by (metis ctx_key_def option.distinct(1))
  qed
  have pb: "books_of pid w1 = (books_of pid w)\<lparr>b_loans := mark_loans slot (hit_keys accounts cs) (loans pid w),
       b_bands := lowered accounts cs bcs (bands pid w)\<rparr>"
    and q2: "params q2 = params q" "removed q q2 {#}" "pool_wf q2"
      "\<And>y. bits q2 y = bits q y - (if y = d then emptied accounts cs bcs (bands pid w) else {})"
    using persist_bands_books [OF pers _ _ _ wfq(1), of pid] gb gl supplied_band_keys [OF sup]
      keys_at_hit [OF sup] unfolding bcs by (simp_all add: bcs [symmetric])
  have qt: "quiet pid w1 w2" by (rule quiet_swap_transfers [OF iso checked_token_programs [OF chk] w2])
  have pw: "pools pid w2 pk = Some p"
    using p pb quiet_maps(1) [OF qt] by (simp add: books_of_def)
  let ?q = "q2\<lparr>last_update_slot := slot\<rparr>"
  have "books_of pid w3 = (books_of pid w2)\<lparr>b_pools := (pools pid w2)(pk \<mapsto> ?q)\<rparr>"
    unfolding pk_def
  proof (rule write_pool [OF _ _ _ _ w3])
    show "owner (acct w2 (pool_info (swap_accounts accounts))) = pid"
      "length (data (acct w2 (pool_info (swap_accounts accounts)))) = POOL_LEN"
      using entry_account(1) [of pid w2 "pool_info (swap_accounts accounts)" p] pw by (simp_all add: pk_def)
    show "pool_wf ?q" using q2(3) by simp
    show "pool_is_initialized ?q" using wfq(2) params_fields(11) [OF q2(1)] by (simp add: pool_is_initialized_def)
  qed
  moreover have "books_of pid w2 = books_of pid w1" by (rule quiet_books [OF qt])
  moreover have "pools pid w2 = pools pid w" using pb quiet_maps(1) [OF qt] by (simp add: books_of_def)
  ultimately have bw: "books_of pid w' = (books_of pid w)\<lparr>b_pools := (pools pid w)(pk \<mapsto> ?q),
       b_loans := mark_loans slot (hit_keys accounts cs) (loans pid w),
       b_bands := lowered accounts cs bcs (bands pid w)\<rparr>"
    using pb w' by simp
  show ?thesis
  proof (rule that [OF p sup, where q = ?q and slot = slot])
    show "parse_bands e pid w accounts pk d [] FIXED_PREFIX_LEN counts = Ok (map fst gs, cs0, ids, length accounts)"
      using parse by (simp only: bcs)
    show "persist_bands slot accounts cs d (map fst gs) q w = Ok (q2, w1)" using pers by (simp only: bcs)
    show "params ?q = params p" using q2(1) ce(1) by simp
    show "removed p ?q (hit_positions cs)"
      using removed_trans [OF ce(4) q2(2)] by simp
  qed (rule km cc rab comp w2 refl w3 w' | use bw q2(4) ce(3) lowered_spec [OF sup inv] emptied_spec [OF sup inv] bcs in simp)+
qed

lemma swap_refines:
  assumes "isolation_law e pid" "book_inv e pid (books_of pid w)"
    "process_swap e pid accounts x mn dir bb counts w = Ok w'"
  shows "\<exists>ks slot. book_trans e pid
    (Liquidated (key (accounts ! 0)) (direction_byte (expected_direction dir)) ks slot)
    (books_of pid w) (books_of pid w')"
proof -
  let ?pk = "key (pool_info (swap_accounts accounts))" and ?d = "direction_byte (expected_direction dir)"
  obtain p q gs cs slot cs0 ids ra rb q0 n skim out price q2 w1 w2 w3 da db ev where
    e: "pools pid w ?pk = Some p" "supplied pid w accounts ?pk ?d gs cs"
    "params q = params p" "removed p q (hit_positions cs)"
    "\<forall>y. bits q y = bits p y - (if y = ?d then {bid. hit_keys accounts cs \<inter> open_in (books_of pid w) ?pk ?d bid \<noteq> {} \<and>
        open_in (books_of pid w) ?pk ?d bid \<subseteq> hit_keys accounts cs} else {})"
    "books_of pid w' = (books_of pid w)\<lparr>b_pools := (pools pid w)(?pk \<mapsto> q),
       b_loans := mark_loans slot (hit_keys accounts cs) (loans pid w),
       b_bands := (\<lambda>k. map_option (\<lambda>b. b\<lparr>band_count := band_count b - of_nat (card (hit_keys accounts cs \<inter>
          open_in (books_of pid w) (band_pool b) (band_direction b) (band_band_id b)))\<rparr>) (bands pid w k))\<rparr>"
    "pool_keys_match p (swap_accounts accounts)"
    "parse_bands e pid w accounts ?pk ?d [] FIXED_PREFIX_LEN counts = Ok (map fst gs, cs0, ids, length accounts)"
    "check_completeness p dir bb ids = Ok ()"
    "read_token_amount e w (vault_a_info (swap_accounts accounts)) = Ok ra"
    "read_token_amount e w (vault_b_info (swap_accounts accounts)) = Ok rb"
    "swap_compute p ra rb slot cs0 x mn dir bb = Ok (q0, cs, n, skim, out, price)"
    "persist_bands slot accounts cs ?d (map fst gs) q0 w = Ok (q2, w1)"
    "swap_transfers e (swap_accounts accounts) dir x out da db q2 w1 = Ok w2"
    "q = q2\<lparr>last_update_slot := slot\<rparr>"
    "serialize_into (pool_bytes q) (pool_info (swap_accounts accounts)) w2 = Ok w3"
    "w' = emit ev w3"
    using assms by (rule swap_effect)
  have keys: "\<exists>l. b_loans (books_of pid w) k = Some l \<and> is_open l \<and> loan_pool l = ?pk \<and> loan_trigger_direction l = ?d"
    if hit: "k \<in> hit_keys accounts cs" for k
  proof -
    from hit obtain c where c: "c \<in> set cs" "k = ctx_key accounts c" by (auto simp: hit_keys_def)
    obtain g l where "g \<in> set gs" "ctx_loan_idx c \<in> set (ctx_loan_idxs (fst g))"
      "loans pid w (ctx_key accounts c) = Some l" "is_open l" "loan_pool l = ?pk"
      "loan_trigger_direction l = ?d" "loan_band_id l = band_band_id (fst (snd g))"
      "position_of l = position_of_ctx c" "ctx_trigger_wad c = loan_trigger_price_wad l"
      "trigger_direction_from_u8 ?d = Ok (ctx_direction c)"
      by (rule supplied_entry [OF e(2) c(1)])
    then show ?thesis using c(2) by simp
  qed
  have "removed p q (positions (books_of pid w) (hit_keys accounts cs))"
    using e(4) positions_hit [OF e(2)] by simp
  then have "book_trans e pid (Liquidated ?pk ?d (hit_keys accounts cs) slot) (books_of pid w) (books_of pid w')"
    unfolding e(6) mark_loans_def books_of_simps(1,2,3) [of pid w, symmetric]
  proof (rule book_trans.liquidated [where p = p and dir = ?d, rotated 4])
    show "b_pools (books_of pid w) ?pk = Some p" using e(1) by simp
    show "\<exists>l. b_loans (books_of pid w) k = Some l \<and> is_open l \<and> loan_pool l = ?pk \<and> loan_trigger_direction l = ?d"
      if "k \<in> hit_keys accounts cs" for k using that by (rule keys)
    show "finite (hit_keys accounts cs)" by (simp add: hit_keys_def)
    show "params q = params p" by (rule e(3))
    show "bits q x = bits p x - (if x = ?d then {bid. hit_keys accounts cs \<inter> open_in (books_of pid w) ?pk x bid \<noteq> {} \<and>
        open_in (books_of pid w) ?pk x bid \<subseteq> hit_keys accounts cs} else {})" for x
      using e(5) by simp
  qed
  then show ?thesis by (auto simp: swap_accounts_def)
qed

end
