(* ===== verification/Ledger_Invariants.thy ===== *)
theory Ledger_Invariants
  imports Handler_Refinement Entrypoint
begin

text \<open>
  Invariants of the ledger that no handler can break because none of its primitive effects can:
  log lines, lamport moves, in-place writes of account data, token calls, and the creation of
  accounts at the program's own addresses. The locale collects these closure conditions and
  shows once that every handler keeps the invariant. It is interpreted on the fact the loan
  handler needs: an address of a band is either unallocated or the program's.
\<close>

section \<open>Postconditions\<close>

definition post :: "('a, 'e) res \<Rightarrow> ('a \<Rightarrow> bool) \<Rightarrow> bool" where
  "post r Q \<longleftrightarrow> (\<forall>x. r = Ok x \<longrightarrow> Q x)"

lemma post_intros:
  "Q x \<Longrightarrow> post (Ok x) Q"
  "post (Err err) Q"
  "(\<And>z. m = Ok z \<Longrightarrow> post (f z) Q) \<Longrightarrow> post (and_then m f) Q"
  "(b \<Longrightarrow> post r Q) \<Longrightarrow> (\<not> b \<Longrightarrow> post r' Q) \<Longrightarrow> post (if b then r else r') Q"
  "(\<And>a b. y = (a, b) \<Longrightarrow> post (g a b) Q) \<Longrightarrow> post (case y of (a, b) \<Rightarrow> g a b) Q"
  "(sides = CollateralA \<Longrightarrow> post r Q) \<Longrightarrow> (sides = CollateralB \<Longrightarrow> post r' Q) \<Longrightarrow>
     post (case sides of CollateralA \<Rightarrow> r | CollateralB \<Rightarrow> r') Q"
  by (auto simp: post_def split: prod.splits loan_sides.splits)

lemma postD: "post r Q \<Longrightarrow> r = Ok x \<Longrightarrow> Q x"
  by (simp add: post_def)

lemma postI: "(\<And>x. r = Ok x \<Longrightarrow> Q x) \<Longrightarrow> post r Q"
  by (simp add: post_def)

section \<open>Closure under the primitive effects\<close>

text \<open>The addresses of a pool's vaults and LP mint.\<close>

definition vault_address :: "env \<Rightarrow> pubkey \<Rightarrow> pubkey \<Rightarrow> bool" where
  "vault_address e program_id k \<longleftrightarrow> (\<exists>pk bump.
     derive_vault_a_pda e pk program_id = Ok (k, bump) \<or>
     derive_vault_b_pda e pk program_id = Ok (k, bump) \<or>
     derive_lp_mint_pda e pk program_id = Ok (k, bump))"

locale ledger_inv =
  fixes e :: env and pid :: pubkey and inv :: "world \<Rightarrow> bool"
  assumes inv_emit: "inv w \<Longrightarrow> inv (emit ev w)"
    and inv_lamports: "inv w \<Longrightarrow> inv (put_lamports i n w)"
    and inv_write: "inv w \<Longrightarrow> length bs = length (data (acct w i)) \<Longrightarrow> inv (put_data i bs w)"
    and inv_token: "inv w \<Longrightarrow> is_valid_token_program e (cpi_program e c) \<Longrightarrow>
      invoke_signed e c infos seeds w = Ok w' \<Longrightarrow> inv w'"
    and inv_fund: "inv w \<Longrightarrow> invoke_signed e (SysTransfer src dst n) infos seeds w = Ok w' \<Longrightarrow> inv w'"
    and inv_create: "inv w \<Longrightarrow> create_pda_account e payer t sys space own ss rent w = Ok w' \<Longrightarrow>
      own = pid \<or> vault_address e pid (key t) \<Longrightarrow> inv w'"
begin

lemma inv_zero: "inv w \<Longrightarrow> inv (put_data i (map (\<lambda>_. 0) (data (acct w i))) w)"
  by (rule inv_write) simp_all

text \<open>A step that changes the ledger may be followed by any step that needs the invariant only.\<close>

lemma post_bind:
  assumes "post m inv" "\<And>w'. inv w' \<Longrightarrow> post (f w') Q"
  shows "post (and_then m f) Q"
  using assms by (auto simp: post_def)

lemma post_serialize: "inv w \<Longrightarrow> post (serialize_into enc i w) inv"
  by (rule postI) (simp add: inv_write)

lemma post_transfer:
  "inv w \<Longrightarrow> is_valid_token_program e (key prog) \<Longrightarrow>
   post (transfer_checked e prog src m dst auth amount dec seeds w) inv"
  unfolding transfer_checked_def by (rule postI, rule inv_token) simp_all

lemma post_token:
  "inv w \<Longrightarrow> is_valid_token_program e (cpi_program e c) \<Longrightarrow> post (invoke_signed e c infos seeds w) inv"
  by (rule postI, rule inv_token)

lemma post_burn:
  "inv w \<Longrightarrow> is_valid_token_program e prog \<Longrightarrow>
   post (invoke e (BurnChecked prog acc m auth amount dec) infos w) inv"
  unfolding invoke_def by (rule post_token) simp_all

lemma post_fund: "inv w \<Longrightarrow> post (invoke e (SysTransfer src dst n) infos w) inv"
  unfolding invoke_def by (rule postI, rule inv_fund)

lemma post_create:
  "inv w \<Longrightarrow> own = pid \<or> vault_address e pid (key t) \<Longrightarrow>
   post (create_pda_account e payer t sys space own ss rent w) inv"
  by (rule postI, rule inv_create)

lemma post_close: "inv w \<Longrightarrow> post (close_account i j w) inv"
  unfolding close_account_def Let_def by (intro post_intros inv_zero inv_lamports)

lemma post_drain: "inv w \<Longrightarrow> post (drain i j w) inv"
  unfolding drain_def Let_def by (intro post_intros inv_lamports)

lemmas post_steps = post_serialize post_transfer post_burn post_fund post_token post_create
  post_close post_drain post_bind post_intros inv_emit

text \<open>The parts of the handlers.\<close>

lemma post_add_settle:
  assumes "inv w" "is_valid_token_program e (key (token_program_a_info a))"
    "is_valid_token_program e (key (token_program_b_info a))"
  shows "post (add_liquidity_settle e a lpm ulp q w) inv"
  unfolding add_liquidity_settle_def using assms by (intro post_steps; simp)

lemma post_remove_settle:
  assumes "inv w" "is_valid_token_program e (key (token_program_a_info a))"
    "is_valid_token_program e (key (token_program_b_info a))"
  shows "post (remove_liquidity_settle e a lpm ulp n q w) inv"
  unfolding remove_liquidity_settle_def using assms by (intro post_steps; simp)

lemma post_fees_pay:
  assumes "inv w" "is_valid_token_program e (key (accounts ! 7))"
    "is_valid_token_program e (key (accounts ! 8))"
  shows "post (claim_fees_pay e accounts pool w) inv"
  unfolding claim_fees_pay_def Let_def using assms by (intro post_steps; simp)

lemma post_open_transfers:
  assumes "inv w" "is_valid_token_program e (key (token_program_a_info a))"
    "is_valid_token_program e (key (token_program_b_info a))"
  shows "post (open_loan_transfers e a sides c d pool w) inv"
  unfolding open_loan_transfers_def using assms by (intro post_steps; simp)

lemma post_repay_transfers:
  assumes "inv w" "is_valid_token_program e (key (token_program_a_info a))"
    "is_valid_token_program e (key (token_program_b_info a))"
  shows "post (repay_transfers e a sides c d pool w) inv"
  unfolding repay_transfers_def using assms by (intro post_steps; simp)

lemma post_swap_transfers:
  assumes "inv w" "is_valid_token_program e (key (token_program_a_info a))"
    "is_valid_token_program e (key (token_program_b_info a))"
  shows "post (swap_transfers e a dir x out da db pool w) inv"
  unfolding swap_transfers_def using assms by (intro post_steps; simp)

lemma post_repay_close: "inv w \<Longrightarrow> post (repay_close a li bi pool loan band slot owe w) inv"
  unfolding repay_close_def Let_def by (intro post_steps)

lemma post_open_store:
  "inv w \<Longrightarrow> post (open_loan_store a li bi sb c d nonce p trigger dir bump bid b slot w) inv"
  unfolding open_loan_store_def by (intro post_steps)

lemma post_allocate_band:
  "inv w \<Longrightarrow> post (open_loan_allocate_band e pid a bi sys bid d bump rent w) inv"
  unfolding open_loan_allocate_band_def Let_def by (intro post_steps; simp)

lemma post_allocate:
  "inv w \<Longrightarrow> post (open_loan_allocate e pid a li bi sys nonce p trigger dir w)
    (\<lambda>(_, _, _, _, _, w'). inv w')"
  unfolding open_loan_allocate_def Let_def by (intro post_allocate_band post_steps; simp)

lemma post_vault:
  assumes "inv w" "vault_address e pid (key v)" "is_valid_token_program e (key tp)"
  shows "post (create_vault e tp sys payer pool_i mint_i v seed bump rent w) inv"
  unfolding create_vault_def Let_def using assms by (intro post_steps; simp)

lemma post_lp_mint:
  assumes "inv w" "vault_address e pid (key v)" "is_valid_token_program e (key tp)"
  shows "post (create_lp_mint e tp sys payer pool_i v bump rent w) inv"
  unfolding create_lp_mint_def Let_def using assms by (intro post_steps; simp)

lemma post_persist_loans:
  "inv w \<Longrightarrow> post (persist_loans slot accounts cs idxs n w) (\<lambda>(_, w'). inv w')"
proof (induction idxs arbitrary: n w)
  case (Cons i idxs)
  then show ?case unfolding persist_loans.simps Let_def by (intro Cons.IH post_steps)
qed (simp add: post_def)

lemma post_bind_pair:
  assumes "post m (\<lambda>(_, w'). inv w')" "\<And>n w'. inv w' \<Longrightarrow> post (g n w') Q"
  shows "post (and_then m (\<lambda>(n, w'). g n w')) Q"
  using assms by (auto simp: post_def)

lemma post_persist_bands:
  "inv w \<Longrightarrow> post (persist_bands slot accounts cs d bcs p w) (\<lambda>(_, w'). inv w')"
proof (induction bcs arbitrary: p w)
  case (Cons bc bcs)
  then show ?case unfolding persist_bands.simps Let_def
    by (intro Cons.IH post_bind_pair [OF post_persist_loans] post_steps)
qed (simp add: post_def)

text \<open>The handlers and the dispatcher.\<close>

lemma post_add_liquidity: "inv w \<Longrightarrow> post (process_add_liquidity e pid accounts x y z w) inv"
  unfolding process_add_liquidity_def Let_def
  by (intro post_add_settle post_steps; (assumption | erule checked_token_programs)+)

lemma post_remove_liquidity: "inv w \<Longrightarrow> post (process_remove_liquidity e pid accounts x y z w) inv"
  unfolding process_remove_liquidity_def Let_def
  by (intro post_remove_settle post_steps; (assumption | erule checked_token_programs)+)

lemma post_open_loan: "inv w \<Longrightarrow> post (process_open_loan e pid accounts sb c d nonce w) inv"
proof -
  have bind: "post (and_then m (\<lambda>(a, b, c, d, slot, w'). g a b c d slot w')) Q"
    if "post m (\<lambda>(_, _, _, _, _, w'). inv w')" "\<And>a b c d slot w'. inv w' \<Longrightarrow> post (g a b c d slot w') Q"
    for m :: "('a \<times> 'b \<times> 'c \<times> 'd \<times> 'f \<times> world, 'g) res" and g Q
    using that by (auto simp: post_def)
  show "inv w \<Longrightarrow> ?thesis"
    unfolding process_open_loan_def Let_def
    by (intro bind [OF post_allocate] post_open_store post_open_transfers post_steps;
        (assumption | erule checked_token_programs)+)
qed

lemma post_repay_loan: "inv w \<Longrightarrow> post (process_repay_loan e pid accounts w) inv"
  unfolding process_repay_loan_def Let_def
  by (intro post_repay_transfers post_repay_close post_steps; (assumption | erule checked_token_programs)+)

lemma post_claim_fees: "inv w \<Longrightarrow> post (process_claim_protocol_fees e pid accounts w) inv"
  unfolding process_claim_protocol_fees_def Let_def
  by (intro post_fees_pay post_steps; auto simp: validate_token_program_for_mint_def split: if_splits)

lemma post_claim_rent: "inv w \<Longrightarrow> post (process_claim_liquidated_rent e pid accounts w) inv"
  unfolding process_claim_liquidated_rent_def Let_def by (intro post_steps inv_zero)

lemma post_persist_liquidations:
  "inv w \<Longrightarrow> post (persist_liquidations e accounts cs bcs d p w) (\<lambda>(_, w'). inv w')"
  unfolding persist_liquidations_def by (intro post_persist_bands post_intros)

lemma post_swap: "inv w \<Longrightarrow> post (process_swap e pid accounts x mn dir bb counts w) inv"
  unfolding process_swap_def Let_def
  by (intro post_bind_pair [OF post_persist_liquidations] post_swap_transfers post_steps;
      (assumption | erule checked_token_programs)+)

lemma post_initialize: "inv w \<Longrightarrow> post (process_initialize_pool e pid accounts w) inv"
proof -
  have addr: "vault_address e pid (key (accounts ! 3)) \<and> vault_address e pid (key (accounts ! 4)) \<and>
      vault_address e pid (key (accounts ! 5)) \<and> is_valid_token_program e (key (accounts ! 8)) \<and>
      is_valid_token_program e (key (accounts ! 9))"
    if "initialize_pool_checks e pid accounts w = Ok z" for z
    using that unfolding initialize_pool_checks_def Let_def vault_address_def
    by (auto simp: validate_token_program_for_mint_def split: if_splits)
  show "inv w \<Longrightarrow> ?thesis"
    unfolding process_initialize_pool_def Let_def
    by (intro post_vault post_lp_mint post_steps; (assumption | simp add: addr | (drule addr, simp)))
qed

lemma dispatch_keeps:
  assumes "inv w" "dispatch e pid accounts ix w = Ok w'"
  shows "inv w'"
proof -
  have "post (dispatch e pid accounts ix w) inv"
    using assms(1) by (cases ix) (simp_all add: post_initialize post_add_liquidity post_remove_liquidity
        post_open_loan post_repay_loan post_claim_fees post_claim_rent post_swap)
  then show ?thesis using assms(2) by (rule postD)
qed

end

section \<open>The addresses of bands\<close>

text \<open>Addresses derived from different seeds differ: no band has the address of a vault or an LP
  mint.\<close>

definition address_law :: "env \<Rightarrow> pubkey \<Rightarrow> bool" where
  "address_law e program_id \<longleftrightarrow>
     (\<forall>pk d bid k bump. band_derive_pda e pk d bid program_id = Ok (k, bump) \<longrightarrow>
        \<not> vault_address e program_id k)"

text \<open>What the handlers rely on of the runtime, the system program and address derivation.\<close>

definition platform :: "env \<Rightarrow> pubkey \<Rightarrow> bool" where
  "platform e program_id \<longleftrightarrow> runtime_law e program_id \<and> system_law e \<and> address_law e program_id"

definition unclaimed_or_own :: "env \<Rightarrow> pubkey \<Rightarrow> account \<Rightarrow> bool" where
  "unclaimed_or_own e program_id x \<longleftrightarrow>
     owner x = program_id \<or> owner x = system_program_id e \<and> data x = []"

definition band_addresses_ok :: "env \<Rightarrow> pubkey \<Rightarrow> world \<Rightarrow> bool" where
  "band_addresses_ok e program_id w \<longleftrightarrow>
     (\<forall>pk d bid k bump. band_derive_pda e pk d bid program_id = Ok (k, bump) \<longrightarrow>
        unclaimed_or_own e program_id (ledger w k))"

lemma band_addresses_pda:
  assumes "band_addresses_ok e pid w"
  shows "pda_law e pid w"
  using assms unfolding band_addresses_ok_def pda_law_def unclaimed_or_own_def by blast

lemma band_addresses_mono:
  assumes "band_addresses_ok e pid w"
    "\<And>k pk d bid bump. band_derive_pda e pk d bid pid = Ok (k, bump) \<Longrightarrow>
       unclaimed_or_own e pid (ledger w k) \<Longrightarrow> unclaimed_or_own e pid (ledger w' k)"
  shows "band_addresses_ok e pid w'"
  using assms unfolding band_addresses_ok_def by blast

lemma created_frame:
  assumes law: "system_law e" and "create_pda_account e payer t sys space own seeds rent w = Ok w'"
  shows "owner (ledger w' (key t)) = own \<and> (\<forall>j. j \<noteq> key t \<longrightarrow> same_contents (ledger w j) (ledger w' j))"
  using assms(2)
proof (cases rule: create_pda_account_cases)
  case fresh
  then show ?thesis using system_lawD(1) [OF law fresh] by simp
next
  case (funded m w1 w2)
  have "\<forall>j. same_contents (ledger w j) (ledger w1 j)"
    using funded(1) system_lawD(2) [OF law] by (auto simp: same_contents_def)
  then show ?thesis
    using system_lawD(3) [OF law funded(2)] system_lawD(4) [OF law funded(3)]
    by (simp add: same_contents_def)
qed

interpretation band_addresses: ledger_inv e pid "\<lambda>w. platform e pid \<longrightarrow> band_addresses_ok e pid w" for e pid
proof unfold_locales
  fix w ev assume "platform e pid \<longrightarrow> band_addresses_ok e pid w"
  then show "platform e pid \<longrightarrow> band_addresses_ok e pid (emit ev w)" by (simp add: band_addresses_ok_def)
next
  fix w i n assume "platform e pid \<longrightarrow> band_addresses_ok e pid w"
  then show "platform e pid \<longrightarrow> band_addresses_ok e pid (put_lamports i n w)"
    by (auto elim!: band_addresses_mono simp: unclaimed_or_own_def put_lamports_def acct_def)
next
  fix w i and bs :: bytes assume "platform e pid \<longrightarrow> band_addresses_ok e pid w" "length bs = length (data (acct w i))"
  then show "platform e pid \<longrightarrow> band_addresses_ok e pid (put_data i bs w)"
    by (auto elim!: band_addresses_mono simp: unclaimed_or_own_def put_data_def acct_def)
next
  fix w w' c infos seeds
  assume inv: "platform e pid \<longrightarrow> band_addresses_ok e pid w"
    and c: "is_valid_token_program e (cpi_program e c)" "invoke_signed e c infos seeds w = Ok w'"
  show "platform e pid \<longrightarrow> band_addresses_ok e pid w'"
  proof
    assume p: "platform e pid"
    then have rt: "runtime_law e pid" by (simp add: platform_def)
    have "same_contents (ledger w k) (ledger w' k)" if "unclaimed_or_own e pid (ledger w k)" for k
      using that rt c(1) by (intro runtime_invoke [OF rt _ c(2)])
        (auto simp: external_def unclaimed_or_own_def runtime_law_def)
    then show "band_addresses_ok e pid w'" using inv p
      by (auto elim!: band_addresses_mono simp: unclaimed_or_own_def same_contents_def)
  qed
next
  fix w w' src dst n infos seeds
  assume inv: "platform e pid \<longrightarrow> band_addresses_ok e pid w"
    and c: "invoke_signed e (SysTransfer src dst n) infos seeds w = Ok w'"
  show "platform e pid \<longrightarrow> band_addresses_ok e pid w'"
  proof
    assume p: "platform e pid"
    then have "\<forall>j. same_contents (ledger w j) (ledger w' j)"
      using system_lawD(2) [OF _ c] by (simp add: platform_def)
    then show "band_addresses_ok e pid w'" using inv p
      by (auto elim!: band_addresses_mono simp: unclaimed_or_own_def same_contents_def)
  qed
next
  fix w w' payer t sys space own seeds rent
  assume inv: "platform e pid \<longrightarrow> band_addresses_ok e pid w"
    and c: "create_pda_account e payer t sys space own seeds rent w = Ok w'"
    and own: "own = pid \<or> vault_address e pid (key t)"
  show "platform e pid \<longrightarrow> band_addresses_ok e pid w'"
  proof
    assume p: "platform e pid"
    note fr = created_frame [OF _ c]
    show "band_addresses_ok e pid w'"
    proof (rule band_addresses_mono [where w = w])
      show "band_addresses_ok e pid w" using inv p by simp
      show "unclaimed_or_own e pid (ledger w' k)"
        if b: "band_derive_pda e pk d bid pid = Ok (k, bump)" "unclaimed_or_own e pid (ledger w k)" for k pk d bid bump
      proof (cases "k = key t")
        case True
        then have "\<not> vault_address e pid (key t)" using b(1) p unfolding platform_def address_law_def by blast
        then show ?thesis using own fr p True by (simp add: platform_def unclaimed_or_own_def)
      next
        case False
        then show ?thesis using fr b(2) p by (simp add: platform_def unclaimed_or_own_def same_contents_def)
      qed
    qed
  qed
qed

lemma dispatch_band_addresses:
  assumes "platform e pid" "band_addresses_ok e pid w" "dispatch e pid accounts ix w = Ok w'"
  shows "band_addresses_ok e pid w'"
  using band_addresses.dispatch_keeps [of e pid w accounts ix w'] assms by blast

end
