(* ===== verification/System_Invariant.thy ===== *)
theory System_Invariant
  imports Swap_Refinement Ledger_Invariants
begin

text \<open>
  The program as a whole: every instruction is a transition of the abstract books, and the book
  invariant holds in every ledger that instructions, at any slot and in any order, and
  transactions of other programs can lead to.
\<close>

section \<open>Instructions refine the books\<close>

lemma platform_parts:
  assumes "platform e pid"
  shows "runtime_law e pid" "isolation_law e pid" "system_law e" "address_law e pid"
  using assms runtime_isolation by (simp_all add: platform_def)

text \<open>The effects an instruction may have, and who has to sign for them: the authority for a new
  pool, the caller for every instruction that moves tokens of its own, the borrower for closing
  its loans. Anybody may push the protocol fees to their recipient.\<close>

fun permits :: "books \<Rightarrow> account_info list \<Rightarrow> liquidity_instruction \<Rightarrow> effect \<Rightarrow> bool" where
  "permits s accounts InitializePool eff \<longleftrightarrow> eff = Created (key (accounts ! 0)) \<and> is_signer (accounts ! 6)"
| "permits s accounts (AddLiquidity _ _ _) eff \<longleftrightarrow>
     eff = Touched (key (accounts ! 0)) \<and> is_signer (accounts ! 7)"
| "permits s accounts (RemoveLiquidity _ _ _) eff \<longleftrightarrow>
     eff = Touched (key (accounts ! 0)) \<and> is_signer (accounts ! 7)"
| "permits s accounts (OpenLoan sides c d nonce) eff \<longleftrightarrow>
     (\<exists>l. eff = Opened (key (accounts ! 8)) l \<and> loan_pool l = key (accounts ! 0) \<and>
        loan_borrower l = key (accounts ! 7) \<and> is_signer (accounts ! 7) \<and> loan_sides l = sides \<and>
        loan_collateral_amount l = widen c \<and> loan_debt_principal l = widen d)"
| "permits s accounts RepayLoan eff \<longleftrightarrow> eff = Repaid (key (accounts ! 8)) \<and> is_signer (accounts ! 7) \<and>
     (\<exists>l. b_loans s (key (accounts ! 8)) = Some l \<and> loan_borrower l = key (accounts ! 7))"
| "permits s accounts ClaimProtocolFees eff \<longleftrightarrow> eff = Touched (key (accounts ! 0))"
| "permits s accounts ClaimLiquidatedRent eff \<longleftrightarrow>
     eff = RentClaimed (key (accounts ! 0)) \<and> is_signer (accounts ! 1) \<and>
     (\<exists>l. b_loans s (key (accounts ! 0)) = Some l \<and> loan_borrower l = key (accounts ! 1))"
| "permits s accounts (Swap _ _ a_to_b _ _) eff \<longleftrightarrow>
     is_signer (accounts ! 7) \<and>
     (\<exists>ks slot. eff = Liquidated (key (accounts ! 0)) (direction_byte (expected_direction a_to_b)) ks slot)"

text \<open>The handlers check the signer first.\<close>

lemma initialize_signer:
  assumes "process_initialize_pool e pid accounts w = Ok w'"
  shows "is_signer (accounts ! 6)"
  using assms unfolding process_initialize_pool_def initialize_pool_checks_def Let_def guard_Ok_iff
    and_then_Ok_iff by blast

lemma user_signer:
  "check_signer_and_token_programs e w a = Ok u \<Longrightarrow> is_signer (user_info a)"
  by (simp add: check_signer_and_token_programs_Ok_iff)

lemma add_liquidity_signer:
  assumes "process_add_liquidity e pid accounts x y z w = Ok w'"
  shows "is_signer (accounts ! 7)"
  by (rule add_liquidity_effect [OF assms], drule user_signer) (simp add: add_liquidity_accounts_def)

lemma remove_liquidity_signer:
  assumes "process_remove_liquidity e pid accounts x y z w = Ok w'"
  shows "is_signer (accounts ! 7)"
  by (rule remove_liquidity_effect [OF assms], drule user_signer) (simp add: remove_liquidity_accounts_def)

lemma swap_signer:
  assumes "process_swap e pid accounts x mn dir bb counts w = Ok w'"
  shows "is_signer (accounts ! 7)"
  using assms unfolding process_swap_def Let_def guard_Ok_iff and_then_Ok_iff
    check_signer_and_token_programs_Ok_iff by (simp add: swap_accounts_def)

text \<open>Claiming when nothing has accrued is the one call that succeeds without an effect.\<close>

definition nothing_to_claim :: "books \<Rightarrow> account_info list \<Rightarrow> liquidity_instruction \<Rightarrow> bool" where
  "nothing_to_claim s accounts ix \<longleftrightarrow> ix = ClaimProtocolFees \<and>
     (\<exists>p. b_pools s (key (accounts ! 0)) = Some p \<and> protocol_fees_a p = 0 \<and> protocol_fees_b p = 0)"

lemma open_signer:
  assumes "process_open_loan e pid accounts sb c d nonce w = Ok w'"
  shows "is_signer (accounts ! 7)"
  using assms unfolding process_open_loan_def Let_def guard_Ok_iff and_then_Ok_iff
    check_signer_and_token_programs_Ok_iff
  by (simp add: loan_handler_accounts_def)

lemma repay_signer:
  assumes "process_repay_loan e pid accounts w = Ok w'"
  shows "is_signer (accounts ! 7) \<and>
    (\<exists>l. loans pid w (key (accounts ! 8)) = Some l \<and> loan_borrower l = key (accounts ! 7))"
proof -
  let ?a = "loan_handler_accounts accounts 10"
  from assms obtain u p l b where chk: "check_signer_and_token_programs e w ?a = Ok u"
    and own: "owner (acct w (accounts ! 8)) = pid"
    and load: "repay_load e pid ?a (accounts ! 8) (accounts ! 9) w = Ok (p, l, b)"
    unfolding process_repay_loan_def Let_def guard_Ok_iff and_then_Ok_iff case_prod_beta de_Morgan_disj not_not
    by (metis prod.collapse)
  from load have l: "load_loan w (accounts ! 8) = Ok l" "loan_is_initialized l"
    "loan_borrower l = key (user_info ?a)"
    unfolding repay_load_def guard_Ok_iff and_then_Ok_iff case_prod_beta res.inject by auto
  show ?thesis
    using chk loaded_loan [OF l(1,2) own] l(3)
    by (simp add: check_signer_and_token_programs_Ok_iff loan_handler_accounts_def)
qed

lemma rent_signer:
  assumes "process_claim_liquidated_rent e pid accounts w = Ok w'"
  shows "is_signer (accounts ! 1) \<and>
    (\<exists>l. loans pid w (key (accounts ! 0)) = Some l \<and> loan_borrower l = key (accounts ! 1))"
proof -
  from assms obtain l where "is_signer (accounts ! 1)" "owner (acct w (accounts ! 0)) = pid"
    "load_loan w (accounts ! 0) = Ok l" "loan_is_initialized l" "loan_borrower l = key (accounts ! 1)"
    by (auto simp: process_claim_liquidated_rent_def Let_def)
  then show ?thesis using loaded_loan by blast
qed

lemma dispatch_step:
  assumes "platform e pid" "band_addresses_ok e pid w" "book_inv e pid (books_of pid w)"
    "dispatch e pid accounts ix w = Ok w'"
  shows "(\<exists>eff. permits (books_of pid w) accounts ix eff \<and>
    book_trans e pid eff (books_of pid w) (books_of pid w')) \<or>
    nothing_to_claim (books_of pid w) accounts ix \<and> w' = w"
proof -
  note law = platform_parts [OF assms(1)] band_addresses_pda [OF assms(2)]
  show ?thesis
  proof (cases ix)
    case InitializePool
    then show ?thesis using assms(4) initialize_refines [OF law(2,3)] initialize_signer by auto
  next
    case AddLiquidity
    then show ?thesis using assms(4) add_liquidity_refines [OF law(2)] add_liquidity_signer by auto
  next
    case RemoveLiquidity
    then show ?thesis using assms(4) remove_liquidity_refines [OF law(2)] remove_liquidity_signer by auto
  next
    case (OpenLoan sides c d nonce)
    then have "process_open_loan e pid accounts sides c d nonce w = Ok w'" using assms(4) by simp
    from open_refines [OF law(2,3,5) this] open_signer [OF this] show ?thesis
      unfolding OpenLoan by (elim exE) (intro disjI1 exI conjI; auto)
  next
    case RepayLoan
    then have r: "process_repay_loan e pid accounts w = Ok w'" using assms(4) by simp
    show ?thesis using repay_refines [OF law(2) r] repay_signer [OF r] RepayLoan by auto
  next
    case ClaimProtocolFees
    then show ?thesis using assms(4) claim_fees_refines [OF law(2)] by (auto simp: nothing_to_claim_def)
  next
    case ClaimLiquidatedRent
    then have r: "process_claim_liquidated_rent e pid accounts w = Ok w'" using assms(4) by simp
    show ?thesis using claim_rent_refines [OF r] rent_signer [OF r] ClaimLiquidatedRent by auto
  next
    case (Swap x mn dir bb counts)
    then have r: "process_swap e pid accounts x mn dir bb counts w = Ok w'" using assms(4) by simp
    show ?thesis using swap_refines [OF law(2) assms(3) r] swap_signer [OF r] Swap by auto
  qed
qed

section \<open>Reachable ledgers\<close>

text \<open>What happens between instructions: other programs leave this program's accounts alone, hand
  over accounts with zeroed data only, and cannot allocate an address only this program signs for.
  The runtime removes accounts that were closed, i.e. zeroed.\<close>

definition outside :: "env \<Rightarrow> pubkey \<Rightarrow> world \<Rightarrow> world \<Rightarrow> bool" where
  "outside e program_id w w' \<longleftrightarrow>
     (\<forall>k. (owner (ledger w k) = program_id \<longrightarrow>
             same_contents (ledger w k) (ledger w' k) \<or>
             list_all (\<lambda>b. b = 0) (data (ledger w k)) \<and>
               owner (ledger w' k) = system_program_id e \<and> data (ledger w' k) = []) \<and>
          (owner (ledger w k) \<noteq> program_id \<longrightarrow> owner (ledger w' k) = program_id \<longrightarrow>
             list_all (\<lambda>b. b = 0) (data (ledger w' k))) \<and>
          (\<forall>pk d bid bump. band_derive_pda e pk d bid program_id = Ok (k, bump) \<longrightarrow>
             unclaimed_or_own e program_id (ledger w k) \<longrightarrow>
             unclaimed_or_own e program_id (ledger w' k)))"

inductive reachable :: "env \<Rightarrow> pubkey \<Rightarrow> world \<Rightarrow> bool" for e program_id where
  start: "(\<And>k. owner (ledger w k) \<noteq> program_id) \<Longrightarrow> band_addresses_ok e program_id w \<Longrightarrow>
    reachable e program_id w"
| instruction: "reachable e program_id w \<Longrightarrow>
    dispatch (e\<lparr>clock_get := slot\<rparr>) program_id accounts ix w = Ok w' \<Longrightarrow>
    reachable e program_id w'"
| other: "reachable e program_id w \<Longrightarrow> outside e program_id w w' \<Longrightarrow> reachable e program_id w'"

text \<open>The laws do not depend on the clock.\<close>

lemma derive_clock [simp]:
  "band_derive_pda (e\<lparr>clock_get := slot\<rparr>) = band_derive_pda e"
  "vault_address (e\<lparr>clock_get := slot\<rparr>) = vault_address e"
  by (simp_all add: fun_eq_iff band_derive_pda_def vault_address_def derive_vault_a_pda_def
      derive_vault_b_pda_def derive_lp_mint_pda_def)

lemma cpi_program_clock [simp]: "cpi_program (e\<lparr>clock_get := slot\<rparr>) c = cpi_program e c"
  by (cases c) simp_all

lemma platform_clock [simp]: "platform (e\<lparr>clock_get := slot\<rparr>) pid = platform e pid"
  by (simp add: platform_def runtime_law_def system_law_def address_law_def external_def
      is_valid_token_program_def)

lemma band_addresses_clock [simp]:
  "band_addresses_ok (e\<lparr>clock_get := slot\<rparr>) pid w = band_addresses_ok e pid w"
  by (simp add: band_addresses_ok_def unclaimed_or_own_def)

lemma book_inv_clock [simp]: "book_inv (e\<lparr>clock_get := slot\<rparr>) pid s = book_inv e pid s"
  by (simp add: book_inv_def band_ok_def band_at_def)

text \<open>Outside steps do not show in the books.\<close>

context account_kind
begin

lemma view_outside:
  assumes "outside e pid w w'" "pid \<noteq> system_program_id e"
  shows "view dec live pid w' = view dec live pid w"
proof
  fix k
  have o: "owner (ledger w k) = pid \<longrightarrow> same_contents (ledger w k) (ledger w' k) \<or>
      list_all (\<lambda>b. b = 0) (data (ledger w k)) \<and> owner (ledger w' k) = system_program_id e"
    "owner (ledger w k) \<noteq> pid \<longrightarrow> owner (ledger w' k) = pid \<longrightarrow> list_all (\<lambda>b. b = 0) (data (ledger w' k))"
    using assms(1) unfolding outside_def by blast+
  show "view dec live pid w' k = view dec live pid w k"
  proof (cases "owner (ledger w k) = pid \<and> same_contents (ledger w k) (ledger w' k)")
    case True
    then show ?thesis by (simp add: view_def same_contents_def)
  next
    case False
    have foreign: "view dec live pid v k = None" if "owner (ledger v k) \<noteq> pid" for v
      using that by (simp add: view_def)
    have "view dec live pid w k = None"
      using False o(1) view_None_zero [of w k pid] foreign [of w] by auto
    moreover have "view dec live pid w' k = None"
      using False o view_None_zero [of w' k pid] foreign [of w'] assms(2) by auto
    ultimately show ?thesis by simp
  qed
qed

end

lemma books_outside:
  assumes "outside e pid w w'" "pid \<noteq> system_program_id e"
  shows "books_of pid w' = books_of pid w"
  using pool_kind.view_outside [OF assms] loan_kind.view_outside [OF assms]
    band_kind.view_outside [OF assms] by (simp add: books_of_def views)

lemma no_accounts_no_books:
  assumes "\<And>k. owner (ledger w k) \<noteq> pid"
  shows "book_inv e pid (books_of pid w)"
  using assms by (simp add: book_inv_def books_of_def views view_def)

lemma reachable_inv:
  assumes "reachable e pid w" "platform e pid"
  shows "book_inv e pid (books_of pid w) \<and> band_addresses_ok e pid w"
  using assms
proof (induction rule: reachable.induct)
  case (start w)
  then show ?case using no_accounts_no_books by blast
next
  case (instruction w slot accounts ix w')
  let ?e = "e\<lparr>clock_get := slot\<rparr>"
  have inv: "book_inv ?e pid (books_of pid w)" "band_addresses_ok ?e pid w" "platform ?e pid"
    using instruction by simp_all
  have "book_inv ?e pid (books_of pid w')"
    using dispatch_step [OF inv(3,2,1) instruction.hyps(2)] book_trans_keeps inv(1) by blast
  moreover have "band_addresses_ok ?e pid w'"
    by (rule dispatch_band_addresses [OF inv(3,2) instruction.hyps(2)])
  ultimately show ?case by simp
next
  case (other w w')
  then have "band_addresses_ok e pid w'"
    unfolding outside_def band_addresses_ok_def by blast
  moreover have "pid \<noteq> system_program_id e" using other.prems by (simp add: platform_def runtime_law_def)
  ultimately show ?case using other books_outside [of e pid w w'] by simp
qed

end
