(* ===== verification/Sample_Books.thy ===== *)
theory Sample_Books
  imports System_Invariant Swap_Completeness
begin

text \<open>
  The concrete environment keeps the rules of the platform, and the concrete ledger's books keep
  the invariant: the hypotheses of the system-level properties can hold together.
\<close>

section \<open>The rules\<close>

lemma token_transfer_writes:
  assumes "token_transfer src m dst auth amount l = Ok l'"
  shows "owner (l' k) = owner (l k) \<and> (k \<noteq> src \<longrightarrow> k \<noteq> dst \<longrightarrow> l' k = l k)"
  using assms by (auto simp: token_transfer_def split: option.splits if_splits)

lemma token_supply_change_writes:
  assumes "token_supply_change up m acc amount l = Ok l'"
  shows "owner (l' k) = owner (l k) \<and> (k \<noteq> m \<longrightarrow> k \<noteq> acc \<longrightarrow> l' k = l k)"
  using assms by (auto simp: token_supply_change_def Let_def)

lemma move_lamports_writes:
  assumes "move_lamports src dst n l = Ok l'"
  shows "same_contents (l k) (l' k)"
  using assms by (auto simp: move_lamports_def Let_def same_contents_def)

lemma sample_cpi_rules:
  assumes "sample_cpi c infos seeds l = Ok l'"
  shows "(owner (l k) \<noteq> cpi_program sample_env c \<longrightarrow> same_contents (l k) (l' k)) \<and>
    (owner (l' k) \<noteq> owner (l k) \<longrightarrow> list_all (\<lambda>b. b = 0) (data (l' k)))"
proof (cases c)
  case (TransferChecked prog src m dst auth amount dec)
  then show ?thesis using assms token_transfer_writes [of src m dst auth amount l l' k]
    by (auto simp: owned_by_def same_contents_def split: if_splits)
next
  case (MintToChecked prog m dst auth amount dec)
  then show ?thesis using assms token_supply_change_writes [of True m dst amount l l' k]
    by (auto simp: owned_by_def same_contents_def split: if_splits)
next
  case (BurnChecked prog acc m auth amount dec)
  then show ?thesis using assms token_supply_change_writes [of False m acc amount l l' k]
    by (auto simp: owned_by_def same_contents_def split: if_splits)
next
  case (CreateAccount payer new n space own)
  then obtain l1 where l1: "move_lamports payer new n l = Ok l1" "owner (l new) = 0"
    "l' = l1(new := (l1 new)\<lparr>data := replicate (unat space) 0, owner := own\<rparr>)"
    using assms by (auto simp: owned_by_def split: if_splits)
  then show ?thesis using move_lamports_writes [OF l1(1), of k] CreateAccount
    by (auto simp: same_contents_def list_all_iff)
next
  case (SysTransfer src dst n)
  then show ?thesis using assms move_lamports_writes [of src dst n l l' k]
    by (auto simp: same_contents_def)
qed (use assms in \<open>auto simp: owned_by_def same_contents_def list_all_iff split: if_splits\<close>)

lemma sample_runtime_law: "runtime_law sample_env 99"
  using sample_cpi_rules
  by (auto simp: runtime_law_def is_valid_token_program_def SPL_TOKEN_PROGRAM_ID_def)

lemma sample_system_law: "system_law sample_env"
proof -
  have create: "owner (l' new) = own \<and> length (data (l' new)) = unat space \<and>
      (\<forall>j. j \<noteq> new \<longrightarrow> same_contents (l j) (l' j))"
    if "sample_cpi (CreateAccount payer new n space own) infos seeds l = Ok l'"
    for payer new n space own infos seeds l l'
    using that move_lamports_writes [of payer new n l] by (auto split: if_splits)
  have fund: "same_contents (l j) (l' j)"
    if "sample_cpi (SysTransfer src dst n) infos seeds l = Ok l'" for src dst n infos seeds l l' j
    using that move_lamports_writes by simp
  have alloc: "length (data (l' k)) = unat space \<and> (\<forall>j. j \<noteq> k \<longrightarrow> same_contents (l j) (l' j))"
    if "sample_cpi (Allocate k space) infos seeds l = Ok l'" for k space infos seeds l l'
    using that by (auto simp: same_contents_def split: if_splits)
  have assign: "owner (l' k) = own \<and> data (l' k) = data (l k) \<and> (\<forall>j. j \<noteq> k \<longrightarrow> same_contents (l j) (l' j))"
    if "sample_cpi (Assign k own) infos seeds l = Ok l'" for k own infos seeds l l'
    using that by (auto simp: same_contents_def split: if_splits)
  show ?thesis unfolding system_law_def sample_env_simps
    by (intro allI conjI impI) (auto dest: create fund alloc assign simp del: sample_cpi.simps)
qed

lemma sample_addresses:
  "band_derive_pda sample_env pk d bid 99 = Ok (k, b) \<longleftrightarrow> unat k = 100 + unat bid \<and> b = 255"
  "vault_address sample_env 99 k \<longleftrightarrow> k = 5 \<or> k = 6 \<or> k = 7"
proof -
  have "unat (100 + of_nat (unat bid) :: pubkey) = 100 + unat bid"
    using unat_lt [of bid] by (simp add: unat_plus_fits unat_of_nat_eq del: of_nat_unat)
  then have "k = 100 + of_nat (unat bid) \<longleftrightarrow> unat k = 100 + unat bid"
    by (metis word_eq_unat)
  moreover have "band_derive_pda sample_env pk d bid 99 = Ok (k, b) \<longleftrightarrow>
      k = 100 + of_nat (unat bid) \<and> b = 255"
    using unat_lt [of bid]
    by (auto simp: band_derive_pda_def sample_find_def put_word_def POOL_SEED_def VAULT_A_SEED_def
        VAULT_B_SEED_def LP_MINT_SEED_def LOAN_SEED_def BAND_SEED_def le_nat_le_bytes simp del: of_nat_unat)
  ultimately show "band_derive_pda sample_env pk d bid 99 = Ok (k, b) \<longleftrightarrow> unat k = 100 + unat bid \<and> b = 255"
    by simp
  show "vault_address sample_env 99 k \<longleftrightarrow> k = 5 \<or> k = 6 \<or> k = 7"
    by (auto simp: vault_address_def derive_vault_a_pda_def derive_vault_b_pda_def
        derive_lp_mint_pda_def sample_find_def POOL_SEED_def VAULT_A_SEED_def
        VAULT_B_SEED_def LP_MINT_SEED_def)
qed

lemma sample_platform: "platform sample_env 99"
proof -
  have "\<not> vault_address sample_env 99 k" if "band_derive_pda sample_env pk d bid 99 = Ok (k, bump)"
    for pk d bid k bump
    using that unfolding sample_addresses by auto
  then show ?thesis
    by (simp add: platform_def sample_runtime_law sample_system_law address_law_def)
qed

lemma sample_band_addresses: "band_addresses_ok sample_env 99 (sample_world p)"
proof -
  have "unclaimed_or_own sample_env 99 (sample_ledger p k)" if "100 \<le> unat k" for k
    using that by (auto simp: sample_ledger_def unclaimed_or_own_def)
  then show ?thesis
    by (simp add: band_addresses_ok_def sample_addresses)
qed

section \<open>The books\<close>

lemma sample_maps:
  "pools 99 (sample_world sample_pool) = [2 \<mapsto> sample_pool]"
  "loans 99 (sample_world sample_pool) = [20 \<mapsto> sample_loan]"
  "bands 99 (sample_world sample_pool) = [164 \<mapsto> sample_band]"
  by (auto simp: fun_eq_iff views view_def sample_owned sample_account_kinds [unfolded sample_data]
      sample_data pool_codec.dec_enc pool_codec.dec_wrong_length length_loan_bytes
      length_loan_index_band_bytes kind_lens)

lemma sample_open:
  "open_of (books_of 99 (sample_world sample_pool)) pk = (if pk = 2 then {20} else {})"
  "open_in (books_of 99 (sample_world sample_pool)) pk d bid =
     (if pk = 2 \<and> d = 0 \<and> bid = 64 then {20} else {})"
  by (auto simp: open_of_def open_in_def sample_maps is_open_def sample_loan_def split: if_splits)

lemma sample_bits: "bits sample_pool 0 = {64}" "bits sample_pool 1 = {}"
proof -
  have "bit ((replicate 8 0 @ [1] @ replicate 7 0 :: bytes) ! (unat i div 8)) (unat i mod 8) \<longleftrightarrow> i = 64"
    if "unat i \<le> 127" for i :: u32
  proof
    assume "bit ((replicate 8 0 @ [1] @ replicate 7 0 :: bytes) ! (unat i div 8)) (unat i mod 8)"
    then have "unat i div 8 = 8 \<and> unat i mod 8 = 0"
      using that by (auto simp: nth_append nth_Cons bit_1_iff split: if_splits nat.splits)
    then have "unat i = 64" by presburger
    then show "i = 64" by (simp add: word_eq_unat)
  qed (simp add: nth_append)
  then show "bits sample_pool 0 = {64}"
    by (auto simp: bits_def band_bitmap_def bitmap_is_set_iff sample_pool_simps nth_append)
  show "bits sample_pool 1 = {}"
    by (auto simp: bits_def band_bitmap_def bitmap_is_set_iff sample_pool_simps)
qed

lemma sample_book_inv: "book_inv sample_env 99 (books_of 99 (sample_world sample_pool))"
proof -
  let ?s = "books_of 99 (sample_world sample_pool)"
  have band: "band_id_for_trigger 628571428571428571 = Ok 64"
    by (simp add: band_id_for_trigger_Ok_iff bit_len_eqI [of 59])
  have "loan_ok ?s sample_loan"
    by (auto simp: loan_ok_def sample_maps sample_loan_def sample_band_def band_for_def band)
  moreover have "band_ok sample_env 99 ?s 164 sample_band"
    by (simp add: band_ok_def band_at_def sample_addresses sample_open sample_band_def)
  moreover have "pool_ok ?s 2 sample_pool"
  proof -
    have "totals_match sample_pool (positions ?s {20})"
      by (simp add: totals_match_def positions_def position_of_def sample_maps sample_pool_simps
          total_def sample_loan_def)
    moreover have "safe_params sample_pool"
      using initial_pool_safe [of 3 4 5 6 7 255 254 253 252 100]
      by (simp add: sample_pool_def safe_params_def)
    ultimately show ?thesis using sample_bits by (auto simp: pool_ok_def sample_open)
  qed
  ultimately show ?thesis by (simp add: book_inv_def sample_maps)
qed

text \<open>A transfer between funded token accounts goes through.\<close>

lemma sample_transfer_ok:
  assumes "token_of (data (ledger w src)) = Some s" "token_of (data (ledger w dst)) = Some d"
    "owner (ledger w src) = key prog" "owner (ledger w dst) = key prog" "token_mint s = key m" "token_mint d = key m"
    "token_owner s = key auth" "is_signer auth \<or> seeds \<noteq> []" "key si = src" "key di = dst" "src \<noteq> dst"
    "amount \<le> token_amount s" "unat (token_amount d) + unat amount < 2 ^ 64"
  shows "\<exists>w'. transfer_checked sample_env prog si m di auth amount dec seeds w = Ok w' \<and>
    (\<forall>k. k \<noteq> src \<longrightarrow> k \<noteq> dst \<longrightarrow> ledger w' k = ledger w k)"
  using assms
  by (auto simp: transfer_checked_def invoke_signed_def owned_by_def signed_for_def token_transfer_def
      checked_add_def)

section \<open>A pool is created\<close>

definition start_world :: world where
  "start_world = \<lparr>ledger = (\<lambda>_. \<lparr>lamports = 0, data = [], owner = 0\<rparr>)
     (3 := sample_mint 9000000, 4 := sample_mint 9000000, 8 := plain 0 []), log = []\<rparr>"

definition start_accounts :: "account_info list" where
  "start_accounts = [info 2, info 3, info 4, info 5, info 6, info 7, signer 8, info 0,
     info SPL_TOKEN_PROGRAM_ID, info SPL_TOKEN_PROGRAM_ID, info 17]"

lemma sample_create:
  assumes "ledger w (key t) = \<lparr>lamports = 0, data = [], owner = 0\<rparr>" "key payer \<noteq> key t"
    "rent space \<le> lamports (ledger w (key payer))"
  shows "create_pda_account sample_env payer t sys space own seeds rent w =
    Ok (w\<lparr>ledger := (ledger w)
      (key payer := (ledger w (key payer))\<lparr>lamports := lamports (ledger w (key payer)) - rent space\<rparr>,
       key t := \<lparr>lamports = rent space, data = replicate (unat (of_nat space :: u64)) 0, owner = own\<rparr>)\<rparr>)"
  using assms u64_lt [of "rent space", simplified]
  by (simp add: create_pda_account_def acct_def invoke_signed_def owned_by_def move_lamports_def Let_def
      checked_sub_def checked_add_def  fun_upd_twist)

lemma start_checks: "initialize_pool_checks sample_env 99 start_accounts start_world = Ok (255, 254, 253, 252)"
  by (simp add: initialize_pool_checks_def start_accounts_def start_world_def Let_def
      validate_token_program_for_mint_def is_valid_token_program_def validate_mint_extensions_def SPL_TOKEN_PROGRAM_ID_def
      pool_derive_pda_def derive_vault_a_pda_def derive_vault_b_pda_def derive_lp_mint_pda_def sample_find_def
      POOL_SEED_def VAULT_A_SEED_def VAULT_B_SEED_def LP_MINT_SEED_def acct_def data_is_empty_def del: and_then_Ok_iff)

text \<open>Each account is paid for by account 8 and touches nothing else.\<close>

definition spent :: "world \<Rightarrow> pubkey \<Rightarrow> world \<Rightarrow> bool" where
  "spent w t w' \<longleftrightarrow> (\<forall>k. k \<noteq> 8 \<longrightarrow> k \<noteq> t \<longrightarrow> ledger w' k = ledger w k) \<and>
     owner (ledger w' 8) = owner (ledger w 8) \<and>
     unat (lamports (ledger w' 8)) + 1000 \<ge> unat (lamports (ledger w 8))"

lemma sample_vault:
  assumes "ledger w t = \<lparr>lamports = 0, data = [], owner = 0\<rparr>" "t \<noteq> 8" "1000 \<le> unat (lamports (ledger w 8))"
  shows "\<exists>w'. create_vault sample_env (info SPL_TOKEN_PROGRAM_ID) sys (signer 8) pool_i mint_i (info t) seed bump
     (\<lambda>n. of_nat n + 128) w = Ok w' \<and> spent w t w' \<and> owner (ledger w' t) = SPL_TOKEN_PROGRAM_ID"
proof -
  have "(200 :: u64) \<le> lamports (ledger w 8)" using assms(3) by (simp add: word_le_nat_alt)
  then show ?thesis using assms sample_create [of w "info t" "signer 8" "\<lambda>n. of_nat n + 128" 72]
    by (simp add: create_vault_def Let_def SPL_TOKEN_PROGRAM_ID_def invoke_signed_def owned_by_def spent_def
        unat_sub word_le_nat_alt list_all_iff)
qed

lemma sample_lp_mint:
  assumes "ledger w t = \<lparr>lamports = 0, data = [], owner = 0\<rparr>" "t \<noteq> 8" "1000 \<le> unat (lamports (ledger w 8))"
  shows "\<exists>w'. create_lp_mint sample_env (info SPL_TOKEN_PROGRAM_ID) sys (signer 8) pool_i (info t) bump
     (\<lambda>n. of_nat n + 128) w = Ok w' \<and> spent w t w' \<and> owner (ledger w' t) = SPL_TOKEN_PROGRAM_ID"
proof -
  have "(137 :: u64) \<le> lamports (ledger w 8)" using assms(3) by (simp add: word_le_nat_alt)
  then show ?thesis using assms sample_create [of w "info t" "signer 8" "\<lambda>n. of_nat n + 128" 9]
    by (simp add: create_lp_mint_def Let_def SPL_TOKEN_PROGRAM_ID_def invoke_signed_def owned_by_def spent_def
        unat_sub word_le_nat_alt list_all_iff)
qed

definition start_pool :: pool where
  "start_pool = initial_pool 3 4 5 6 7 255 254 253 252 100"

lemma start_creates:
  "\<exists>w'. dispatch sample_env 99 start_accounts InitializePool start_world = Ok w' \<and>
     pools 99 w' 2 = Some start_pool \<and> (\<forall>k. k \<noteq> 2 \<longrightarrow> owner (ledger w' k) \<noteq> 99)"
proof -
  let ?r = "\<lambda>n. of_nat n + 128 :: u64"
  have acc: "length start_accounts = 11" "start_accounts ! Suc 0 = info 3" "start_accounts ! 0 = info 2" "start_accounts ! 1 = info 3"
    "start_accounts ! 2 = info 4" "start_accounts ! 3 = info 5" "start_accounts ! 4 = info 6"
    "start_accounts ! 5 = info 7" "start_accounts ! 6 = signer 8" "start_accounts ! 7 = info 0"
    "start_accounts ! 8 = info SPL_TOKEN_PROGRAM_ID" "start_accounts ! 9 = info SPL_TOKEN_PROGRAM_ID"
    by (simp_all add: start_accounts_def)
  obtain w1 where w1: "create_pda_account sample_env (signer 8) (info 2) (info 0) POOL_LEN 99
       [POOL_SEED, put_key 3, put_key 4, [255]] ?r start_world = Ok w1"
    "spent start_world 2 w1" "owner (ledger w1 2) = 99" "length (data (ledger w1 2)) = POOL_LEN"
    using sample_create [of start_world "info 2" "signer 8" ?r POOL_LEN]
    by (simp add: start_world_def POOL_LEN_def spent_def)
  obtain w2 where w2: "create_vault sample_env (info SPL_TOKEN_PROGRAM_ID) (info 0) (signer 8) (info 2) (info 3) (info 5)
      VAULT_A_SEED 254 ?r w1 = Ok w2" "spent w1 5 w2" "owner (ledger w2 5) = SPL_TOKEN_PROGRAM_ID"
    using sample_vault [of w1 5 "info 0" "info 2" "info 3" VAULT_A_SEED 254] w1(2) by (auto simp: spent_def start_world_def)
  obtain w3 where w3: "create_vault sample_env (info SPL_TOKEN_PROGRAM_ID) (info 0) (signer 8) (info 2) (info 4) (info 6)
      VAULT_B_SEED 253 ?r w2 = Ok w3" "spent w2 6 w3" "owner (ledger w3 6) = SPL_TOKEN_PROGRAM_ID"
    using sample_vault [of w2 6 "info 0" "info 2" "info 4" VAULT_B_SEED 253] w1(2) w2(2) by (auto simp: spent_def start_world_def)
  obtain w4 where w4: "create_lp_mint sample_env (info SPL_TOKEN_PROGRAM_ID) (info 0) (signer 8) (info 2) (info 7)
      252 ?r w3 = Ok w4" "spent w3 7 w4" "owner (ledger w4 7) = SPL_TOKEN_PROGRAM_ID"
    using sample_lp_mint [of w3 7 "info 0" "info 2" 252] w1(2) w2(2) w3(2) by (auto simp: spent_def start_world_def)
  have pool: "owner (ledger w4 2) = 99" "length (data (ledger w4 2)) = POOL_LEN"
    using w1(3,4) w2(2) w3(2) w4(2) by (simp_all add: spent_def)
  let ?p = "initial_pool 3 4 5 6 7 255 254 253 252 100"
  let ?w5 = "put_data (info 2) (pool_bytes ?p) w4"
  have w5: "serialize_into (pool_bytes ?p) (info 2) w4 = Ok ?w5"
    using pool(2) by (simp add: length_pool_bytes initial_pool_wf acct_def)
  obtain ev where run: "dispatch sample_env 99 start_accounts InitializePool start_world = Ok (emit ev ?w5)"
    by (simp add: process_initialize_pool_def Let_def acc start_checks w1(1) w2(1) w3(1) w4(1) w5
        del: and_then_Ok_iff serialize_into_Ok_iff)
  have "pools 99 (emit ev ?w5) 2 = Some ?p"
    using pool(1) by (simp add: pools_Some put_data_def acct_def initial_pool_wf)
      (simp add: pool_is_initialized_def initial_pool_def)
  moreover have "owner (ledger (emit ev ?w5) k) \<noteq> 99" if "k \<noteq> 2" for k
  proof -
    have "owner (ledger w4 k) = (if k \<in> {5, 6, 7} then SPL_TOKEN_PROGRAM_ID else owner (ledger start_world k))"
      using that w1(2) w2(2,3) w3(2,3) w4(2,3) unfolding spent_def
      by (cases "k = 8"; cases "k = 5"; cases "k = 6"; cases "k = 7") simp_all
    also have "\<dots> \<noteq> 99" by (simp add: start_world_def SPL_TOKEN_PROGRAM_ID_def)
    finally show ?thesis using that by (simp add: put_data_def)
  qed
  ultimately show ?thesis using run unfolding start_pool_def by blast
qed

lemma start_runs:
  "\<exists>w' p. dispatch sample_env 99 start_accounts InitializePool start_world = Ok w' \<and> pools 99 w' 2 = Some p"
  using start_creates by blast

lemma start_reachable: "reachable sample_env 99 start_world"
  by (rule reachable.start)
    (simp_all add: start_world_def sample_mint_def plain_def SPL_TOKEN_PROGRAM_ID_def band_addresses_ok_def
      unclaimed_or_own_def sample_addresses)

end
