(* ===== verification/Swap_Guarantee.thy ===== *)
theory Swap_Guarantee
  imports Sample_Books
begin

text \<open>
  The swap handler end to end. The completeness and the reserve lemmas speak about the computing
  part of the handler; here its writes and token transfers are followed through to the ledger it
  leaves, so that the statements are about the stored accounts and the vault balances.
\<close>

section \<open>Frames\<close>

lemma serialize_frame: "serialize_into enc i w = Ok w' \<Longrightarrow> key i \<noteq> k \<Longrightarrow> ledger w' k = ledger w k"
  by (auto simp: put_data_def acct_def)

lemma persist_loans_frame:
  "k \<notin> keys_at accounts (set idxs) \<Longrightarrow>
   post (persist_loans slot accounts cs idxs n w) (\<lambda>(_, w'). ledger w' k = ledger w k)"
proof (induction idxs arbitrary: n w)
  case (Cons i idxs)
  then have k: "key (accounts ! i) \<noteq> k" "k \<notin> keys_at accounts (set idxs)" by auto
  have more: "post (persist_loans slot accounts cs idxs m w1) (\<lambda>(_, w'). ledger w' k = ledger w k)"
    if "ledger w1 k = ledger w k" for m w1
    using Cons.IH [OF k(2), of m w1] that by simp
  show ?case unfolding persist_loans.simps Let_def
    by (intro more post_intros refl) (use serialize_frame k(1) in fastforce)
qed (simp add: post_def)

text \<open>Everything that enters the reserves.\<close>

definition same_reserves :: "pool \<Rightarrow> pool \<Rightarrow> bool" where
  "same_reserves p q \<longleftrightarrow> total_debt_a q = total_debt_a p \<and> total_debt_b q = total_debt_b p \<and>
     total_collateral_a q = total_collateral_a p \<and> total_collateral_b q = total_collateral_b p \<and>
     protocol_fees_a q = protocol_fees_a p \<and> protocol_fees_b q = protocol_fees_b p"

lemma same_reserves_accounted:
  assumes "same_reserves p q"
  shows "accounted q = accounted p"
    "accounted (q\<lparr>protocol_fees_a := x, protocol_fees_b := y\<rparr>) =
     accounted (p\<lparr>protocol_fees_a := x, protocol_fees_b := y\<rparr>)"
  using assms by (simp_all add: same_reserves_def accounted_def swappable_def fun_eq_iff)

lemma same_reserves_trans: "same_reserves p q \<Longrightarrow> same_reserves q r \<Longrightarrow> same_reserves p r"
  by (simp add: same_reserves_def)

lemma bitmap_mut_reserves: "band_bitmap_mut p d f = Ok q \<Longrightarrow> same_reserves p q"
  by (auto simp: band_bitmap_mut_def same_reserves_def split: if_splits)

lemma persist_bands_frame:
  "k \<notin> keys_at accounts (ctx_band_idx ` set bcs) \<Longrightarrow>
   \<forall>bc \<in> set bcs. k \<notin> keys_at accounts (set (ctx_loan_idxs bc)) \<Longrightarrow>
   post (persist_bands slot accounts cs d bcs p w)
     (\<lambda>(q, w'). ledger w' k = ledger w k \<and> same_reserves p q)"
proof (induction bcs arbitrary: p w)
  case (Cons bc bcs)
  then have k: "key (accounts ! ctx_band_idx bc) \<noteq> k" "k \<notin> keys_at accounts (ctx_band_idx ` set bcs)"
    "\<forall>bc \<in> set bcs. k \<notin> keys_at accounts (set (ctx_loan_idxs bc))"
    "k \<notin> keys_at accounts (set (ctx_loan_idxs bc))" by auto
  have more: "post (persist_bands slot accounts cs d bcs p1 w1)
      (\<lambda>(q, w'). ledger w' k = ledger w k \<and> same_reserves p q)"
    if "ledger w1 k = ledger w k" "same_reserves p p1" for p1 w1
    using Cons.IH [OF k(2,3), of p1 w1] that same_reserves_trans [of p p1]
    by (fastforce simp: post_def)
  have loans: "ledger w1 k = ledger w k"
    if "persist_loans slot accounts cs (ctx_loan_idxs bc) 0 w = Ok (n, w1)" for n w1
    using postD [OF persist_loans_frame [OF k(4)] that] by simp
  have bm: "same_reserves p p1"
    if "(if b then into (band_bitmap_mut p d f) else Ok p) = Ok p1" for b f p1
    using that bitmap_mut_reserves by (cases b) (auto simp: same_reserves_def)
  have "same_reserves p p" by (simp add: same_reserves_def)
  then show ?case unfolding persist_bands.simps Let_def
    by (intro more post_intros) (use loans bm serialize_frame k(1) in fastforce)+
qed (simp add: post_def same_reserves_def)

section \<open>Vault balances\<close>

text \<open>The user's token accounts are not the pool's vaults.\<close>

definition separate :: "pool_accounts \<Rightarrow> bool" where
  "separate a \<longleftrightarrow> key (vault_a_info a) \<noteq> key (vault_b_info a) \<and>
     key (user_a_info a) \<notin> {key (vault_a_info a), key (vault_b_info a)} \<and>
     key (user_b_info a) \<notin> {key (vault_a_info a), key (vault_b_info a)}"

text \<open>One token comes into one vault and another goes out of the other.\<close>

lemma in_out_balances:
  assumes laws: "transfer_law e (key m1)" "transfer_law e (key m2)"
    and t1: "transfer_checked e prog1 u1 m1 v1 auth1 x d1 s1 w = Ok w1"
    and t2: "transfer_checked e prog2 v2 m2 u2 auth2 y d2 s2 w1 = Ok w2"
    and ne: "key v1 \<noteq> key v2" "key u1 \<noteq> key v1" "key u1 \<noteq> key v2" "key u2 \<noteq> key v1" "key u2 \<noteq> key v2"
    and b: "balance e w (key v1) = Some r1" "balance e w (key v2) = Some r2"
  shows "balance e w2 (key v1) = Some (r1 + unat x) \<and> balance e w2 (key v2) = Some (r2 - unat y) \<and>
    unat y \<le> r2"
proof -
  have 1: "balance e w1 (key v1) = Some (r1 + unat x)" "balance e w1 (key v2) = Some r2"
    using transfer_checked_balances [OF laws(1) t1 ne(2)] b ne by (auto simp: balance_def)
  show ?thesis
    using transfer_checked_balances [OF laws(2) t2] 1 ne by (auto simp: balance_def)
qed

lemma swap_transfers_balances:
  assumes laws: "transfer_law e (key (mint_a_info a))" "transfer_law e (key (mint_b_info a))"
    and sep: "separate a" and st: "swap_transfers e a dir x out da db pool w = Ok w'"
    and r: "read_token_amount e w (vault_a_info a) = Ok ra" "read_token_amount e w (vault_b_info a) = Ok rb"
  shows "read_token_amount e w' (vault_a_info a) = Ok (fst (real_after dir ra rb x out))"
    "read_token_amount e w' (vault_b_info a) = Ok (snd (real_after dir ra rb x out))"
proof -
  have b: "balance e w (key (vault_a_info a)) = Some (unat ra)" "balance e w (key (vault_b_info a)) = Some (unat rb)"
    using r by (simp_all add: read_token_amount_Ok_iff)
  note fits = b [THEN balance_fits]
  have "read_token_amount e w' (vault_a_info a) = Ok (fst (real_after dir ra rb x out)) \<and>
    read_token_amount e w' (vault_b_info a) = Ok (snd (real_after dir ra rb x out))"
  proof (cases dir)
    case True
    with st obtain w1 where
      "transfer_checked e (token_program_a_info a) (user_a_info a) (mint_a_info a)
         (vault_a_info a) (user_info a) x da [] w = Ok w1"
      "transfer_checked e (token_program_b_info a) (vault_b_info a) (mint_b_info a)
         (user_b_info a) (pool_info a) out db [pool_signer_seeds pool] w1 = Ok w'"
      by (auto simp: swap_transfers_def)
    from in_out_balances [OF laws this _ _ _ _ _ b] sep True fits show ?thesis
      by (simp add: separate_def read_token_amount_Ok_iff real_after_def unat_vault_plus unat_vault_minus)
  next
    case False
    with st obtain w1 where
      "transfer_checked e (token_program_b_info a) (user_b_info a) (mint_b_info a)
         (vault_b_info a) (user_info a) x db [] w = Ok w1"
      "transfer_checked e (token_program_a_info a) (vault_a_info a) (mint_a_info a)
         (user_a_info a) (pool_info a) out da [pool_signer_seeds pool] w1 = Ok w'"
      by (auto simp: swap_transfers_def)
    from in_out_balances [OF laws(2,1) this _ _ _ _ _ b(2,1)] sep False fits show ?thesis
      by (auto simp: separate_def read_token_amount_Ok_iff real_after_def unat_vault_plus unat_vault_minus)
  qed
  then show "read_token_amount e w' (vault_a_info a) = Ok (fst (real_after dir ra rb x out))"
    "read_token_amount e w' (vault_b_info a) = Ok (snd (real_after dir ra rb x out))" by blast+
qed

text \<open>The invariant of the books gives the index condition of the completeness argument.\<close>

lemma book_inv_index:
  assumes inv: "book_inv e pid (books_of pid w)" and p: "pools pid w pk = Some p"
    and d: "d = 0 \<or> d = 1" and bm: "band_bitmap p d = Ok bitmap"
  shows "index_ok pid w pk d bitmap"
proof -
  have ok: "pool_ok (books_of pid w) pk p" using inv_poolD [OF inv, of pk p] p by simp
  have "bitmap_is_set bitmap (loan_band_id l) \<and> band_id_for_trigger (loan_trigger_price_wad l) = Ok (loan_band_id l)"
    if l: "open_loan_at pid w pk d k l" for k l
  proof -
    have "k \<in> open_in (books_of pid w) pk d (loan_band_id l)"
      using l by (auto simp: open_loan_at_iff open_in_def)
    then have "loan_band_id l \<in> bits p d" using ok d by (auto simp: pool_ok_def)
    moreover have "loan_ok (books_of pid w) l"
      using inv_loanD [OF inv, of k l] l by (simp add: open_loan_at_iff)
    ultimately show ?thesis using bm by (simp add: bits_def loan_ok_def)
  qed
  moreover have "finite (band_members pid w pk d (band_band_id b)) \<and>
      card (band_members pid w pk d (band_band_id b)) = unat (band_count b)"
    if "owner (ledger w k) = pid \<and> loan_index_band_try_from_slice (data (ledger w k)) = Some b \<and>
      band_is_initialized b \<and> band_pool b = pk \<and> band_direction b = d" for k b
  proof -
    have "bands pid w k = Some b" using that by (simp add: bands_Some loan_index_band_try_from_slice_Some)
    then have "band_ok e pid (books_of pid w) k b" using inv_bandD [OF inv, of k b] by simp
    then show ?thesis using that by (simp add: band_ok_def band_members_open_in)
  qed
  ultimately show ?thesis unfolding index_ok_def by blast
qed

section \<open>The outcome of a swap\<close>

text \<open>A key the program does not own is not among the supplied accounts.\<close>

lemma foreign_not_supplied:
  assumes sup: "supplied pid w accounts pk d gs cs" and k: "owner (ledger w k) \<noteq> pid"
  shows "k \<notin> keys_at accounts (ctx_band_idx ` set (map fst gs))"
    "\<forall>bc \<in> set (map fst gs). k \<notin> keys_at accounts (set (ctx_loan_idxs bc))"
proof -
  have "owner (ledger w (key (accounts ! ctx_band_idx (fst g)))) = pid" if "g \<in> set gs" for g
  proof -
    have "group_ok pid w accounts pk d g" using sup that by (simp add: supplied_def)
    from group_band(1) [OF this] show ?thesis by (simp add: bands_Some)
  qed
  then show "k \<notin> keys_at accounts (ctx_band_idx ` set (map fst gs))" using k by (auto simp: keys_at_def)
  have "owner (ledger w (key (accounts ! i))) = pid" if "g \<in> set gs" "i \<in> set (ctx_loan_idxs (fst g))" for g i
  proof -
    have "i \<in> (\<Union>bc \<in> set (map fst gs). set (ctx_loan_idxs bc))" using that by auto
    then obtain c where c: "c \<in> set cs" "i = ctx_loan_idx c"
      unfolding supplied_keys(3) [OF sup, symmetric] by blast
    obtain g' l where "g' \<in> set gs" "ctx_loan_idx c \<in> set (ctx_loan_idxs (fst g'))"
      "loans pid w (ctx_key accounts c) = Some l" "is_open l" "loan_pool l = pk"
      "loan_trigger_direction l = d" "loan_band_id l = band_band_id (fst (snd g'))"
      "position_of l = position_of_ctx c" "ctx_trigger_wad c = loan_trigger_price_wad l"
      "trigger_direction_from_u8 d = Ok (ctx_direction c)"
      by (rule supplied_entry [OF sup c(1)])
    then show ?thesis using c(2) by (simp add: ctx_key_def loans_Some)
  qed
  then show "\<forall>bc \<in> set (map fst gs). k \<notin> keys_at accounts (set (ctx_loan_idxs bc))"
    using k by (auto simp: keys_at_def)
qed

text \<open>A loan that is still open after the swap was not triggered at the final price: had it been, it
  would have been supplied and marked.\<close>

lemma survivor_untriggered:
  assumes inv: "book_inv e pid (books_of pid w)" and p: "pools pid w pk = Some p"
    and parse: "parse_bands e pid w accounts pk (direction_byte (expected_direction dir)) [] FIXED_PREFIX_LEN counts =
      Ok (bs, cs0, ids, length accounts)"
    and walk: "check_completeness p dir bb ids = Ok ()"
    and comp: "swap_compute p ra rb slot cs0 x mn dir bb = Ok (q0, cs, n, skim, out, price)"
    and marked: "loans pid w' = mark_loans slot (hit_keys accounts cs) (loans pid w)"
    and l: "open_loan_at pid w' pk (direction_byte (expected_direction dir)) k l"
  shows "\<not> is_liquidatable (loan_trigger_price_wad l) (expected_direction dir) price"
proof
  let ?d = "direction_byte (expected_direction dir)"
  assume trig: "is_liquidatable (loan_trigger_price_wad l) (expected_direction dir) price"
  have kl: "k \<notin> hit_keys accounts cs" "open_loan_at pid w pk ?d k l"
    using l by (auto simp: open_loan_at_iff marked mark_loans_def split: if_splits)
  obtain bm where bm: "band_bitmap p ?d = Ok bm"
    unfolding band_bitmap_def by (cases dir) (auto simp: expected_direction_def)
  have "index_ok pid w pk ?d bm" by (rule book_inv_index [OF inv p _ bm]) (cases dir; simp add: expected_direction_def)
  from triggered_loans_marked [OF bm this parse walk comp kl(2) trig]
  have "k \<in> hit_keys accounts cs" by (auto simp: hit_keys_def ctx_key_def)
  then show False using kl(1) by simp
qed

text \<open>The loans a transaction liquidated: open before, liquidated after.\<close>

definition newly_liquidated :: "pubkey \<Rightarrow> world \<Rightarrow> world \<Rightarrow> pubkey set" where
  "newly_liquidated program_id w w' = {k. \<exists>l l'. loans program_id w k = Some l \<and> is_open l \<and>
     loans program_id w' k = Some l' \<and> loan_status l' = STATUS_LIQUIDATED}"

lemma newly_liquidated_hit:
  assumes "supplied pid w accounts pk d gs cs"
    "loans pid w' = mark_loans slot (hit_keys accounts cs) (loans pid w)"
  shows "newly_liquidated pid w w' = hit_keys accounts cs"
proof (intro set_eqI iffI)
  fix k assume "k \<in> hit_keys accounts cs"
  then obtain c where c: "c \<in> set cs" "k = ctx_key accounts c" by (auto simp: hit_keys_def)
  obtain l where "loans pid w k = Some l" "is_open l" by (rule supplied_entry [OF assms(1) c(1)]) (simp add: c(2))
  then show "k \<in> newly_liquidated pid w w'" using \<open>k \<in> _\<close>
    by (simp add: newly_liquidated_def assms(2) mark_loans_def liquidated_loan_def)
next
  fix k assume "k \<in> newly_liquidated pid w w'"
  then show "k \<in> hit_keys accounts cs"
    by (rule contrapos_pp) (auto simp: newly_liquidated_def assms(2) mark_loans_def is_open_def STATUS_OPEN_def STATUS_LIQUIDATED_def)
qed

text \<open>What releasing the positions \<open>m\<close> does to the accounted reserves: the collateral joins them
  and the principal is written off.\<close>

definition released_reserves :: "position_t multiset \<Rightarrow> int \<times> int \<Rightarrow> int \<times> int" where
  "released_reserves m r =
     (fst r + int (total (collateral_on CollateralA) m) - int (total (principal_on CollateralB) m),
      snd r + int (total (collateral_on CollateralB) m) - int (total (principal_on CollateralA) m))"

lemma released_none [simp]: "released_reserves {#} r = r"
  by (simp add: released_reserves_def total_def)

lemma removed_reserves:
  assumes "accounted p ra rb = Ok (A0, B0)" "removed p q m"
    "accounted (q\<lparr>protocol_fees_a := protocol_fees_a p, protocol_fees_b := protocol_fees_b p\<rparr>) ra rb = Ok (A, B)"
  shows "(int (unat A), int (unat B)) = released_reserves m (int (unat A0), int (unat B0))"
  using assms unfolding accounted_linear removed_def released_reserves_def by (simp del: of_nat_unat)

lemma swap_outcome:
  assumes iso: "isolation_law e pid" and inv: "book_inv e pid (books_of pid w)"
    and laws: "transfer_law e (key (mint_a_info (swap_accounts accounts)))"
      "transfer_law e (key (mint_b_info (swap_accounts accounts)))"
    and sep: "separate (swap_accounts accounts)"
    and own: "owner (acct w (vault_a_info (swap_accounts accounts))) \<noteq> pid"
      "owner (acct w (vault_b_info (swap_accounts accounts))) \<noteq> pid"
    and swap: "process_swap e pid accounts x mn dir bb counts w = Ok w'"
  defines "a \<equiv> swap_accounts accounts" and "d \<equiv> direction_byte (expected_direction dir)"
  obtains p q ra rb out A0 B0 A B A2 B2 price where
    "pools pid w (key (pool_info a)) = Some p" "pools pid w' (key (pool_info a)) = Some q"
    "accounted p ra rb = Ok (A0, B0)"
    "(int (unat A), int (unat B)) =
       released_reserves (positions (books_of pid w) (newly_liquidated pid w w')) (int (unat A0), int (unat B0))"
    "read_token_amount e w (vault_a_info a) = Ok ra" "read_token_amount e w (vault_b_info a) = Ok rb"
    "read_token_amount e w' (vault_a_info a) = Ok (fst (real_after dir ra rb x out))"
    "read_token_amount e w' (vault_b_info a) = Ok (snd (real_after dir ra rb x out))"
    "accounted (q\<lparr>protocol_fees_a := protocol_fees_a p, protocol_fees_b := protocol_fees_b p\<rparr>) ra rb = Ok (A, B)"
    "accounted q (fst (real_after dir ra rb x out)) (snd (real_after dir ra rb x out)) = Ok (A2, B2)"
    "unat A * unat B \<le> unat A2 * unat B2" "price_b_per_a_wad A2 B2 = Ok price" "out \<noteq> 0" "mn \<le> out"
    "newly_liquidated pid w w' = {} \<longrightarrow> unat A0 * unat B0 \<le> unat A2 * unat B2"
    "\<forall>k l. open_loan_at pid w' (key (pool_info a)) d k l \<longrightarrow>
       \<not> is_liquidatable (loan_trigger_price_wad l) (expected_direction dir) price"
proof -
  let ?pk = "key (pool_info (swap_accounts accounts))"
  obtain p q gs cs slot cs0 ids ra rb q0 n skim out price q2 w1 w2 w3 da db ev where
    e: "pools pid w ?pk = Some p" "supplied pid w accounts ?pk d gs cs"
    "params q = params p" "removed p q (hit_positions cs)"
    "\<forall>y. bits q y = bits p y - (if y = d then {bid. hit_keys accounts cs \<inter> open_in (books_of pid w) ?pk d bid \<noteq> {} \<and>
        open_in (books_of pid w) ?pk d bid \<subseteq> hit_keys accounts cs} else {})"
    "books_of pid w' = (books_of pid w)\<lparr>b_pools := (pools pid w)(?pk \<mapsto> q),
       b_loans := mark_loans slot (hit_keys accounts cs) (loans pid w),
       b_bands := (\<lambda>k. map_option (\<lambda>b. b\<lparr>band_count := band_count b - of_nat (card (hit_keys accounts cs \<inter>
          open_in (books_of pid w) (band_pool b) (band_direction b) (band_band_id b)))\<rparr>) (bands pid w k))\<rparr>"
    "pool_keys_match p (swap_accounts accounts)"
    "parse_bands e pid w accounts ?pk d [] FIXED_PREFIX_LEN counts = Ok (map fst gs, cs0, ids, length accounts)"
    "check_completeness p dir bb ids = Ok ()"
    "read_token_amount e w (vault_a_info (swap_accounts accounts)) = Ok ra"
    "read_token_amount e w (vault_b_info (swap_accounts accounts)) = Ok rb"
    "swap_compute p ra rb slot cs0 x mn dir bb = Ok (q0, cs, n, skim, out, price)"
    "persist_bands slot accounts cs d (map fst gs) q0 w = Ok (q2, w1)"
    "swap_transfers e (swap_accounts accounts) dir x out da db q2 w1 = Ok w2"
    "q = q2\<lparr>last_update_slot := slot\<rparr>"
    "serialize_into (pool_bytes q) (pool_info (swap_accounts accounts)) w2 = Ok w3"
    "w' = emit ev w3"
    using iso inv swap unfolding d_def by (rule swap_effect)
  have maps: "pools pid w' ?pk = Some q" "loans pid w' = mark_loans slot (hit_keys accounts cs) (loans pid w)"
    using e(6) by (simp_all add: books_of_def)
  have vault: "ledger w1 k = ledger w k" "k \<noteq> ?pk" "same_reserves q0 q2" if "owner (ledger w k) \<noteq> pid" for k
    using postD [OF persist_bands_frame [OF foreign_not_supplied [OF e(2) that]] e(13)] that e(1)
    by (auto simp: pools_Some)
  have res: "same_reserves q0 q"
    using vault(3) [of "key (vault_a_info (swap_accounts accounts))"] own
    by (simp add: e(15) acct_def same_reserves_def)
  have r1: "read_token_amount e w1 (vault_a_info (swap_accounts accounts)) = Ok ra"
    "read_token_amount e w1 (vault_b_info (swap_accounts accounts)) = Ok rb"
    using e(10,11) vault(1) own by (simp_all add: read_token_amount_def acct_def)
  have "ledger w' k = ledger w2 k" if "owner (ledger w k) \<noteq> pid" for k
    using serialize_frame [OF e(16)] vault(2) [OF that] e(17) by auto
  then have r2: "read_token_amount e w' (vault_a_info (swap_accounts accounts)) = Ok (fst (real_after dir ra rb x out))"
    "read_token_amount e w' (vault_b_info (swap_accounts accounts)) = Ok (snd (real_after dir ra rb x out))"
    using swap_transfers_balances [OF laws sep e(14) r1] own
    by (simp_all add: read_token_amount_def acct_def)
  have safe: "safe_params p" using inv_poolD [OF inv, of ?pk p] e(1) by (simp add: pool_ok_def)
  have fits: "unat ra < 2 ^ 64" "unat rb < 2 ^ 64"
    using e(10,11) balance_fits by (simp_all add: read_token_amount_Ok_iff)
  obtain A B A2 B2 where out: "accounted (q0\<lparr>protocol_fees_a := protocol_fees_a p, protocol_fees_b := protocol_fees_b p\<rparr>)
      ra rb = Ok (A, B)"
    "accounted q0 (fst (real_after dir ra rb x out)) (snd (real_after dir ra rb x out)) = Ok (A2, B2)"
    "unat A * unat B \<le> unat A2 * unat B2" "price_b_per_a_wad A2 B2 = Ok price" "out \<noteq> 0" "mn \<le> out"
    using swap_reserves [OF e(12) _ _ fits] safe by (auto simp: safe_params_def)
  have none: "\<not> is_liquidatable (loan_trigger_price_wad l) (expected_direction dir) price"
    if "open_loan_at pid w' ?pk d k l" for k l
    by (rule survivor_untriggered [OF inv e(1) e(8,9,12) [unfolded d_def] maps(2) that [unfolded d_def]])
  have rm: "removed p q (positions (books_of pid w) (newly_liquidated pid w w'))"
    using e(4) positions_hit [OF e(2)] by (simp add: newly_liquidated_hit [OF e(2) maps(2)])
  obtain p1 A0 B0 p2 growth o128 p3 where "bump_indexes p ra rb slot = Ok p1" "accounted p1 ra rb = Ok (A0, B0)"
    using swap_compute_Ok [OF e(12)] by metis
  then have acc0: "accounted p ra rb = Ok (A0, B0)" using bump_indexes_accounting(1) by metis
  have acc: "accounted (q\<lparr>protocol_fees_a := protocol_fees_a p, protocol_fees_b := protocol_fees_b p\<rparr>) ra rb = Ok (A, B)"
    using out(1) same_reserves_accounted [OF res] by simp
  have none_hit: "unat A0 * unat B0 \<le> unat A2 * unat B2" if "newly_liquidated pid w w' = {}"
    using out(3) removed_reserves [OF acc0 rm acc] by (simp add: that del: of_nat_unat)
  show ?thesis
    by (rule that [of p q ra rb A0 B0 A B out A2 B2 price])
      (use e(1,10,11) acc0 none_hit removed_reserves [OF acc0 rm acc] maps(1) r2 out none same_reserves_accounted [OF res] in \<open>simp_all add: a_def\<close>)
qed

section \<open>A sample swap\<close>

lemma sample_infos:
  "sample_swap_accounts ! 10 = info 164" "sample_swap_accounts ! 11 = info 20"
  "length sample_swap_accounts = 12"
  by (simp_all add: sample_swap_accounts_def)

lemma sample_persist:
  assumes "pool_wf q0"
  obtains q w1 where "persist_bands 100 sample_swap_accounts [sample_ctx\<lparr>ctx_liquidated := True\<rparr>] 0
      [\<lparr>ctx_band_idx = 10, ctx_loan_idxs = [11]\<rparr>] q0 (sample_world sample_pool) = Ok (q, w1)"
    "\<forall>k. k \<noteq> 20 \<longrightarrow> k \<noteq> 164 \<longrightarrow> ledger w1 k = sample_ledger sample_pool k" "pool_wf q"
proof -
  let ?w = "sample_world sample_pool"
  let ?l = "sample_loan\<lparr>loan_collateral_amount := 0, loan_debt_principal := 0,
      loan_status := STATUS_LIQUIDATED, loan_closed_slot := 100\<rparr>"
  have wf: "loan_wf ?l" using sample_wf(2) by (simp add: loan_wf_def)
  have b: "band_count sample_band = 1" "band_band_id sample_band = 64" by (simp_all add: sample_band_def)
  let ?b = "sample_band\<lparr>band_count := 0\<rparr>"
  have wfb: "loan_index_band_wf ?b" using sample_wf(3) by (simp add: loan_index_band_wf_def)
  have load: "load_loan (emit ev ?w) (info 20) = Ok sample_loan" for ev
    using sample_load_loan [of "info 20" sample_pool] by (simp add: load_loan_def)
  have st: "serialize_into (loan_bytes ?l) (info 20) (emit ev ?w) = Ok (put_data (info 20) (loan_bytes ?l) (emit ev ?w))" for ev
    by (rule store_loan [OF load wf])
  obtain ev where pl: "persist_loans 100 sample_swap_accounts [sample_ctx\<lparr>ctx_liquidated := True\<rparr>] [11] 0 ?w =
      Ok (1, put_data (info 20) (loan_bytes ?l) (emit ev ?w))"
    by (simp add: sample_infos sample_ctx_def Let_def plus_p_def checked_add_def st
        del: and_then_Ok_iff serialize_into_Ok_iff)
  let ?v = "put_data (info 20) (loan_bytes ?l) (emit ev ?w)"
  have "load_band ?v (info 164) = Ok sample_band"
    using sample_load_band [of "info 164" sample_pool] by (simp add: load_band_def)
  note stb = store_band [OF this wfb]
  obtain bm where bm: "bitmap_clear (band_bitmap_fall q0) 64 = Ok bm" "length bm = 16"
    using assms by (simp add: bitmap_clear_Ok_iff pool_wf_def)
  have pwf: "pool_wf (q0\<lparr>band_bitmap_fall := bm\<rparr>)" using assms bm(2) by (simp add: pool_wf_def)
  have "persist_bands 100 sample_swap_accounts [sample_ctx\<lparr>ctx_liquidated := True\<rparr>] 0
      [\<lparr>ctx_band_idx = 10, ctx_loan_idxs = [11]\<rparr>] q0 ?w =
      Ok (q0\<lparr>band_bitmap_fall := bm\<rparr>, put_data (info 164) (loan_index_band_bytes ?b) ?v)"
    by (simp add: sample_infos pl Let_def b checked_sub_def band_bitmap_mut_def bm stb
        del: and_then_Ok_iff serialize_into_Ok_iff persist_loans.simps)
  from that [OF this _ pwf] show ?thesis by (simp add: put_data_def acct_def)
qed
text \<open>The sample swap runs to the end.\<close>

lemma sample_swap_runs:
  "\<exists>w'. process_swap sample_env 99 sample_swap_accounts 270000 190000 True 63 [1] (sample_world sample_pool) = Ok w'"
proof -
  let ?w = "sample_world sample_pool" and ?a = "swap_accounts sample_swap_accounts"
  let ?q0 = "settled_pool\<lparr>protocol_fees_a := 146\<rparr>"
  have a: "pool_info ?a = info 2" "vault_a_info ?a = info 5" "vault_b_info ?a = info 6"
    "user_a_info ?a = info 10" "user_b_info ?a = info 11" "mint_a_info ?a = info 3" "mint_b_info ?a = info 4"
    "user_info ?a = signer 8" "token_program_a_info ?a = info SPL_TOKEN_PROGRAM_ID"
    "token_program_b_info ?a = info SPL_TOKEN_PROGRAM_ID"
    by (simp_all add: swap_accounts_def sample_swap_accounts_def)
  have wf: "pool_wf ?q0" using sample_wf(1)
    by (simp add: settled_pool_def sampled_pool_def pool_wf_def)
  obtain q w1 where pers: "persist_bands 100 sample_swap_accounts [sample_ctx\<lparr>ctx_liquidated := True\<rparr>] 0
      [\<lparr>ctx_band_idx = 10, ctx_loan_idxs = [11]\<rparr>] ?q0 ?w = Ok (q, w1)"
    and w1: "\<forall>k. k \<noteq> 20 \<longrightarrow> k \<noteq> 164 \<longrightarrow> ledger w1 k = sample_ledger sample_pool k" and wfq: "pool_wf q"
    by (rule sample_persist [OF wf])
  have tok: "token_of (data (sample_ledger sample_pool 10)) = Some \<lparr>token_mint = 3, token_owner = 8, token_amount = 500000\<rparr>"
    "token_of (data (sample_ledger sample_pool 11)) = Some \<lparr>token_mint = 4, token_owner = 8, token_amount = 500000\<rparr>"
    "token_of (data (sample_ledger sample_pool 5)) = Some \<lparr>token_mint = 3, token_owner = 2, token_amount = 1070011\<rparr>"
    "token_of (data (sample_ledger sample_pool 6)) = Some \<lparr>token_mint = 4, token_owner = 2, token_amount = 960013\<rparr>"
    "\<forall>k \<in> {5, 6, 10, 11}. owner (sample_ledger sample_pool k) = SPL_TOKEN_PROGRAM_ID"
    "data (sample_ledger sample_pool 2) = pool_bytes sample_pool"
    by (simp_all add: sample_ledger_def sample_token_def)
  obtain w2 where w2: "transfer_checked sample_env (info SPL_TOKEN_PROGRAM_ID) (info 10) (info 3) (info 5) (signer 8)
      270000 6 [] w1 = Ok w2" "\<forall>k. k \<noteq> 10 \<longrightarrow> k \<noteq> 5 \<longrightarrow> ledger w2 k = ledger w1 k"
    using sample_transfer_ok [of w1 10 "\<lparr>token_mint = 3, token_owner = 8, token_amount = 500000\<rparr>" 5
        "\<lparr>token_mint = 3, token_owner = 2, token_amount = 1070011\<rparr>" "info SPL_TOKEN_PROGRAM_ID" "info 3" "signer 8" "[]" "info 10" "info 5" 270000 6]
      tok w1 by auto
  obtain w3 where w3: "transfer_checked sample_env (info SPL_TOKEN_PROGRAM_ID) (info 6) (info 4) (info 11) (info 2)
      192969 6 [pool_signer_seeds q] w2 = Ok w3" "\<forall>k. k \<noteq> 6 \<longrightarrow> k \<noteq> 11 \<longrightarrow> ledger w3 k = ledger w2 k"
    using sample_transfer_ok [of w2 6 "\<lparr>token_mint = 4, token_owner = 2, token_amount = 960013\<rparr>" 11
        "\<lparr>token_mint = 4, token_owner = 8, token_amount = 500000\<rparr>" "info SPL_TOKEN_PROGRAM_ID" "info 4" "info 2" "[pool_signer_seeds q]" "info 6" "info 11" 192969 6]
      tok w1 w2(2) by auto
  have "data (acct w3 (info 2)) = pool_bytes sample_pool"
    using w3(2) w2(2) w1 tok(6) by (simp add: acct_def)
  then obtain w4 where w4: "serialize_into (pool_bytes (q\<lparr>last_update_slot := 100\<rparr>)) (info 2) w3 = Ok w4"
    using wfq length_pool_bytes [OF sample_wf(1)] by (simp add: length_pool_bytes pool_wf_def)
  have keys: "pool_keys_match sample_pool ?a" by (simp add: pool_keys_match_def a sample_pool_simps)
  have chk: "check_signer_and_token_programs sample_env ?w ?a = Ok ()"
    by (simp add: check_signer_and_token_programs_def a sample_token_programs)
  have own: "owner (sample_ledger sample_pool 2) = 99" by (simp add: sample_owned)
  have len: "\<not> 12 < FIXED_PREFIX_LEN" by (simp add: FIXED_PREFIX_LEN_def)
  have dir: "direction_byte (expected_direction True) = 0" by (simp add: expected_direction_def)
  show ?thesis
    by (simp add: process_swap_def Let_def len dir keys chk own a sample_infos sample_parse
        sample_complete sample_swap persist_liquidations_def pers swap_transfers_def w2(1) w3(1) w4
        del: and_then_Ok_iff serialize_into_Ok_iff parse_bands.simps persist_bands.simps)
qed

lemma sample_swap_setting:
  "separate (swap_accounts sample_swap_accounts)"
  "owner (ledger (sample_world sample_pool) (key (sample_swap_accounts ! 1))) \<noteq> 99"
  "owner (ledger (sample_world sample_pool) (key (sample_swap_accounts ! 2))) \<noteq> 99"
  "key (sample_swap_accounts ! 0) = 2"
  by (simp_all add: separate_def swap_accounts_def sample_swap_accounts_def sample_owned)

section \<open>The guarantees\<close>

text \<open>C1: the central promise of the swap. When the books are consistent and the swap succeeds,
  whatever bands and loans the caller chose to supply, the pool as it is now stored and the
  vaults as they now stand show a price at which no open loan of the swap's direction can be
  liquidated: every loan the trade pushed over its trigger has been liquidated in flight. The
  hypotheses on the environment are the runtime's isolation of programs, exact token transfers
  for the two mints, and that the vaults are distinct accounts of the token program.\<close>

theorem swap_leaves_no_triggered_loan:
  assumes "isolation_law e pid" "transfer_law e (key (accounts ! 5))" "transfer_law e (key (accounts ! 6))"
    and "separate (swap_accounts accounts)"
    and "owner (ledger w (key (accounts ! 1))) \<noteq> pid" "owner (ledger w (key (accounts ! 2))) \<noteq> pid"
    and "book_inv e pid (books_of pid w)"
    and "process_swap e pid accounts amount_in min_out a_to_b band_boundary counts w = Ok w'"
  shows "\<exists>q ra rb A B price. pools pid w' (key (accounts ! 0)) = Some q \<and>
    read_token_amount e w' (accounts ! 1) = Ok ra \<and> read_token_amount e w' (accounts ! 2) = Ok rb \<and>
    accounted q ra rb = Ok (A, B) \<and> price_b_per_a_wad A B = Ok price \<and>
    (\<forall>k l. open_loan_at pid w' (key (accounts ! 0)) (direction_byte (expected_direction a_to_b)) k l \<longrightarrow>
       \<not> is_liquidatable (loan_trigger_price_wad l) (expected_direction a_to_b) price)"
proof -
  have a: "pool_info (swap_accounts accounts) = accounts ! 0" "vault_a_info (swap_accounts accounts) = accounts ! 1"
    "vault_b_info (swap_accounts accounts) = accounts ! 2" "mint_a_info (swap_accounts accounts) = accounts ! 5"
    "mint_b_info (swap_accounts accounts) = accounts ! 6"
    by (simp_all add: swap_accounts_def)
  show ?thesis
    by (rule swap_outcome [OF assms(1,7) _ _ assms(4) _ _ assms(8), unfolded a acct_def])
      (use assms in blast)+
qed

theorem swap_leaves_no_triggered_loan_witness:
  "\<exists>w'. process_swap sample_env 99 sample_swap_accounts 270000 190000 True 63 [1] (sample_world sample_pool) = Ok w' \<and>
    (\<exists>q ra rb A B price. pools 99 w' 2 = Some q \<and>
      read_token_amount sample_env w' (sample_swap_accounts ! 1) = Ok ra \<and>
      read_token_amount sample_env w' (sample_swap_accounts ! 2) = Ok rb \<and>
      accounted q ra rb = Ok (A, B) \<and> price_b_per_a_wad A B = Ok price \<and>
      (\<forall>k l. open_loan_at 99 w' 2 (direction_byte (expected_direction True)) k l \<longrightarrow>
         \<not> is_liquidatable (loan_trigger_price_wad l) (expected_direction True) price))"
proof -
  obtain w' where w': "process_swap sample_env 99 sample_swap_accounts 270000 190000 True 63 [1]
      (sample_world sample_pool) = Ok w'" using sample_swap_runs by blast
  from swap_leaves_no_triggered_loan [OF platform_parts(2) [OF sample_platform] sample_transfer_law
      sample_transfer_law sample_swap_setting(1-3) sample_book_inv w'] w'
  show ?thesis unfolding sample_swap_setting(4) by blast
qed

text \<open>C5: what a swap does to the liquidity providers. With the balances of the vaults before and
  after, exactly \<open>amount_in\<close> came in and some non-zero \<open>out\<close> of at least \<open>min_out\<close> went
  out; collateral and protocol fees, including the fee just charged, are still covered by the vaults
  (\<open>accounted\<close> is defined). The accounted reserves change in two stages. The liquidations move
  them by exactly the collateral released less the principal written off, over the loans that were
  open before and are liquidated now; this may lower their product. The trade itself then never
  lowers the product. So a swap that liquidates nothing never lowers it at all.\<close>

theorem swap_grows_reserves:
  assumes "isolation_law e pid" "transfer_law e (key (accounts ! 5))" "transfer_law e (key (accounts ! 6))"
    and "separate (swap_accounts accounts)"
    and "owner (ledger w (key (accounts ! 1))) \<noteq> pid" "owner (ledger w (key (accounts ! 2))) \<noteq> pid"
    and "book_inv e pid (books_of pid w)"
    and "process_swap e pid accounts amount_in min_out a_to_b band_boundary counts w = Ok w'"
  shows "\<exists>p q ra rb out A0 B0 A B A2 B2. pools pid w (key (accounts ! 0)) = Some p \<and>
    pools pid w' (key (accounts ! 0)) = Some q \<and>
    read_token_amount e w (accounts ! 1) = Ok ra \<and> read_token_amount e w (accounts ! 2) = Ok rb \<and>
    read_token_amount e w' (accounts ! 1) = Ok (fst (real_after a_to_b ra rb amount_in out)) \<and>
    read_token_amount e w' (accounts ! 2) = Ok (snd (real_after a_to_b ra rb amount_in out)) \<and>
    out \<noteq> 0 \<and> min_out \<le> out \<and> accounted p ra rb = Ok (A0, B0) \<and>
    (int (unat A), int (unat B)) = released_reserves
       (positions (books_of pid w) (newly_liquidated pid w w')) (int (unat A0), int (unat B0)) \<and>
    (newly_liquidated pid w w' = {} \<longrightarrow> unat A0 * unat B0 \<le> unat A2 * unat B2) \<and>
    accounted (q\<lparr>protocol_fees_a := protocol_fees_a p, protocol_fees_b := protocol_fees_b p\<rparr>) ra rb = Ok (A, B) \<and>
    accounted q (fst (real_after a_to_b ra rb amount_in out)) (snd (real_after a_to_b ra rb amount_in out)) =
      Ok (A2, B2) \<and>
    unat A * unat B \<le> unat A2 * unat B2"
proof -
  have a: "pool_info (swap_accounts accounts) = accounts ! 0" "vault_a_info (swap_accounts accounts) = accounts ! 1"
    "vault_b_info (swap_accounts accounts) = accounts ! 2" "mint_a_info (swap_accounts accounts) = accounts ! 5"
    "mint_b_info (swap_accounts accounts) = accounts ! 6"
    by (simp_all add: swap_accounts_def)
  show ?thesis
    by (rule swap_outcome [OF assms(1,7) _ _ assms(4) _ _ assms(8), unfolded a acct_def])
      (use assms in blast)+
qed

theorem swap_grows_reserves_witness:
  "\<exists>w'. process_swap sample_env 99 sample_swap_accounts 270000 190000 True 63 [1] (sample_world sample_pool) = Ok w' \<and>
    (\<exists>p q ra rb out A0 B0 A B A2 B2. pools 99 (sample_world sample_pool) 2 = Some p \<and> pools 99 w' 2 = Some q \<and>
      read_token_amount sample_env (sample_world sample_pool) (sample_swap_accounts ! 1) = Ok ra \<and>
      read_token_amount sample_env (sample_world sample_pool) (sample_swap_accounts ! 2) = Ok rb \<and>
      read_token_amount sample_env w' (sample_swap_accounts ! 1) = Ok (fst (real_after True ra rb 270000 out)) \<and>
      read_token_amount sample_env w' (sample_swap_accounts ! 2) = Ok (snd (real_after True ra rb 270000 out)) \<and>
      out \<noteq> 0 \<and> 190000 \<le> out \<and> accounted p ra rb = Ok (A0, B0) \<and>
      (int (unat A), int (unat B)) = released_reserves
         (positions (books_of 99 (sample_world sample_pool)) (newly_liquidated 99 (sample_world sample_pool) w'))
         (int (unat A0), int (unat B0)) \<and>
      (newly_liquidated 99 (sample_world sample_pool) w' = {} \<longrightarrow> unat A0 * unat B0 \<le> unat A2 * unat B2) \<and>
      accounted (q\<lparr>protocol_fees_a := protocol_fees_a p, protocol_fees_b := protocol_fees_b p\<rparr>) ra rb = Ok (A, B) \<and>
      accounted q (fst (real_after True ra rb 270000 out)) (snd (real_after True ra rb 270000 out)) = Ok (A2, B2) \<and>
      unat A * unat B \<le> unat A2 * unat B2)"
proof -
  obtain w' where w': "process_swap sample_env 99 sample_swap_accounts 270000 190000 True 63 [1]
      (sample_world sample_pool) = Ok w'" using sample_swap_runs by blast
  from swap_grows_reserves [OF platform_parts(2) [OF sample_platform] sample_transfer_law
      sample_transfer_law sample_swap_setting(1-3) sample_book_inv w'] w'
  show ?thesis unfolding sample_swap_setting(4) by blast
qed

end
