(* ===== verification/System_Properties.thy ===== *)
theory System_Properties
  imports Swap_Guarantee
begin

text \<open>
  What the book specification says about the program: the properties of instructions and of
  reachable ledgers that follow from the refinement and the invariant.
\<close>

section \<open>Refinement\<close>



section \<open>What an instruction can do to a loan and to a pool\<close>

inductive_cases created_E: "book_trans e pid (Created pk) s s'"
inductive_cases touched_E: "book_trans e pid (Touched pk) s s'"
inductive_cases opened_E: "book_trans e pid (Opened lk l) s s'"
inductive_cases repaid_E: "book_trans e pid (Repaid lk) s s'"
inductive_cases liquidated_E: "book_trans e pid (Liquidated pk dir ks slot) s s'"
inductive_cases rent_claimed_E: "book_trans e pid (RentClaimed lk) s s'"

lemma trans_open_loan:
  assumes tr: "book_trans e pid eff s s'" and l: "b_loans s k = Some l" "is_open l"
  shows "b_loans s' k = Some l \<or> eff = Repaid k \<and> b_loans s' k = None \<or>
    (\<exists>ks slot. eff = Liquidated (loan_pool l) (loan_trigger_direction l) ks slot \<and>
       b_loans s' k = Some (liquidated_loan slot l))"
proof (cases eff)
  case (Created pk)
  with tr show ?thesis using l by (auto elim!: created_E)
next
  case (Touched pk)
  with tr show ?thesis using l by (auto elim!: touched_E)
next
  case (Opened lk l')
  with tr show ?thesis using l by (auto elim!: opened_E)
next
  case (Repaid lk)
  with tr show ?thesis using l by (cases "k = lk") (auto elim!: repaid_E)
next
  case (Liquidated pk dir ks slot)
  note tr = tr [unfolded Liquidated]
  have "b_loans s' k = (if k \<in> ks then map_option (liquidated_loan slot) (b_loans s k) else b_loans s k)"
    using tr by (elim liquidated_E) simp
  moreover have "loan_pool l = pk \<and> loan_trigger_direction l = dir" if "k \<in> ks"
    using tr
  proof (elim liquidated_E)
    assume "\<And>k. k \<in> ks \<Longrightarrow> \<exists>l. b_loans s k = Some l \<and> is_open l \<and> loan_pool l = pk \<and> loan_trigger_direction l = dir"
    from this [OF that] show ?thesis using l by auto
  qed
  ultimately show ?thesis using l Liquidated by (cases "k \<in> ks") auto
next
  case (RentClaimed lk)
  with tr show ?thesis using l by (cases "k = lk") (auto elim!: rent_claimed_E)
qed

lemma trans_pool:
  assumes "book_trans e pid eff s s'" "b_pools s k = Some p"
  shows "\<exists>q. b_pools s' k = Some q \<and> params q = params p"
  using assms by (cases rule: book_trans.cases) auto

text \<open>C6: a borrower's position is safe from everyone else. After any successful instruction an
  open loan is exactly as it was, unless the instruction is its repayment, signed by its
  borrower, or a swap on its pool in its trigger direction that liquidated it.\<close>

theorem open_loan_protected:
  assumes "platform e pid" "band_addresses_ok e pid w" "book_inv e pid (books_of pid w)"
    and "dispatch e pid accounts ix w = Ok w'" "loans pid w k = Some l" "is_open l"
  shows "loans pid w' k = Some l \<or>
    ix = RepayLoan \<and> k = key (accounts ! 8) \<and> is_signer (accounts ! 7) \<and>
      loan_borrower l = key (accounts ! 7) \<and> loans pid w' k = None \<or>
    (\<exists>x mn a_to_b bb counts slot. ix = Swap x mn a_to_b bb counts \<and> loan_pool l = key (accounts ! 0) \<and>
       loan_trigger_direction l = direction_byte (expected_direction a_to_b) \<and>
       loans pid w' k = Some (liquidated_loan slot l))"
proof (cases "w' = w")
  case False
  with dispatch_step [OF assms(1-4)] obtain eff where
    perm: "permits (books_of pid w) accounts ix eff" and
    tr: "book_trans e pid eff (books_of pid w) (books_of pid w')" by blast
  from trans_open_loan [OF tr, of k l] assms(5,6) perm show ?thesis
    by (cases ix) auto
qed (use assms(5) in simp)

theorem open_loan_protected_witness:
  "\<exists>w'. dispatch sample_env 99 sample_swap_accounts (Swap 270000 190000 True 63 [1]) (sample_world sample_pool) = Ok w' \<and>
    (loans 99 w' 20 = Some sample_loan \<or>
     (Swap 270000 190000 True 63 [1] = RepayLoan \<and> 20 = key (sample_swap_accounts ! 8) \<and>
       is_signer (sample_swap_accounts ! 7) \<and> loan_borrower sample_loan = key (sample_swap_accounts ! 7) \<and>
       loans 99 w' 20 = None) \<or>
     (\<exists>x mn a_to_b bb counts slot. Swap 270000 190000 True 63 [1] = Swap x mn a_to_b bb counts \<and>
       loan_pool sample_loan = key (sample_swap_accounts ! 0) \<and>
       loan_trigger_direction sample_loan = direction_byte (expected_direction a_to_b) \<and>
       loans 99 w' 20 = Some (liquidated_loan slot sample_loan)))"
proof -
  obtain w' where w': "dispatch sample_env 99 sample_swap_accounts (Swap 270000 190000 True 63 [1])
      (sample_world sample_pool) = Ok w'" using sample_swap_runs by auto
  have l: "loans 99 (sample_world sample_pool) 20 = Some sample_loan" "is_open sample_loan"
    by (simp add: sample_maps) (simp add: sample_loan_def is_open_def)
  from open_loan_protected [OF sample_platform sample_band_addresses sample_book_inv w' l] w'
  show ?thesis by blast
qed

text \<open>C13: nobody can change a pool's terms. After any successful instruction every pool is still
  there, with the same mints, vaults, LP mint, authority, fees, LTV limit, liquidation ratio and
  interest curve.\<close>

theorem pool_terms_immutable:
  assumes "platform e pid" "band_addresses_ok e pid w" "book_inv e pid (books_of pid w)"
    and "dispatch e pid accounts ix w = Ok w'" "pools pid w k = Some p"
  shows "\<exists>q. pools pid w' k = Some q \<and> params q = params p"
proof (cases "w' = w")
  case False
  with dispatch_step [OF assms(1-4)] obtain eff where
    "book_trans e pid eff (books_of pid w) (books_of pid w')" by blast
  from trans_pool [OF this, of k p] assms(5) show ?thesis by simp
qed (use assms(5) in simp)

theorem pool_terms_immutable_witness:
  "\<exists>w' q. dispatch sample_env 99 sample_swap_accounts (Swap 270000 190000 True 63 [1]) (sample_world sample_pool) = Ok w' \<and>
    pools 99 w' 2 = Some q \<and> params q = params sample_pool"
proof -
  obtain w' where w': "dispatch sample_env 99 sample_swap_accounts (Swap 270000 190000 True 63 [1])
      (sample_world sample_pool) = Ok w'" using sample_swap_runs by auto
  from pool_terms_immutable [OF sample_platform sample_band_addresses sample_book_inv w', of 2 sample_pool] w'
  show ?thesis by (auto simp: sample_maps)
qed

section \<open>Reachable ledgers\<close>

text \<open>C2: the books are consistent in every reachable ledger. From a ledger in which the program
  owns nothing, let any instructions succeed, in any order and at any slots, interleaved with
  transactions of other programs. Then for every pool the four totals and the loan count are the
  sums over its open loans, its parameters satisfy the compile-time checks and its bitmaps mark
  exactly the populated bands; every band is at its derived address and counts exactly its open
  loans; every open loan has a pool, valid enumeration bytes and sits in the band of its trigger
  price.\<close>

theorem books_always_consistent:
  assumes "reachable e pid w" "platform e pid"
  shows "book_inv e pid (books_of pid w)"
  using reachable_inv [OF assms] by blast

theorem books_always_consistent_witness:
  "\<exists>w p. reachable sample_env 99 w \<and> platform sample_env 99 \<and> pools 99 w 2 = Some p \<and>
     book_inv sample_env 99 (books_of 99 w)"
proof -
  obtain w p where w: "dispatch sample_env 99 start_accounts InitializePool start_world = Ok w" "pools 99 w 2 = Some p"
    using start_runs by blast
  have env: "sample_env\<lparr>clock_get := Ok 100\<rparr> = sample_env" by (simp add: sample_env_def)
  have "reachable sample_env 99 w"
    using reachable.instruction [OF start_reachable, of "Ok 100" start_accounts InitializePool w] w(1)
    unfolding env by blast
  then show ?thesis using books_always_consistent [OF _ sample_platform] sample_platform w(2) by blast
qed

text \<open>C14: every instruction leaves well-typed loans. An open loan in the new ledger is an account
  of the program of exactly the loan's size; its pool exists and has safe parameters; its side and
  direction bytes are values of their enumerations, so that later instructions decode them; and
  its band id is the band of its trigger price and is representable in the bitmap.\<close>

theorem open_loans_well_typed:
  assumes "platform e pid" "band_addresses_ok e pid w" "book_inv e pid (books_of pid w)"
    and "dispatch e pid accounts ix w = Ok w'" "loans pid w' k = Some l" "is_open l"
  shows "owner (ledger w' k) = pid \<and> length (data (ledger w' k)) = LOAN_LEN \<and>
    (\<exists>p sides dir. pools pid w' (loan_pool l) = Some p \<and> safe_params p \<and>
       loan_sides_from_u8 (loan_sides l) = Ok sides \<and>
       trigger_direction_from_u8 (loan_trigger_direction l) = Ok dir) \<and>
    band_id_for_trigger (loan_trigger_price_wad l) = Ok (loan_band_id l) \<and> loan_band_id l \<le> MAX_BAND_ID"
proof -
  let ?s = "books_of pid w'"
  have inv: "book_inv e pid ?s" using dispatch_step [OF assms(1-4)] book_trans_keeps assms(3) by blast
  have ok: "loan_ok ?s l" using inv_loanD [OF inv, of k l] assms(5,6) by simp
  then obtain p where p: "pools pid w' (loan_pool l) = Some p" by (auto simp: loan_ok_def)
  have pok: "pool_ok ?s (loan_pool l) p" using inv_poolD [OF inv, of "loan_pool l" p] p by simp
  have "k \<in> open_in ?s (loan_pool l) (loan_trigger_direction l) (loan_band_id l)"
    using assms(5,6) by (auto simp: open_in_def)
  then have "loan_band_id l \<in> bits p (loan_trigger_direction l)"
    using pok ok by (auto simp: pool_ok_def loan_ok_def)
  then have "loan_band_id l \<le> MAX_BAND_ID"
    by (auto simp: bits_def bitmap_is_set_iff MAX_BAND_ID_def word_le_nat_alt split: res.splits)
  moreover have "\<exists>sides. loan_sides_from_u8 (loan_sides l) = Ok sides"
    "\<exists>dir. trigger_direction_from_u8 (loan_trigger_direction l) = Ok dir"
    using ok by (auto simp: loan_ok_def loan_sides_from_u8_def trigger_direction_from_u8_def)
  moreover have "owner (ledger w' k) = pid" "length (data (ledger w' k)) = LOAN_LEN"
    using assms(5) by (simp_all add: loans_Some length_loan_bytes)
  ultimately show ?thesis using p pok ok by (auto simp: pool_ok_def loan_ok_def)
qed

text \<open>Claiming protocol fees leaves the sample loan open.\<close>

definition sample_claim_accounts :: "account_info list" where
  "sample_claim_accounts = [info 2, info 5, info 6, info 15, info 16, info 3, info 4,
     info SPL_TOKEN_PROGRAM_ID, info SPL_TOKEN_PROGRAM_ID]"

lemma sample_claim_runs:
  "\<exists>w'. dispatch sample_env 99 sample_claim_accounts ClaimProtocolFees (sample_world sample_pool) = Ok w' \<and>
     (\<forall>k \<in> {8, 20}. ledger w' k = sample_ledger sample_pool k)"
proof -
  let ?w = "sample_world sample_pool" and ?c = sample_claim_accounts
  have a: "length ?c = 9" "?c ! 0 = info 2" "?c ! Suc 0 = info 5" "?c ! 2 = info 6" "?c ! 3 = info 15" "?c ! 4 = info 16"
    "?c ! 5 = info 3" "?c ! 6 = info 4" "?c ! 7 = info SPL_TOKEN_PROGRAM_ID" "?c ! 8 = info SPL_TOKEN_PROGRAM_ID"
    by (simp_all add: sample_claim_accounts_def)
  have tok: "token_of (data (sample_ledger sample_pool 5)) = Some \<lparr>token_mint = 3, token_owner = 2, token_amount = 1070011\<rparr>"
    "token_of (data (sample_ledger sample_pool 6)) = Some \<lparr>token_mint = 4, token_owner = 2, token_amount = 960013\<rparr>"
    "token_of (data (sample_ledger sample_pool 15)) = Some \<lparr>token_mint = 3, token_owner = PROTOCOL_FEE_RECIPIENT, token_amount = 0\<rparr>"
    "token_of (data (sample_ledger sample_pool 16)) = Some \<lparr>token_mint = 4, token_owner = PROTOCOL_FEE_RECIPIENT, token_amount = 0\<rparr>"
    "\<forall>k \<in> {5, 6, 15, 16}. owner (sample_ledger sample_pool k) = SPL_TOKEN_PROGRAM_ID"
    "data (sample_ledger sample_pool 2) = pool_bytes sample_pool" "owner (sample_ledger sample_pool 2) = 99"
    by (simp_all add: sample_ledger_def sample_token_def)
  let ?s = "[pool_signer_seeds sample_pool]"
  obtain w1 where w1: "transfer_checked sample_env (info SPL_TOKEN_PROGRAM_ID) (info 5) (info 3) (info 15) (info 2)
      11 6 ?s ?w = Ok w1" "\<forall>k. k \<noteq> 5 \<longrightarrow> k \<noteq> 15 \<longrightarrow> ledger w1 k = sample_ledger sample_pool k"
    using sample_transfer_ok [of ?w 5 "\<lparr>token_mint = 3, token_owner = 2, token_amount = 1070011\<rparr>" 15
        "\<lparr>token_mint = 3, token_owner = PROTOCOL_FEE_RECIPIENT, token_amount = 0\<rparr>" "info SPL_TOKEN_PROGRAM_ID" "info 3" "info 2"
        ?s "info 5" "info 15" 11 6] tok by auto
  obtain w2 where w2: "transfer_checked sample_env (info SPL_TOKEN_PROGRAM_ID) (info 6) (info 4) (info 16) (info 2)
      13 6 ?s w1 = Ok w2" "\<forall>k. k \<noteq> 6 \<longrightarrow> k \<noteq> 16 \<longrightarrow> ledger w2 k = ledger w1 k"
    using sample_transfer_ok [of w1 6 "\<lparr>token_mint = 4, token_owner = 2, token_amount = 960013\<rparr>" 16
        "\<lparr>token_mint = 4, token_owner = PROTOCOL_FEE_RECIPIENT, token_amount = 0\<rparr>" "info SPL_TOKEN_PROGRAM_ID" "info 4" "info 2"
        ?s "info 6" "info 16" 13 6] tok w1(2) by auto
  let ?q = "sample_pool\<lparr>protocol_fees_a := 0, protocol_fees_b := 0, last_update_slot := 100\<rparr>"
  have "data (acct w2 (info 2)) = pool_bytes sample_pool" using w2(2) w1(2) tok(6) by (simp add: acct_def)
  then have w3: "serialize_into (pool_bytes ?q) (info 2) w2 = Ok (put_data (info 2) (pool_bytes ?q) w2)"
    using length_pool_bytes [OF sample_wf(1)] length_pool_bytes [of ?q] sample_wf(1) by (simp add: pool_wf_def)
  have ro: "read_token_owner sample_env ?w (info 15) = Ok PROTOCOL_FEE_RECIPIENT"
    "read_token_owner sample_env ?w (info 16) = Ok PROTOCOL_FEE_RECIPIENT"
    using tok by (simp_all add: read_token_owner_def)
  have pay: "\<exists>ev. claim_fees_pay sample_env ?c sample_pool ?w = Ok (emit ev (put_data (info 2) (pool_bytes ?q) w2))"
    by (simp add: claim_fees_pay_def Let_def a sample_pool_simps w1(1) w2(1) w3
        del: and_then_Ok_iff serialize_into_Ok_iff) (rule exI, rule refl)
  then obtain ev where pay: "claim_fees_pay sample_env ?c sample_pool ?w = Ok (emit ev (put_data (info 2) (pool_bytes ?q) w2))" ..
  have "dispatch sample_env 99 ?c ClaimProtocolFees ?w = Ok (emit ev (put_data (info 2) (pool_bytes ?q) w2))"
    using tok(7) by (simp add: process_claim_protocol_fees_def Let_def a sample_token_programs ro sample_pool_simps pay
        del: and_then_Ok_iff)
  then show ?thesis using w1(2) w2(2) by (simp add: put_data_def)
qed

theorem open_loans_well_typed_witness:
  "\<exists>w'. dispatch sample_env 99 sample_claim_accounts ClaimProtocolFees (sample_world sample_pool) = Ok w' \<and>
    owner (ledger w' 20) = 99 \<and> length (data (ledger w' 20)) = LOAN_LEN \<and>
    (\<exists>p sides dir. pools 99 w' (loan_pool sample_loan) = Some p \<and> safe_params p \<and>
       loan_sides_from_u8 (loan_sides sample_loan) = Ok sides \<and>
       trigger_direction_from_u8 (loan_trigger_direction sample_loan) = Ok dir) \<and>
    band_id_for_trigger (loan_trigger_price_wad sample_loan) = Ok (loan_band_id sample_loan) \<and>
    loan_band_id sample_loan \<le> MAX_BAND_ID"
proof -
  obtain w' where w': "dispatch sample_env 99 sample_claim_accounts ClaimProtocolFees (sample_world sample_pool) = Ok w'"
    "\<forall>k \<in> {8, 20}. ledger w' k = sample_ledger sample_pool k" using sample_claim_runs by blast
  have l: "loans 99 w' 20 = Some sample_loan" using w'(2) by (simp add: loans_Some sample_owned sample_data)
  have o: "is_open sample_loan" by (simp add: is_open_def sample_loan_def)
  from open_loans_well_typed [OF sample_platform sample_band_addresses sample_book_inv w'(1) l o] w'(1)
  show ?thesis by blast
qed

end
