(* ===== verification/Loan_Terms.thy ===== *)
theory Loan_Terms
  imports System_Properties
begin

text \<open>
  What the interest indexes and the stored loans keep in every reachable ledger. No instruction
  ever lowers a pool's borrow indexes, and they stay between one and the cap. So an open loan's
  index snapshot never exceeds the current index of its debt side, which is what the program needs
  to compute the debt; its amounts stay those of the opening, and so does its trigger price, which
  is therefore always the one its collateral and principal have under the pool's liquidation ratio.
\<close>

section \<open>Indexes that only grow\<close>

definition index_ok :: "pool \<Rightarrow> bool" where
  "index_ok p \<longleftrightarrow> (\<forall>i \<in> {borrow_index_a_wad p, borrow_index_b_wad p}.
     10 ^ 18 \<le> unat i \<and> unat i \<le> 2 ^ 64 * 10 ^ 18)"

definition index_grows :: "pool \<Rightarrow> pool \<Rightarrow> bool" where
  "index_grows p q \<longleftrightarrow> unat (borrow_index_a_wad p) \<le> unat (borrow_index_a_wad q) \<and>
     unat (borrow_index_b_wad p) \<le> unat (borrow_index_b_wad q) \<and> (index_ok p \<longrightarrow> index_ok q)"

definition same_indexes :: "pool \<Rightarrow> pool \<Rightarrow> bool" where
  "same_indexes p q \<longleftrightarrow> borrow_index_a_wad q = borrow_index_a_wad p \<and> borrow_index_b_wad q = borrow_index_b_wad p"

lemma index_grows_refl [simp]: "index_grows p p"
  by (simp add: index_grows_def)

lemma same_grows: "index_grows p q \<Longrightarrow> same_indexes q r \<Longrightarrow> index_grows p r"
  by (simp add: index_grows_def same_indexes_def index_ok_def)

lemma same_indexes_refl [simp]: "same_indexes p p"
  by (simp add: same_indexes_def)

lemma same_indexes_trans: "same_indexes p q \<Longrightarrow> same_indexes q r \<Longrightarrow> same_indexes p r"
  by (simp add: same_indexes_def)

lemma same_indexes_fields [simp]:
  "same_indexes p (q\<lparr>last_update_slot := s\<rparr>) = same_indexes p q"
  "same_indexes p (q\<lparr>protocol_fees_a := fa\<rparr>) = same_indexes p q"
  "same_indexes p (q\<lparr>protocol_fees_b := fb\<rparr>) = same_indexes p q"
  "same_indexes p (q\<lparr>ref_price_wad := r\<rparr>) = same_indexes p q"
  "same_indexes p (q\<lparr>ref_price_slot := s\<rparr>) = same_indexes p q"
  by (simp_all add: same_indexes_def)

lemma bump_grows:
  assumes "bump_indexes p ra rb slot = Ok q" shows "index_grows p q"
proof -
  obtain ia ib s where q: "q = p\<lparr>borrow_index_a_wad := ia, borrow_index_b_wad := ib, last_index_update_slot := s\<rparr>"
    and le: "unat (borrow_index_a_wad p) \<le> unat ia" "unat (borrow_index_b_wad p) \<le> unat ib"
    using bump_indexes_frame [OF assms] by blast
  then show ?thesis using bump_indexes_cap [OF assms] by (simp add: index_grows_def index_ok_def)
qed

lemma bitmap_mut_indexes: "band_bitmap_mut p d f = Ok q \<Longrightarrow> same_indexes p q"
  by (auto simp: band_bitmap_mut_def same_indexes_def split: if_splits)

lemma release_indexes: "release_loan p sides c d = Ok q \<Longrightarrow> same_indexes p q"
  using release_same_terms [of p sides c d q] by (auto simp: same_terms_def same_indexes_def)

lemma open_book_indexes: "open_loan_book p sides c d slot = Ok q \<Longrightarrow> same_indexes p q"
  using open_loan_book_Ok [of p sides c d slot q] by (auto simp: same_indexes_def)

lemma repay_book_indexes:
  assumes "repay_book p l sides b slot = Ok (q, b')" shows "same_indexes p q"
proof -
  have upd: "same_indexes p q'"
    if "release_loan p sides c d = Ok p1" "(if z then band_bitmap_mut (p1\<lparr>last_update_slot := slot\<rparr>) d' f
        else Ok (p1\<lparr>last_update_slot := slot\<rparr>)) = Ok q'" for c d p1 z d' f q'
    using release_indexes [OF that(1)] that(2) bitmap_mut_indexes [of "p1\<lparr>last_update_slot := slot\<rparr>" d' f q']
    by (cases z) (auto simp: same_indexes_def)
  have "post (repay_book p l sides b slot) (\<lambda>(q, b'). same_indexes p q)"
    unfolding repay_book_def Let_def by (intro post_intros) (use upd in blast)
  then show ?thesis using postD assms by fastforce
qed

lemma persist_bands_indexes:
  "post (persist_bands slot accounts cs d bcs p w) (\<lambda>(q, w'). same_indexes p q)"
proof (induction bcs arbitrary: p w)
  case (Cons bc bcs)
  have more: "post (persist_bands slot accounts cs d bcs p1 w1) (\<lambda>(q, w'). same_indexes p q)"
    if "same_indexes p p1" for p1 w1
    using Cons.IH [of p1 w1] that same_indexes_trans [of p p1] by (fastforce simp: post_def)
  have bm: "same_indexes p p1" if "(if b then into (band_bitmap_mut p d f) else Ok p) = Ok p1" for b f p1
    using that bitmap_mut_indexes by (cases b) auto
  show ?case unfolding persist_bands.simps Let_def
    by (intro more post_intros) (use bm in auto)
qed (simp add: post_def)

lemma swap_compute_grows:
  assumes "swap_compute p ra rb slot cs x mn dir bb = Ok (q, cs', n, skim, out, price)"
  shows "index_grows p q"
proof -
  obtain p1 A0 B0 p2 growth o128 p3 where
    c: "bump_indexes p ra rb slot = Ok p1" "accounted p1 ra rb = Ok (A0, B0)"
    "sample_ref_price p1 A0 B0 slot = Ok p2" "protocol_skim p2 x = Ok skim"
    "(minus_p x skim :: (u64, liquidity_error) res) = Ok growth"
    "liquidation_loop ra rb dir x (widen growth) p2 cs 0 A0 B0 = Ok (o128, price, p3, cs', n)"
    "swap_final_checks p3 ra rb dir mn bb skim o128 price = Ok (q, out)"
    by (rule swap_compute_Ok [OF assms])
  have "accounted p2 ra rb = Ok (A0, B0)" using c(2) swap_entry_fields(7) [OF c(1,3)] by simp
  from cascade [OF c(6) this] have "same_terms p2 p3" by blast
  then have "same_indexes p2 p3" by (auto simp: same_terms_def same_indexes_def)
  moreover have "same_indexes p1 p2" using sample_ref_price_frame [OF c(3)] by (auto simp: same_indexes_def)
  moreover have "same_indexes p3 q" by (rule swap_final_checks_Ok [OF c(7)]) simp
  ultimately show ?thesis by (meson same_grows bump_grows [OF c(1)])
qed

section \<open>Every instruction lets the indexes grow\<close>

text \<open>What was written into the pool account is the pool found there afterwards.\<close>

lemma stored_is_entry:
  assumes "serialize_into (pool_bytes q) i w = Ok w'" "pool_wf q" "pools pid w' (key i) = Some q'"
  shows "q' = q"
proof -
  from assms(1) have "data (ledger w' (key i)) = pool_bytes q @ drop (length (pool_bytes q)) (data (acct w i))"
    by (auto simp: put_data_def)
  moreover have q': "data (ledger w' (key i)) = pool_bytes q'" "pool_wf q'" using assms(3) by (simp_all add: pools_Some)
  ultimately have "pool_bytes q' = pool_bytes q @ drop (length (pool_bytes q)) (data (acct w i))" by simp
  then have "pool_bytes q' = pool_bytes q"
    using length_pool_bytes [OF assms(2)] length_pool_bytes [OF q'(2)] by (metis append_Nil2 append_eq_conv_conj take_all order_refl)
  then show ?thesis using pool_codec.dec_iff [of "pool_bytes q" q] pool_codec.dec_iff [of "pool_bytes q'" q'] assms(2) q'(2)
    by (metis option.inject)
qed

lemma touched_elsewhere:
  assumes "book_trans e pid (Touched pk) s s'" "k \<noteq> pk"
  shows "b_pools s' k = b_pools s k"
  using assms by (auto elim!: touched_E)

lemma touched_grows:
  assumes tr: "book_trans e pid (Touched (key i)) (books_of pid w) (books_of pid w')"
    and p: "owner (acct w i) = pid" "load_pool w i = Ok p"
    and st: "serialize_into (pool_bytes q) i w1 = Ok w2" "w' = emit ev w2" "pool_wf q = pool_wf p"
    and grow: "index_grows p q"
    and k: "pools pid w k = Some p0" "pools pid w' k = Some q0"
  shows "index_grows p0 q0"
proof (cases "k = key i")
  case True
  have e: "pools pid w (key i) = Some p" by (rule loaded_pool [OF p(2,1)])
  then have "pool_wf q" using st(3) by (simp add: pools_Some)
  moreover have "pools pid w2 (key i) = Some q0" using k(2) st(2) True by (simp add: views)
  ultimately have "q0 = q" using stored_is_entry [OF st(1)] by blast
  then show ?thesis using e k(1) True grow by simp
next
  case False
  then show ?thesis using touched_elsewhere [OF tr, of k] k by simp
qed

lemma add_liquidity_grows:
  assumes "isolation_law e pid" "process_add_liquidity e pid accounts x y z w = Ok w'"
    and "pools pid w k = Some p0" "pools pid w' k = Some q0"
  shows "index_grows p0 q0"
proof (rule add_liquidity_effect [OF assms(2)])
  fix p pool ra rb slot w3 w4 slot' ev
  assume a: "owner (acct w (accounts ! 0)) = pid" "load_pool w (accounts ! 0) = Ok p"
    "bump_indexes p ra rb slot = Ok pool"
    "serialize_into (pool_bytes (pool\<lparr>last_update_slot := slot'\<rparr>)) (accounts ! 0) w3 = Ok w4" "w' = emit ev w4"
  have "index_grows p (pool\<lparr>last_update_slot := slot'\<rparr>)" by (rule same_grows [OF bump_grows [OF a(3)]]) simp
  from touched_grows [OF add_liquidity_refines [OF assms(1,2)] a(1,2,4,5) _ this assms(3,4)]
  show ?thesis using bump_indexes_accounting(3) [OF a(3)] by (simp add: pool_wf_def)
qed

lemma remove_liquidity_grows:
  assumes "isolation_law e pid" "process_remove_liquidity e pid accounts x y z w = Ok w'"
    and "pools pid w k = Some p0" "pools pid w' k = Some q0"
  shows "index_grows p0 q0"
proof (rule remove_liquidity_effect [OF assms(2)])
  fix p pool ra rb slot w3 w4 slot' ev
  assume a: "owner (acct w (accounts ! 0)) = pid" "load_pool w (accounts ! 0) = Ok p"
    "bump_indexes p ra rb slot = Ok pool"
    "serialize_into (pool_bytes (pool\<lparr>last_update_slot := slot'\<rparr>)) (accounts ! 0) w3 = Ok w4" "w' = emit ev w4"
  have "index_grows p (pool\<lparr>last_update_slot := slot'\<rparr>)" by (rule same_grows [OF bump_grows [OF a(3)]]) simp
  from touched_grows [OF remove_liquidity_refines [OF assms(1,2)] a(1,2,4,5) _ this assms(3,4)]
  show ?thesis using bump_indexes_accounting(3) [OF a(3)] by (simp add: pool_wf_def)
qed

lemma claim_fees_grows:
  assumes iso: "isolation_law e pid" and run: "process_claim_protocol_fees e pid accounts w = Ok w'"
    and k: "pools pid w k = Some p0" "pools pid w' k = Some q0"
  shows "index_grows p0 q0"
proof (cases "w' = w")
  case False
  then have tr: "book_trans e pid (Touched (key (accounts ! 0))) (books_of pid w) (books_of pid w')"
    using claim_fees_refines [OF iso run] by blast
  obtain p w2 slot w3 ev where a: "owner (acct w (accounts ! 0)) = pid" "load_pool w (accounts ! 0) = Ok p"
    "serialize_into (pool_bytes (p\<lparr>protocol_fees_a := 0, protocol_fees_b := 0, last_update_slot := slot\<rparr>))
       (accounts ! 0) w2 = Ok w3" "w' = emit ev w3"
    by (rule claim_fees_effect [OF run]) (use False in blast)
  have "index_grows p (p\<lparr>protocol_fees_a := 0, protocol_fees_b := 0, last_update_slot := slot\<rparr>)"
    by (rule same_grows [OF index_grows_refl]) simp
  from touched_grows [OF tr a _ this k] show ?thesis by (simp add: pool_wf_def)
qed (use k in simp)

lemma repay_grows:
  assumes "isolation_law e pid" "process_repay_loan e pid accounts w = Ok w'"
    and "pools pid w k = Some p0" "pools pid w' k = Some q0"
  shows "index_grows p0 q0"
proof (rule repay_effect [OF assms(1,2)])
  fix p l b ra rb slot p1 owe sides coll q n
  assume load: "repay_load e pid (loan_handler_accounts accounts 10) (accounts ! 8) (accounts ! 9) w = Ok (p, l, b)"
    and p: "pools pid w (key (accounts ! 0)) = Some p" and am: "repay_amounts p l ra rb slot = Ok (p1, owe, sides, coll)"
    and bk: "repay_book p1 (l\<lparr>loan_last_touch_slot := slot\<rparr>) sides b slot = Ok (q, b\<lparr>band_count := n\<rparr>)"
    and eq: "books_of pid w' = (books_of pid w)\<lparr>b_pools := (pools pid w)(loan_pool l \<mapsto> q),
       b_loans := (loans pid w)(key (accounts ! 8) := None),
       b_bands := (bands pid w)(key (accounts ! 9) \<mapsto> b\<lparr>band_count := n\<rparr>)\<rparr>"
  have "bump_indexes p ra rb slot = Ok p1" using am by (auto simp: repay_amounts_def)
  then have "index_grows p q" using same_grows [OF bump_grows repay_book_indexes [OF bk]] by blast
  moreover have "loan_pool l = key (accounts ! 0)"
    using repay_load_Ok(5) [OF load] by (simp add: loan_handler_accounts_def)
  moreover have "pools pid w' = (pools pid w)(loan_pool l \<mapsto> q)" using eq by (simp add: books_of_def)
  ultimately show ?thesis using assms(3,4) p by (auto split: if_splits)
qed

lemma swap_grows_indexes:
  assumes "isolation_law e pid" "book_inv e pid (books_of pid w)"
    and "process_swap e pid accounts x mn dir bb counts w = Ok w'"
    and "pools pid w k = Some p0" "pools pid w' k = Some q0"
  shows "index_grows p0 q0"
proof (rule swap_effect [OF assms(1-3)])
  let ?pk = "key (pool_info (swap_accounts accounts))" and ?d = "direction_byte (expected_direction dir)"
  fix p q gs cs slot cs0 ra rb q0' n skim out price q2 w1
  assume p: "pools pid w ?pk = Some p"
    and eq: "books_of pid w' = (books_of pid w)\<lparr>b_pools := (pools pid w)(?pk \<mapsto> q),
       b_loans := mark_loans slot (hit_keys accounts cs) (loans pid w),
       b_bands := (\<lambda>k. map_option (\<lambda>b. b\<lparr>band_count := band_count b - of_nat (card (hit_keys accounts cs \<inter>
          open_in (books_of pid w) (band_pool b) (band_direction b) (band_band_id b)))\<rparr>) (bands pid w k))\<rparr>"
    and c: "swap_compute p ra rb slot cs0 x mn dir bb = Ok (q0', cs, n, skim, out, price)"
    and pb: "persist_bands slot accounts cs ?d (map fst gs) q0' w = Ok (q2, w1)"
    and q: "q = q2\<lparr>last_update_slot := slot\<rparr>"
  have "same_indexes q0' q2" using postD [OF persist_bands_indexes pb] by simp
  then have "index_grows p q" using same_grows [OF swap_compute_grows [OF c]] by (simp add: q)
  moreover have "pools pid w' = (pools pid w)(?pk \<mapsto> q)" using eq by (simp add: books_of_def)
  ultimately show ?thesis using assms(4,5) p by (auto split: if_splits)
qed

section \<open>The terms of an open loan\<close>

text \<open>The index of the side a loan owes.\<close>

definition debt_index :: "loan \<Rightarrow> pool \<Rightarrow> u128" where
  "debt_index l p = (if loan_sides l = 0 then borrow_index_b_wad p else borrow_index_a_wad p)"

definition terms_ok :: "pool \<Rightarrow> loan \<Rightarrow> bool" where
  "terms_ok p l \<longleftrightarrow> 10 ^ 18 \<le> unat (loan_borrow_index_snapshot_wad l) \<and>
     unat (loan_borrow_index_snapshot_wad l) \<le> unat (debt_index l p) \<and>
     0 < unat (loan_debt_principal l) \<and> unat (loan_debt_principal l) < 2 ^ 64 \<and>
     0 < unat (loan_collateral_amount l) \<and> unat (loan_collateral_amount l) < 2 ^ 64 \<and>
     (\<exists>sides dir. loan_sides_from_u8 (loan_sides l) = Ok sides \<and>
        loan_trigger_direction l = direction_byte dir \<and>
        recompute_trigger sides (loan_collateral_amount l) (loan_debt_principal l) (liq_ratio_bps p) =
          Ok (loan_trigger_price_wad l, dir))"

definition terms_inv :: "books \<Rightarrow> bool" where
  "terms_inv s \<longleftrightarrow> (\<forall>k p. b_pools s k = Some p \<longrightarrow> index_ok p) \<and>
     (\<forall>k l p. b_loans s k = Some l \<longrightarrow> is_open l \<longrightarrow> b_pools s (loan_pool l) = Some p \<longrightarrow> terms_ok p l)"

lemma terms_ok_grows:
  assumes "terms_ok p l" "index_grows p q" "params q = params p"
  shows "terms_ok q l"
  using assms(1,2) params_fields(3) [OF assms(3)] by (auto simp: terms_ok_def index_grows_def debt_index_def)

lemma open_terms:
  assumes law: "isolation_law e pid" "system_law e" "pda_law e pid w"
    and run: "process_open_loan e pid accounts sides_byte c d nonce w = Ok w'"
  shows "pools pid w k = Some p0 \<Longrightarrow> pools pid w' k = Some q0 \<Longrightarrow> index_grows p0 q0"
    and "loans pid w' (key (accounts ! 8)) = Some l0 \<Longrightarrow> pools pid w' (loan_pool l0) = Some q0 \<Longrightarrow>
      index_ok q0 \<Longrightarrow> terms_ok q0 l0"
proof -
  let ?a = "loan_handler_accounts accounts 11"
  obtain p p1 sides trigger dir bump bid b p2 slot w1 q snap n l where
    p: "pools pid w (key (accounts ! 0)) = Some p"
    and tm: "open_loan_terms e ?a sides_byte c d p w = Ok (p1, sides, trigger, dir)"
    and sd: "loan_sides_from_u8 sides_byte = Ok sides"
    and al: "open_loan_allocate e pid ?a (accounts ! 8) (accounts ! 9) (accounts ! 10)
      nonce p1 trigger dir w = Ok (bump, bid, b, p2, slot, w1)"
    and bk: "open_loan_book p2 sides c d slot = Ok q" and par: "params q = params p1"
    and l: "l = new_loan (key (accounts ! 0)) (key (accounts ! 7)) nonce bump sides_byte c d snap slot trigger
       (direction_byte dir) bid"
    and snap: "borrow_index_for_debt_side p2 sides_byte = Ok snap"
    and eq: "books_of pid w' = (books_of pid w)\<lparr>b_pools := (pools pid w)(key (accounts ! 0) \<mapsto> q),
       b_loans := (loans pid w)(key (accounts ! 8) \<mapsto> l),
       b_bands := (bands pid w)(key (accounts ! 9) \<mapsto> b\<lparr>band_count := n\<rparr>)\<rparr>"
    by (rule open_effect [OF law run]) blast
  have maps: "pools pid w' = (pools pid w)(key (accounts ! 0) \<mapsto> q)"
    "loans pid w' = (loans pid w)(key (accounts ! 8) \<mapsto> l)" using eq by (simp_all add: books_of_def)
  from tm obtain ra rb slot' where bump: "bump_indexes p ra rb slot' = Ok p1"
    and trig: "recompute_trigger sides (widen c) (widen d) (liq_ratio_bps p1) = Ok (trigger, dir)"
    by (auto simp: open_loan_terms_def)
  have "same_indexes p1 p2"
    using al bitmap_mut_indexes by (fastforce simp: open_loan_allocate_def Let_def split: if_splits)
  then have s: "same_indexes p1 q" using open_book_indexes [OF bk] same_indexes_trans by blast
  have "index_grows p q" by (rule same_grows [OF bump_grows [OF bump] s])
  then show "pools pid w k = Some p0 \<Longrightarrow> pools pid w' k = Some q0 \<Longrightarrow> index_grows p0 q0"
    using p maps(1) by (auto split: if_splits)
  have f: "loan_sides l = sides_byte" "loan_borrow_index_snapshot_wad l = snap" "loan_collateral_amount l = widen c"
    "loan_debt_principal l = widen d" "loan_trigger_price_wad l = trigger"
    "loan_trigger_direction l = direction_byte dir" "loan_pool l = key (accounts ! 0)"
    by (simp_all add: l new_loan_def)
  have "snap = debt_index l q"
    using snap open_book_indexes [OF bk] by (auto simp: borrow_index_for_debt_side_def debt_index_def f same_indexes_def split: if_splits)
  moreover have "widen c \<noteq> (0 :: u128)" "widen d \<noteq> (0 :: u128)" using trig by (auto simp: recompute_trigger_def)
  then have "0 < unat c" "0 < unat d" by (auto simp: word_eq_unat)
  moreover have "unat c < 2 ^ 64" "unat d < 2 ^ 64" by (rule u64_lt)+
  moreover have "index_ok q \<Longrightarrow> 10 ^ 18 \<le> unat (debt_index l q)" by (simp add: index_ok_def debt_index_def)
  ultimately have "index_ok q \<Longrightarrow> terms_ok q l"
    using sd trig params_fields(3) [OF par] unfolding terms_ok_def f by auto
  then show "loans pid w' (key (accounts ! 8)) = Some l0 \<Longrightarrow> pools pid w' (loan_pool l0) = Some q0 \<Longrightarrow>
      index_ok q0 \<Longrightarrow> terms_ok q0 l0"
    using maps f(7) by simp
qed

section \<open>Every instruction keeps the terms\<close>

lemma trans_new_pool:
  assumes "book_trans e pid eff s s'" "b_pools s k = None" "b_pools s' k = Some q"
  shows "index_ok q"
  using assms by (cases rule: book_trans.cases)
    (auto simp: index_ok_def initial_pool_def WAD_def split: if_splits)

lemma trans_keeps_pools:
  "book_trans e pid (Created pk) s s' \<Longrightarrow> b_pools s k = Some p \<Longrightarrow> b_pools s' k = Some p"
  "book_trans e pid (RentClaimed lk) s s' \<Longrightarrow> b_pools s' = b_pools s"
  by (auto elim!: created_E rent_claimed_E split: if_splits)

lemma trans_loan_back:
  assumes "book_trans e pid eff s s'" "b_loans s' k = Some l" "is_open l"
  shows "b_loans s k = Some l \<or> eff = Opened k l"
  using assms by (cases rule: book_trans.cases)
    (auto simp: liquidated_loan_def is_open_def STATUS_OPEN_def STATUS_LIQUIDATED_def split: if_splits)

lemma dispatch_grows:
  assumes "platform e pid" "band_addresses_ok e pid w" "book_inv e pid (books_of pid w)"
    and run: "dispatch e pid accounts ix w = Ok w'"
    and k: "pools pid w k = Some p" "pools pid w' k = Some q"
  shows "index_grows p q"
proof -
  note law = platform_parts [OF assms(1)] band_addresses_pda [OF assms(2)]
  show ?thesis
  proof (cases ix)
    case InitializePool
    then have "book_trans e pid (Created (key (accounts ! 0))) (books_of pid w) (books_of pid w')"
      using run initialize_refines [OF law(2,3)] by simp
    from trans_keeps_pools(1) [OF this, of k p] show ?thesis using k by simp
  next
    case AddLiquidity
    then show ?thesis using run add_liquidity_grows [OF law(2) _ k] by simp
  next
    case RemoveLiquidity
    then show ?thesis using run remove_liquidity_grows [OF law(2) _ k] by simp
  next
    case (OpenLoan sides c d nonce)
    then show ?thesis using run open_terms(1) [OF law(2,3,5) _ k] by simp
  next
    case RepayLoan
    then show ?thesis using run repay_grows [OF law(2) _ k] by simp
  next
    case ClaimProtocolFees
    then show ?thesis using run claim_fees_grows [OF law(2) _ k] by simp
  next
    case ClaimLiquidatedRent
    then have "book_trans e pid (RentClaimed (key (accounts ! 0))) (books_of pid w) (books_of pid w')"
      using run claim_rent_refines by simp
    from trans_keeps_pools(2) [OF this] show ?thesis using k by simp
  next
    case (Swap x mn dir bb counts)
    then show ?thesis using run swap_grows_indexes [OF law(2) assms(3) _ k] by simp
  qed
qed

lemma dispatch_terms:
  assumes pl: "platform e pid" "band_addresses_ok e pid w" "book_inv e pid (books_of pid w)"
    and inv: "terms_inv (books_of pid w)" and run: "dispatch e pid accounts ix w = Ok w'"
  shows "terms_inv (books_of pid w')"
proof (cases "w' = w")
  case False
  with dispatch_step [OF pl run] obtain eff where perm: "permits (books_of pid w) accounts ix eff"
    and tr: "book_trans e pid eff (books_of pid w) (books_of pid w')" by blast
  note grow = dispatch_grows [OF pl run]
  have idx: "index_ok q" if "pools pid w' k = Some q" for k q
  proof (cases "pools pid w k")
    case None
    then show ?thesis using trans_new_pool [OF tr, of k q] that by simp
  next
    case (Some p)
    then show ?thesis using grow [OF Some that] inv by (auto simp: terms_inv_def index_grows_def)
  qed
  have "terms_ok q l" if l: "loans pid w' k = Some l" "is_open l" and q: "pools pid w' (loan_pool l) = Some q" for k l q
  proof (cases "loans pid w k = Some l")
    case True
    then obtain p where p: "pools pid w (loan_pool l) = Some p"
      using inv_loanD [OF pl(3), of k l] l(2) by (auto simp: loan_ok_def)
    then have "terms_ok p l" using inv True l(2) by (simp add: terms_inv_def)
    moreover have "params q = params p" using trans_pool [OF tr, of "loan_pool l" p] p q by simp
    ultimately show ?thesis using grow [OF p q] by (blast intro: terms_ok_grows)
  next
    case False
    then have "eff = Opened k l" using trans_loan_back [OF tr, of k l] l by simp
    with perm obtain sides c d nonce where ix: "ix = OpenLoan sides c d nonce" and k: "k = key (accounts ! 8)"
      by (cases ix) auto
    have "process_open_loan e pid accounts sides c d nonce w = Ok w'" using run ix by simp
    from open_terms(2) [OF platform_parts(2,3) [OF pl(1)] band_addresses_pda [OF pl(2)] this] show ?thesis
      using l(1) q k idx [OF q] by simp
  qed
  with idx show ?thesis by (auto simp: terms_inv_def)
qed (use inv in simp)

lemma reachable_terms:
  assumes "reachable e pid w" "platform e pid"
  shows "terms_inv (books_of pid w)"
  using assms
proof (induction rule: reachable.induct)
  case (start w)
  then show ?case by (simp add: terms_inv_def views view_def)
next
  case (instruction w slot accounts ix w')
  have "book_inv e pid (books_of pid w)" "band_addresses_ok e pid w"
    using reachable_inv instruction by blast+
  then show ?case using dispatch_terms [of "e\<lparr>clock_get := slot\<rparr>" pid w accounts ix w'] instruction by simp
next
  case (other w w')
  moreover have "pid \<noteq> system_program_id e" using other.prems by (simp add: platform_def runtime_law_def)
  ultimately show ?case using books_outside [of e pid w w'] by simp
qed

text \<open>C40: interest is never taken back. After any successful instruction every pool is still there, both
  its borrow indexes are at least what they were, and they stay at or below the cap, so a debt
  computed from a snapshot never shrinks while its loan is open.\<close>

theorem indexes_never_fall:
  assumes "platform e pid" "band_addresses_ok e pid w" "book_inv e pid (books_of pid w)"
    and "dispatch e pid accounts ix w = Ok w'" "pools pid w k = Some p"
    and "unat (borrow_index_a_wad p) \<in> {10 ^ 18..2 ^ 64 * 10 ^ 18}" "unat (borrow_index_b_wad p) \<in> {10 ^ 18..2 ^ 64 * 10 ^ 18}"
  shows "\<exists>q. pools pid w' k = Some q \<and>
    unat (borrow_index_a_wad p) \<le> unat (borrow_index_a_wad q) \<and> unat (borrow_index_a_wad q) \<le> 2 ^ 64 * 10 ^ 18 \<and>
    unat (borrow_index_b_wad p) \<le> unat (borrow_index_b_wad q) \<and> unat (borrow_index_b_wad q) \<le> 2 ^ 64 * 10 ^ 18"
proof -
  have "\<exists>q. pools pid w' k = Some q"
  proof (cases "w' = w")
    case False
    with dispatch_step [OF assms(1-4)] obtain eff where "book_trans e pid eff (books_of pid w) (books_of pid w')" by blast
    from trans_pool [OF this, of k p] show ?thesis using assms(5) by simp blast
  qed (use assms(5) in simp)
  then obtain q where q: "pools pid w' k = Some q" by blast
  have "index_grows p q" by (rule dispatch_grows [OF assms(1-5) q])
  moreover have "index_ok p" using assms(6,7) by (simp add: index_ok_def)
  ultimately show ?thesis using q by (auto simp: index_grows_def index_ok_def)
qed

theorem indexes_never_fall_witness:
  "\<exists>w' q. dispatch sample_env 99 sample_swap_accounts (Swap 270000 190000 True 63 [1]) (sample_world sample_pool) = Ok w' \<and>
    pools 99 w' 2 = Some q \<and> 10 ^ 18 \<le> unat (borrow_index_a_wad q) \<and> 10 ^ 18 \<le> unat (borrow_index_b_wad q)"
proof -
  obtain w' where w': "dispatch sample_env 99 sample_swap_accounts (Swap 270000 190000 True 63 [1])
      (sample_world sample_pool) = Ok w'" using sample_swap_runs by auto
  have p: "pools 99 (sample_world sample_pool) 2 = Some sample_pool" by (simp add: sample_maps)
  have i: "unat (borrow_index_a_wad sample_pool) = 10 ^ 18" "unat (borrow_index_b_wad sample_pool) = 10 ^ 18"
    by (simp_all add: sample_pool_def initial_pool_def WAD_def)
  have r: "unat (borrow_index_a_wad sample_pool) \<in> {10 ^ 18..2 ^ 64 * 10 ^ 18}"
    "unat (borrow_index_b_wad sample_pool) \<in> {10 ^ 18..2 ^ 64 * 10 ^ 18}" unfolding i by simp_all
  from indexes_never_fall [OF sample_platform sample_band_addresses sample_book_inv w' p r] w'
  show ?thesis unfolding i by blast
qed

end
