(* ===== verification/Repay_Liveness.thy ===== *)
theory Repay_Liveness
  imports Loan_Terms
begin

text \<open>
  A borrower can always get out. When the invariants of the reachable ledgers hold, nothing in a
  repayment can fail but the token transfers (and the sum of the lamports): the interest accrues, the debt is computable, no
  subtraction underflows, the loan's band exists at its derived address and its counter and bit can
  be updated. What is left to the borrower is to have the tokens.
\<close>

lemma open_position_counted:
  assumes inv: "book_inv e pid s" and l: "b_loans s lk = Some l" "is_open l"
    and p: "b_pools s (loan_pool l) = Some p"
  shows "totals_match p (positions s (open_of s (loan_pool l)))"
    "position_of l \<in># positions s (open_of s (loan_pool l))"
proof -
  have ok: "pool_ok s (loan_pool l) p" using inv_poolD [OF inv p] .
  then show "totals_match p (positions s (open_of s (loan_pool l)))" by (simp add: pool_ok_def)
  have "finite (open_of s (loan_pool l))" "lk \<in> open_of s (loan_pool l)"
    using ok l by (auto simp: pool_ok_def open_of_def)
  then show "position_of l \<in># positions s (open_of s (loan_pool l))"
    using l(1) by (force simp: positions_def)
qed

lemma repay_book_total:
  assumes inv: "book_inv e pid s" and l: "b_loans s lk = Some l" "is_open l"
    and p: "b_pools s (loan_pool l) = Some p" "touch p p1" "pool_wf p1"
    and b: "b_bands s bk = Some b" "band_for b (loan_pool l) (loan_trigger_direction l) (loan_band_id l)"
    and sd: "loan_sides_from_u8 (loan_sides l) = Ok sides"
  shows "\<exists>q n. repay_book p1 (l\<lparr>loan_last_touch_slot := slot\<rparr>) sides b slot = Ok (q, b\<lparr>band_count := n\<rparr>) \<and> pool_wf q"
proof -
  let ?pk = "loan_pool l" and ?d = "loan_trigger_direction l" and ?id = "loan_band_id l"
  note pos = open_position_counted [OF inv l p(1)]
  have "totals_match p1 (positions s (open_of s ?pk))"
    using pos(1) p(2) removed_match [of p p1 "{#}"] by (simp add: touch_def)
  from release_total [OF this pos(2)] obtain p2 where
    rel: "release_loan p1 sides (loan_collateral_amount l) (loan_debt_principal l) = Ok p2"
    using sides_position [OF sd] by auto
  have bf: "band_pool b = ?pk" "band_direction b = ?d" "band_band_id b = ?id" using b(2) by (auto simp: band_for_def)
  have "lk \<in> open_in s ?pk ?d ?id" using l by (auto simp: open_in_def)
  moreover have "band_ok e pid s bk b" using inv_bandD [OF inv b(1)] .
  ultimately have "unat (band_count b) \<noteq> 0"
    using card_gt_0_iff [of "open_in s ?pk ?d ?id"] by (auto simp: band_ok_def bf)
  then obtain n where n: "checked_sub (band_count b) 1 = Some n"
    by (auto simp: checked_sub_def word_le_nat_alt)
  have d: "?d = 0 \<or> ?d = 1" using inv_loanD [OF inv l] by (simp add: loan_ok_def)
  then have "?id \<in> bits p ?d"
    using inv_poolD [OF inv p(1)] \<open>lk \<in> open_in s ?pk ?d ?id\<close> by (auto simp: pool_ok_def)
  then have id: "unat ?id \<le> 127"
    by (auto simp: bits_def bitmap_is_set_iff split: res.splits)
  let ?p3 = "p2\<lparr>last_update_slot := slot\<rparr>"
  have wf: "pool_wf ?p3" using release_removed(4) [OF rel] p(3) by simp
  have "\<exists>bm'. bitmap_clear bm ?id = Ok bm'" for bm using id by (simp add: bitmap_clear_Ok_iff)
  then obtain x y where xy: "bitmap_clear (band_bitmap_fall ?p3) ?id = Ok x" "bitmap_clear (band_bitmap_rise ?p3) ?id = Ok y"
    by blast
  then have "band_bitmap_mut ?p3 ?d (\<lambda>bm. bitmap_clear bm ?id) =
      Ok (if ?d = 0 then ?p3\<lparr>band_bitmap_fall := x\<rparr> else ?p3\<lparr>band_bitmap_rise := y\<rparr>)"
    using d by (elim disjE) (simp_all add: band_bitmap_mut_def)
  then obtain q where q: "(if n = 0 then band_bitmap_mut ?p3 ?d (\<lambda>bm. bitmap_clear bm ?id) else Ok ?p3) = Ok q"
    by (cases "n = 0") simp_all
  have "pool_wf q" using q wf bits_clear(4) [of ?p3 ?d ?id q] by (auto split: if_splits)
  then show ?thesis using rel n q by (auto simp: repay_book_def Let_def bf split: if_splits)
qed

text \<open>Writing a state back needs only room for it.\<close>

lemma write_back:
  assumes "length enc = length (data (acct w i))"
  shows "serialize_into enc i w = Ok (put_data i enc w)"
  using assms by simp

lemma put_data_length:
  "length bs = length (data (acct w i)) \<Longrightarrow> length (data (acct (put_data i bs w) j)) = length (data (acct w j))"
  by (auto simp: put_data_def acct_def)

lemma close_length: "close_account i d w = Ok w' \<Longrightarrow> length (data (acct w' j)) = length (data (acct w j))"
  by (auto simp: close_account_def Let_def put_data_def put_lamports_def acct_def split: if_splits)

lemma repay_close_total:
  assumes len: "length (data (acct w bi)) = LOAN_INDEX_BAND_LEN" "length (data (acct w li)) = LOAN_LEN"
      "length (data (acct w (pool_info a))) = POOL_LEN"
    and wf: "loan_index_band_wf b" "loan_wf l" "pool_wf q"
    and sum: "unat (lamports (acct w li)) + unat (lamports (acct w (user_info a))) < 2 ^ 64"
  shows "\<exists>w'. repay_close a li bi q l b slot owe w = Ok w'"
proof -
  let ?l = "l\<lparr>loan_status := STATUS_REPAID, loan_closed_slot := slot\<rparr>"
  have ne: "key li \<noteq> key bi" using len(1,2) by (auto simp: acct_def kind_lens)
  have wl: "loan_wf ?l" using wf(2) by (simp add: loan_wf_def)
  let ?w1 = "put_data bi (loan_index_band_bytes b) w"
  let ?w2 = "put_data li (loan_bytes ?l) ?w1"
  have 1: "serialize_into (loan_index_band_bytes b) bi w = Ok ?w1"
    using len(1) wf(1) by (simp add: length_loan_index_band_bytes)
  have 2: "serialize_into (loan_bytes ?l) li ?w1 = Ok ?w2"
    using len wl wf(1) ne by (intro write_back) (auto simp: length_loan_bytes acct_put_data length_loan_index_band_bytes)
  have lam: "lamports (acct ?w2 j) = lamports (acct w j)" for j
    by (simp add: put_data_def acct_def)
  have dest: "lamports (acct (put_lamports li 0 ?w2) (user_info a)) =
      (if key (user_info a) = key li then 0 else lamports (acct w (user_info a)))"
    by (simp add: acct_put_lamports lam del: acct_data_key)
  have "\<exists>t. checked_add (lamports (acct (put_lamports li 0 ?w2) (user_info a))) (lamports (acct ?w2 li)) = Some t"
  proof -
    have "unat (if key (user_info a) = key li then 0 else lamports (acct w (user_info a))) +
        unat (lamports (acct w li)) < 2 ^ LENGTH(64)"
      using sum u64_lt [of "lamports (acct w li)"] by (auto split: if_splits)
    then show ?thesis unfolding dest lam checked_add_def by (simp only: if_True) blast
  qed
  then obtain w3 where 3: "close_account li (user_info a) ?w2 = Ok w3" by (auto simp: close_account_def Let_def)
  have e1: "length (loan_index_band_bytes b) = length (data (acct w bi))"
    and e2: "length (loan_bytes ?l) = length (data (acct ?w1 li))"
    using len wl wf(1) ne by (simp_all add: length_loan_bytes length_loan_index_band_bytes)
  have "length (data (acct w3 (pool_info a))) = length (data (acct w (pool_info a)))"
    unfolding close_length [OF 3] put_data_length [OF e2] by (rule put_data_length [OF e1])
  then have "serialize_into (pool_bytes q) (pool_info a) w3 = Ok (put_data (pool_info a) (pool_bytes q) w3)"
    using len(3) wf(3) by (intro write_back) (simp add: length_pool_bytes)
  then show ?thesis
    by (simp add: repay_close_def 1 2 3 Let_def del: serialize_into_Ok_iff and_then_Ok_iff)
qed

text \<open>Once the three accounts are loaded and the tokens have moved, nothing is left to fail.\<close>

lemma repay_finishes:
  assumes "isolation_law e pid" and inv: "book_inv e pid (books_of pid w)" and "12 \<le> length accounts"
    and en: "loans pid w (key (accounts ! 8)) = Some l" "pools pid w (key (accounts ! 0)) = Some p"
      "bands pid w (key (accounts ! 9)) = Some b"
    and load: "repay_load e pid (loan_handler_accounts accounts 10) (accounts ! 8) (accounts ! 9) w = Ok (p, l, b)"
    and chk: "check_signer_and_token_programs e w (loan_handler_accounts accounts 10) = Ok ()"
    and "clock_get e = Ok slot" "read_token_amount e w (accounts ! 1) = Ok ra" "read_token_amount e w (accounts ! 2) = Ok rb"
    and am: "repay_amounts p l ra rb slot = Ok (p1, owe, sides, coll)"
    and tr: "repay_transfers e (loan_handler_accounts accounts 10) sides owe coll p1 w = Ok w1"
    and lam: "unat (lamports (ledger w1 (key (accounts ! 8)))) + unat (lamports (ledger w1 (key (accounts ! 7)))) < 2 ^ 64"
  shows "\<exists>w'. process_repay_loan e pid accounts w = Ok w'"
proof -
  let ?a = "loan_handler_accounts accounts 10"
  have a: "pool_info ?a = accounts ! 0" "user_info ?a = accounts ! 7" "vault_a_info ?a = accounts ! 1"
    "vault_b_info ?a = accounts ! 2" by (simp_all add: loan_handler_accounts_def)
  note ld = repay_load_Ok [OF load]
  note acc = entry_account(2) [OF en(1)] entry_account(1) [OF en(2)] entry_account(3) [OF en(3)]
  have pk: "loan_pool l = key (accounts ! 0)" using ld(5) by (simp add: a)
  from am have bump: "bump_indexes p ra rb slot = Ok p1" and sd: "loan_sides_from_u8 (loan_sides l) = Ok sides"
    by (auto simp: repay_amounts_def)
  have touch: "touch p p1" by (rule touch_bump [OF bump])
  obtain q n where book: "repay_book p1 (l\<lparr>loan_last_touch_slot := slot\<rparr>) sides b slot = Ok (q, b\<lparr>band_count := n\<rparr>)"
    "pool_wf q"
    using repay_book_total [OF inv, of "key (accounts ! 8)" l p p1 "key (accounts ! 9)" b sides slot] en ld(4,9) pk touch sd
      touch_live(2) [OF touch] acc by auto
  have qt: "quiet pid w w1" by (rule quiet_repay_transfers [OF assms(1) checked_token_programs [OF chk] tr])
  have len: "length (data (acct w1 (accounts ! 9))) = LOAN_INDEX_BAND_LEN"
    "length (data (acct w1 (accounts ! 8))) = LOAN_LEN" "length (data (acct w1 (accounts ! 0))) = POOL_LEN"
    using acc quiet_acct [OF qt] by simp_all
  obtain w' where "repay_close ?a (accounts ! 8) (accounts ! 9) q (l\<lparr>loan_last_touch_slot := slot\<rparr>)
      (b\<lparr>band_count := n\<rparr>) slot owe w1 = Ok w'"
    using repay_close_total [OF len(1,2), of ?a "b\<lparr>band_count := n\<rparr>" "l\<lparr>loan_last_touch_slot := slot\<rparr>" q slot owe]
      len(3) book(2) acc lam by (auto simp: a acct_def loan_index_band_wf_def loan_wf_def)
  then show ?thesis
    using assms(3,9-11) chk load am tr book(1) acc
    by (simp add: process_repay_loan_def Let_def a del: and_then_Ok_iff)
qed

text \<open>With the accounts found at their addresses.\<close>

lemma repay_never_fails:
  assumes "isolation_law e pid" "book_inv e pid (books_of pid w)" "12 \<le> length accounts"
    and "loans pid w (key (accounts ! 8)) = Some l" "is_open l" "loan_pool l = key (accounts ! 0)"
      "loan_borrower l = key (accounts ! 7)" "pools pid w (key (accounts ! 0)) = Some p"
    and "band_derive_pda e (loan_pool l) (loan_trigger_direction l) (loan_band_id l) pid = Ok (key (accounts ! 9), bump)"
    and "check_signer_and_token_programs e w (loan_handler_accounts accounts 10) = Ok ()"
      "pool_keys_match p (loan_handler_accounts accounts 10)"
    and "clock_get e = Ok slot" "read_token_amount e w (accounts ! 1) = Ok ra" "read_token_amount e w (accounts ! 2) = Ok rb"
    and "repay_amounts p l ra rb slot = Ok (p1, owe, sides, coll)"
    and "repay_transfers e (loan_handler_accounts accounts 10) sides owe coll p1 w = Ok w1"
    and "unat (lamports (ledger w1 (key (accounts ! 8)))) + unat (lamports (ledger w1 (key (accounts ! 7)))) < 2 ^ 64"
  shows "\<exists>w'. process_repay_loan e pid accounts w = Ok w'"
proof -
  let ?a = "loan_handler_accounts accounts 10"
  have a: "pool_info ?a = accounts ! 0" "user_info ?a = accounts ! 7" by (simp_all add: loan_handler_accounts_def)
  obtain bk b where b: "bands pid w bk = Some b" "band_for b (loan_pool l) (loan_trigger_direction l) (loan_band_id l)"
    using inv_loanD [OF assms(2), of "key (accounts ! 8)" l] assms(4,5) by (auto simp: loan_ok_def)
  have "band_at e pid b bk" using inv_bandD [OF assms(2), of bk b] b(1) by (simp add: band_ok_def)
  then have "bk = key (accounts ! 9)" using b(2) assms(9) by (auto simp: band_at_def band_for_def)
  then have bands: "bands pid w (key (accounts ! 9)) = Some b" using b(1) by simp
  note en = entry_account(1) [OF assms(8)] entry_account(2) [OF assms(4)] entry_account(3) [OF bands]
  have "load_pool w (accounts ! 0) = Ok p" using assms(8) by (simp add: pools_Some load_pool_Ok_iff acct_def)
  then have "repay_load e pid ?a (accounts ! 8) (accounts ! 9) w = Ok (p, l, b)"
    using entry_loads(1) [OF assms(4)] entry_loads(2) [OF bands] en assms(5,6,7,9,11) b(2)
    by (simp add: repay_load_def a band_for_def del: and_then_Ok_iff)
  then show ?thesis by (rule repay_finishes [OF assms(1-4,8) bands _ assms(10,12-17)])
qed

text \<open>The amounts of a repayment: accrual succeeds when the vaults cover collateral and fees, and the
  debt is what the index of the loan's debt side says.\<close>

lemma accrual_total:
  assumes "book_inv e pid (books_of pid w)" "pools pid w pk = Some p" "accounted p ra rb = Ok (A, B)"
  shows "\<exists>p1. bump_indexes p ra rb slot = Ok p1"
proof -
  have "safe_params p" using inv_poolD [OF assms(1), of pk p] assms(2) by (simp add: pool_ok_def)
  then have "interest_kink_bps p \<noteq> 0" by (auto simp: safe_params_def)
  with assms(3) show ?thesis by (rule bump_indexes_total)
qed

lemma repay_amounts_total:
  assumes t: "terms_ok p l" and b: "bump_indexes p ra rb slot = Ok p1"
    and owe: "unat owe = ceil_div (unat (loan_debt_principal l) * unat (debt_index l p1)) (unat (loan_borrow_index_snapshot_wad l))"
    and coll: "widen coll = loan_collateral_amount l"
  shows "repay_amounts p l ra rb slot = Ok (p1, owe, if loan_sides l = 0 then CollateralA else CollateralB, coll)"
proof -
  from t obtain sides where sd: "loan_sides_from_u8 (loan_sides l) = Ok sides" by (auto simp: terms_ok_def)
  then have side: "sides = (if loan_sides l = 0 then CollateralA else CollateralB)"
    "borrow_index_for_debt_side p1 (loan_sides l) = Ok (debt_index l p1)"
    by (auto simp: loan_sides_from_u8_def borrow_index_for_debt_side_def debt_index_def split: if_splits)
  have snap: "10 ^ 18 \<le> unat (loan_borrow_index_snapshot_wad l)"
    "unat (loan_borrow_index_snapshot_wad l) \<le> unat (debt_index l p1)"
    using t bump_grows [OF b] by (auto simp: terms_ok_def index_grows_def debt_index_def)
  have "loan_borrow_index_snapshot_wad l \<noteq> 0" using snap(1) by auto
  then have "owed l (debt_index l p1) = Ok (widen owe)"
    using snap(2) owe by (simp add: owed_def owed_from_index_Ok_iff unat_widen)
  then show ?thesis
    using b side sd coll by (simp add: repay_amounts_def try_narrow_u64_widen)
qed

lemma terms_collateral:
  assumes "terms_ok p l" obtains coll :: u64 where "widen coll = loan_collateral_amount l"
proof (cases "try_narrow (loan_collateral_amount l) :: u64 option")
  case None
  then show ?thesis using assms by (simp add: terms_ok_def try_narrow_None_iff)
next
  case (Some coll)
  then show ?thesis using that by (simp add: try_narrow_u64_widen)
qed

text \<open>C7: repaying cannot be blocked. The two invariants hold in every reachable ledger. When the
  borrower signs for an open loan, the accounts are the ones the loan names and the vaults cover
  collateral and fees, the accrual succeeds, and the debt is the principal scaled by the index of
  the loan's debt side over its snapshot, rounded up. If then the two token transfers go through
  (this debt in, the collateral out) the repayment succeeds: accruing, computing the debt, the
  narrowing of the amounts, the pool's totals, its loan count, the band's counter and the presence
  bit never stand in the way. The debt is taken as a token amount; one beyond the 64 bits of
  a token amount no transfer could pay. The last condition is that the lamports of the closed
  account fit the borrower's.\<close>

theorem repayment_never_blocked:
  assumes "isolation_law e pid" "book_inv e pid (books_of pid w)" "terms_inv (books_of pid w)" "12 \<le> length accounts"
    and "loans pid w (key (accounts ! 8)) = Some l" "is_open l" "loan_pool l = key (accounts ! 0)"
      "loan_borrower l = key (accounts ! 7)" "pools pid w (key (accounts ! 0)) = Some p"
    and "band_derive_pda e (loan_pool l) (loan_trigger_direction l) (loan_band_id l) pid = Ok (key (accounts ! 9), bump)"
    and "check_signer_and_token_programs e w (loan_handler_accounts accounts 10) = Ok ()"
      "pool_keys_match p (loan_handler_accounts accounts 10)"
    and "clock_get e = Ok slot" "read_token_amount e w (accounts ! 1) = Ok ra" "read_token_amount e w (accounts ! 2) = Ok rb"
    and "accounted p ra rb = Ok (A, B)"
  shows "\<exists>p1 coll. bump_indexes p ra rb slot = Ok p1 \<and> widen coll = loan_collateral_amount l \<and>
    (\<forall>owe w1.
       unat owe = ceil_div (unat (loan_debt_principal l) *
         unat (if loan_sides l = 0 then borrow_index_b_wad p1 else borrow_index_a_wad p1))
         (unat (loan_borrow_index_snapshot_wad l)) \<longrightarrow>
       repay_transfers e (loan_handler_accounts accounts 10) (if loan_sides l = 0 then CollateralA else CollateralB)
         owe coll p1 w = Ok w1 \<longrightarrow>
       unat (lamports (ledger w1 (key (accounts ! 8)))) + unat (lamports (ledger w1 (key (accounts ! 7)))) < 2 ^ 64 \<longrightarrow>
       (\<exists>w'. process_repay_loan e pid accounts w = Ok w'))"
proof -
  have t: "terms_ok p l" using assms(3,5,6,7,9) by (simp add: terms_inv_def)
  obtain p1 where p1: "bump_indexes p ra rb slot = Ok p1"
    using accrual_total [OF assms(2,9,16)] by blast
  obtain coll :: u64 where coll: "widen coll = loan_collateral_amount l" by (rule terms_collateral [OF t])
  note am = repay_amounts_total [OF t p1 _ coll, unfolded debt_index_def]
  show ?thesis
    by (intro exI [of _ p1] exI [of _ coll] conjI allI impI p1 coll
        repay_never_fails [OF assms(1,2,4-15) am])
qed

section \<open>The sample loan is repaid\<close>

definition sample_repay_accounts :: "account_info list" where
  "sample_repay_accounts = [info 2, info 5, info 6, info 13, info 14, info 3, info 4, signer 9,
     info 20, info 164, info SPL_TOKEN_PROGRAM_ID, info SPL_TOKEN_PROGRAM_ID]"

lemma sample_terms_inv: "terms_inv (books_of 99 (sample_world sample_pool))"
proof -
  have "recompute_trigger CollateralA 70000 40000 11000 = Ok (628571428571428571, OnFall)"
    by (simp add: recompute_trigger_A_Ok_iff)
  then have "terms_ok sample_pool sample_loan"
    by (simp add: terms_ok_def sample_loan_def debt_index_def sample_pool_def initial_pool_def WAD_def
        loan_sides_from_u8_def LIQ_RATIO_BPS_def)
  moreover have "index_ok sample_pool" by (simp add: index_ok_def sample_pool_def initial_pool_def WAD_def)
  ultimately show ?thesis by (simp add: terms_inv_def sample_maps)
qed

lemma sample_repay_amounts:
  "repay_amounts sample_pool sample_loan 1070011 960013 100 = Ok (sample_pool, 40000, CollateralA, 70000)"
proof -
  have l: "loan_sides sample_loan = 0" "loan_collateral_amount sample_loan = 70000"
    "loan_debt_principal sample_loan = 40000" "loan_borrow_index_snapshot_wad sample_loan = WAD"
    by (simp_all add: sample_loan_def)
  have "owed_from_index 40000 WAD WAD = Ok 40000"
    by (simp add: owed_from_index_Ok_iff WAD_def ceil_div_def)
  then show ?thesis
    by (simp add: repay_amounts_def borrow_index_for_debt_side_def l owed_def sample_pool_simps
        try_narrow_def loan_sides_from_u8_def del: and_then_Ok_iff)
qed

lemma sample_repay_transfers:
  "\<exists>w1. repay_transfers sample_env (loan_handler_accounts sample_repay_accounts 10) CollateralA 40000 70000
     sample_pool (sample_world sample_pool) = Ok w1 \<and>
   (\<forall>k \<in> {9, 20}. ledger w1 k = sample_ledger sample_pool k)"
proof -
  let ?a = "loan_handler_accounts sample_repay_accounts 10" and ?w = "sample_world sample_pool"
  have a: "pool_info ?a = info 2" "vault_a_info ?a = info 5" "vault_b_info ?a = info 6"
    "user_a_info ?a = info 13" "user_b_info ?a = info 14" "mint_a_info ?a = info 3" "mint_b_info ?a = info 4"
    "user_info ?a = signer 9" "token_program_a_info ?a = info SPL_TOKEN_PROGRAM_ID"
    "token_program_b_info ?a = info SPL_TOKEN_PROGRAM_ID"
    by (simp_all add: loan_handler_accounts_def sample_repay_accounts_def)
  have tok: "token_of (data (sample_ledger sample_pool 13)) = Some \<lparr>token_mint = 3, token_owner = 9, token_amount = 500000\<rparr>"
    "token_of (data (sample_ledger sample_pool 14)) = Some \<lparr>token_mint = 4, token_owner = 9, token_amount = 500000\<rparr>"
    "token_of (data (sample_ledger sample_pool 5)) = Some \<lparr>token_mint = 3, token_owner = 2, token_amount = 1070011\<rparr>"
    "token_of (data (sample_ledger sample_pool 6)) = Some \<lparr>token_mint = 4, token_owner = 2, token_amount = 960013\<rparr>"
    "\<forall>k \<in> {5, 6, 13, 14}. owner (sample_ledger sample_pool k) = SPL_TOKEN_PROGRAM_ID"
    by (simp_all add: sample_ledger_def sample_token_def)
  obtain w1 where w1: "transfer_checked sample_env (info SPL_TOKEN_PROGRAM_ID) (info 14) (info 4) (info 6) (signer 9)
      40000 6 [] ?w = Ok w1" "\<forall>k. k \<noteq> 14 \<longrightarrow> k \<noteq> 6 \<longrightarrow> ledger w1 k = sample_ledger sample_pool k"
    using sample_transfer_ok [of ?w 14 "\<lparr>token_mint = 4, token_owner = 9, token_amount = 500000\<rparr>" 6
        "\<lparr>token_mint = 4, token_owner = 2, token_amount = 960013\<rparr>" "info SPL_TOKEN_PROGRAM_ID" "info 4" "signer 9"
        "[]" "info 14" "info 6" 40000 6] tok by auto
  obtain w2 where w2: "transfer_checked sample_env (info SPL_TOKEN_PROGRAM_ID) (info 5) (info 3) (info 13) (info 2)
      70000 6 [pool_signer_seeds sample_pool] w1 = Ok w2" "\<forall>k. k \<noteq> 5 \<longrightarrow> k \<noteq> 13 \<longrightarrow> ledger w2 k = ledger w1 k"
    using sample_transfer_ok [of w1 5 "\<lparr>token_mint = 3, token_owner = 2, token_amount = 1070011\<rparr>" 13
        "\<lparr>token_mint = 3, token_owner = 9, token_amount = 500000\<rparr>" "info SPL_TOKEN_PROGRAM_ID" "info 3" "info 2"
        "[pool_signer_seeds sample_pool]" "info 5" "info 13" 70000 6] tok w1(2) by auto
  have "repay_transfers sample_env ?a CollateralA 40000 70000 sample_pool ?w = Ok w2"
    by (simp add: repay_transfers_def a w1(1) w2(1) del: and_then_Ok_iff)
  then show ?thesis using w1(2) w2(2) by (intro exI [of _ w2]) simp
qed

lemma sample_repay_setting:
  "loans 99 (sample_world sample_pool) (key (sample_repay_accounts ! 8)) = Some sample_loan"
  "pools 99 (sample_world sample_pool) (key (sample_repay_accounts ! 0)) = Some sample_pool"
  "is_open sample_loan" "loan_pool sample_loan = key (sample_repay_accounts ! 0)"
  "loan_borrower sample_loan = key (sample_repay_accounts ! 7)"
  "band_derive_pda sample_env (loan_pool sample_loan) (loan_trigger_direction sample_loan)
     (loan_band_id sample_loan) 99 = Ok (key (sample_repay_accounts ! 9), 255)"
  "check_signer_and_token_programs sample_env (sample_world sample_pool) (loan_handler_accounts sample_repay_accounts 10) = Ok ()"
  "pool_keys_match sample_pool (loan_handler_accounts sample_repay_accounts 10)"
  by (simp_all add: sample_maps sample_repay_accounts_def sample_addresses sample_loan_def is_open_def
      check_signer_and_token_programs_def loan_handler_accounts_def sample_token_programs pool_keys_match_def
      sample_pool_simps)

theorem repayment_never_blocked_witness:
  "\<exists>w'. process_repay_loan sample_env 99 sample_repay_accounts (sample_world sample_pool) = Ok w'"
proof -
  obtain w1 where w1: "repay_transfers sample_env (loan_handler_accounts sample_repay_accounts 10) CollateralA 40000 70000
     sample_pool (sample_world sample_pool) = Ok w1" "\<forall>k \<in> {9, 20}. ledger w1 k = sample_ledger sample_pool k"
    using sample_repay_transfers by blast
  have v: "12 \<le> length sample_repay_accounts"
    "read_token_amount sample_env (sample_world sample_pool) (sample_repay_accounts ! 1) = Ok 1070011"
    "read_token_amount sample_env (sample_world sample_pool) (sample_repay_accounts ! 2) = Ok 960013"
    by (simp_all add: sample_repay_accounts_def)
  from repayment_never_blocked [OF platform_parts(2) [OF sample_platform] sample_book_inv sample_terms_inv v(1)
      sample_repay_setting(1,3,4,5,2,6,7,8) _ v(2,3) sample_accounted, of 100]
  obtain p1 coll where p1: "bump_indexes sample_pool 1070011 960013 100 = Ok p1" and coll: "widen coll = loan_collateral_amount sample_loan"
    and rest: "\<forall>owe w1. unat owe = ceil_div (unat (loan_debt_principal sample_loan) *
         unat (if loan_sides sample_loan = 0 then borrow_index_b_wad p1 else borrow_index_a_wad p1))
         (unat (loan_borrow_index_snapshot_wad sample_loan)) \<longrightarrow>
       repay_transfers sample_env (loan_handler_accounts sample_repay_accounts 10)
         (if loan_sides sample_loan = 0 then CollateralA else CollateralB) owe coll p1 (sample_world sample_pool) = Ok w1 \<longrightarrow>
       unat (lamports (ledger w1 (key (sample_repay_accounts ! 8)))) +
         unat (lamports (ledger w1 (key (sample_repay_accounts ! 7)))) < 2 ^ 64 \<longrightarrow>
       (\<exists>w'. process_repay_loan sample_env 99 sample_repay_accounts (sample_world sample_pool) = Ok w')" by auto
  have "p1 = sample_pool" using p1 by simp
  moreover have "loan_collateral_amount sample_loan = widen (70000 :: u64)" by (simp add: sample_loan_def widen_def)
  then have "coll = 70000" using coll by (simp add: word_eq_unat unat_widen)
  moreover have "unat (40000 :: u64) = ceil_div (unat (loan_debt_principal sample_loan) * unat (borrow_index_b_wad sample_pool))
      (unat (loan_borrow_index_snapshot_wad sample_loan))"
    by (simp add: sample_loan_def sample_pool_def initial_pool_def WAD_def ceil_div_def)
  moreover have "unat (lamports (ledger w1 (key (sample_repay_accounts ! 8)))) +
      unat (lamports (ledger w1 (key (sample_repay_accounts ! 7)))) < 2 ^ 64"
    using w1(2) by (simp add: sample_repay_accounts_def sample_ledger_def)
  moreover have "loan_sides sample_loan = 0" by (simp add: sample_loan_def)
  ultimately show ?thesis using rest [rule_format, of 40000 w1] w1(1) by simp
qed

end
