(* ===== verification/Sample_Runs.thy ===== *)
theory Sample_Runs
  imports Sample_Books
begin

text \<open>
  Successful runs of the deposit, the withdrawal and the opening of a loan on the sample ledger,
  used to show that the hypotheses of the accounting properties can hold.
\<close>

section \<open>Shared steps\<close>

lemma sample_tokens:
  "token_of (data (sample_ledger p 5)) = Some \<lparr>token_mint = 3, token_owner = 2, token_amount = 1070011\<rparr>"
  "token_of (data (sample_ledger p 6)) = Some \<lparr>token_mint = 4, token_owner = 2, token_amount = 960013\<rparr>"
  "token_of (data (sample_ledger p 10)) = Some \<lparr>token_mint = 3, token_owner = 8, token_amount = 500000\<rparr>"
  "token_of (data (sample_ledger p 11)) = Some \<lparr>token_mint = 4, token_owner = 8, token_amount = 500000\<rparr>"
  "token_of (data (sample_ledger p 12)) = Some \<lparr>token_mint = 7, token_owner = 8, token_amount = 1000000\<rparr>"
  "token_of (data (sample_ledger p 13)) = Some \<lparr>token_mint = 3, token_owner = 9, token_amount = 500000\<rparr>"
  "token_of (data (sample_ledger p 14)) = Some \<lparr>token_mint = 4, token_owner = 9, token_amount = 500000\<rparr>"
  "mint_of (data (sample_ledger p 7)) = Ok \<lparr>mint_supply = 1000000, mint_decimals = 6\<rparr>"
  "\<forall>k \<in> {5, 6, 7, 10, 11, 12, 13, 14}. owner (sample_ledger p k) = SPL_TOKEN_PROGRAM_ID"
  "data (sample_ledger p 2) = pool_bytes p" "owner (sample_ledger p 2) = 99"
  by (simp_all add: sample_ledger_def sample_token_def)

text \<open>A transfer between two token accounts still in their initial state.\<close>

lemma sample_move:
  assumes "token_of (data (sample_ledger p src)) = Some s" "token_of (data (sample_ledger p dst)) = Some d"
    and "ledger w src = sample_ledger p src" "ledger w dst = sample_ledger p dst"
    and "owner (sample_ledger p src) = SPL_TOKEN_PROGRAM_ID" "owner (sample_ledger p dst) = SPL_TOKEN_PROGRAM_ID"
    and "token_mint s = m" "token_mint d = m" "token_owner s = key auth" "is_signer auth \<or> seeds \<noteq> []" "src \<noteq> dst"
    and "amount \<le> token_amount s" "unat (token_amount d) + unat amount < 2 ^ 64"
  shows "\<exists>w'. transfer_checked sample_env (info SPL_TOKEN_PROGRAM_ID) (info src) (info m) (info dst) auth amount dec
      seeds w = Ok w' \<and> (\<forall>k. k \<noteq> src \<longrightarrow> k \<noteq> dst \<longrightarrow> ledger w' k = ledger w k)"
  by (rule sample_transfer_ok [where s = s and d = d]) (use assms in simp_all)

lemma sample_supply_change:
  assumes "mint_of (data (ledger w m)) = Ok s" "token_of (data (ledger w acc)) = Some t"
    "owner (ledger w m) = prog" "owner (ledger w acc) = prog" "m \<noteq> acc"
  shows "unat (mint_supply s) + unat n < 2 ^ 64 \<Longrightarrow> unat (token_amount t) + unat n < 2 ^ 64 \<Longrightarrow>
      \<exists>w'. invoke_signed sample_env (MintToChecked prog m acc auth n dec) infos seeds w = Ok w' \<and>
        (\<forall>k. k \<noteq> m \<longrightarrow> k \<noteq> acc \<longrightarrow> ledger w' k = ledger w k)"
    "n \<le> mint_supply s \<Longrightarrow> n \<le> token_amount t \<Longrightarrow> token_owner t = auth \<Longrightarrow>
      \<exists>w'. invoke_signed sample_env (BurnChecked prog acc m auth n dec) infos seeds w = Ok w' \<and>
        (\<forall>k. k \<noteq> m \<longrightarrow> k \<noteq> acc \<longrightarrow> ledger w' k = ledger w k)"
  using assms
  by (auto simp: invoke_signed_def owned_by_def token_supply_change_def checked_add_def checked_sub_def Let_def)

lemma sample_store_pool:
  assumes "data (ledger w 2) = pool_bytes sample_pool" "pool_wf q"
  shows "serialize_into (pool_bytes q) (info 2) w = Ok (put_data (info 2) (pool_bytes q) w)"
  using assms length_pool_bytes [OF sample_wf(1)] length_pool_bytes [OF assms(2)] by (simp add: acct_def)

section \<open>Deposit\<close>

definition sample_lp_accounts :: "account_info list" where
  "sample_lp_accounts = [info 2, info 5, info 6, info 7, info 10, info 11, info 12, signer 8, info 3, info 4,
     info SPL_TOKEN_PROGRAM_ID, info SPL_TOKEN_PROGRAM_ID]"

lemma sample_lp_fields:
  "length sample_lp_accounts = 12" "sample_lp_accounts ! 0 = info 2" "sample_lp_accounts ! Suc 0 = info 5"
  "sample_lp_accounts ! 2 = info 6" "sample_lp_accounts ! 3 = info 7" "sample_lp_accounts ! 4 = info 10"
  "sample_lp_accounts ! 5 = info 11" "sample_lp_accounts ! 6 = info 12" "sample_lp_accounts ! 7 = signer 8"
  "sample_lp_accounts ! 8 = info 3" "sample_lp_accounts ! 9 = info 4"
  "sample_lp_accounts ! 10 = info SPL_TOKEN_PROGRAM_ID" "sample_lp_accounts ! 11 = info SPL_TOKEN_PROGRAM_ID"
  by (simp_all add: sample_lp_accounts_def)

lemma sample_share:
  "derive_deposit 1000 1000 1000000 1000000 1000000 = Ok (1000, 1000, 1000)"
  "withdrawal_amounts 1000 1000000 1000000 1000000 = Ok (1000, 1000)"
  "check_supply_floor 1000000 1000 = Ok ()"
proof -
  have m: "mul_div 1000 1000000 1000000 = Ok 1000" "mul_div_ceil 1000 1000000 1000000 = Ok 1000"
    by (simp_all add: mul_div_Ok_iff mul_div_ceil_Ok_iff ceil_div_def)
  show "derive_deposit 1000 1000 1000000 1000000 1000000 = Ok (1000, 1000, 1000)"
    by (simp add: derive_deposit_def m del: and_then_Ok_iff)
  show "withdrawal_amounts 1000 1000000 1000000 1000000 = Ok (1000, 1000)"
    by (simp add: withdrawal_amounts_def m del: and_then_Ok_iff)
  show "check_supply_floor 1000000 1000 = Ok ()" by (simp add: check_supply_floor_Ok_iff)
qed

lemma sample_deposit_runs:
  "\<exists>w'. process_add_liquidity sample_env 99 sample_lp_accounts 1000 1000 0 (sample_world sample_pool) = Ok w'"
proof -
  let ?w = "sample_world sample_pool" and ?p = sample_pool and ?a = "add_liquidity_accounts sample_lp_accounts"
  have a: "pool_info ?a = info 2" "vault_a_info ?a = info 5" "vault_b_info ?a = info 6" "user_a_info ?a = info 10"
    "user_b_info ?a = info 11" "mint_a_info ?a = info 3" "mint_b_info ?a = info 4" "user_info ?a = signer 8"
    "token_program_a_info ?a = info SPL_TOKEN_PROGRAM_ID" "token_program_b_info ?a = info SPL_TOKEN_PROGRAM_ID"
    by (simp_all add: add_liquidity_accounts_def sample_lp_fields)
  have chk: "check_signer_and_token_programs sample_env ?w ?a = Ok ()"
    by (simp add: check_signer_and_token_programs_def a sample_token_programs)
  have keys: "pool_keys_match ?p ?a" "lp_mint ?p = 7" by (simp_all add: pool_keys_match_def a sample_pool_simps)
  have quote: "add_liquidity_quote sample_env ?a (info 7) 1000 1000 0 ?w = Ok (?p, 6, 6, 6, 1000, 1000, 1000)"
    by (simp add: add_liquidity_quote_def a keys sample_accounted sample_share sample_wf widen_def try_narrow_def
        del: and_then_Ok_iff)
  obtain w1 where w1: "transfer_checked sample_env (info SPL_TOKEN_PROGRAM_ID) (info 10) (info 3) (info 5) (signer 8)
      1000 6 [] ?w = Ok w1" "\<forall>k. k \<noteq> 10 \<longrightarrow> k \<noteq> 5 \<longrightarrow> ledger w1 k = ledger ?w k"
    using sample_move [OF sample_tokens(3,1) [of ?p], of ?w 3 "signer 8" "[]" 1000 6] sample_tokens(9) [of ?p] by auto
  obtain w2 where w2: "transfer_checked sample_env (info SPL_TOKEN_PROGRAM_ID) (info 11) (info 4) (info 6) (signer 8)
      1000 6 [] w1 = Ok w2" "\<forall>k. k \<noteq> 11 \<longrightarrow> k \<noteq> 6 \<longrightarrow> ledger w2 k = ledger w1 k"
    using sample_move [OF sample_tokens(4,2) [of ?p], of w1 4 "signer 8" "[]" 1000 6] sample_tokens(9) [of ?p] w1(2) by auto
  obtain w3 where w3: "invoke_signed sample_env (MintToChecked SPL_TOKEN_PROGRAM_ID 7 12 2 1000 6)
      [info 7, info 12, info 2] [pool_signer_seeds ?p] w2 = Ok w3" "\<forall>k. k \<noteq> 7 \<longrightarrow> k \<noteq> 12 \<longrightarrow> ledger w3 k = ledger w2 k"
    using sample_supply_change(1) [of w2 7 "\<lparr>mint_supply = 1000000, mint_decimals = 6\<rparr>" 12
        "\<lparr>token_mint = 7, token_owner = 8, token_amount = 1000000\<rparr>" SPL_TOKEN_PROGRAM_ID 1000 2 6
        "[info 7, info 12, info 2]" "[pool_signer_seeds ?p]"] sample_tokens(5,8,9) [of ?p] w1(2) w2(2) by auto
  let ?q = "?p\<lparr>last_update_slot := 100\<rparr>"
  have "pool_wf ?q" using sample_wf(1) by (simp add: pool_wf_def)
  then have w4: "serialize_into (pool_bytes ?q) (info 2) w3 = Ok (put_data (info 2) (pool_bytes ?q) w3)"
    using w1(2) w2(2) w3(2) sample_tokens(10) by (intro sample_store_pool) simp
  have "\<exists>w'. add_liquidity_settle sample_env ?a (info 7) (info 12) (?p, 6, 6, 6, 1000, 1000, 1000) ?w = Ok w'"
    by (simp add: add_liquidity_settle_def a w1(1) w2(1) w3(1) w4 del: and_then_Ok_iff serialize_into_Ok_iff)
  then show ?thesis using sample_tokens(11) [of ?p]
    by (simp add: process_add_liquidity_def Let_def sample_lp_fields chk quote a del: and_then_Ok_iff)
qed

section \<open>Withdrawal\<close>

lemma sample_withdrawal_runs:
  "\<exists>w'. process_remove_liquidity sample_env 99 sample_lp_accounts 1000 0 0 (sample_world sample_pool) = Ok w'"
proof -
  let ?w = "sample_world sample_pool" and ?p = sample_pool and ?a = "remove_liquidity_accounts sample_lp_accounts"
  have a: "pool_info ?a = info 2" "vault_a_info ?a = info 5" "vault_b_info ?a = info 6" "user_a_info ?a = info 10"
    "user_b_info ?a = info 11" "mint_a_info ?a = info 3" "mint_b_info ?a = info 4" "user_info ?a = signer 8"
    "token_program_a_info ?a = info SPL_TOKEN_PROGRAM_ID" "token_program_b_info ?a = info SPL_TOKEN_PROGRAM_ID"
    by (simp_all add: remove_liquidity_accounts_def sample_lp_fields)
  have chk: "check_signer_and_token_programs sample_env ?w ?a = Ok ()"
    by (simp add: check_signer_and_token_programs_def a sample_token_programs)
  have keys: "pool_keys_match ?p ?a" "lp_mint ?p = 7" by (simp_all add: pool_keys_match_def a sample_pool_simps)
  have sw: "swappable ?p 1070011 960013 = Ok (1000000, 960000)" by (simp add: swappable_Ok_iff sample_pool_simps)
  have quote: "remove_liquidity_quote sample_env ?a (info 7) 1000 0 0 ?w = Ok (?p, 6, 6, 6, 1000, 1000)"
    by (simp add: remove_liquidity_quote_def a keys sample_accounted sw sample_share sample_wf widen_def try_narrow_def
        del: and_then_Ok_iff)
  obtain w1 where w1: "invoke_signed sample_env (BurnChecked SPL_TOKEN_PROGRAM_ID 12 7 8 1000 6)
      [info 12, info 7, signer 8] [] ?w = Ok w1" "\<forall>k. k \<noteq> 7 \<longrightarrow> k \<noteq> 12 \<longrightarrow> ledger w1 k = ledger ?w k"
    using sample_supply_change(2) [of ?w 7 "\<lparr>mint_supply = 1000000, mint_decimals = 6\<rparr>" 12
        "\<lparr>token_mint = 7, token_owner = 8, token_amount = 1000000\<rparr>" SPL_TOKEN_PROGRAM_ID 1000 8 6
        "[info 12, info 7, signer 8]" "[]"] sample_tokens(5,8,9) [of ?p] by auto
  let ?s = "[pool_signer_seeds ?p]"
  obtain w2 where w2: "transfer_checked sample_env (info SPL_TOKEN_PROGRAM_ID) (info 5) (info 3) (info 10) (info 2)
      1000 6 ?s w1 = Ok w2" "\<forall>k. k \<noteq> 5 \<longrightarrow> k \<noteq> 10 \<longrightarrow> ledger w2 k = ledger w1 k"
    using sample_move [OF sample_tokens(1,3) [of ?p], of w1 3 "info 2" ?s 1000 6] sample_tokens(9) [of ?p] w1(2) by auto
  obtain w3 where w3: "transfer_checked sample_env (info SPL_TOKEN_PROGRAM_ID) (info 6) (info 4) (info 11) (info 2)
      1000 6 ?s w2 = Ok w3" "\<forall>k. k \<noteq> 6 \<longrightarrow> k \<noteq> 11 \<longrightarrow> ledger w3 k = ledger w2 k"
    using sample_move [OF sample_tokens(2,4) [of ?p], of w2 4 "info 2" ?s 1000 6] sample_tokens(9) [of ?p] w1(2) w2(2)
    by auto
  let ?q = "?p\<lparr>last_update_slot := 100\<rparr>"
  have "pool_wf ?q" using sample_wf(1) by (simp add: pool_wf_def)
  then have w4: "serialize_into (pool_bytes ?q) (info 2) w3 = Ok (put_data (info 2) (pool_bytes ?q) w3)"
    using w1(2) w2(2) w3(2) sample_tokens(10) by (intro sample_store_pool) simp
  have "\<exists>w'. remove_liquidity_settle sample_env ?a (info 7) (info 12) 1000 (?p, 6, 6, 6, 1000, 1000) ?w = Ok w'"
    by (simp add: remove_liquidity_settle_def invoke_def a w1(1) w2(1) w3(1) w4 del: and_then_Ok_iff serialize_into_Ok_iff)
  then show ?thesis using sample_tokens(11) [of ?p]
    by (simp add: process_remove_liquidity_def Let_def sample_lp_fields chk quote a del: and_then_Ok_iff)
qed

section \<open>Opening a loan\<close>

text \<open>Borrower 9 takes 4000 B against 7000 A, at the same ratio as the loan already there, so in
  the same band.\<close>

definition sample_open_accounts :: "account_info list" where
  "sample_open_accounts = [info 2, info 5, info 6, info 13, info 14, info 3, info 4, signer 9,
     info 21, info 164, info 0, info SPL_TOKEN_PROGRAM_ID, info SPL_TOKEN_PROGRAM_ID]"

lemma sample_open_fields:
  "length sample_open_accounts = 13" "sample_open_accounts ! 0 = info 2" "sample_open_accounts ! Suc 0 = info 5"
  "sample_open_accounts ! 2 = info 6" "sample_open_accounts ! 3 = info 13" "sample_open_accounts ! 4 = info 14"
  "sample_open_accounts ! 5 = info 3" "sample_open_accounts ! 6 = info 4" "sample_open_accounts ! 7 = signer 9"
  "sample_open_accounts ! 8 = info 21" "sample_open_accounts ! 9 = info 164" "sample_open_accounts ! 10 = info 0"
  "sample_open_accounts ! 11 = info SPL_TOKEN_PROGRAM_ID" "sample_open_accounts ! 12 = info SPL_TOKEN_PROGRAM_ID"
  by (simp_all add: sample_open_accounts_def)

lemma sample_open_terms:
  "recompute_trigger CollateralA 7000 4000 11000 = Ok (628571428571428571, OnFall)"
  "band_id_for_trigger 628571428571428571 = Ok 64"
  "loan_terms sample_pool 1070011 960013 100 CollateralA 7000 4000 628571428571428571 OnFall = Ok ()"
proof -
  show "recompute_trigger CollateralA 7000 4000 11000 = Ok (628571428571428571, OnFall)"
    by (simp add: recompute_trigger_A_Ok_iff)
  show "band_id_for_trigger 628571428571428571 = Ok 64"
    by (simp add: band_id_for_trigger_Ok_iff bit_len_eqI [of 59])
  have sw: "swappable sample_pool 1070011 960013 = Ok (1000000, 960000)" by (simp add: swappable_Ok_iff sample_pool_simps)
  have pr: "price_b_per_a_wad 1000000 1000000 = Ok WAD" by (simp add: price_b_per_a_wad_Ok_iff WAD_def)
  have rf: "ref_price_at sample_pool WAD 100 = Ok WAD"
    by (simp add: ref_price_at_def sample_pool_simps ema_ref_price_wad_def WAD_def)
  have l1: "ltv_bps 4000 7000 1000000 1000000 = Ok 5714" by (simp add: ltv_bps_Ok_iff)
  have l2: "ltv_bps 4000 7000 WAD WAD = Ok 5714" by (simp add: ltv_bps_Ok_iff WAD_def)
  show "loan_terms sample_pool 1070011 960013 100 CollateralA 7000 4000 628571428571428571 OnFall = Ok ()"
    by (simp add: loan_terms_def sample_accounted sw pr rf loan_prices_def widen_def l1 l2 sample_pool_simps
        del: and_then_Ok_iff) (simp add: WAD_def)
qed

abbreviation sample_open_infos :: pool_accounts where
  "sample_open_infos \<equiv> loan_handler_accounts sample_open_accounts 11"

lemma sample_open_infos_fields:
  "pool_info sample_open_infos = info 2" "vault_a_info sample_open_infos = info 5" "vault_b_info sample_open_infos = info 6"
  "user_a_info sample_open_infos = info 13" "user_b_info sample_open_infos = info 14"
  "mint_a_info sample_open_infos = info 3" "mint_b_info sample_open_infos = info 4" "user_info sample_open_infos = signer 9"
  "token_program_a_info sample_open_infos = info SPL_TOKEN_PROGRAM_ID"
  "token_program_b_info sample_open_infos = info SPL_TOKEN_PROGRAM_ID"
  by (simp_all add: loan_handler_accounts_def sample_open_fields)

text \<open>The loan account is created; its band exists.\<close>

lemma sample_open_allocates:
  obtains w1 where
    "open_loan_allocate sample_env 99 sample_open_infos (info 21) (info 164) (info 0) 1 sample_pool 628571428571428571 OnFall
       (sample_world sample_pool) = Ok (255, 64, sample_band, sample_pool, 100, w1)"
    "\<forall>k. k \<noteq> 9 \<longrightarrow> k \<noteq> 21 \<longrightarrow> ledger w1 k = sample_ledger sample_pool k" "length (data (ledger w1 21)) = LOAN_LEN"
proof -
  let ?w = "sample_world sample_pool" and ?p = sample_pool and ?r = "\<lambda>n. of_nat n + 128 :: u64"
  let ?seeds = "[LOAN_SEED, put_key 2, put_key 9, put_word 8 (1 :: u64), [255]]"
  obtain w1 where w1: "create_pda_account sample_env (signer 9) (info 21) (info 0) LOAN_LEN 99 ?seeds ?r ?w = Ok w1"
    "\<forall>k. k \<noteq> 9 \<longrightarrow> k \<noteq> 21 \<longrightarrow> ledger w1 k = ledger ?w k" "length (data (ledger w1 21)) = LOAN_LEN"
    using sample_create [of ?w "info 21" "signer 9" ?r LOAN_LEN] by (simp add: LOAN_LEN_def sample_ledger_def)
  have loan_at: "loan_derive_pda sample_env 2 9 1 99 = Ok (21, 255)"
    by (simp add: loan_derive_pda_def sample_find_def LOAN_SEED_def POOL_SEED_def VAULT_A_SEED_def VAULT_B_SEED_def
        LP_MINT_SEED_def put_word_def le_nat_le_bytes)
  have band_at: "band_derive_pda sample_env 2 0 64 99 = Ok (164, 255)" by (simp add: sample_addresses)
  have band: "data (ledger w1 164) = loan_index_band_bytes sample_band" "owner (ledger w1 164) = 99"
    using w1(2) by (simp_all add: sample_ledger_def)
  have live: "\<not> list_all (\<lambda>b. b = 0) (loan_index_band_bytes sample_band)" "loan_index_band_bytes sample_band \<noteq> []"
    using length_loan_index_band_bytes [OF sample_wf(3)]
    by (simp_all add: loan_index_band_bytes_def sample_band_def LOAN_INDEX_BAND_DISCRIMINATOR_def)
  have skip: "open_loan_allocate_band sample_env 99 sample_open_infos (info 164) (info 0) 64 0 255 ?r w1 = Ok w1"
    using band live by (simp add: open_loan_allocate_band_def Let_def data_is_empty_def is_zeroed_program_account_def acct_def)
  have lb: "load_band w1 (info 164) = Ok sample_band" using band by (simp add: load_band_Ok_iff acct_def)
  have bf: "band_pool sample_band = 2" "band_band_id sample_band = 64" "band_direction sample_band = 0"
    "band_count sample_band = 1" by (simp_all add: sample_band_def)
  have room: "\<not> MAX_LOANS \<le> 1" by (simp add: MAX_LOANS_def word_le_nat_alt)
  have empty: "data (sample_ledger ?p 21) = []" by (simp add: sample_ledger_def)
  have "open_loan_allocate sample_env 99 sample_open_infos (info 21) (info 164) (info 0) 1 ?p 628571428571428571 OnFall ?w =
      Ok (255, 64, sample_band, ?p, 100, w1)"
    using w1(1) by (simp add: open_loan_allocate_def Let_def sample_open_infos_fields loan_at sample_open_terms band_at
        data_is_empty_def empty skip lb bf room del: and_then_Ok_iff)
  then show thesis using that w1(2,3) by simp
qed

text \<open>The loan and its band are stored.\<close>

lemma sample_open_stores:
  assumes fr: "\<forall>k. k \<noteq> 9 \<longrightarrow> k \<noteq> 21 \<longrightarrow> ledger w1 k = sample_ledger sample_pool k" and len: "length (data (ledger w1 21)) = LOAN_LEN"
  obtains w2 where
    "open_loan_store sample_open_infos (info 21) (info 164) 0 7000 4000 1 sample_pool 628571428571428571 OnFall 255 64
       sample_band 100 w1 = Ok w2"
    "\<forall>k. k \<noteq> 9 \<longrightarrow> k \<noteq> 21 \<longrightarrow> k \<noteq> 164 \<longrightarrow> ledger w2 k = sample_ledger sample_pool k"
proof -
  let ?l = "new_loan 2 9 1 255 0 7000 4000 WAD 100 628571428571428571 0 64"
  let ?b = "sample_band\<lparr>band_count := 2\<rparr>"
  let ?w2 = "put_data (info 21) (loan_bytes ?l) w1"
  let ?w3 = "put_data (info 164) (loan_index_band_bytes ?b) ?w2"
  have band: "data (ledger w1 164) = loan_index_band_bytes sample_band" using fr by (simp add: sample_ledger_def)
  have wf: "loan_wf ?l" "loan_index_band_wf ?b"
    using sample_wf(3) by (simp_all add: new_loan_def loan_wf_def loan_index_band_wf_def LOAN_DISCRIMINATOR_def)
  have w2: "serialize_into (loan_bytes ?l) (info 21) w1 = Ok ?w2"
    using len length_loan_bytes [OF wf(1)] by (simp add: acct_def)
  have w3: "serialize_into (loan_index_band_bytes ?b) (info 164) ?w2 = Ok ?w3"
    using band length_loan_index_band_bytes [OF wf(2)] length_loan_index_band_bytes [OF sample_wf(3)]
    by (simp add: acct_def put_data_def)
  have "band_count sample_band = 1" by (simp add: sample_band_def)
  then have "open_loan_store sample_open_infos (info 21) (info 164) 0 7000 4000 1 sample_pool 628571428571428571 OnFall 255 64
      sample_band 100 w1 = Ok ?w3"
    by (simp add: open_loan_store_def sample_open_infos_fields borrow_index_for_debt_side_def sample_pool_simps w2 w3
        checked_add_def del: and_then_Ok_iff serialize_into_Ok_iff)
  then show thesis using that fr by (simp add: put_data_def)
qed

text \<open>Collateral in, principal out.\<close>

lemma sample_open_transfers:
  assumes keep: "\<And>k. k \<in> {2, 3, 4, 5, 6, 13, 14} \<Longrightarrow> ledger w k = sample_ledger p k"
  obtains w' where "open_loan_transfers sample_env sample_open_infos CollateralA 7000 4000 q w = Ok w'"
    "ledger w' 2 = sample_ledger p 2"
proof -
  let ?s = "[pool_signer_seeds q]"
  obtain w4 where w4: "transfer_checked sample_env (info SPL_TOKEN_PROGRAM_ID) (info 13) (info 3) (info 5) (signer 9)
      7000 6 [] w = Ok w4" "\<forall>k. k \<noteq> 13 \<longrightarrow> k \<noteq> 5 \<longrightarrow> ledger w4 k = ledger w k"
    using sample_move [OF sample_tokens(6,1) [of p], of w 3 "signer 9" "[]" 7000 6] sample_tokens(9) [of p]
      keep [of 13] keep [of 5] by auto
  obtain w5 where w5: "transfer_checked sample_env (info SPL_TOKEN_PROGRAM_ID) (info 6) (info 4) (info 14) (info 2)
      4000 6 ?s w4 = Ok w5" "\<forall>k. k \<noteq> 6 \<longrightarrow> k \<noteq> 14 \<longrightarrow> ledger w5 k = ledger w4 k"
    using sample_move [OF sample_tokens(2,7) [of p], of w4 4 "info 2" ?s 4000 6] sample_tokens(9) [of p]
      keep [of 6] keep [of 14] w4(2) by auto
  have dec: "read_mint_decimals sample_env w (info 3) = Ok 6" "read_mint_decimals sample_env w (info 4) = Ok 6"
    using sample_mints(1) [of "info 3" p] sample_mints(1) [of "info 4" p] keep [of 3] keep [of 4]
    by (simp_all add: read_mint_decimals_def acct_def)
  have "open_loan_transfers sample_env sample_open_infos CollateralA 7000 4000 q w = Ok w5"
    by (simp add: open_loan_transfers_def sample_open_infos_fields dec w4(1) w5(1) del: and_then_Ok_iff)
  then show thesis using that w4(2) w5(2) keep [of 2] by simp
qed

lemma sample_open_runs:
  "\<exists>w'. process_open_loan sample_env 99 sample_open_accounts 0 7000 4000 1 (sample_world sample_pool) = Ok w'"
proof -
  let ?w = "sample_world sample_pool" and ?p = sample_pool
  have chk: "check_signer_and_token_programs sample_env ?w sample_open_infos = Ok ()"
    by (simp add: check_signer_and_token_programs_def sample_open_infos_fields sample_token_programs)
  have keys: "pool_keys_match ?p sample_open_infos" by (simp add: pool_keys_match_def sample_open_infos_fields sample_pool_simps)
  have terms: "open_loan_terms sample_env sample_open_infos 0 7000 4000 ?p ?w = Ok (?p, CollateralA, 628571428571428571, OnFall)"
    using sample_open_terms
    by (simp add: open_loan_terms_def sample_open_infos_fields widen_def loan_sides_from_u8_def sample_pool_simps
        del: and_then_Ok_iff)
  obtain w1 where alloc: "open_loan_allocate sample_env 99 sample_open_infos (info 21) (info 164) (info 0) 1 ?p
      628571428571428571 OnFall ?w = Ok (255, 64, sample_band, ?p, 100, w1)"
    and w1: "\<forall>k. k \<noteq> 9 \<longrightarrow> k \<noteq> 21 \<longrightarrow> ledger w1 k = sample_ledger ?p k" "length (data (ledger w1 21)) = LOAN_LEN"
    by (rule sample_open_allocates)
  obtain w2 where store: "open_loan_store sample_open_infos (info 21) (info 164) 0 7000 4000 1 ?p 628571428571428571 OnFall
      255 64 sample_band 100 w1 = Ok w2"
    and w2: "\<forall>k. k \<noteq> 9 \<longrightarrow> k \<noteq> 21 \<longrightarrow> k \<noteq> 164 \<longrightarrow> ledger w2 k = sample_ledger ?p k" using w1 by (rule sample_open_stores)
  obtain w5 where move: "open_loan_transfers sample_env sample_open_infos CollateralA 7000 4000 ?p w2 = Ok w5"
    and w5: "ledger w5 2 = sample_ledger ?p 2" using w2 by (auto intro: sample_open_transfers [of w2 ?p ?p])
  let ?q = "?p\<lparr>total_collateral_a := 77000, total_debt_b := 44000, open_loans := 2, next_loan_nonce := 2,
      last_update_slot := 100\<rparr>"
  have book: "open_loan_book ?p CollateralA 7000 4000 100 = Ok ?q"
    by (simp add: open_loan_book_def sample_pool_simps checked_add_def widen_def del: and_then_Ok_iff)
  have "pool_wf ?q" using sample_wf(1) by (simp add: pool_wf_def)
  then have w6: "serialize_into (pool_bytes ?q) (info 2) w5 = Ok (put_data (info 2) (pool_bytes ?q) w5)"
    using w5 sample_tokens(10) [of ?p] by (intro sample_store_pool) simp_all
  show ?thesis using sample_tokens(11) [of ?p]
    by (simp add: process_open_loan_def Let_def sample_open_fields chk sample_open_infos_fields keys terms alloc store move
        book w6 del: and_then_Ok_iff serialize_into_Ok_iff)
qed

end
