(* ===== verification/Reserve_Accounting.thy ===== *)
theory Reserve_Accounting
  imports Swap_Guarantee System_Properties Repay_Liveness Sample_Runs
begin

text \<open>
  What each instruction does to the reserves liquidity providers own, followed through the token
  transfers to the vault balances and the stored pool: a deposit and a withdrawal change the
  accounted reserves by exactly the amounts moved, opening a loan and claiming fees not at all,
  and a repayment adds exactly the interest.
\<close>

section \<open>Minting and burning\<close>

text \<open>The documented effect of \<open>MintToChecked\<close> and \<open>BurnChecked\<close> on the supply, and that they
  touch no account but the mint and the holder's.\<close>

definition supply_law :: "env \<Rightarrow> bool" where
  "supply_law e \<longleftrightarrow> (\<forall>prog m acc auth amount dec infos seeds l l'.
     (cpi_invoke e (MintToChecked prog m acc auth amount dec) infos seeds l = Ok l' \<longrightarrow>
        (\<forall>k. k \<noteq> m \<longrightarrow> k \<noteq> acc \<longrightarrow> l' k = l k) \<and>
        (\<exists>s s'. unpack_mint e (data (l m)) = Ok s \<and> unpack_mint e (data (l' m)) = Ok s' \<and>
           unat (mint_supply s') = unat (mint_supply s) + unat amount)) \<and>
     (cpi_invoke e (BurnChecked prog acc m auth amount dec) infos seeds l = Ok l' \<longrightarrow>
        (\<forall>k. k \<noteq> m \<longrightarrow> k \<noteq> acc \<longrightarrow> l' k = l k) \<and>
        (\<exists>s s'. unpack_mint e (data (l m)) = Ok s \<and> unpack_mint e (data (l' m)) = Ok s' \<and>
           unat (mint_supply s) = unat (mint_supply s') + unat amount)))"

lemma minted:
  assumes "supply_law e" "invoke_signed e (MintToChecked prog (key m) acc auth amount dec) infos seeds w = Ok w'"
    "read_mint_supply e w m = Ok S"
  shows "\<forall>k. k \<noteq> key m \<longrightarrow> k \<noteq> acc \<longrightarrow> ledger w' k = ledger w k"
    "\<exists>S'. read_mint_supply e w' m = Ok S' \<and> unat S' = unat S + unat amount"
proof -
  obtain l where l: "cpi_invoke e (MintToChecked prog (key m) acc auth amount dec) infos seeds (ledger w) = Ok l"
    "w' = w\<lparr>ledger := l\<rparr>" using assms(2) by (auto simp: invoke_signed_Ok_iff)
  have law: "\<forall>k. k \<noteq> key m \<longrightarrow> k \<noteq> acc \<longrightarrow> l k = ledger w k"
    "\<exists>s s'. unpack_mint e (data (ledger w (key m))) = Ok s \<and> unpack_mint e (data (l (key m))) = Ok s' \<and>
       unat (mint_supply s') = unat (mint_supply s) + unat amount"
    using assms(1) l(1) unfolding supply_law_def by blast+
  show "\<forall>k. k \<noteq> key m \<longrightarrow> k \<noteq> acc \<longrightarrow> ledger w' k = ledger w k" using law(1) l(2) by simp
  show "\<exists>S'. read_mint_supply e w' m = Ok S' \<and> unat S' = unat S + unat amount"
    using law(2) l(2) assms(3) by (auto simp: read_mint_supply_def acct_def)
qed

lemma burned:
  assumes "supply_law e" "invoke_signed e (BurnChecked prog acc (key m) auth amount dec) infos seeds w = Ok w'"
    "read_mint_supply e w m = Ok S"
  shows "\<forall>k. k \<noteq> key m \<longrightarrow> k \<noteq> acc \<longrightarrow> ledger w' k = ledger w k"
    "\<exists>S'. read_mint_supply e w' m = Ok S' \<and> unat S = unat S' + unat amount"
proof -
  obtain l where l: "cpi_invoke e (BurnChecked prog acc (key m) auth amount dec) infos seeds (ledger w) = Ok l"
    "w' = w\<lparr>ledger := l\<rparr>" using assms(2) by (auto simp: invoke_signed_Ok_iff)
  have law: "\<forall>k. k \<noteq> key m \<longrightarrow> k \<noteq> acc \<longrightarrow> l k = ledger w k"
    "\<exists>s s'. unpack_mint e (data (ledger w (key m))) = Ok s \<and> unpack_mint e (data (l (key m))) = Ok s' \<and>
       unat (mint_supply s) = unat (mint_supply s') + unat amount"
    using assms(1) l(1) unfolding supply_law_def by blast+
  show "\<forall>k. k \<noteq> key m \<longrightarrow> k \<noteq> acc \<longrightarrow> ledger w' k = ledger w k" using law(1) l(2) by simp
  show "\<exists>S'. read_mint_supply e w' m = Ok S' \<and> unat S = unat S' + unat amount"
    using law(2) l(2) assms(3) by (auto simp: read_mint_supply_def acct_def)
qed

section \<open>Vaults and the stored pool\<close>

text \<open>One transfer into, or out of, a vault.\<close>

lemma vault_in:
  assumes "transfer_law e (key m)" "transfer_checked e prog u m v auth x dec seeds w = Ok w'" "key u \<noteq> key v"
    "read_token_amount e w v = Ok r"
  shows "read_token_amount e w' v = Ok (r + widen x) \<and> unat (r + widen x) = unat r + unat x"
proof -
  have b: "balance e w (key v) = Some (unat r)" using assms(4) by (simp add: read_token_amount_Ok_iff)
  have "unat (r + widen x) = unat r + unat x" using balance_fits [OF b] by (rule unat_vault_plus)
  then show ?thesis using transfer_checked_balances [OF assms(1-3)] b by (auto simp: read_token_amount_Ok_iff)
qed

lemma vault_out:
  assumes "transfer_law e (key m)" "transfer_checked e prog v m u auth x dec seeds w = Ok w'" "key u \<noteq> key v"
    "read_token_amount e w v = Ok r"
  shows "read_token_amount e w' v = Ok (r - widen x) \<and> unat r = unat (r - widen x) + unat x"
proof -
  have b: "balance e w (key v) = Some (unat r)" using assms(4) by (simp add: read_token_amount_Ok_iff)
  then have le: "unat x \<le> unat r" using transfer_checked_balances [OF assms(1,2)] assms(3) by auto
  then have "unat (r - widen x) = unat r - unat x" by (rule unat_vault_minus)
  then show ?thesis using transfer_checked_balances [OF assms(1,2)] assms(3) b le
    by (auto simp: read_token_amount_Ok_iff)
qed

lemma transfer_frame:
  assumes "transfer_law e (key m)" "transfer_checked e prog u m v auth x dec seeds w = Ok w'"
    "k \<noteq> key u" "k \<noteq> key v"
  shows "ledger w' k = ledger w k"
proof (cases "key u = key v")
  case True
  then obtain l where "cpi_invoke e (TransferChecked (key prog) (key u) (key m) (key v) (key auth) x dec)
        [u, m, v, auth] seeds (ledger w) = Ok l" "w' = w\<lparr>ledger := l\<rparr>"
    using assms(2) by (auto simp: transfer_checked_def invoke_signed_Ok_iff)
  then show ?thesis using assms(1) True unfolding transfer_law_def by fastforce
next
  case False
  then show ?thesis using transfer_checked_balances [OF assms(1,2)] assms(3,4) by blast
qed

lemma read_cong: "ledger w' (key i) = ledger w (key i) \<Longrightarrow> read_token_amount e w' i = read_token_amount e w i"
  by (simp add: read_token_amount_def acct_def)

text \<open>Both vaults at once: the two transfers of a deposit and those of a withdrawal.\<close>

lemma vaults_in:
  assumes laws: "transfer_law e (key ma)" "transfer_law e (key mb)"
    and t: "transfer_checked e pa ua ma va auth x da sa w = Ok w1" "transfer_checked e pb ub mb vb auth y db sb w1 = Ok w2"
    and ne: "key va \<noteq> key vb" "key ua \<noteq> key va" "key ua \<noteq> key vb" "key ub \<noteq> key va" "key ub \<noteq> key vb"
    and r: "read_token_amount e w va = Ok ra" "read_token_amount e w vb = Ok rb"
  shows "read_token_amount e w2 va = Ok (ra + widen x)" "unat (ra + widen x) = unat ra + unat x"
    "read_token_amount e w2 vb = Ok (rb + widen y)" "unat (rb + widen y) = unat rb + unat y"
    "k \<notin> {key ua, key va, key ub, key vb} \<Longrightarrow> ledger w2 k = ledger w k"
proof -
  note fr = transfer_frame [OF laws(1) t(1)] transfer_frame [OF laws(2) t(2)]
  have "read_token_amount e w1 vb = Ok rb" using read_cong [OF fr(1), of vb] ne r(2) by auto
  from vault_in [OF laws(2) t(2) ne(5) this]
  show "read_token_amount e w2 vb = Ok (rb + widen y)" "unat (rb + widen y) = unat rb + unat y" by simp_all
  show "read_token_amount e w2 va = Ok (ra + widen x)" "unat (ra + widen x) = unat ra + unat x"
    using vault_in [OF laws(1) t(1) ne(2) r(1)] read_cong [OF fr(2), of va] ne by auto
  show "ledger w2 k = ledger w k" if "k \<notin> {key ua, key va, key ub, key vb}" using fr that by simp
qed

lemma vaults_out:
  assumes laws: "transfer_law e (key ma)" "transfer_law e (key mb)"
    and t: "transfer_checked e pa va ma ua auth x da sa w = Ok w1" "transfer_checked e pb vb mb ub auth y db sb w1 = Ok w2"
    and ne: "key va \<noteq> key vb" "key ua \<noteq> key va" "key ua \<noteq> key vb" "key ub \<noteq> key va" "key ub \<noteq> key vb"
    and r: "read_token_amount e w va = Ok ra" "read_token_amount e w vb = Ok rb"
  shows "read_token_amount e w2 va = Ok (ra - widen x)" "unat ra = unat (ra - widen x) + unat x"
    "read_token_amount e w2 vb = Ok (rb - widen y)" "unat rb = unat (rb - widen y) + unat y"
    "k \<notin> {key ua, key va, key ub, key vb} \<Longrightarrow> ledger w2 k = ledger w k"
proof -
  note fr = transfer_frame [OF laws(1) t(1)] transfer_frame [OF laws(2) t(2)]
  have "read_token_amount e w1 vb = Ok rb" using read_cong [OF fr(1), of vb] ne r(2) by auto
  from vault_out [OF laws(2) t(2) ne(5) this]
  show "read_token_amount e w2 vb = Ok (rb - widen y)" "unat rb = unat (rb - widen y) + unat y" by simp_all
  show "read_token_amount e w2 va = Ok (ra - widen x)" "unat ra = unat (ra - widen x) + unat x"
    using vault_out [OF laws(1) t(1) ne(2) r(1)] read_cong [OF fr(2), of va] ne by auto
  show "ledger w2 k = ledger w k" if "k \<notin> {key ua, key va, key ub, key vb}" using fr that by simp
qed

text \<open>The pool written at the end of a handler is the pool loaded afterwards.\<close>

lemma stored_pool:
  assumes "load_pool w i = Ok p" "owner (acct w i) = pid" "quiet pid w w1" "pool_wf q" "pool_is_initialized q"
    "serialize_into (pool_bytes q) i w1 = Ok w2"
  shows "load_pool w2 i = Ok q" "k \<noteq> key i \<Longrightarrow> ledger w2 k = ledger w1 k"
proof -
  have "load_pool w1 i = Ok p" using assms(1) quiet_acct [OF assms(3,2)] by (simp add: load_pool_def)
  from store_pool [OF this assms(4)] assms(6) have w2: "w2 = put_data i (pool_bytes q) w1" by simp
  show "load_pool w2 i = Ok q" using assms(4,5) by (simp add: w2 load_pool_Ok_iff)
  show "ledger w2 k = ledger w1 k" if "k \<noteq> key i" using that by (simp add: w2 put_data_def)
qed

text \<open>The pool a deposit and a withdrawal store: the accrued pool with a new slot.\<close>

lemma stored_accrued:
  assumes "load_pool w i = Ok p" "owner (acct w i) = pid" "quiet pid w w1" "bump_indexes p ra rb slot = Ok pool"
    "serialize_into (pool_bytes (pool\<lparr>last_update_slot := slot'\<rparr>)) i w1 = Ok w2"
  shows "load_pool w2 i = Ok (pool\<lparr>last_update_slot := slot'\<rparr>)" "k \<noteq> key i \<Longrightarrow> ledger w2 k = ledger w1 k"
proof -
  have "pool_wf (pool\<lparr>last_update_slot := slot'\<rparr>)" "pool_is_initialized (pool\<lparr>last_update_slot := slot'\<rparr>)"
    using assms(1) bump_indexes_accounting(3,4) [OF assms(4)] by (simp_all add: load_pool_Ok_iff pool_is_initialized_def)
  note st = stored_pool [OF assms(1-3) this assms(5)]
  show "load_pool w2 i = Ok (pool\<lparr>last_update_slot := slot'\<rparr>)" "k \<noteq> key i \<Longrightarrow> ledger w2 k = ledger w1 k" by (rule st)+
qed

section \<open>What belongs to the liquidity providers\<close>

text \<open>The accounted reserves as integers, without the machine's bounds: the vault plus what is
  lent out, minus what is owed to borrowers and to the protocol. The vaults are covered when they
  hold at least the collateral and the fees.\<close>

definition lp_reserves :: "pool \<Rightarrow> u128 \<Rightarrow> u128 \<Rightarrow> int \<times> int" where
  "lp_reserves p ra rb =
     (int (unat ra) + int (unat (total_debt_a p)) - int (unat (total_collateral_a p)) - int (unat (protocol_fees_a p)),
      int (unat rb) + int (unat (total_debt_b p)) - int (unat (total_collateral_b p)) - int (unat (protocol_fees_b p)))"

definition covered :: "pool \<Rightarrow> u128 \<Rightarrow> u128 \<Rightarrow> bool" where
  "covered p ra rb \<longleftrightarrow> unat (total_collateral_a p) + unat (protocol_fees_a p) \<le> unat ra \<and>
     unat (total_collateral_b p) + unat (protocol_fees_b p) \<le> unat rb"

declare of_nat_unat [simp del]

lemma accounted_reserves:
  "accounted p ra rb = Ok (A, B) \<longleftrightarrow> covered p ra rb \<and> lp_reserves p ra rb = (int (unat A), int (unat B))"
  unfolding accounted_linear covered_def lp_reserves_def by auto

lemma reserves_cong:
  assumes "same_reserves p q"
  shows "lp_reserves q = lp_reserves p" "covered q = covered p"
  using assms by (simp_all add: fun_eq_iff same_reserves_def lp_reserves_def covered_def)

lemma bump_reserves: "bump_indexes p ra rb slot = Ok q \<Longrightarrow> same_reserves p (q\<lparr>last_update_slot := s\<rparr>)"
  using bump_indexes_frame by (fastforce simp: same_reserves_def)

lemma bump_covered:
  assumes "accounted q ra rb = Ok (A, B)" "bump_indexes p ra rb slot = Ok q"
  shows "covered p ra rb" "lp_reserves p ra rb = (int (unat A), int (unat B))"
  using assms(1) bump_indexes_accounting(1) [OF assms(2)] by (simp_all add: accounted_reserves)

text \<open>What a deposit and a withdrawal do to the reserves of the accrued pool they store.\<close>

lemma deposited_reserves:
  assumes "accounted pool ra rb = Ok (A, B)" "bump_indexes p ra rb slot = Ok pool"
    and "unat ra' = unat ra + unat x" "unat rb' = unat rb + unat y"
  shows "accounted p ra rb = Ok (A, B)" "covered (pool\<lparr>last_update_slot := s\<rparr>) ra' rb'"
    "lp_reserves (pool\<lparr>last_update_slot := s\<rparr>) ra' rb' = (int (unat A) + int (unat x), int (unat B) + int (unat y))"
  using bump_covered [OF assms(1,2)] reserves_cong [OF bump_reserves [OF assms(2), of s]]
  by (auto simp: accounted_reserves covered_def lp_reserves_def assms(3,4))

lemma withdrawn_reserves:
  assumes "accounted pool ra rb = Ok (A, B)" "bump_indexes p ra rb slot = Ok pool" "swappable pool ra rb = Ok (sa, sb)"
    and "unat ra = unat ra' + unat x" "unat rb = unat rb' + unat y" "unat x \<le> unat sa" "unat y \<le> unat sb"
  shows "accounted p ra rb = Ok (A, B)" "covered (pool\<lparr>last_update_slot := s\<rparr>) ra' rb'"
    "lp_reserves (pool\<lparr>last_update_slot := s\<rparr>) ra' rb' = (int (unat A) - int (unat x), int (unat B) - int (unat y))"
proof -
  note old = bump_covered [OF assms(1,2)] reserves_cong [OF bump_reserves [OF assms(2), of s]]
  show "accounted p ra rb = Ok (A, B)" using old by (simp add: accounted_reserves)
  show "covered (pool\<lparr>last_update_slot := s\<rparr>) ra' rb'" using assms(3-7) by (simp add: covered_def swappable_Ok_iff)
  show "lp_reserves (pool\<lparr>last_update_slot := s\<rparr>) ra' rb' = (int (unat A) - int (unat x), int (unat B) - int (unat y))"
    using old(2) assms(4,5) unfolding old(3) lp_reserves_def by simp
qed

section \<open>Deposits\<close>

text \<open>C10: a deposit, end to end. The amounts the share formula gives for the reserves before are
  exactly what the vaults gain and the LP supply grows by; the providers' reserves grow by exactly
  the deposit on each side, collateral and fees stay covered, and at least \<open>min_lp_out\<close> shares
  are minted.\<close>

theorem deposit_accounting:
  assumes "isolation_law e pid" "supply_law e" "transfer_law e (key (accounts ! 8))" "transfer_law e (key (accounts ! 9))"
    and "separate (add_liquidity_accounts accounts)"
    and "distinct [key (accounts ! 0), key (accounts ! 1), key (accounts ! 2), key (accounts ! 3)]"
      "key (accounts ! 6) \<notin> {key (accounts ! 0), key (accounts ! 1), key (accounts ! 2)}"
      "key (accounts ! 3) \<notin> {key (accounts ! 4), key (accounts ! 5)}"
    and "process_add_liquidity e pid accounts amount_a_max amount_b_max min_lp_out w = Ok w'"
  shows "\<exists>p q ra rb A B S S' (x :: u64) (y :: u64) z.
    load_pool w (accounts ! 0) = Ok p \<and> load_pool w' (accounts ! 0) = Ok q \<and>
    read_token_amount e w (accounts ! 1) = Ok ra \<and> read_token_amount e w (accounts ! 2) = Ok rb \<and>
    read_token_amount e w' (accounts ! 1) = Ok (ra + widen x) \<and>
    read_token_amount e w' (accounts ! 2) = Ok (rb + widen y) \<and>
    read_mint_supply e w (accounts ! 3) = Ok S \<and> read_mint_supply e w' (accounts ! 3) = Ok S' \<and>
    accounted p ra rb = Ok (A, B) \<and>
    derive_deposit (widen amount_a_max) (widen amount_b_max) A B S = Ok (widen x, widen y, widen z) \<and>
    unat S' = unat S + unat z \<and> min_lp_out \<le> z \<and>
    covered q (ra + widen x) (rb + widen y) \<and>
    lp_reserves q (ra + widen x) (rb + widen y) = (int (unat A) + int (unat x), int (unat B) + int (unat y))"
proof (rule add_liquidity_effect [OF assms(9)])
  let ?a = "add_liquidity_accounts accounts"
  have a: "vault_a_info ?a = accounts ! 1" "vault_b_info ?a = accounts ! 2" "user_a_info ?a = accounts ! 4"
    "user_b_info ?a = accounts ! 5" "token_program_a_info ?a = accounts ! 10" "token_program_b_info ?a = accounts ! 11"
    by (simp_all add: add_liquidity_accounts_def)
  fix p pool ra rb slot S A B x y z da db dl w1 w2 w3 w4 slot' ev
  assume chk: "check_signer_and_token_programs e w ?a = Ok ()" and own: "owner (acct w (accounts ! 0)) = pid"
    and p: "load_pool w (accounts ! 0) = Ok p" and S: "read_mint_supply e w (accounts ! 3) = Ok S"
    and r: "read_token_amount e w (accounts ! 1) = Ok ra" "read_token_amount e w (accounts ! 2) = Ok rb"
    and bump: "bump_indexes p ra rb slot = Ok pool" and acc: "accounted pool ra rb = Ok (A, B)"
    and dep: "derive_deposit (widen amount_a_max) (widen amount_b_max) A B S = Ok (widen x, widen y, widen z)"
    and mn: "min_lp_out \<le> z"
    and w1: "transfer_checked e (accounts ! 10) (accounts ! 4) (accounts ! 8) (accounts ! 1) (accounts ! 7) x da [] w = Ok w1"
    and w2: "transfer_checked e (accounts ! 11) (accounts ! 5) (accounts ! 9) (accounts ! 2) (accounts ! 7) y db [] w1 = Ok w2"
    and w3: "invoke_signed e (MintToChecked (key (accounts ! 10)) (key (accounts ! 3)) (key (accounts ! 6)) (key (accounts ! 0)) z dl)
       [accounts ! 3, accounts ! 6, accounts ! 0] [pool_signer_seeds pool] w2 = Ok w3"
    and w4: "serialize_into (pool_bytes (pool\<lparr>last_update_slot := slot'\<rparr>)) (accounts ! 0) w3 = Ok w4"
    and w': "w' = emit ev w4"
  have sep: "key (accounts ! 1) \<noteq> key (accounts ! 2)" "key (accounts ! 4) \<noteq> key (accounts ! 1)"
    "key (accounts ! 4) \<noteq> key (accounts ! 2)" "key (accounts ! 5) \<noteq> key (accounts ! 1)" "key (accounts ! 5) \<noteq> key (accounts ! 2)"
    using assms(5) by (auto simp: separate_def a)
  note tok = checked_token_programs [OF chk, unfolded a]
  have qt: "quiet pid w w3"
    using quiet_transfer [OF assms(1) tok(1) w1] quiet_transfer [OF assms(1) tok(2) w2]
      quiet_invoke [OF assms(1) _ w3] tok(1) by (auto simp: external_def intro: quiet_trans)
  note v = vaults_in [OF assms(3,4) w1 w2 sep r]
  have S2: "read_mint_supply e w2 (accounts ! 3) = Ok S"
    using S v(5) [of "key (accounts ! 3)"] assms(6,8) by (auto simp: read_mint_supply_def acct_def)
  note mint = minted [OF assms(2) w3 S2]
  note st = stored_accrued [OF p own qt bump w4]
  have fr: "ledger w' k = ledger w2 k" if "k \<notin> {key (accounts ! 0), key (accounts ! 3), key (accounts ! 6)}" for k
    using st(2) mint(1) that by (auto simp: w')
  have new: "read_token_amount e w' (accounts ! 1) = Ok (ra + widen x)" "read_token_amount e w' (accounts ! 2) = Ok (rb + widen y)"
    using v(1,3) fr assms(6,7) by (auto simp: read_token_amount_def acct_def)
  obtain S' where S': "read_mint_supply e w' (accounts ! 3) = Ok S'" "unat S' = unat S + unat z"
    using mint(2) st(2) assms(6) by (auto simp: w' read_mint_supply_def acct_def)
  have "load_pool w' (accounts ! 0) = Ok (pool\<lparr>last_update_slot := slot'\<rparr>)" using st(1) by (simp add: w' load_pool_def)
  then show ?thesis using deposited_reserves [OF acc bump v(2,4)] p r new S S' dep mn by blast
qed

section \<open>Withdrawals\<close>

text \<open>C11: a withdrawal, end to end. The proportional amounts for the reserves before are exactly
  what leaves the vaults, at least the minimums asked for; the LP supply shrinks by exactly the
  shares burned, the providers' reserves shrink by exactly the amounts paid, and collateral and
  fees stay covered.\<close>

theorem withdrawal_accounting:
  assumes "isolation_law e pid" "supply_law e" "transfer_law e (key (accounts ! 8))" "transfer_law e (key (accounts ! 9))"
    and "separate (remove_liquidity_accounts accounts)"
    and "distinct [key (accounts ! 0), key (accounts ! 1), key (accounts ! 2), key (accounts ! 3)]"
      "key (accounts ! 6) \<notin> {key (accounts ! 0), key (accounts ! 1), key (accounts ! 2)}"
      "key (accounts ! 3) \<notin> {key (accounts ! 4), key (accounts ! 5)}"
    and "process_remove_liquidity e pid accounts lp_amount min_a_out min_b_out w = Ok w'"
  shows "\<exists>p q ra rb A B S S' (x :: u64) (y :: u64).
    load_pool w (accounts ! 0) = Ok p \<and> load_pool w' (accounts ! 0) = Ok q \<and>
    read_token_amount e w (accounts ! 1) = Ok ra \<and> read_token_amount e w (accounts ! 2) = Ok rb \<and>
    read_token_amount e w' (accounts ! 1) = Ok (ra - widen x) \<and>
    read_token_amount e w' (accounts ! 2) = Ok (rb - widen y) \<and>
    read_mint_supply e w (accounts ! 3) = Ok S \<and> read_mint_supply e w' (accounts ! 3) = Ok S' \<and>
    accounted p ra rb = Ok (A, B) \<and>
    withdrawal_amounts (widen lp_amount) A B S = Ok (widen x, widen y) \<and>
    unat S = unat S' + unat lp_amount \<and> min_a_out \<le> x \<and> min_b_out \<le> y \<and>
    covered q (ra - widen x) (rb - widen y) \<and>
    lp_reserves q (ra - widen x) (rb - widen y) = (int (unat A) - int (unat x), int (unat B) - int (unat y))"
proof (rule remove_liquidity_effect [OF assms(9)])
  let ?a = "remove_liquidity_accounts accounts"
  have a: "vault_a_info ?a = accounts ! 1" "vault_b_info ?a = accounts ! 2" "user_a_info ?a = accounts ! 4"
    "user_b_info ?a = accounts ! 5" "token_program_a_info ?a = accounts ! 10" "token_program_b_info ?a = accounts ! 11"
    by (simp_all add: remove_liquidity_accounts_def)
  fix p pool ra rb slot S A B sa sb x y da db dl w1 w2 w3 w4 slot' ev
  assume chk: "check_signer_and_token_programs e w ?a = Ok ()" and own: "owner (acct w (accounts ! 0)) = pid"
    and p: "load_pool w (accounts ! 0) = Ok p" and S: "read_mint_supply e w (accounts ! 3) = Ok S"
    and r: "read_token_amount e w (accounts ! 1) = Ok ra" "read_token_amount e w (accounts ! 2) = Ok rb"
    and bump: "bump_indexes p ra rb slot = Ok pool"
    and acc: "accounted pool ra rb = Ok (A, B)" and sw: "swappable pool ra rb = Ok (sa, sb)"
    and am: "withdrawal_amounts (widen lp_amount) A B S = Ok (widen x, widen y)"
    and le: "unat x \<le> unat sa" "unat y \<le> unat sb" and mn: "min_a_out \<le> x" "min_b_out \<le> y"
    and w1: "invoke_signed e (BurnChecked (key (accounts ! 10)) (key (accounts ! 6)) (key (accounts ! 3)) (key (accounts ! 7)) lp_amount dl)
       [accounts ! 6, accounts ! 3, accounts ! 7] [] w = Ok w1"
    and w2: "transfer_checked e (accounts ! 10) (accounts ! 1) (accounts ! 8) (accounts ! 4) (accounts ! 0) x da
       [pool_signer_seeds pool] w1 = Ok w2"
    and w3: "transfer_checked e (accounts ! 11) (accounts ! 2) (accounts ! 9) (accounts ! 5) (accounts ! 0) y db
       [pool_signer_seeds pool] w2 = Ok w3"
    and w4: "serialize_into (pool_bytes (pool\<lparr>last_update_slot := slot'\<rparr>)) (accounts ! 0) w3 = Ok w4"
    and w': "w' = emit ev w4"
  have sep: "key (accounts ! 1) \<noteq> key (accounts ! 2)" "key (accounts ! 4) \<noteq> key (accounts ! 1)"
    "key (accounts ! 4) \<noteq> key (accounts ! 2)" "key (accounts ! 5) \<noteq> key (accounts ! 1)" "key (accounts ! 5) \<noteq> key (accounts ! 2)"
    using assms(5) by (auto simp: separate_def a)
  note tok = checked_token_programs [OF chk, unfolded a]
  have qt: "quiet pid w w3"
    using quiet_transfer [OF assms(1) tok(1) w2] quiet_transfer [OF assms(1) tok(2) w3]
      quiet_invoke [OF assms(1) _ w1] tok(1) by (auto simp: external_def intro: quiet_trans)
  note burn = burned [OF assms(2) w1 S]
  have r1: "read_token_amount e w1 (accounts ! 1) = Ok ra" "read_token_amount e w1 (accounts ! 2) = Ok rb"
    using r burn(1) assms(6,7) by (auto simp: read_token_amount_def acct_def)
  note v = vaults_out [OF assms(3,4) w2 w3 sep r1]
  note st = stored_accrued [OF p own qt bump w4]
  have new: "read_token_amount e w' (accounts ! 1) = Ok (ra - widen x)" "read_token_amount e w' (accounts ! 2) = Ok (rb - widen y)"
    using v(1,3) st(2) assms(6) by (auto simp: w' read_token_amount_def acct_def)
  obtain S' where S': "read_mint_supply e w' (accounts ! 3) = Ok S'" "unat S = unat S' + unat lp_amount"
    using burn(2) st(2) v(5) [of "key (accounts ! 3)"] assms(6,8) by (auto simp: w' read_mint_supply_def acct_def)
  have "load_pool w' (accounts ! 0) = Ok (pool\<lparr>last_update_slot := slot'\<rparr>)" using st(1) by (simp add: w' load_pool_def)
  then show ?thesis using withdrawn_reserves [OF acc bump sw v(2,4) le] p r new S S' am mn by blast
qed

section \<open>Protocol fees\<close>

text \<open>A payment of accrued fees out of a vault, skipped when there is nothing to pay.\<close>

lemma fee_payment:
  assumes "transfer_law e (key m)" "key d \<noteq> key v"
    and "(if 0 < f then transfer_checked e prog v m d auth f dec seeds w else Ok w) = Ok w'"
    and "read_token_amount e w v = Ok r" "read_token_amount e w d = Ok s"
  shows "read_token_amount e w' v = Ok (r - widen f) \<and> unat r = unat (r - widen f) + unat f"
    "read_token_amount e w' d = Ok (s + widen f)"
    "k \<noteq> key v \<Longrightarrow> k \<noteq> key d \<Longrightarrow> ledger w' k = ledger w k"
proof -
  have "(read_token_amount e w' v = Ok (r - widen f) \<and> unat r = unat (r - widen f) + unat f) \<and>
      read_token_amount e w' d = Ok (s + widen f) \<and> (k \<noteq> key v \<longrightarrow> k \<noteq> key d \<longrightarrow> ledger w' k = ledger w k)"
  proof (cases "0 < f")
    case True
    then have t: "transfer_checked e prog v m d auth f dec seeds w = Ok w'" using assms(3) by simp
    show ?thesis using vault_out [OF assms(1) t assms(2,4)] vault_in [OF assms(1) t _ assms(5)] assms(2)
        transfer_frame [OF assms(1) t] by auto
  next
    case False
    then have "f = 0" "w' = w" using assms(3) word_neq_0_conv [of f] by auto
    then show ?thesis using assms(4,5) by (simp add: widen_def)
  qed
  then show "read_token_amount e w' v = Ok (r - widen f) \<and> unat r = unat (r - widen f) + unat f"
    "read_token_amount e w' d = Ok (s + widen f)"
    "k \<noteq> key v \<Longrightarrow> k \<noteq> key d \<Longrightarrow> ledger w' k = ledger w k" by blast+
qed

lemma fee_payments:
  assumes laws: "transfer_law e (key ma)" "transfer_law e (key mb)" and ne: "distinct [key va, key vb, key da, key db]"
    and w1: "(if 0 < fa then transfer_checked e pa va ma da auth fa na sa w else Ok w) = Ok w1"
    and w2: "(if 0 < fb then transfer_checked e pb vb mb db auth fb nb sb w1 else Ok w1) = Ok w2"
    and r: "read_token_amount e w va = Ok ra" "read_token_amount e w vb = Ok rb"
      "read_token_amount e w da = Ok xa" "read_token_amount e w db = Ok xb"
  shows "read_token_amount e w2 va = Ok (ra - widen fa)" "unat ra = unat (ra - widen fa) + unat fa"
    "read_token_amount e w2 vb = Ok (rb - widen fb)" "unat rb = unat (rb - widen fb) + unat fb"
    "read_token_amount e w2 da = Ok (xa + widen fa)" "read_token_amount e w2 db = Ok (xb + widen fb)"
proof -
  have d: "key da \<noteq> key va" "key db \<noteq> key vb" using ne by auto
  note a = fee_payment [OF laws(1) d(1) w1 r(1,3)]
  have r1: "read_token_amount e w1 vb = Ok rb" "read_token_amount e w1 db = Ok xb"
    using read_cong [OF a(3), of vb] read_cong [OF a(3), of db] ne r(2,4) by auto
  note b = fee_payment [OF laws(2) d(2) w2 r1]
  show "read_token_amount e w2 va = Ok (ra - widen fa)" "unat ra = unat (ra - widen fa) + unat fa"
    "read_token_amount e w2 da = Ok (xa + widen fa)"
    using read_cong [OF b(3), of va] read_cong [OF b(3), of da] ne a(1,2) by auto
  show "read_token_amount e w2 vb = Ok (rb - widen fb)" "unat rb = unat (rb - widen fb) + unat fb"
    "read_token_amount e w2 db = Ok (xb + widen fb)" using b(1,2) by simp_all
qed

text \<open>C12: claiming protocol fees, end to end. Both destination accounts belong to the fixed
  recipient; they receive exactly the accrued fees, the vaults lose exactly that, the stored pool
  has no fees left, and the providers' reserves and the coverage of collateral are untouched.\<close>

theorem fee_claim_accounting:
  assumes "isolation_law e pid" "transfer_law e (key (accounts ! 5))" "transfer_law e (key (accounts ! 6))"
    and "distinct (map (\<lambda>i. key (accounts ! i)) [0, 1, 2, 3, 4])"
    and "read_token_amount e w (accounts ! 1) = Ok ra" "read_token_amount e w (accounts ! 2) = Ok rb"
      "read_token_amount e w (accounts ! 3) = Ok xa" "read_token_amount e w (accounts ! 4) = Ok xb"
    and "process_claim_protocol_fees e pid accounts w = Ok w'"
  shows "\<exists>p q. load_pool w (accounts ! 0) = Ok p \<and> load_pool w' (accounts ! 0) = Ok q \<and>
    read_token_owner e w (accounts ! 3) = Ok PROTOCOL_FEE_RECIPIENT \<and>
    read_token_owner e w (accounts ! 4) = Ok PROTOCOL_FEE_RECIPIENT \<and>
    read_token_amount e w' (accounts ! 3) = Ok (xa + widen (protocol_fees_a p)) \<and>
    read_token_amount e w' (accounts ! 4) = Ok (xb + widen (protocol_fees_b p)) \<and>
    read_token_amount e w' (accounts ! 1) = Ok (ra - widen (protocol_fees_a p)) \<and>
    read_token_amount e w' (accounts ! 2) = Ok (rb - widen (protocol_fees_b p)) \<and>
    protocol_fees_a q = 0 \<and> protocol_fees_b q = 0 \<and>
    covered q (ra - widen (protocol_fees_a p)) (rb - widen (protocol_fees_b p)) = covered p ra rb \<and>
    lp_reserves q (ra - widen (protocol_fees_a p)) (rb - widen (protocol_fees_b p)) = lp_reserves p ra rb"
proof (rule claim_fees_effect [OF assms(9)])
  fix p
  assume own: "owner (acct w (accounts ! 0)) = pid" and p: "load_pool w (accounts ! 0) = Ok p"
    and tok: "is_valid_token_program e (key (accounts ! 7))" "is_valid_token_program e (key (accounts ! 8))"
    and ro: "read_token_owner e w (accounts ! 3) = Ok PROTOCOL_FEE_RECIPIENT"
      "read_token_owner e w (accounts ! 4) = Ok PROTOCOL_FEE_RECIPIENT"
    and run: "protocol_fees_a p = 0 \<and> protocol_fees_b p = 0 \<and> w' = w \<or>
     (\<exists>da db w1 w2 w3 slot ev.
        (if 0 < protocol_fees_a p
         then transfer_checked e (accounts ! 7) (accounts ! 1) (accounts ! 5) (accounts ! 3)
                (accounts ! 0) (protocol_fees_a p) da [pool_signer_seeds p] w else Ok w) = Ok w1 \<and>
        (if 0 < protocol_fees_b p
         then transfer_checked e (accounts ! 8) (accounts ! 2) (accounts ! 6) (accounts ! 4)
                (accounts ! 0) (protocol_fees_b p) db [pool_signer_seeds p] w1 else Ok w1) = Ok w2 \<and>
        serialize_into (pool_bytes (p\<lparr>protocol_fees_a := 0, protocol_fees_b := 0,
          last_update_slot := slot\<rparr>)) (accounts ! 0) w2 = Ok w3 \<and> w' = emit ev w3)"
  show ?thesis
  proof (cases "protocol_fees_a p = 0 \<and> protocol_fees_b p = 0 \<and> w' = w")
    case True
    then show ?thesis using p ro assms(5-8) by (intro exI [of _ p]) (simp add: widen_def)
  next
    case False
    with run obtain da db w1 w2 w3 slot ev where
      w1: "(if 0 < protocol_fees_a p then transfer_checked e (accounts ! 7) (accounts ! 1) (accounts ! 5) (accounts ! 3)
              (accounts ! 0) (protocol_fees_a p) da [pool_signer_seeds p] w else Ok w) = Ok w1"
      and w2: "(if 0 < protocol_fees_b p then transfer_checked e (accounts ! 8) (accounts ! 2) (accounts ! 6) (accounts ! 4)
              (accounts ! 0) (protocol_fees_b p) db [pool_signer_seeds p] w1 else Ok w1) = Ok w2"
      and w3: "serialize_into (pool_bytes (p\<lparr>protocol_fees_a := 0, protocol_fees_b := 0, last_update_slot := slot\<rparr>))
          (accounts ! 0) w2 = Ok w3"
      and w': "w' = emit ev w3" by blast
    let ?q = "p\<lparr>protocol_fees_a := 0, protocol_fees_b := 0, last_update_slot := slot\<rparr>"
    have ne: "distinct [key (accounts ! 1), key (accounts ! 2), key (accounts ! 3), key (accounts ! 4)]" using assms(4) by auto
    note v = fee_payments [OF assms(2,3) ne w1 w2 assms(5-8)]
    have "quiet pid w w1" using w1 quiet_transfer [OF assms(1) tok(1)] by (auto split: if_splits)
    moreover have "quiet pid w1 w2" using w2 quiet_transfer [OF assms(1) tok(2)] by (auto split: if_splits)
    ultimately have qt: "quiet pid w w2" by (rule quiet_trans)
    have live: "pool_wf ?q" "pool_is_initialized ?q"
      using p by (simp_all add: load_pool_Ok_iff pool_wf_def pool_is_initialized_def POOL_DISCRIMINATOR_def)
    note st = stored_pool [OF p own qt live w3]
    have "read_token_amount e w' (accounts ! 1) = Ok (ra - widen (protocol_fees_a p))"
      "read_token_amount e w' (accounts ! 2) = Ok (rb - widen (protocol_fees_b p))"
      "read_token_amount e w' (accounts ! 3) = Ok (xa + widen (protocol_fees_a p))"
      "read_token_amount e w' (accounts ! 4) = Ok (xb + widen (protocol_fees_b p))"
      using v(1,3,5,6) st(2) assms(4) by (auto simp: w' read_token_amount_def acct_def)
    moreover have "load_pool w' (accounts ! 0) = Ok ?q" using st(1) by (simp add: w' load_pool_def)
    moreover have "covered ?q (ra - widen (protocol_fees_a p)) (rb - widen (protocol_fees_b p)) = covered p ra rb"
      "lp_reserves ?q (ra - widen (protocol_fees_a p)) (rb - widen (protocol_fees_b p)) = lp_reserves p ra rb"
      using v(2,4) by (auto simp: covered_def lp_reserves_def)
    ultimately show ?thesis using p ro by (intro exI [of _ p] exI [of _ ?q]) simp
  qed
qed

section \<open>Repayments\<close>

text \<open>One transfer into one vault, then one out of the other.\<close>

lemma vault_in_out:
  assumes laws: "transfer_law e (key m1)" "transfer_law e (key m2)"
    and t1: "transfer_checked e prog1 u1 m1 v1 auth1 x d1 s1 w = Ok w1"
    and t2: "transfer_checked e prog2 v2 m2 u2 auth2 y d2 s2 w1 = Ok w2"
    and ne: "key v1 \<noteq> key v2" "key u1 \<noteq> key v1" "key u1 \<noteq> key v2" "key u2 \<noteq> key v1" "key u2 \<noteq> key v2"
    and r: "read_token_amount e w v1 = Ok r1" "read_token_amount e w v2 = Ok r2"
  shows "\<exists>r1' r2'. read_token_amount e w2 v1 = Ok r1' \<and> read_token_amount e w2 v2 = Ok r2' \<and>
    unat r1' = unat r1 + unat x \<and> unat r2 = unat r2' + unat y"
proof -
  note a = vault_in [OF laws(1) t1 ne(2) r(1)]
  have "read_token_amount e w1 v2 = Ok r2"
    using read_cong [OF transfer_frame [OF laws(1) t1], of v2] ne r(2) by auto
  note b = vault_out [OF laws(2) t2 ne(5) this]
  have "read_token_amount e w2 v1 = Ok (r1 + widen x)"
    using read_cong [OF transfer_frame [OF laws(2) t2], of v1] ne a by auto
  then show ?thesis using a b by blast
qed

text \<open>The vaults before and after: collateral moves on one side, principal on the other.\<close>

definition vaults_moved ::
  "loan_sides \<Rightarrow> int \<Rightarrow> int \<Rightarrow> u128 \<Rightarrow> u128 \<Rightarrow> u128 \<Rightarrow> u128 \<Rightarrow> bool" where
  "vaults_moved sides coll debt ra rb ra' rb' \<longleftrightarrow>
     (case sides of
        CollateralA \<Rightarrow> int (unat ra') = int (unat ra) + coll \<and> int (unat rb') = int (unat rb) + debt
      | CollateralB \<Rightarrow> int (unat ra') = int (unat ra) + debt \<and> int (unat rb') = int (unat rb) + coll)"

lemma repay_transfers_vaults:
  assumes laws: "transfer_law e (key (mint_a_info a))" "transfer_law e (key (mint_b_info a))"
    and sep: "separate a" and st: "repay_transfers e a sides owe coll pool w = Ok w'"
    and r: "read_token_amount e w (vault_a_info a) = Ok ra" "read_token_amount e w (vault_b_info a) = Ok rb"
  shows "\<exists>ra' rb'. read_token_amount e w' (vault_a_info a) = Ok ra' \<and>
    read_token_amount e w' (vault_b_info a) = Ok rb' \<and>
    vaults_moved sides (- int (unat coll)) (int (unat owe)) ra rb ra' rb'"
proof (cases sides)
  case CollateralA
  with st obtain da db w1 where
    "transfer_checked e (token_program_b_info a) (user_b_info a) (mint_b_info a)
       (vault_b_info a) (user_info a) owe db [] w = Ok w1"
    "transfer_checked e (token_program_a_info a) (vault_a_info a) (mint_a_info a)
       (user_a_info a) (pool_info a) coll da [pool_signer_seeds pool] w1 = Ok w'"
    by (auto simp: repay_transfers_def)
  from vault_in_out [OF laws(2,1) this _ _ _ _ _ r(2,1)] sep CollateralA show ?thesis
    by (fastforce simp: separate_def vaults_moved_def)
next
  case CollateralB
  with st obtain da db w1 where
    "transfer_checked e (token_program_a_info a) (user_a_info a) (mint_a_info a)
       (vault_a_info a) (user_info a) owe da [] w = Ok w1"
    "transfer_checked e (token_program_b_info a) (vault_b_info a) (mint_b_info a)
       (user_b_info a) (pool_info a) coll db [pool_signer_seeds pool] w1 = Ok w'"
    by (auto simp: repay_transfers_def)
  from vault_in_out [OF laws this _ _ _ _ _ r] sep CollateralB show ?thesis
    by (fastforce simp: separate_def vaults_moved_def)
qed

lemma open_transfers_vaults:
  assumes laws: "transfer_law e (key (mint_a_info a))" "transfer_law e (key (mint_b_info a))"
    and sep: "separate a" and st: "open_loan_transfers e a sides c d pool w = Ok w'"
    and r: "read_token_amount e w (vault_a_info a) = Ok ra" "read_token_amount e w (vault_b_info a) = Ok rb"
  shows "\<exists>ra' rb'. read_token_amount e w' (vault_a_info a) = Ok ra' \<and>
    read_token_amount e w' (vault_b_info a) = Ok rb' \<and>
    vaults_moved sides (int (unat c)) (- int (unat d)) ra rb ra' rb'"
proof (cases sides)
  case CollateralA
  with st obtain da db w1 where
    "transfer_checked e (token_program_a_info a) (user_a_info a) (mint_a_info a)
       (vault_a_info a) (user_info a) c da [] w = Ok w1"
    "transfer_checked e (token_program_b_info a) (vault_b_info a) (mint_b_info a)
       (user_b_info a) (pool_info a) d db [pool_signer_seeds pool] w1 = Ok w'"
    by (auto simp: open_loan_transfers_def)
  from vault_in_out [OF laws this _ _ _ _ _ r] sep CollateralA show ?thesis
    by (fastforce simp: separate_def vaults_moved_def)
next
  case CollateralB
  with st obtain da db w1 where
    "transfer_checked e (token_program_b_info a) (user_b_info a) (mint_b_info a)
       (vault_b_info a) (user_info a) c db [] w = Ok w1"
    "transfer_checked e (token_program_a_info a) (vault_a_info a) (mint_a_info a)
       (user_a_info a) (pool_info a) d da [pool_signer_seeds pool] w1 = Ok w'"
    by (auto simp: open_loan_transfers_def)
  from vault_in_out [OF laws(2,1) this _ _ _ _ _ r(2,1)] sep CollateralB show ?thesis
    by (fastforce simp: separate_def vaults_moved_def)
qed

text \<open>The writes at the end of a repayment leave the contents of other accounts alone.\<close>

lemma repay_close_frame:
  assumes "repay_close a li bi q l b slot owe w = Ok w'" and k: "k \<notin> {key (pool_info a), key li, key bi}"
  shows "same_contents (ledger w k) (ledger w' k)"
proof -
  have close: "same_contents (ledger w1 k) (ledger w2 k)" if "close_account li d w1 = Ok w2" for w1 w2 :: world and d
    using that k by (auto simp: close_account_def Let_def put_data_def put_lamports_def acct_def same_contents_def split: if_splits)
  from assms(1) obtain w1 w2 w3 w4 enc1 enc2 enc3 ev where
    w: "serialize_into enc1 bi w = Ok w1" "serialize_into enc2 li w1 = Ok w2"
      "close_account li (user_info a) w2 = Ok w3" "serialize_into enc3 (pool_info a) w3 = Ok w4" "w' = emit ev w4"
    unfolding repay_close_def Let_def and_then_Ok_iff res.inject by blast
  have "ledger w1 k = ledger w k" "ledger w2 k = ledger w1 k" "same_contents (ledger w2 k) (ledger w3 k)"
    "ledger w4 k = ledger w3 k"
    using serialize_frame [OF w(1)] serialize_frame [OF w(2)] close [OF w(3)] serialize_frame [OF w(4)] k by auto
  then show ?thesis by (simp add: w(5))
qed

lemma read_same: "same_contents (ledger w (key i)) (ledger w' (key i)) \<Longrightarrow> read_token_amount e w' i = read_token_amount e w i"
  by (simp add: read_token_amount_def acct_def same_contents_def)

lemma owed_covers: 
  assumes "owed l i = Ok x" shows "unat (loan_debt_principal l) \<le> unat x"
proof -
  let ?p = "unat (loan_debt_principal l)" and ?s = "unat (loan_borrow_index_snapshot_wad l)"
  have s: "0 < ?s" "?s \<le> unat i" "unat x = ceil_div (?p * unat i) ?s"
    using assms by (auto simp: owed_def owed_from_index_Ok_iff unat_gt_0)
  have "?p * ?s \<le> ?p * unat i" using s(2) by simp
  also have "\<dots> \<le> unat x * ?s" unfolding s(3) using s(1) by (rule ceil_div_ge)
  finally show ?thesis using s(1) by simp
qed

text \<open>The books of a loan's removal, on the accounted reserves.\<close>

lemma repay_book_reserves:
  assumes "repay_book p l sides b slot = Ok (q, b')"
    and "vaults_moved sides (- int (unat (loan_collateral_amount l))) owe ra rb ra' rb'"
  shows "lp_reserves q ra' rb' = (let i = owe - int (unat (loan_debt_principal l)) in
      case sides of CollateralA \<Rightarrow> (fst (lp_reserves p ra rb), snd (lp_reserves p ra rb) + i)
      | CollateralB \<Rightarrow> (fst (lp_reserves p ra rb) + i, snd (lp_reserves p ra rb)))"
    "0 \<le> owe \<Longrightarrow> covered p ra rb \<Longrightarrow> covered q ra' rb'"
proof -
  from assms(1) obtain p1 where
    rel: "release_loan p sides (loan_collateral_amount l) (loan_debt_principal l) = Ok p1"
    and "(if band_count b' = 0 then band_bitmap_mut (p1\<lparr>last_update_slot := slot\<rparr>) (band_direction b')
               (\<lambda>bm. bitmap_clear bm (band_band_id b')) else Ok (p1\<lparr>last_update_slot := slot\<rparr>)) = Ok q"
    unfolding repay_book_def Let_def and_then_Ok_iff res.inject prod.inject by blast
  then have same: "same_reserves p1 q"
    using bitmap_mut_reserves by (fastforce simp: same_reserves_def split: if_splits)
  have "lp_reserves p1 ra' rb' = (let i = owe - int (unat (loan_debt_principal l)) in
      case sides of CollateralA \<Rightarrow> (fst (lp_reserves p ra rb), snd (lp_reserves p ra rb) + i)
      | CollateralB \<Rightarrow> (fst (lp_reserves p ra rb) + i, snd (lp_reserves p ra rb)))"
    using release_loan_Ok [OF rel] assms(2)
    by (cases sides) (auto simp: lp_reserves_def vaults_moved_def Let_def)
  then show "lp_reserves q ra' rb' = (let i = owe - int (unat (loan_debt_principal l)) in
      case sides of CollateralA \<Rightarrow> (fst (lp_reserves p ra rb), snd (lp_reserves p ra rb) + i)
      | CollateralB \<Rightarrow> (fst (lp_reserves p ra rb) + i, snd (lp_reserves p ra rb)))"
    by (simp add: reserves_cong [OF same])
  show "covered q ra' rb'" if "0 \<le> owe" "covered p ra rb"
  proof -
    have "covered p1 ra' rb'"
      using release_loan_Ok [OF rel] assms(2) that
      by (cases sides) (auto simp: covered_def vaults_moved_def)
    then show ?thesis by (simp add: reserves_cong [OF same])
  qed
qed

text \<open>The debt a repayment asks for: the principal scaled by the growth of the debt side's index
  since the snapshot, rounded up. A loan with side byte 0 holds A and owes B.\<close>

lemma repay_amounts_debt:
  assumes "repay_amounts p l ra rb slot = Ok (p1, owe, sides, coll)"
  shows "bump_indexes p ra rb slot = Ok p1" "sides = (if loan_sides l = 0 then CollateralA else CollateralB)"
    "unat owe = ceil_div (unat (loan_debt_principal l) *
       unat (if loan_sides l = 0 then borrow_index_b_wad p1 else borrow_index_a_wad p1))
       (unat (loan_borrow_index_snapshot_wad l))"
  using assms
  by (auto simp: repay_amounts_def borrow_index_for_debt_side_def loan_sides_from_u8_def owed_def owed_from_index_Ok_iff
      try_narrow_u64_widen unat_widen split: if_splits)

text \<open>C9: a repayment, end to end. The pool accrues up to the current slot; the borrower gets exactly
  the collateral back and pays the principal scaled by the growth of the index of the side the loan
  owes, from its snapshot to the accrued pool, rounded up, which is at least the principal; the loan
  account is gone; the providers' reserves grow by exactly the interest, on the debt side, and
  vaults that covered collateral and fees still do.\<close>

theorem repay_accounting:
  assumes "isolation_law e pid" "transfer_law e (key (accounts ! 5))" "transfer_law e (key (accounts ! 6))"
    and "separate (loan_handler_accounts accounts 10)"
    and "key (accounts ! 1) \<notin> {key (accounts ! 0), key (accounts ! 8), key (accounts ! 9)}"
      "key (accounts ! 2) \<notin> {key (accounts ! 0), key (accounts ! 8), key (accounts ! 9)}"
    and "process_repay_loan e pid accounts w = Ok w'"
  shows "\<exists>p q l ra rb ra' rb' p1 owe sides coll slot i.
    pools pid w (key (accounts ! 0)) = Some p \<and> pools pid w' (key (accounts ! 0)) = Some q \<and>
    loans pid w (key (accounts ! 8)) = Some l \<and> loans pid w' (key (accounts ! 8)) = None \<and>
    read_token_amount e w (accounts ! 1) = Ok ra \<and> read_token_amount e w (accounts ! 2) = Ok rb \<and>
    read_token_amount e w' (accounts ! 1) = Ok ra' \<and> read_token_amount e w' (accounts ! 2) = Ok rb' \<and>
    clock_get e = Ok slot \<and> repay_amounts p l ra rb slot = Ok (p1, owe, sides, coll) \<and> widen coll = loan_collateral_amount l \<and>
    bump_indexes p ra rb slot = Ok p1 \<and> sides = (if loan_sides l = 0 then CollateralA else CollateralB) \<and>
    unat owe = ceil_div (unat (loan_debt_principal l) *
      unat (if loan_sides l = 0 then borrow_index_b_wad p1 else borrow_index_a_wad p1))
      (unat (loan_borrow_index_snapshot_wad l)) \<and>
    vaults_moved sides (- int (unat coll)) (int (unat owe)) ra rb ra' rb' \<and>
    i = int (unat owe) - int (unat (loan_debt_principal l)) \<and> 0 \<le> i \<and>
    lp_reserves q ra' rb' =
      (case sides of CollateralA \<Rightarrow> (fst (lp_reserves p ra rb), snd (lp_reserves p ra rb) + i)
       | CollateralB \<Rightarrow> (fst (lp_reserves p ra rb) + i, snd (lp_reserves p ra rb))) \<and>
    (covered p ra rb \<longrightarrow> covered q ra' rb')"
proof (rule repay_effect [OF assms(1,7)])
  let ?a = "loan_handler_accounts accounts 10"
  have a: "pool_info ?a = accounts ! 0" "vault_a_info ?a = accounts ! 1" "vault_b_info ?a = accounts ! 2"
    "mint_a_info ?a = accounts ! 5" "mint_b_info ?a = accounts ! 6" by (simp_all add: loan_handler_accounts_def)
  fix p l b ra rb slot p1 owe sides coll w1 q n
  assume load: "repay_load e pid ?a (accounts ! 8) (accounts ! 9) w = Ok (p, l, b)"
    and entries: "pools pid w (key (accounts ! 0)) = Some p" "loans pid w (key (accounts ! 8)) = Some l"
    and r: "read_token_amount e w (accounts ! 1) = Ok ra" "read_token_amount e w (accounts ! 2) = Ok rb"
    and clk: "clock_get e = Ok slot" and am: "repay_amounts p l ra rb slot = Ok (p1, owe, sides, coll)"
    and w1: "repay_transfers e ?a sides owe coll p1 w = Ok w1"
    and book: "repay_book p1 (l\<lparr>loan_last_touch_slot := slot\<rparr>) sides b slot = Ok (q, b\<lparr>band_count := n\<rparr>)"
    and close: "repay_close ?a (accounts ! 8) (accounts ! 9) q (l\<lparr>loan_last_touch_slot := slot\<rparr>)
        (b\<lparr>band_count := n\<rparr>) slot owe w1 = Ok w'"
    and eq: "books_of pid w' = (books_of pid w)\<lparr>b_pools := (pools pid w)(loan_pool l \<mapsto> q),
       b_loans := (loans pid w)(key (accounts ! 8) := None),
       b_bands := (bands pid w)(key (accounts ! 9) \<mapsto> b\<lparr>band_count := n\<rparr>)\<rparr>"
  have pk: "loan_pool l = key (accounts ! 0)" using repay_load_Ok(5) [OF load] by (simp add: a)
  have new: "pools pid w' (key (accounts ! 0)) = Some q" "loans pid w' (key (accounts ! 8)) = None"
    using eq pk by (simp_all add: books_of_def)
  from am obtain i x where bump: "bump_indexes p ra rb slot = Ok p1" and ow: "owed l i = Ok x" "x = widen owe"
    and coll: "loan_collateral_amount l = widen coll"
    by (auto simp: repay_amounts_def try_narrow_u64_widen)
  obtain ra' rb' where v: "read_token_amount e w1 (accounts ! 1) = Ok ra'" "read_token_amount e w1 (accounts ! 2) = Ok rb'"
    "vaults_moved sides (- int (unat coll)) (int (unat owe)) ra rb ra' rb'"
    using repay_transfers_vaults [OF _ _ assms(4) w1, of ra rb] assms(2,3) r by (auto simp: a)
  have fr: "read_token_amount e w' (accounts ! 1) = Ok ra'" "read_token_amount e w' (accounts ! 2) = Ok rb'"
    using read_same [OF repay_close_frame [OF close], of "accounts ! 1"]
      read_same [OF repay_close_frame [OF close], of "accounts ! 2"] assms(5,6) v(1,2) by (simp_all add: a)
  have same: "same_reserves p p1" using bump_reserves [OF bump, of 0] by (simp add: same_reserves_def)
  have "vaults_moved sides (- int (unat (loan_collateral_amount (l\<lparr>loan_last_touch_slot := slot\<rparr>)))) (int (unat owe)) ra rb ra' rb'"
    using v(3) coll by simp
  note res = repay_book_reserves [OF book this]
  have res1: "lp_reserves q ra' rb' = (let i = int (unat owe) - int (unat (loan_debt_principal l)) in
      case sides of CollateralA \<Rightarrow> (fst (lp_reserves p ra rb), snd (lp_reserves p ra rb) + i)
      | CollateralB \<Rightarrow> (fst (lp_reserves p ra rb) + i, snd (lp_reserves p ra rb)))"
    using res(1) unfolding reserves_cong [OF same] by simp
  have res2: "covered p ra rb \<longrightarrow> covered q ra' rb'" using res(2) by (simp add: reserves_cong [OF same])
  have "0 \<le> int (unat owe) - int (unat (loan_debt_principal l))" using owed_covers [OF ow(1)] ow(2) by simp
  then have i: "0 \<le> (int (unat owe) - int (unat (loan_debt_principal l)))" "lp_reserves q ra' rb' =
      (case sides of CollateralA \<Rightarrow> (fst (lp_reserves p ra rb), snd (lp_reserves p ra rb) + (int (unat owe) - int (unat (loan_debt_principal l))))
       | CollateralB \<Rightarrow> (fst (lp_reserves p ra rb) + (int (unat owe) - int (unat (loan_debt_principal l))), snd (lp_reserves p ra rb)))"
    using res1 unfolding Let_def by simp_all
  show ?thesis
    by (intro exI conjI) (rule entries new r fr clk am v(3) res2 coll [symmetric] repay_amounts_debt [OF am] refl i)+
qed

section \<open>Openings\<close>

text \<open>Allocating and storing the loan and its band leaves the data of every other account alone.\<close>

lemma allocate_band_frame:
  assumes "system_law e" "open_loan_allocate_band e pid a bi sys bid d bump rent w = Ok w'" "k \<noteq> key bi"
  shows "data (ledger w' k) = data (ledger w k)"
proof -
  let ?m = "saturating_sub (rent LOAN_INDEX_BAND_LEN) (lamports (acct w bi))"
  have one: "data (ledger w1 k) = data (ledger w k)"
    if "create_pda_account e (user_info a) bi sys LOAN_INDEX_BAND_LEN pid seeds rent w = Ok w1" for w1 seeds
    using created_account [OF assms(1) _ that] assms(3) by (simp add: LOAN_INDEX_BAND_LEN_def same_contents_def)
  have two: "data (ledger w1 k) = data (ledger w k)"
    if "(if 0 < ?m then invoke e (SysTransfer (key (user_info a)) (key bi) ?m) [user_info a, bi, sys] w else Ok w) = Ok w1" for w1
    using that system_lawD(2) [OF assms(1)] by (auto simp: invoke_def same_contents_def split: if_splits)
  have three: "ledger w2 k = ledger w1 k" if "serialize_into enc bi w1 = Ok w2" for enc w1 w2
    using serialize_frame [OF that] assms(3) by auto
  from assms(2) obtain w1 where
    "(if data_is_empty w bi then
        create_pda_account e (user_info a) bi sys LOAN_INDEX_BAND_LEN pid
          [BAND_SEED, put_key (key (pool_info a)), [d], put_word 4 bid, [bump]] rent w
      else if is_zeroed_program_account w bi pid LOAN_INDEX_BAND_LEN then
        (if 0 < ?m then invoke e (SysTransfer (key (user_info a)) (key bi) ?m) [user_info a, bi, sys] w else Ok w)
      else Ok w) = Ok w1"
    and "w' = w1 \<or> (\<exists>enc. serialize_into enc bi w1 = Ok w')"
    unfolding open_loan_allocate_band_def Let_def and_then_Ok_iff by (auto split: if_splits simp del: serialize_into_Ok_iff)
  then have "data (ledger w1 k) = data (ledger w k)" "ledger w' k = ledger w1 k"
    using one two three by (auto split: if_splits)
  then show ?thesis by simp
qed

lemma allocate_frame:
  assumes "system_law e" "open_loan_allocate e pid a li bi sys nonce p trigger dir w = Ok (bump, bid, b, q, slot, w')"
    and "k \<noteq> key li" "k \<noteq> key bi"
  shows "data (ledger w' k) = data (ledger w k)"
proof -
  from assms(2) obtain rent w1 seeds bb where
    w1: "create_pda_account e (user_info a) li sys LOAN_LEN pid seeds rent w = Ok w1"
    and w': "open_loan_allocate_band e pid a bi sys bid (direction_byte dir) bb rent w1 = Ok w'"
    by (auto simp: open_loan_allocate_def Let_def)
  have "data (ledger w1 k) = data (ledger w k)"
    using created_account [OF assms(1) _ w1] assms(3) by (simp add: LOAN_LEN_def same_contents_def)
  then show ?thesis using allocate_band_frame [OF assms(1) w' assms(4)] by simp
qed

lemma store_frame:
  assumes "open_loan_store a li bi sb c d nonce p trigger dir bump bid b slot w = Ok w'" "k \<noteq> key li" "k \<noteq> key bi"
  shows "ledger w' k = ledger w k"
proof -
  from assms(1) obtain w1 enc1 enc2 where "serialize_into enc1 li w = Ok w1" "serialize_into enc2 bi w1 = Ok w'"
    unfolding open_loan_store_def and_then_Ok_iff by blast
  from this [THEN serialize_frame] assms(2,3) show ?thesis by auto
qed

text \<open>The books of a new loan, on the accounted reserves.\<close>

lemma open_book_reserves:
  assumes "open_loan_book p sides c d slot = Ok q" "accounted p ra rb = Ok (A, B)" "swappable p ra rb = Ok (sa, sb)"
    and "unat d \<le> unat (case sides of CollateralA \<Rightarrow> sb | CollateralB \<Rightarrow> sa)"
    and "vaults_moved sides (int (unat c)) (- int (unat d)) ra rb ra' rb'"
  shows "accounted q ra' rb' = Ok (A, B)"
proof -
  have r: "covered p ra rb" "lp_reserves p ra rb = (int (unat A), int (unat B))"
    using assms(2) by (simp_all add: accounted_reserves)
  have "lp_reserves q ra' rb' = lp_reserves p ra rb"
    using open_loan_book_Ok [OF assms(1)] assms(5)
    by (cases sides) (auto simp: lp_reserves_def vaults_moved_def)
  moreover have "covered q ra' rb'"
    using open_loan_book_Ok [OF assms(1)] assms(3-5) r(1)
    by (cases sides) (auto simp: covered_def vaults_moved_def swappable_Ok_iff)
  ultimately show ?thesis using r(2) by (simp add: accounted_reserves)
qed

lemma loan_terms_Ok:
  assumes "loan_terms p ra rb slot sides c d trigger dir = Ok ()"
  obtains A B sa sb spot ref s1 s2 where "accounted p ra rb = Ok (A, B)" "swappable p ra rb = Ok (sa, sb)"
    "price_b_per_a_wad A B = Ok spot" "ref_price_at p spot slot = Ok ref"
    "ltv_bps (widen d) (widen c) (fst (fst (loan_prices sides A B ref))) (snd (fst (loan_prices sides A B ref))) = Ok s1"
    "ltv_bps (widen d) (widen c) (fst (snd (loan_prices sides A B ref))) (snd (snd (loan_prices sides A B ref))) = Ok s2"
    "unat s1 \<le> unat (max_ltv_bps p)" "unat s2 \<le> unat (max_ltv_bps p)" "\<not> is_liquidatable trigger dir spot"
    "unat d \<le> unat (case sides of CollateralA \<Rightarrow> sb | CollateralB \<Rightarrow> sa)"
proof -
  from assms obtain A B sa sb spot ref s1 s2 where
    "accounted p ra rb = Ok (A, B)" "swappable p ra rb = Ok (sa, sb)" "price_b_per_a_wad A B = Ok spot"
    "ref_price_at p spot slot = Ok ref"
    "ltv_bps (widen d) (widen c) (fst (fst (loan_prices sides A B ref))) (snd (fst (loan_prices sides A B ref))) = Ok s1"
    "ltv_bps (widen d) (widen c) (fst (snd (loan_prices sides A B ref))) (snd (snd (loan_prices sides A B ref))) = Ok s2"
    and s: "\<not> widen (max_ltv_bps p) < max s1 s2" and "\<not> is_liquidatable trigger dir spot"
    and d: "\<not> (case sides of CollateralA \<Rightarrow> sb | CollateralB \<Rightarrow> sa) < widen d"
    unfolding loan_terms_def Let_def and_then_Ok_iff guard_Ok_iff case_prod_beta by (metis prod.collapse)
  moreover have "unat s1 \<le> unat (max_ltv_bps p)" "unat s2 \<le> unat (max_ltv_bps p)"
    using s by (auto simp: not_less word_le_nat_alt max_def split: if_splits)
  moreover have "unat d \<le> unat (case sides of CollateralA \<Rightarrow> sb | CollateralB \<Rightarrow> sa)"
    using d by (simp add: not_less word_le_nat_alt)
  ultimately show thesis using that by blast
qed

text \<open>The terms a loan is granted on, over the pool before accrual and the one after.\<close>

lemma open_terms_sound:
  assumes "open_loan_terms e a sides_byte c d p w = Ok (p1, sides, trigger, dir)"
  obtains ra rb A B sa sb spot ltv where
    "read_token_amount e w (vault_a_info a) = Ok ra" "read_token_amount e w (vault_b_info a) = Ok rb"
    "accounted p ra rb = Ok (A, B)" "accounted p1 ra rb = Ok (A, B)" "swappable p1 ra rb = Ok (sa, sb)"
    "unat d \<le> unat (case sides of CollateralA \<Rightarrow> sb | CollateralB \<Rightarrow> sa)"
    "price_b_per_a_wad A B = Ok spot" "\<not> is_liquidatable trigger dir spot"
    "(case sides of CollateralA \<Rightarrow> ltv_bps (widen d) (widen c) A B
     | CollateralB \<Rightarrow> ltv_bps (widen d) (widen c) B A) = Ok ltv" "unat ltv \<le> unat (max_ltv_bps p1)"
proof -
  from assms obtain s0 ra rb where r: "read_token_amount e w (vault_a_info a) = Ok ra" "read_token_amount e w (vault_b_info a) = Ok rb"
    and bump: "bump_indexes p ra rb s0 = Ok p1" and lt: "loan_terms p1 ra rb s0 sides c d trigger dir = Ok ()"
    by (auto simp: open_loan_terms_def)
  obtain A B sa sb spot ref s1 s2 where t: "accounted p1 ra rb = Ok (A, B)" "swappable p1 ra rb = Ok (sa, sb)"
    "price_b_per_a_wad A B = Ok spot" "ref_price_at p1 spot s0 = Ok ref"
    "ltv_bps (widen d) (widen c) (fst (fst (loan_prices sides A B ref))) (snd (fst (loan_prices sides A B ref))) = Ok s1"
    "ltv_bps (widen d) (widen c) (fst (snd (loan_prices sides A B ref))) (snd (snd (loan_prices sides A B ref))) = Ok s2"
    "unat s1 \<le> unat (max_ltv_bps p1)" "unat s2 \<le> unat (max_ltv_bps p1)" "\<not> is_liquidatable trigger dir spot"
    "unat d \<le> unat (case sides of CollateralA \<Rightarrow> sb | CollateralB \<Rightarrow> sa)"
    using lt by (rule loan_terms_Ok)
  have "same_reserves p p1" using bump_reserves [OF bump, of 0] by (simp add: same_reserves_def)
  then have acc: "accounted p ra rb = Ok (A, B)" using t(1) by (simp add: accounted_reserves reserves_cong)
  have ltv: "(case sides of CollateralA \<Rightarrow> ltv_bps (widen d) (widen c) A B
     | CollateralB \<Rightarrow> ltv_bps (widen d) (widen c) B A) = Ok s1"
    using t(5) by (cases sides) (simp_all add: loan_prices_def)
  show thesis by (rule that [OF r acc t(1,2,10,3,9) ltv t(7)])
qed

text \<open>C8: an opening, end to end. The collateral enters one vault, the principal leaves the other,
  and the providers' accounted reserves are exactly what they were, so the spot price is too. At
  that price the stored loan is within the pool's LTV limit and is not liquidatable.\<close>

theorem opening_accounting:
  assumes "platform e pid" "band_addresses_ok e pid w"
    and "transfer_law e (key (accounts ! 5))" "transfer_law e (key (accounts ! 6))"
    and "separate (loan_handler_accounts accounts 11)"
    and "key (accounts ! 1) \<notin> {key (accounts ! 0), key (accounts ! 8), key (accounts ! 9)}"
      "key (accounts ! 2) \<notin> {key (accounts ! 0), key (accounts ! 8), key (accounts ! 9)}"
    and "process_open_loan e pid accounts sides_byte c d nonce w = Ok w'"
  shows "\<exists>p q l ra rb ra' rb' sides dir A B spot ltv.
    pools pid w (key (accounts ! 0)) = Some p \<and> pools pid w' (key (accounts ! 0)) = Some q \<and>
    loans pid w (key (accounts ! 8)) = None \<and> loans pid w' (key (accounts ! 8)) = Some l \<and> is_open l \<and>
    loan_collateral_amount l = widen c \<and> loan_debt_principal l = widen d \<and>
    loan_sides_from_u8 (loan_sides l) = Ok sides \<and>
    trigger_direction_from_u8 (loan_trigger_direction l) = Ok dir \<and>
    read_token_amount e w (accounts ! 1) = Ok ra \<and> read_token_amount e w (accounts ! 2) = Ok rb \<and>
    read_token_amount e w' (accounts ! 1) = Ok ra' \<and> read_token_amount e w' (accounts ! 2) = Ok rb' \<and>
    vaults_moved sides (int (unat c)) (- int (unat d)) ra rb ra' rb' \<and>
    accounted p ra rb = Ok (A, B) \<and> accounted q ra' rb' = Ok (A, B) \<and>
    price_b_per_a_wad A B = Ok spot \<and> \<not> is_liquidatable (loan_trigger_price_wad l) dir spot \<and>
    (case sides of CollateralA \<Rightarrow> ltv_bps (widen d) (widen c) A B
     | CollateralB \<Rightarrow> ltv_bps (widen d) (widen c) B A) = Ok ltv \<and> unat ltv \<le> unat (max_ltv_bps p)"
proof (rule open_effect [OF platform_parts(2,3) [OF assms(1)] band_addresses_pda [OF assms(2)] assms(8)])
  let ?a = "loan_handler_accounts accounts 11"
  have a: "pool_info ?a = accounts ! 0" "vault_a_info ?a = accounts ! 1" "vault_b_info ?a = accounts ! 2"
    "mint_a_info ?a = accounts ! 5" "mint_b_info ?a = accounts ! 6" by (simp_all add: loan_handler_accounts_def)
  fix p p1 sides trigger dir bump bid b p2 slot w1 w2 w3 q snap n l
  assume pe: "pools pid w (key (accounts ! 0)) = Some p"
    and terms: "open_loan_terms e ?a sides_byte c d p w = Ok (p1, sides, trigger, dir)"
    and alloc: "open_loan_allocate e pid ?a (accounts ! 8) (accounts ! 9) (accounts ! 10)
       nonce p1 trigger dir w = Ok (bump, bid, b, p2, slot, w1)"
    and none: "loans pid w (key (accounts ! 8)) = None" and sd: "loan_sides_from_u8 sides_byte = Ok sides"
    and store: "open_loan_store ?a (accounts ! 8) (accounts ! 9) sides_byte c d nonce p2
       trigger dir bump bid b slot w1 = Ok w2"
    and w3: "open_loan_transfers e ?a sides c d p2 w2 = Ok w3"
    and book: "open_loan_book p2 sides c d slot = Ok q"
    and put: "ledger w' = ledger (put_data (accounts ! 0) (pool_bytes q) w3)"
    and touch: "touch p p1"
    and l: "l = new_loan (key (accounts ! 0)) (key (accounts ! 7)) nonce bump sides_byte c d snap slot trigger
       (direction_byte dir) bid"
    and eq: "books_of pid w' = (books_of pid w)\<lparr>b_pools := (pools pid w)(key (accounts ! 0) \<mapsto> q),
       b_loans := (loans pid w)(key (accounts ! 8) \<mapsto> l),
       b_bands := (bands pid w)(key (accounts ! 9) \<mapsto> b\<lparr>band_count := n\<rparr>)\<rparr>"
  have new: "pools pid w' (key (accounts ! 0)) = Some q" "loans pid w' (key (accounts ! 8)) = Some l"
    using eq by (simp_all add: books_of_def)
  obtain ra rb A B sa sb spot ltv where r: "read_token_amount e w (accounts ! 1) = Ok ra" "read_token_amount e w (accounts ! 2) = Ok rb"
    and acc: "accounted p ra rb = Ok (A, B)" "accounted p1 ra rb = Ok (A, B)" "swappable p1 ra rb = Ok (sa, sb)"
    and d: "unat d \<le> unat (case sides of CollateralA \<Rightarrow> sb | CollateralB \<Rightarrow> sa)"
    and spot: "price_b_per_a_wad A B = Ok spot" "\<not> is_liquidatable trigger dir spot"
    and ltv: "(case sides of CollateralA \<Rightarrow> ltv_bps (widen d) (widen c) A B
     | CollateralB \<Rightarrow> ltv_bps (widen d) (widen c) B A) = Ok ltv" "unat ltv \<le> unat (max_ltv_bps p1)"
    by (rule open_terms_sound [OF terms, unfolded a])
  have same12: "same_reserves p1 p2"
    using alloc bitmap_mut_reserves by (fastforce simp: open_loan_allocate_def Let_def same_reserves_def split: if_splits)
  have r2: "read_token_amount e w2 v = read_token_amount e w v" if "key v \<notin> {key (accounts ! 8), key (accounts ! 9)}" for v
    using allocate_frame [OF platform_parts(3) [OF assms(1)] alloc, of "key v"] store_frame [OF store, of "key v"] that
    by (simp add: read_token_amount_def acct_def)
  obtain ra' rb' where v: "read_token_amount e w3 (accounts ! 1) = Ok ra'" "read_token_amount e w3 (accounts ! 2) = Ok rb'"
    "vaults_moved sides (int (unat c)) (- int (unat d)) ra rb ra' rb'"
    using open_transfers_vaults [OF _ _ assms(5) w3, of ra rb] assms(3,4,6,7) r r2 [of "accounts ! 1"] r2 [of "accounts ! 2"]
    by (auto simp: a)
  have fr: "read_token_amount e w' (accounts ! 1) = Ok ra'" "read_token_amount e w' (accounts ! 2) = Ok rb'"
    using v(1,2) put assms(6,7) by (simp_all add: read_token_amount_def acct_def put_data_def)
  have acc2: "accounted p2 ra rb = Ok (A, B)" "swappable p2 ra rb = Ok (sa, sb)"
    using acc(2,3) same12 reserves_cong [OF same12] by (simp_all add: accounted_reserves swappable_Ok_iff same_reserves_def)
  have accq: "accounted q ra' rb' = Ok (A, B)" by (rule open_book_reserves [OF book acc2 d v(3)])
  have lo: "loan_sides_from_u8 (loan_sides l) = Ok sides" "loan_collateral_amount l = widen c" "is_open l"
    "loan_debt_principal l = widen d" "trigger_direction_from_u8 (loan_trigger_direction l) = Ok dir"
    using sd by (cases dir; simp add: l new_loan_def is_open_def trigger_direction_from_u8_def)+
  have nl: "\<not> is_liquidatable (loan_trigger_price_wad l) dir spot" using spot(2) by (simp add: l new_loan_def)
  have le: "unat ltv \<le> unat (max_ltv_bps p)" using ltv(2) touch params_fields(4) [of p1 p] by (simp add: touch_def)
  show ?thesis
    by (intro exI conjI) (rule pe new none lo r fr v(3) acc(1) accq spot(1) nl ltv(1) le)+
qed

section \<open>The sample runs\<close>

lemma sample_supply_law: "supply_law sample_env"
proof -
  have up: "(\<forall>k. k \<noteq> m \<longrightarrow> k \<noteq> acc \<longrightarrow> l' k = l k) \<and>
      (\<exists>s s'. mint_of (data (l m)) = Ok s \<and> mint_of (data (l' m)) = Ok s' \<and>
         unat (mint_supply s') = unat (mint_supply s) + unat n)"
    if "token_supply_change True m acc n l = Ok l'" for m acc n l l'
    using that by (auto simp: token_supply_change_def Let_def checked_add_Some_iff)
  have down: "(\<forall>k. k \<noteq> m \<longrightarrow> k \<noteq> acc \<longrightarrow> l' k = l k) \<and>
      (\<exists>s s'. mint_of (data (l m)) = Ok s \<and> mint_of (data (l' m)) = Ok s' \<and>
         unat (mint_supply s) = unat (mint_supply s') + unat n)"
    if "token_supply_change False m acc n l = Ok l'" for m acc n l l'
    using that by (auto simp: token_supply_change_def Let_def checked_sub_Some_iff)
  show ?thesis unfolding supply_law_def sample_env_simps
    by (intro allI conjI impI) (auto dest: up down split: if_splits)
qed

lemmas sample_laws = platform_parts(2) [OF sample_platform] sample_supply_law sample_transfer_law

theorem deposit_accounting_witness:
  "\<exists>w' q (x :: u64) (y :: u64). process_add_liquidity sample_env 99 sample_lp_accounts 1000 1000 0 (sample_world sample_pool) = Ok w' \<and>
    load_pool w' (info 2) = Ok q \<and> covered q (1070011 + widen x) (960013 + widen y) \<and>
    lp_reserves q (1070011 + widen x) (960013 + widen y) = (1000000 + int (unat x), 1000000 + int (unat y))"
proof -
  obtain w' where w': "process_add_liquidity sample_env 99 sample_lp_accounts 1000 1000 0 (sample_world sample_pool) = Ok w'"
    using sample_deposit_runs by blast
  have sep: "separate (add_liquidity_accounts sample_lp_accounts)"
    by (simp add: separate_def add_liquidity_accounts_def sample_lp_fields)
  from deposit_accounting [OF sample_laws(1,2,3,3) sep _ _ _ w'] w'
  show ?thesis by (auto simp: sample_lp_fields sample_accounted; blast)
qed

theorem withdrawal_accounting_witness:
  "\<exists>w' q (x :: u64) (y :: u64). process_remove_liquidity sample_env 99 sample_lp_accounts 1000 0 0 (sample_world sample_pool) = Ok w' \<and>
    load_pool w' (info 2) = Ok q \<and> covered q (1070011 - widen x) (960013 - widen y) \<and>
    lp_reserves q (1070011 - widen x) (960013 - widen y) = (1000000 - int (unat x), 1000000 - int (unat y))"
proof -
  obtain w' where w': "process_remove_liquidity sample_env 99 sample_lp_accounts 1000 0 0 (sample_world sample_pool) = Ok w'"
    using sample_withdrawal_runs by blast
  have sep: "separate (remove_liquidity_accounts sample_lp_accounts)"
    by (simp add: separate_def remove_liquidity_accounts_def sample_lp_fields)
  from withdrawal_accounting [OF sample_laws(1,2,3,3) sep _ _ _ w'] w'
  show ?thesis by (auto simp: sample_lp_fields sample_accounted; blast)
qed

theorem opening_accounting_witness:
  "\<exists>w' q l ra' rb'. process_open_loan sample_env 99 sample_open_accounts 0 7000 4000 1 (sample_world sample_pool) = Ok w' \<and>
    pools 99 w' 2 = Some q \<and> loans 99 w' 21 = Some l \<and> is_open l \<and> accounted q ra' rb' = Ok (1000000, 1000000)"
proof -
  obtain w' where w': "process_open_loan sample_env 99 sample_open_accounts 0 7000 4000 1 (sample_world sample_pool) = Ok w'"
    using sample_open_runs by blast
  have sep: "separate (loan_handler_accounts sample_open_accounts 11)"
    by (simp add: separate_def loan_handler_accounts_def sample_open_fields)
  from opening_accounting [OF sample_platform sample_band_addresses sample_laws(3,3) sep _ _ w'] w'
  show ?thesis by (auto simp: sample_open_fields sample_accounted sample_maps; blast)
qed

theorem fee_claim_accounting_witness:
  "\<exists>w' q. process_claim_protocol_fees sample_env 99 sample_claim_accounts (sample_world sample_pool) = Ok w' \<and>
    load_pool w' (info 2) = Ok q \<and> protocol_fees_a q = 0 \<and> protocol_fees_b q = 0 \<and>
    read_token_amount sample_env w' (info 15) = Ok 11 \<and> read_token_amount sample_env w' (info 16) = Ok 13"
proof -
  obtain w' where w': "process_claim_protocol_fees sample_env 99 sample_claim_accounts (sample_world sample_pool) = Ok w'"
    using sample_claim_runs by auto
  have a: "sample_claim_accounts ! 0 = info 2" "sample_claim_accounts ! Suc 0 = info 5" "sample_claim_accounts ! 2 = info 6"
    "sample_claim_accounts ! 3 = info 15" "sample_claim_accounts ! 4 = info 16"
    by (simp_all add: sample_claim_accounts_def)
  have z: "read_token_amount sample_env (sample_world sample_pool) (info 15) = Ok 0"
    "read_token_amount sample_env (sample_world sample_pool) (info 16) = Ok 0"
    by (simp_all add: read_token_amount_Ok_iff balance_def sample_ledger_def sample_world_def)
  from fee_claim_accounting [OF sample_laws(1,3,3) _ _ _ _ _ w', of 1070011 960013 0 0] w'
  show ?thesis by (auto simp: a z sample_pool_simps widen_def)
qed

text \<open>The sample loan is repaid.\<close>

lemma sample_repay_runs:
  "\<exists>w'. process_repay_loan sample_env 99 sample_repay_accounts (sample_world sample_pool) = Ok w'"
proof -
  let ?a = "loan_handler_accounts sample_repay_accounts 10" and ?w = "sample_world sample_pool"
  have f: "length sample_repay_accounts = 12" "sample_repay_accounts ! 0 = info 2" "sample_repay_accounts ! Suc 0 = info 5"
    "sample_repay_accounts ! 2 = info 6" "sample_repay_accounts ! 7 = signer 9" "sample_repay_accounts ! 8 = info 20"
    "sample_repay_accounts ! 9 = info 164" by (simp_all add: sample_repay_accounts_def)
  have a: "pool_info ?a = info 2" "user_info ?a = signer 9" by (simp_all add: loan_handler_accounts_def f)
  have l: "is_open sample_loan" "loan_pool sample_loan = 2" "loan_borrower sample_loan = 9" "loan_band_id sample_loan = 64"
    "loan_trigger_direction sample_loan = 0" by (simp_all add: is_open_def sample_loan_def)
  have b: "band_pool sample_band = 2" "band_band_id sample_band = 64" "band_direction sample_band = 0"
    by (simp_all add: sample_band_def)
  have "band_derive_pda sample_env 2 0 64 99 = Ok (164, 255)" by (simp add: sample_addresses)
  moreover have "pool_keys_match sample_pool ?a"
    by (simp add: pool_keys_match_def loan_handler_accounts_def sample_repay_accounts_def sample_pool_simps)
  ultimately have load: "repay_load sample_env 99 ?a (sample_repay_accounts ! 8) (sample_repay_accounts ! 9) ?w =
      Ok (sample_pool, sample_loan, sample_band)"
    by (simp add: repay_load_def a f l b del: and_then_Ok_iff)
  have chk: "check_signer_and_token_programs sample_env ?w ?a = Ok ()"
    by (simp add: check_signer_and_token_programs_def loan_handler_accounts_def sample_repay_accounts_def sample_token_programs)
  obtain w1 where w1: "repay_transfers sample_env ?a CollateralA 40000 70000 sample_pool ?w = Ok w1"
    "\<forall>k \<in> {9, 20}. ledger w1 k = sample_ledger sample_pool k" using sample_repay_transfers by blast
  show ?thesis
    by (rule repay_finishes [OF sample_laws(1) sample_book_inv _ _ _ _ load chk _ _ _ sample_repay_amounts w1(1)])
      (use w1(2) in \<open>simp_all add: f sample_maps sample_ledger_def\<close>)
qed

theorem repay_accounting_witness:
  "\<exists>w' q ra' rb'. process_repay_loan sample_env 99 sample_repay_accounts (sample_world sample_pool) = Ok w' \<and>
    pools 99 w' 2 = Some q \<and> loans 99 w' 20 = None \<and> covered q ra' rb' \<and> lp_reserves q ra' rb' = (1000000, 1000000)"
proof -
  obtain w' where w': "process_repay_loan sample_env 99 sample_repay_accounts (sample_world sample_pool) = Ok w'"
    using sample_repay_runs by blast
  have a: "sample_repay_accounts ! 0 = info 2" "sample_repay_accounts ! Suc 0 = info 5" "sample_repay_accounts ! 2 = info 6"
    "sample_repay_accounts ! 8 = info 20" "sample_repay_accounts ! 9 = info 164"
    by (simp_all add: sample_repay_accounts_def)
  have sep: "separate (loan_handler_accounts sample_repay_accounts 10)"
    by (simp add: separate_def loan_handler_accounts_def sample_repay_accounts_def)
  have pr: "loan_debt_principal sample_loan = 40000" by (simp add: sample_loan_def)
  have "covered sample_pool 1070011 960013" "lp_reserves sample_pool 1070011 960013 = (1000000, 1000000)"
    using sample_accounted by (simp_all add: accounted_reserves)
  with repay_accounting [OF sample_laws(1,3,3) sep _ _ w'] w'
  show ?thesis by (auto simp: a sample_maps sample_repay_amounts pr; blast)
qed

end
