(* ===== verification/Loan_Lifecycle.thy ===== *)
theory Loan_Lifecycle
  imports Reserve_Accounting
begin

text \<open>
  The invariant of the open loans as a property of the deployed program, with a ledger reached from
  nothing: the program creates a pool, the vaults receive tokens, and a borrower takes a loan.
\<close>

section \<open>A first loan\<close>

text \<open>After the pool is created other programs set up mints, token accounts and vault balances.\<close>

definition funded_world :: world where
  "funded_world = \<lparr>ledger = (sample_ledger start_pool)
     (20 := \<lparr>lamports = 0, data = [], owner = 0\<rparr>, 164 := \<lparr>lamports = 0, data = [], owner = 0\<rparr>), log = []\<rparr>"

lemma start_pool_simps:
  "pool_wf start_pool" "pool_is_initialized start_pool" "last_index_update_slot start_pool = 100"
  "borrow_index_b_wad start_pool = WAD" "band_bitmap_fall start_pool = replicate 16 0"
  "liq_ratio_bps start_pool = 11000" "max_ltv_bps start_pool = 8000" "ref_price_wad start_pool = 0"
  "total_debt_a start_pool = 0" "total_debt_b start_pool = 0" "total_collateral_a start_pool = 0"
  "total_collateral_b start_pool = 0" "protocol_fees_a start_pool = 0" "protocol_fees_b start_pool = 0"
  "open_loans start_pool = 0" "next_loan_nonce start_pool = 0" "mint_a start_pool = 3" "mint_b start_pool = 4"
  "vault_a start_pool = 5" "vault_b start_pool = 6"
  by (simp_all add: start_pool_def initial_pool_wf initial_pool_initialized)
    (simp_all add: initial_pool_def LIQ_RATIO_BPS_def MAX_LTV_BPS_def)

lemma funded_reachable: "reachable sample_env 99 funded_world"
proof -
  obtain w where run: "dispatch sample_env 99 start_accounts InitializePool start_world = Ok w"
    and pool: "pools 99 w 2 = Some start_pool" and own: "\<forall>k. k \<noteq> 2 \<longrightarrow> owner (ledger w k) \<noteq> 99"
    using start_creates by blast
  have env: "sample_env\<lparr>clock_get := Ok 100\<rparr> = sample_env" by (simp add: sample_env_def)
  have r: "reachable sample_env 99 w"
    using reachable.instruction [OF start_reachable, of "Ok 100" start_accounts InitializePool w] run unfolding env by blast
  have "owner (ledger w 2) = 99" "data (ledger w 2) = pool_bytes start_pool" using pool by (simp_all add: pools_Some)
  then have 2: "same_contents (ledger w 2) (ledger funded_world 2)"
    by (simp add: same_contents_def funded_world_def sample_ledger_def)
  have foreign: "owner (ledger funded_world k) \<noteq> 99" if "k \<noteq> 2" for k
    using that by (simp add: funded_world_def sample_ledger_def sample_token_def plain_def SPL_TOKEN_PROGRAM_ID_def)
  have far: "unclaimed_or_own sample_env 99 (ledger funded_world k)" if "100 \<le> unat k" for k
    using that by (auto simp: funded_world_def sample_ledger_def unclaimed_or_own_def)
  have "outside sample_env 99 w funded_world"
    unfolding outside_def
  proof (intro allI conjI impI)
    fix k
    show "same_contents (ledger w k) (ledger funded_world k) \<or>
        list_all (\<lambda>b. b = 0) (data (ledger w k)) \<and> owner (ledger funded_world k) = system_program_id sample_env \<and>
        data (ledger funded_world k) = []" if "owner (ledger w k) = 99"
      using that own 2 by (cases "k = 2") auto
    show "list_all (\<lambda>b. b = 0) (data (ledger funded_world k))" if "owner (ledger w k) \<noteq> 99" "owner (ledger funded_world k) = 99"
      using that foreign [of k] pool by (cases "k = 2") (auto simp: pools_Some)
    show "unclaimed_or_own sample_env 99 (ledger funded_world k)"
      if "band_derive_pda sample_env pk d bid 99 = Ok (k, bump)" for pk d bid bump
      using that far [of k] by (simp add: sample_addresses)
  qed
  with r show ?thesis by (rule reachable.other)
qed

text \<open>Borrower 9 takes 4000 B against 7000 A. The loan and its band are both new.\<close>

definition first_accounts :: "account_info list" where
  "first_accounts = sample_open_accounts[8 := info 20]"

lemma first_infos: "loan_handler_accounts first_accounts 11 = sample_open_infos"
  by (simp add: first_accounts_def loan_handler_accounts_def sample_open_accounts_def)

lemma first_terms:
  "accounted start_pool 1070011 960013 = Ok (1070011, 960013)"
  "loan_terms start_pool 1070011 960013 100 CollateralA 7000 4000 628571428571428571 OnFall = Ok ()"
proof -
  let ?s = "897199187671902438 :: u128"
  show acc: "accounted start_pool 1070011 960013 = Ok (1070011, 960013)"
    by (simp add: accounted_linear start_pool_simps)
  have sw: "swappable start_pool 1070011 960013 = Ok (1070011, 960013)" by (simp add: swappable_Ok_iff start_pool_simps)
  have pr: "price_b_per_a_wad 1070011 960013 = Ok ?s" by (simp add: price_b_per_a_wad_Ok_iff)
  have rf: "ref_price_at start_pool ?s 100 = Ok ?s"
    by (simp add: ref_price_at_def start_pool_simps ema_ref_price_wad_def)
  have l1: "ltv_bps 4000 7000 1070011 960013 = Ok 6369" by (simp add: ltv_bps_Ok_iff)
  have l2: "ltv_bps 4000 7000 WAD ?s = Ok 6369" by (simp add: ltv_bps_Ok_iff WAD_def)
  show "loan_terms start_pool 1070011 960013 100 CollateralA 7000 4000 628571428571428571 OnFall = Ok ()"
    by (simp add: loan_terms_def acc sw pr rf loan_prices_def widen_def l1 l2 start_pool_simps
        del: and_then_Ok_iff)
qed

abbreviation first_pool :: pool where
  "first_pool \<equiv> start_pool\<lparr>band_bitmap_fall := replicate 8 0 @ 1 # replicate 7 0\<rparr>"

abbreviation first_loan :: loan where
  "first_loan \<equiv> new_loan 2 9 0 255 0 7000 4000 WAD 100 628571428571428571 0 64"

lemma first_bit: "band_bitmap_mut start_pool 0 (\<lambda>bm. bitmap_set bm 64) = Ok first_pool"
proof -
  have "bitmap_set (replicate 16 0) 64 = Ok (replicate 8 0 @ 1 # replicate 7 0)" by code_simp
  then show ?thesis by (simp add: band_bitmap_mut_def start_pool_simps)
qed

text \<open>Accounts 20 and 164 are created for the loan and the band, at the expense of the borrower.\<close>

lemma first_allocates:
  obtains w1 where
    "open_loan_allocate sample_env 99 sample_open_infos (info 20) (info 164) (info 0) 0 start_pool 628571428571428571 OnFall
       funded_world = Ok (255, 64, new_band 2 64 0 255, first_pool, 100, w1)"
    "\<forall>k. k \<notin> {9, 20, 164} \<longrightarrow> ledger w1 k = sample_ledger start_pool k"
    "length (data (ledger w1 20)) = LOAN_LEN" "length (data (ledger w1 164)) = LOAN_INDEX_BAND_LEN"
proof -
  let ?r = "\<lambda>n. of_nat n + 128 :: u64"
  let ?seeds = "[LOAN_SEED, put_key 2, put_key 9, put_word 8 (0 :: u64), [255]]"
  let ?bseeds = "[BAND_SEED, put_key 2, [0], put_word 4 (64 :: u32), [255]]"
  obtain w1 where w1: "create_pda_account sample_env (signer 9) (info 20) (info 0) LOAN_LEN 99 ?seeds ?r funded_world = Ok w1"
    "\<And>k. k \<noteq> 9 \<Longrightarrow> k \<noteq> 20 \<Longrightarrow> ledger w1 k = ledger funded_world k" "length (data (ledger w1 20)) = LOAN_LEN"
    "lamports (ledger w1 9) = 999662"
    using sample_create [of funded_world "info 20" "signer 9" ?r LOAN_LEN]
    by (simp add: LOAN_LEN_def funded_world_def sample_ledger_def)
  obtain w2 where w2: "create_pda_account sample_env (signer 9) (info 164) (info 0) LOAN_INDEX_BAND_LEN 99 ?bseeds ?r w1 = Ok w2"
    "\<And>k. k \<noteq> 9 \<Longrightarrow> k \<noteq> 164 \<Longrightarrow> ledger w2 k = ledger w1 k" "length (data (ledger w2 164)) = LOAN_INDEX_BAND_LEN"
    using sample_create [of w1 "info 164" "signer 9" ?r LOAN_INDEX_BAND_LEN] w1(2) [of 164] w1(4)
    by (simp add: LOAN_INDEX_BAND_LEN_def funded_world_def word_le_nat_alt)
  have wf: "loan_index_band_wf (new_band 2 64 0 255)" "band_is_initialized (new_band 2 64 0 255)"
    by (simp_all add: new_band_def loan_index_band_wf_def band_is_initialized_def LOAN_INDEX_BAND_DISCRIMINATOR_def)
  let ?w3 = "put_data (info 164) (loan_index_band_bytes (new_band 2 64 0 255)) w2"
  have w3: "serialize_into (loan_index_band_bytes (new_band 2 64 0 255)) (info 164) w2 = Ok ?w3"
    using w2(3) length_loan_index_band_bytes [OF wf(1)] by (simp add: acct_def)
  have loan_at: "loan_derive_pda sample_env 2 9 0 99 = Ok (20, 255)"
    by (simp add: loan_derive_pda_def sample_find_def LOAN_SEED_def POOL_SEED_def VAULT_A_SEED_def VAULT_B_SEED_def
        LP_MINT_SEED_def put_word_def le_nat_le_bytes)
  have band_at: "band_derive_pda sample_env 2 0 64 99 = Ok (164, 255)" by (simp add: sample_addresses)
  have empty: "data (ledger funded_world 20) = []" "data (ledger w1 164) = []"
    using w1(2) [of 164] by (simp_all add: funded_world_def)
  have band: "open_loan_allocate_band sample_env 99 sample_open_infos (info 164) (info 0) 64 0 255 ?r w1 = Ok ?w3"
    by (simp add: open_loan_allocate_band_def Let_def data_is_empty_def acct_def empty sample_open_infos_fields w2(1) w3
        del: and_then_Ok_iff serialize_into_Ok_iff)
  have lb: "load_band ?w3 (info 164) = Ok (new_band 2 64 0 255)" using wf by (simp add: load_band_Ok_iff acct_def put_data_def)
  have bf: "band_pool (new_band 2 64 0 255) = 2" "band_band_id (new_band 2 64 0 255) = 64"
    "band_direction (new_band 2 64 0 255) = 0" "band_count (new_band 2 64 0 255) = 0" by (simp_all add: new_band_def)
  have room: "MAX_LOANS \<noteq> 0" by (simp add: MAX_LOANS_def word_le_nat_alt)
  have "open_loan_allocate sample_env 99 sample_open_infos (info 20) (info 164) (info 0) 0 start_pool 628571428571428571 OnFall
      funded_world = Ok (255, 64, new_band 2 64 0 255, first_pool, 100, ?w3)"
    using w1(1) by (simp add: open_loan_allocate_def Let_def sample_open_infos_fields loan_at sample_open_terms band_at
        data_is_empty_def acct_def empty band lb wf bf room first_bit del: and_then_Ok_iff)
  moreover have "\<forall>k. k \<notin> {9, 20, 164} \<longrightarrow> ledger ?w3 k = sample_ledger start_pool k"
    using w1(2) w2(2) by (simp add: put_data_def funded_world_def)
  moreover have "length (data (ledger ?w3 20)) = LOAN_LEN" "length (data (ledger ?w3 164)) = LOAN_INDEX_BAND_LEN"
    using w1(3) w2(2) [of 20] length_loan_index_band_bytes [OF wf(1)] by (simp_all add: put_data_def)
  ultimately show thesis by (rule that)
qed

lemma first_stores:
  assumes fr: "\<forall>k. k \<notin> {9, 20, 164} \<longrightarrow> ledger w1 k = sample_ledger start_pool k"
    and len: "length (data (ledger w1 20)) = LOAN_LEN" "length (data (ledger w1 164)) = LOAN_INDEX_BAND_LEN"
  obtains w2 where
    "open_loan_store sample_open_infos (info 20) (info 164) 0 7000 4000 0 first_pool 628571428571428571 OnFall 255 64
       (new_band 2 64 0 255) 100 w1 = Ok w2"
    "\<forall>k. k \<notin> {9, 20, 164} \<longrightarrow> ledger w2 k = sample_ledger start_pool k"
proof -
  let ?b = "(new_band 2 64 0 255)\<lparr>band_count := 1\<rparr>"
  let ?w2 = "put_data (info 20) (loan_bytes first_loan) w1"
  let ?w3 = "put_data (info 164) (loan_index_band_bytes ?b) ?w2"
  have wf: "loan_wf first_loan" "loan_index_band_wf ?b"
    by (simp_all add: new_loan_def loan_wf_def new_band_def loan_index_band_wf_def LOAN_DISCRIMINATOR_def
        LOAN_INDEX_BAND_DISCRIMINATOR_def)
  have w2: "serialize_into (loan_bytes first_loan) (info 20) w1 = Ok ?w2"
    using len(1) length_loan_bytes [OF wf(1)] by (simp add: acct_def)
  have w3: "serialize_into (loan_index_band_bytes ?b) (info 164) ?w2 = Ok ?w3"
    using len(2) length_loan_index_band_bytes [OF wf(2)] by (simp add: acct_def put_data_def)
  have "band_count (new_band 2 64 0 255) = 0" by (simp add: new_band_def)
  then have "open_loan_store sample_open_infos (info 20) (info 164) 0 7000 4000 0 first_pool 628571428571428571 OnFall 255 64
      (new_band 2 64 0 255) 100 w1 = Ok ?w3"
    by (simp add: open_loan_store_def sample_open_infos_fields borrow_index_for_debt_side_def start_pool_simps w2 w3
        checked_add_def del: and_then_Ok_iff serialize_into_Ok_iff)
  then show thesis by (rule that) (use fr in \<open>simp add: put_data_def\<close>)
qed

lemma first_runs:
  "\<exists>w'. dispatch sample_env 99 first_accounts (OpenLoan 0 7000 4000 0) funded_world = Ok w'"
proof -
  let ?w = funded_world
  have f: "length first_accounts = 13" "first_accounts ! 8 = info 20" "first_accounts ! 9 = info 164"
    "first_accounts ! 10 = info 0" "first_accounts ! 7 = signer 9"
    by (simp_all add: first_accounts_def sample_open_accounts_def)
  have mints: "validate_token_program_for_mint sample_env ?w (info SPL_TOKEN_PROGRAM_ID) (info 3) = Ok ()"
    "validate_token_program_for_mint sample_env ?w (info SPL_TOKEN_PROGRAM_ID) (info 4) = Ok ()"
    by (simp_all add: validate_token_program_for_mint_def is_valid_token_program_def funded_world_def sample_ledger_def acct_def)
  have chk: "check_signer_and_token_programs sample_env ?w sample_open_infos = Ok ()"
    by (simp add: check_signer_and_token_programs_def sample_open_infos_fields mints)
  have pool: "load_pool ?w (info 2) = Ok start_pool" "owner (acct ?w (info 2)) = 99"
    using start_pool_simps by (simp_all add: load_pool_Ok_iff funded_world_def sample_ledger_def acct_def)
  have vaults: "read_token_amount sample_env ?w (info 5) = Ok 1070011" "read_token_amount sample_env ?w (info 6) = Ok 960013"
    by (simp_all add: read_token_amount_Ok_iff balance_def funded_world_def sample_ledger_def)
  have keys: "pool_keys_match start_pool sample_open_infos" by (simp add: pool_keys_match_def sample_open_infos_fields start_pool_simps)
  have bump: "bump_indexes start_pool 1070011 960013 100 = Ok start_pool"
    by (rule bump_indexes_same_slot) (simp add: start_pool_simps)
  have terms: "open_loan_terms sample_env sample_open_infos 0 7000 4000 start_pool ?w =
      Ok (start_pool, CollateralA, 628571428571428571, OnFall)"
    using sample_open_terms first_terms(2)
    by (simp add: open_loan_terms_def sample_open_infos_fields vaults bump widen_def loan_sides_from_u8_def start_pool_simps
        del: and_then_Ok_iff)
  obtain w1 where alloc: "open_loan_allocate sample_env 99 sample_open_infos (info 20) (info 164) (info 0) 0 start_pool
      628571428571428571 OnFall ?w = Ok (255, 64, new_band 2 64 0 255, first_pool, 100, w1)"
    and w1: "\<forall>k. k \<notin> {9, 20, 164} \<longrightarrow> ledger w1 k = sample_ledger start_pool k"
      "length (data (ledger w1 20)) = LOAN_LEN" "length (data (ledger w1 164)) = LOAN_INDEX_BAND_LEN"
    by (rule first_allocates)
  obtain w2 where store: "open_loan_store sample_open_infos (info 20) (info 164) 0 7000 4000 0 first_pool 628571428571428571 OnFall
      255 64 (new_band 2 64 0 255) 100 w1 = Ok w2"
    and w2: "\<forall>k. k \<notin> {9, 20, 164} \<longrightarrow> ledger w2 k = sample_ledger start_pool k" using w1 by (rule first_stores)
  obtain w3 where move: "open_loan_transfers sample_env sample_open_infos CollateralA 7000 4000 first_pool w2 = Ok w3"
    and w3: "ledger w3 2 = sample_ledger start_pool 2" using w2 by (auto intro: sample_open_transfers [of w2 start_pool first_pool])
  let ?q = "first_pool\<lparr>total_collateral_a := 7000, total_debt_b := 4000, open_loans := 1, next_loan_nonce := 1,
      last_update_slot := 100\<rparr>"
  have book: "open_loan_book first_pool CollateralA 7000 4000 100 = Ok ?q"
    by (simp add: open_loan_book_def start_pool_simps checked_add_def widen_def del: and_then_Ok_iff)
  have wf: "pool_wf ?q" using start_pool_simps(1) by (simp add: pool_wf_def)
  have "serialize_into (pool_bytes ?q) (info 2) w3 = Ok (put_data (info 2) (pool_bytes ?q) w3)"
    using w3 length_pool_bytes [OF wf] length_pool_bytes [OF start_pool_simps(1)] by (simp add: acct_def sample_ledger_def)
  then show ?thesis
    by (simp add: process_open_loan_def Let_def f chk first_infos sample_open_infos_fields pool keys terms alloc store move
        book del: and_then_Ok_iff serialize_into_Ok_iff)
qed

lemma first_loan_reachable:
  "\<exists>w l. reachable sample_env 99 w \<and> loans 99 w 20 = Some l \<and> is_open l"
proof -
  obtain w where run: "dispatch sample_env 99 first_accounts (OpenLoan 0 7000 4000 0) funded_world = Ok w"
    using first_runs by blast
  have env: "sample_env\<lparr>clock_get := Ok 100\<rparr> = sample_env" by (simp add: sample_env_def)
  have r: "reachable sample_env 99 w"
    using reachable.instruction [OF funded_reachable, of "Ok 100"] run unfolding env by blast
  have inv: "band_addresses_ok sample_env 99 funded_world" using reachable_inv [OF funded_reachable sample_platform] by blast
  have "process_open_loan sample_env 99 first_accounts 0 7000 4000 0 funded_world = Ok w" using run by simp
  from open_refines [OF platform_parts(2,3) [OF sample_platform] band_addresses_pda [OF inv] this]
  obtain l where tr: "book_trans sample_env 99 (Opened (key (first_accounts ! 8)) l) (books_of 99 funded_world) (books_of 99 w)"
    by blast
  have "b_loans (books_of 99 w) (key (first_accounts ! 8)) = Some l \<and> is_open l" using tr by (elim opened_E) simp
  moreover have "key (first_accounts ! 8) = 20" by (simp add: first_accounts_def sample_open_accounts_def)
  ultimately show ?thesis using r by auto
qed

section \<open>Open loans in every reachable ledger\<close>

lemma owed_total:
  assumes "terms_ok p l" "index_ok p"
  shows "\<exists>debt. owed l (debt_index l p) = Ok debt \<and> unat (loan_debt_principal l) \<le> unat debt"
proof -
  let ?P = "unat (loan_debt_principal l)" and ?I = "unat (debt_index l p)" and ?S = "unat (loan_borrow_index_snapshot_wad l)"
  have t: "10 ^ 18 \<le> ?S" "?S \<le> ?I" "?P < 2 ^ 64" using assms(1) by (simp_all add: terms_ok_def)
  have "?I \<le> 2 ^ 64 * 10 ^ 18" using assms(2) by (auto simp: index_ok_def debt_index_def)
  also have "\<dots> \<le> 2 ^ 64 * ?S" using t(1) by simp
  finally have "?P * ?I \<le> ?P * (2 ^ 64 * ?S)" by (rule mult_le_mono2)
  then have "ceil_div (?P * ?I) ?S \<le> ?P * 2 ^ 64" using t(1) by (simp add: ceil_div_le_iff mult_ac)
  also have "\<dots> < 2 ^ 128" using t(3) by simp
  finally have fits: "unat (of_nat (ceil_div (?P * ?I) ?S) :: u128) = ceil_div (?P * ?I) ?S" by (simp add: unat_of_nat_eq)
  have "loan_borrow_index_snapshot_wad l \<noteq> 0" using t(1) by auto
  then have "owed l (debt_index l p) = Ok (of_nat (ceil_div (?P * ?I) ?S))"
    using t(2) fits by (simp add: owed_def owed_from_index_Ok_iff)
  then show ?thesis using owed_covers by blast
qed

text \<open>C15: in every reachable ledger an open loan is still on the terms it was opened on and its debt can be
  computed. Its pool exists; its stored trigger price and direction are exactly those of its
  collateral and principal under the pool's liquidation ratio; both amounts are positive token
  amounts; its index snapshot is at least one and at most the current index of the side it owes,
  which never exceeds the cap; and the debt at that index is defined, fits 128 bits and covers the
  principal.\<close>

theorem open_loans_serviceable:
  assumes "reachable e pid w" "platform e pid" "loans pid w k = Some l" "is_open l"
  shows "\<exists>p sides dir idx debt. pools pid w (loan_pool l) = Some p \<and>
    loan_sides_from_u8 (loan_sides l) = Ok sides \<and> loan_trigger_direction l = direction_byte dir \<and>
    recompute_trigger sides (loan_collateral_amount l) (loan_debt_principal l) (liq_ratio_bps p) =
      Ok (loan_trigger_price_wad l, dir) \<and>
    0 < unat (loan_debt_principal l) \<and> unat (loan_debt_principal l) < 2 ^ 64 \<and>
    0 < unat (loan_collateral_amount l) \<and> unat (loan_collateral_amount l) < 2 ^ 64 \<and>
    idx = (case sides of CollateralA \<Rightarrow> borrow_index_b_wad p | CollateralB \<Rightarrow> borrow_index_a_wad p) \<and>
    10 ^ 18 \<le> unat (loan_borrow_index_snapshot_wad l) \<and>
    unat (loan_borrow_index_snapshot_wad l) \<le> unat idx \<and> unat idx \<le> 2 ^ 64 * 10 ^ 18 \<and>
    owed l idx = Ok debt \<and> unat (loan_debt_principal l) \<le> unat debt"
proof -
  have inv: "book_inv e pid (books_of pid w)" using reachable_inv [OF assms(1,2)] by blast
  have ti: "terms_inv (books_of pid w)" by (rule reachable_terms [OF assms(1,2)])
  obtain p where p: "pools pid w (loan_pool l) = Some p"
    using inv_loanD [OF inv, of k l] assms(3,4) by (auto simp: loan_ok_def)
  have t: "terms_ok p l" "index_ok p" using ti assms(3,4) p by (simp_all add: terms_inv_def)
  obtain debt where debt: "owed l (debt_index l p) = Ok debt" "unat (loan_debt_principal l) \<le> unat debt"
    using owed_total [OF t] by blast
  obtain sides dir where sd: "loan_sides_from_u8 (loan_sides l) = Ok sides" "loan_trigger_direction l = direction_byte dir"
    "recompute_trigger sides (loan_collateral_amount l) (loan_debt_principal l) (liq_ratio_bps p) =
      Ok (loan_trigger_price_wad l, dir)" using t(1) by (auto simp: terms_ok_def)
  have idx: "debt_index l p = (case sides of CollateralA \<Rightarrow> borrow_index_b_wad p | CollateralB \<Rightarrow> borrow_index_a_wad p)"
    using sd(1) by (auto simp: loan_sides_from_u8_def debt_index_def split: if_splits)
  have "unat (debt_index l p) \<le> 2 ^ 64 * 10 ^ 18" using t(2) by (auto simp: index_ok_def debt_index_def)
  then show ?thesis using p sd idx debt t(1) unfolding terms_ok_def by blast
qed

theorem open_loans_serviceable_witness:
  "\<exists>w l. reachable sample_env 99 w \<and> loans 99 w 20 = Some l \<and> is_open l \<and>
    (\<exists>p sides dir idx debt. pools 99 w (loan_pool l) = Some p \<and>
      loan_sides_from_u8 (loan_sides l) = Ok sides \<and> loan_trigger_direction l = direction_byte dir \<and>
      recompute_trigger sides (loan_collateral_amount l) (loan_debt_principal l) (liq_ratio_bps p) =
        Ok (loan_trigger_price_wad l, dir) \<and>
      0 < unat (loan_debt_principal l) \<and> unat (loan_debt_principal l) < 2 ^ 64 \<and>
      0 < unat (loan_collateral_amount l) \<and> unat (loan_collateral_amount l) < 2 ^ 64 \<and>
      idx = (case sides of CollateralA \<Rightarrow> borrow_index_b_wad p | CollateralB \<Rightarrow> borrow_index_a_wad p) \<and>
      10 ^ 18 \<le> unat (loan_borrow_index_snapshot_wad l) \<and>
      unat (loan_borrow_index_snapshot_wad l) \<le> unat idx \<and> unat idx \<le> 2 ^ 64 * 10 ^ 18 \<and>
      owed l idx = Ok debt \<and> unat (loan_debt_principal l) \<le> unat debt)"
proof -
  obtain w l where w: "reachable sample_env 99 w" "loans 99 w 20 = Some l" "is_open l" using first_loan_reachable by blast
  from w open_loans_serviceable [OF w(1) sample_platform w(2,3)] show ?thesis by blast
qed

end
