(* ===== verification/Liquidity_Properties.thy ===== *)
theory Liquidity_Properties
  imports Add_Liquidity Remove_Liquidity Sample_World
begin

text \<open>
  Properties of deposits and withdrawals: what a depositor pays for the shares, what a
  withdrawal is worth, that going in and out again never pays, and what a complete exit implies
  for the pool's debts.
\<close>

section \<open>Deposits\<close>

text \<open>C17: a deposit into a live pool never dilutes the existing holders and never overcharges the
  depositor: per side the charge is within what was offered, the value of one share does not
  fall (\<open>reserve / supply\<close> before is at most \<open>reserve / supply\<close> after), and the charge exceeds
  the exact value of the minted shares by less than one base unit.\<close>

theorem deposit_fair:
  assumes "derive_deposit a_max b_max A B S = Ok (a_in, b_in, lp)" "S \<noteq> 0"
  shows "0 < unat lp \<and> unat a_in \<le> unat a_max \<and> unat b_in \<le> unat b_max \<and>
    unat A * (unat S + unat lp) \<le> (unat A + unat a_in) * unat S \<and>
    unat B * (unat S + unat lp) \<le> (unat B + unat b_in) * unat S \<and>
    unat a_in * unat S < unat lp * unat A + unat S \<and>
    unat b_in * unat S < unat lp * unat B + unat S"
proof -
  have S: "0 < unat S" using assms(2) by (simp add: word_eq_unat)
  have ge: "x * y \<le> ceil_div (x * y) (unat S) * unat S" for x y
    using S by (rule ceil_div_ge)
  have less: "ceil_div n (unat S) * unat S < n + unat S" for n
  proof (cases "0 < ceil_div n (unat S)")
    case True
    then have "(ceil_div n (unat S) - 1) * unat S < n" using S by (intro ceil_div_pred_less)
    with True show ?thesis by (cases "ceil_div n (unat S)") simp_all
  qed (use S in simp)
  show ?thesis
    using derive_deposit_later [OF assms] ge [of "unat lp" "unat A"] ge [of "unat lp" "unat B"]
      less [of "unat lp * unat A"] less [of "unat lp * unat B"]
    by (simp add: algebra_simps)
qed

lemma sample_deposit:
  "derive_deposit 1000 5000 1000000 2000000 1000000 = Ok (1000, 2000, 1000)"
proof -
  have m: "mul_div 1000 2000000 1000000 = Ok 2000" "mul_div 1000 1000000 1000000 = Ok 1000"
    "mul_div 2000 1000000 2000000 = Ok 1000"
    and c: "mul_div_ceil 1000 1000000 1000000 = Ok 1000" "mul_div_ceil 1000 2000000 1000000 = Ok 2000"
    by (simp_all add: mul_div_Ok_iff mul_div_ceil_Ok_iff ceil_div_def)
  show ?thesis by (simp add: derive_deposit_def m c del: and_then_Ok_iff)
qed

theorem deposit_fair_witness:
  "derive_deposit 1000 5000 1000000 2000000 1000000 = Ok (1000, 2000, 1000) \<and>
    0 < unat (1000 :: u128) \<and> unat (1000 :: u128) \<le> unat (1000 :: u128) \<and> unat (2000 :: u128) \<le> unat (5000 :: u128) \<and>
    unat (1000000 :: u128) * (unat (1000000 :: u128) + unat (1000 :: u128))
      \<le> (unat (1000000 :: u128) + unat (1000 :: u128)) * unat (1000000 :: u128) \<and>
    unat (2000000 :: u128) * (unat (1000000 :: u128) + unat (1000 :: u128))
      \<le> (unat (2000000 :: u128) + unat (2000 :: u128)) * unat (1000000 :: u128) \<and>
    unat (1000 :: u128) * unat (1000000 :: u128)
      < unat (1000 :: u128) * unat (1000000 :: u128) + unat (1000000 :: u128) \<and>
    unat (2000 :: u128) * unat (1000000 :: u128)
      < unat (1000 :: u128) * unat (2000000 :: u128) + unat (1000000 :: u128)"
  using sample_deposit deposit_fair [OF sample_deposit] by simp

text \<open>C29: the first deposit is all or nothing: amounts of at least one million base units per side
  are taken in full and mint the floor of the square root of their product, which is at least
  one million and so above the supply floor; anything smaller is refused.\<close>

theorem first_deposit:
  assumes "unat a_max * unat b_max < 2 ^ 128"
  shows "if 1000000 \<le> unat a_max \<and> 1000000 \<le> unat b_max
    then \<exists>lp. derive_deposit a_max b_max A B 0 = Ok (a_max, b_max, lp) \<and>
           unat lp * unat lp \<le> unat a_max * unat b_max \<and>
           unat a_max * unat b_max < (unat lp + 1) * (unat lp + 1) \<and>
           unat MINIMUM_LIQUIDITY < unat lp
    else derive_deposit a_max b_max A B 0 = Err ZeroAmount"
proof (cases "1000000 \<le> unat a_max \<and> 1000000 \<le> unat b_max")
  case True
  with assms obtain lp where "derive_deposit a_max b_max A B 0 = Ok (a_max, b_max, lp)"
    "unat lp * unat lp \<le> unat a_max * unat b_max"
    "unat a_max * unat b_max < (unat lp + 1) * (unat lp + 1)" "1000000 \<le> unat lp"
    using derive_deposit_first [of a_max b_max] by blast
  with True show ?thesis by auto
next
  case False
  then show ?thesis using derive_deposit_first_rejects [of a_max b_max A B]
    by (metis not_le)
qed

theorem first_deposit_witness:
  "unat (2000000 :: u128) * unat (8000000 :: u128) < 2 ^ 128 \<and>
   (if 1000000 \<le> unat (2000000 :: u128) \<and> 1000000 \<le> unat (8000000 :: u128)
    then \<exists>lp. derive_deposit 2000000 8000000 0 0 0 = Ok (2000000, 8000000, lp) \<and>
           unat lp * unat lp \<le> unat (2000000 :: u128) * unat (8000000 :: u128) \<and>
           unat (2000000 :: u128) * unat (8000000 :: u128) < (unat lp + 1) * (unat lp + 1) \<and>
           unat MINIMUM_LIQUIDITY < unat lp
    else derive_deposit 2000000 8000000 0 0 0 = Err ZeroAmount)"
proof -
  have f: "unat (2000000 :: u128) * unat (8000000 :: u128) < 2 ^ 128" by simp
  show ?thesis using f first_deposit [OF f] by blast
qed

section \<open>Withdrawals\<close>

lemma proportional_share:
  assumes "0 < (S :: nat)" "n \<le> S" "x = n * A div S"
  shows "x \<le> A" "x * S \<le> n * A" "n = S \<Longrightarrow> x = A" "(A - x) * S \<ge> A * (S - n)"
proof -
  have le: "x * S \<le> n * A" using assms(3) by simp
  then show "x * S \<le> n * A" .
  have "n * A div S \<le> S * A div S" using assms(2) by (intro div_le_mono mult_le_mono1)
  then show "x \<le> A" using assms(1,3) by simp
  show "x = A" if "n = S" using assms(1,3) that by simp
  have "A * S - n * A \<le> A * S - x * S" using le by (rule diff_le_mono2)
  then show "(A - x) * S \<ge> A * (S - n)" by (simp add: diff_mult_distrib diff_mult_distrib2 mult.commute)
qed

text \<open>C18: a withdrawal pays each side the floor of its proportional share: never more than the
  burned shares are worth, so the value of a remaining share does not fall; the last holder
  gets all of it; and a side with reserves is never paid zero.\<close>

theorem withdrawal_fair:
  assumes "withdrawal_amounts n A B S = Ok (x, y)" "unat n \<le> unat S"
  shows "unat x * unat S \<le> unat n * unat A \<and> unat y * unat S \<le> unat n * unat B \<and>
    unat A * (unat S - unat n) \<le> (unat A - unat x) * unat S \<and>
    unat B * (unat S - unat n) \<le> (unat B - unat y) * unat S \<and>
    (n = S \<longrightarrow> x = A \<and> y = B) \<and> (A \<noteq> 0 \<longrightarrow> x \<noteq> 0) \<and> (B \<noteq> 0 \<longrightarrow> y \<noteq> 0)"
proof -
  from assms(1) have "S \<noteq> 0" and x: "unat x = unat n * unat A div unat S"
    and y: "unat y = unat n * unat B div unat S" and nz: "x = 0 \<longrightarrow> A = 0" "y = 0 \<longrightarrow> B = 0"
    unfolding withdrawal_amounts_Ok_iff by blast+
  then have S: "0 < unat S" by (simp add: word_eq_unat)
  have "n = S \<longrightarrow> x = A \<and> y = B"
  proof
    assume "n = S"
    then have "unat n = unat S" by simp
    from proportional_share(3) [OF S assms(2) x this] proportional_share(3) [OF S assms(2) y this]
    show "x = A \<and> y = B" by (simp only: word_eq_unat)
  qed
  then show ?thesis
    using proportional_share(2,4) [OF S assms(2) x] proportional_share(2,4) [OF S assms(2) y] nz by blast
qed

lemma sample_withdrawal: "withdrawal_amounts 1000 1001000 2002000 1001000 = Ok (1000, 2000)"
  by (simp add: withdrawal_amounts_Ok_iff)

theorem withdrawal_fair_witness:
  "withdrawal_amounts 1000 1001000 2002000 1001000 = Ok (1000, 2000) \<and>
    unat (1000 :: u128) * unat (1001000 :: u128) \<le> unat (1000 :: u128) * unat (1001000 :: u128) \<and>
    unat (2000 :: u128) * unat (1001000 :: u128) \<le> unat (1000 :: u128) * unat (2002000 :: u128) \<and>
    unat (1001000 :: u128) * (unat (1001000 :: u128) - unat (1000 :: u128))
      \<le> (unat (1001000 :: u128) - unat (1000 :: u128)) * unat (1001000 :: u128)"
  using sample_withdrawal withdrawal_fair [OF sample_withdrawal] by simp

text \<open>C23: putting liquidity in and taking the same shares out at once never pays: on each side the
  amount returned is at most the amount deposited.\<close>

theorem deposit_withdraw_no_profit:
  assumes "derive_deposit a_max b_max A B S = Ok (a_in, b_in, lp)" "S \<noteq> 0"
    and "withdrawal_amounts lp A' B' S' = Ok (x, y)"
    and "unat A' = unat A + unat a_in" "unat B' = unat B + unat b_in" "unat S' = unat S + unat lp"
  shows "unat x \<le> unat a_in \<and> unat y \<le> unat b_in"
proof -
  have S: "0 < unat S" using assms(2) by (simp add: word_eq_unat)
  have le: "lp' * (R + r) div (unat S + lp') \<le> r" if "r = ceil_div (lp' * R) (unat S)" for lp' R r
  proof -
    have "lp' * R \<le> r * unat S" unfolding that using S by (rule ceil_div_ge)
    then have "lp' * (R + r) \<le> r * (unat S + lp')" by (simp add: algebra_simps)
    then have "lp' * (R + r) div (unat S + lp') \<le> r * (unat S + lp') div (unat S + lp')"
      by (rule div_le_mono)
    then show ?thesis using S by simp
  qed
  show ?thesis
    using assms(3-6) le [OF derive_deposit_later(1) [OF assms(1,2)]]
      le [OF derive_deposit_later(2) [OF assms(1,2)]]
    by (simp add: withdrawal_amounts_Ok_iff)
qed

theorem deposit_withdraw_no_profit_witness:
  "derive_deposit 1000 5000 1000000 2000000 1000000 = Ok (1000, 2000, 1000) \<and>
   withdrawal_amounts 1000 1001000 2002000 1001000 = Ok (1000, 2000) \<and>
   unat (1000 :: u128) \<le> unat (1000 :: u128) \<and> unat (2000 :: u128) \<le> unat (2000 :: u128)"
  using sample_deposit sample_withdrawal
    deposit_withdraw_no_profit [OF sample_deposit _ sample_withdrawal] by simp

text \<open>C30: the supply floor: a burn is accepted iff it burns no more than the supply and does not
  take a supply of at least 1000 into the open interval between 0 and 1000; in particular a
  holder of everything can always leave completely.\<close>

theorem supply_floor:
  "(check_supply_floor S n = Ok () \<longleftrightarrow>
     unat n \<le> unat S \<and> \<not> (1000 \<le> unat S \<and> 0 < unat S - unat n \<and> unat S - unat n < 1000)) \<and>
   check_supply_floor S S = Ok ()"
  by (auto simp: check_supply_floor_Ok_iff)

text \<open>C24: a withdrawal that burns the whole supply succeeds only when the pool has no debt on
  either side, since it must be paid from tokens the pool holds and owns: nothing is left
  outstanding at supply zero.\<close>

theorem full_exit_needs_no_debt:
  assumes "remove_liquidity_quote e a lp_mint_i n min_a min_b w = Ok (pool, da, db, dl, x, y)"
    and "read_mint_supply e w lp_mint_i = Ok (widen n)"
  shows "total_debt_a pool = 0 \<and> total_debt_b pool = 0"
proof -
  obtain p ra rb slot S A B sa sb where
    q: "read_mint_supply e w lp_mint_i = Ok S"
    "accounted pool ra rb = Ok (A, B)" "swappable pool ra rb = Ok (sa, sb)"
    "withdrawal_amounts (widen n) A B S = Ok (widen x, widen y)"
    "unat x \<le> unat sa" "unat y \<le> unat sb"
    using remove_liquidity_quote_Ok [OF assms(1)] by metis
  have S: "S = widen n" using q(1) assms(2) by simp
  then have "0 < unat S" "unat (widen n :: u128) \<le> unat S"
    using q(4) by (auto simp: withdrawal_amounts_Ok_iff word_eq_unat)
  then have "unat (widen x :: u128) = unat A" "unat (widen y :: u128) = unat B"
    using q(4) S by (auto simp: withdrawal_amounts_Ok_iff)
  with q(2,3,5,6) show ?thesis by (auto simp: accounted_Ok_iff word_eq_unat)
qed

definition debt_free_pool :: pool where
  "debt_free_pool = sample_pool\<lparr>total_debt_b := 0, total_collateral_a := 0, open_loans := 0\<rparr>"

definition liquidity_infos :: "account_info list" where
  "liquidity_infos = [info 2, info 5, info 6, info 7, info 10, info 11, info 12, signer 8, info 3,
     info 4, info SPL_TOKEN_PROGRAM_ID, info SPL_TOKEN_PROGRAM_ID]"

lemma debt_free_simps [simp]: "pool_wf debt_free_pool" "pool_is_initialized debt_free_pool"
  using sample_wf(1) sample_initialized(1)
  by (simp_all add: debt_free_pool_def pool_wf_def pool_is_initialized_def)

lemma debt_free_reserves:
  "swappable debt_free_pool 1070011 960013 = Ok (1070000, 960000)"
  "accounted debt_free_pool 1070011 960013 = Ok (1070000, 960000)"
proof -
  show s: "swappable debt_free_pool 1070011 960013 = Ok (1070000, 960000)"
    by (simp add: swappable_Ok_iff debt_free_pool_def sample_pool_simps)
  show "accounted debt_free_pool 1070011 960013 = Ok (1070000, 960000)"
    using s by (simp add: accounted_Ok_iff) (simp add: debt_free_pool_def sample_pool_simps)
qed

lemma sample_full_exit:
  "remove_liquidity_quote sample_env (remove_liquidity_accounts liquidity_infos) (info 7) 1000000 1 1
     (sample_world debt_free_pool) = Ok (debt_free_pool, 6, 6, 6, 1070000, 960000)"
proof -
  have b: "bump_indexes debt_free_pool 1070011 960013 100 = Ok debt_free_pool"
    by (rule bump_indexes_same_slot) (simp add: debt_free_pool_def sample_pool_simps)
  have wd: "withdrawal_amounts 1000000 1070000 960000 1000000 = Ok (1070000, 960000)"
    by (simp add: withdrawal_amounts_Ok_iff)
  note acc = remove_liquidity_accounts_def liquidity_infos_def
  have k: "pool_keys_match debt_free_pool (remove_liquidity_accounts liquidity_infos)"
    "lp_mint debt_free_pool = 7"
    by (simp_all add: pool_keys_match_def debt_free_pool_def sample_pool_simps acc)
  have fl: "check_supply_floor 1000000 1000000 = Ok ()" by (simp add: check_supply_floor_Ok_iff)
  have w: "widen (1000000 :: u64) = (1000000 :: u128)" "widen (1070000 :: u64) = (1070000 :: u128)"
    "widen (960000 :: u64) = (960000 :: u128)" by (simp_all add: widen_def)
  have n: "try_narrow (1070000 :: u128) = Some (1070000 :: u64)"
    "try_narrow (960000 :: u128) = Some (960000 :: u64)"
    by (simp_all add: try_narrow_u64_iff)
  show ?thesis
    by (simp add: remove_liquidity_quote_def acc b k [unfolded acc, simplified] wd fl w n
        debt_free_reserves del: and_then_Ok_iff)
qed

theorem full_exit_needs_no_debt_witness:
  "remove_liquidity_quote sample_env (remove_liquidity_accounts liquidity_infos) (info 7) 1000000 1 1
     (sample_world debt_free_pool) = Ok (debt_free_pool, 6, 6, 6, 1070000, 960000) \<and>
   total_debt_a debt_free_pool = 0 \<and> total_debt_b debt_free_pool = 0"
proof -
  have "read_mint_supply sample_env (sample_world debt_free_pool) (info 7) = Ok (widen (1000000 :: u64))"
    by (simp add: widen_def)
  from full_exit_needs_no_debt [OF sample_full_exit this] show ?thesis using sample_full_exit by simp
qed

end
