(* ===== verification/Custody.thy ===== *)
theory Custody
  imports Reserve_Accounting
begin

text \<open>
  The vaults hold what the books say. A vault's tokens leave it only in a transfer signed by its
  pool; every handler moves a known amount on each side of one pool, and no other vault loses
  anything. Hence every pool's vaults cover the collateral of its open loans and the accrued fees
  in every ledger the program can be brought to.
\<close>

section \<open>What the token programs guarantee\<close>

text \<open>The account that has to authorise a transfer or a burn.\<close>

fun cpi_authority :: "cpi \<Rightarrow> pubkey option" where
  "cpi_authority (TransferChecked _ _ _ _ auth _ _) = Some auth"
| "cpi_authority (BurnChecked _ _ _ auth _ _) = Some auth"
| "cpi_authority _ = None"

fun cpi_source :: "cpi \<Rightarrow> pubkey option" where
  "cpi_source (TransferChecked _ src _ _ _ _ _) = Some src"
| "cpi_source (BurnChecked _ acc _ _ _ _) = Some acc"
| "cpi_source _ = None"

text \<open>A token account, and the part of it nobody but its owner can change.\<close>

definition vault_token :: "env \<Rightarrow> account \<Rightarrow> token_account option" where
  "vault_token e x = (if is_valid_token_program e (owner x) then unpack_token_account e (data x) else None)"

definition at_least :: "token_account \<Rightarrow> token_account \<Rightarrow> bool" where
  "at_least t t' \<longleftrightarrow> token_owner t' = token_owner t \<and> token_mint t' = token_mint t \<and>
     unat (token_amount t) \<le> unat (token_amount t')"

text \<open>No instruction of a token program this program sends reassigns an account, and
  initialisation sets mint and owner.\<close>

definition token_law :: "env \<Rightarrow> bool" where
  "token_law e \<longleftrightarrow>
     (\<forall>c infos seeds l l'. is_valid_token_program e (cpi_program e c) \<longrightarrow>
        cpi_invoke e c infos seeds l = Ok l' \<longrightarrow> (\<forall>k. owner (l' k) = owner (l k))) \<and>
     (\<forall>prog acc m own infos seeds l l'. is_valid_token_program e prog \<longrightarrow>
        cpi_invoke e (InitializeAccount3 prog acc m own) infos seeds l = Ok l' \<longrightarrow>
        (\<exists>t. unpack_token_account e (data (l' acc)) = Some t \<and> token_mint t = m \<and> token_owner t = own))"

text \<open>The documented custody rule of a mint, for the program's own vaults, which have no delegate
  and no close authority: an instruction that names another authority neither takes from such an
  account nor changes its owner or mint. A mint is plain when this holds and transfers move exactly
  the amount; the allowlist of extensions at pool creation is there to admit plain mints only.\<close>

definition custody_law :: "env \<Rightarrow> pubkey \<Rightarrow> pubkey \<Rightarrow> bool" where
  "custody_law e program_id m \<longleftrightarrow>
     (\<forall>c infos seeds l l' k t. is_valid_token_program e (cpi_program e c) \<longrightarrow>
        cpi_invoke e c infos seeds l = Ok l' \<longrightarrow> vault_address e program_id k \<longrightarrow>
        vault_token e (l k) = Some t \<longrightarrow> token_mint t = m \<longrightarrow> cpi_authority c \<noteq> Some (token_owner t) \<longrightarrow>
        cpi_source c \<noteq> Some k \<and> (\<exists>t'. vault_token e (l' k) = Some t' \<and> at_least t t'))"

definition plain_mint :: "env \<Rightarrow> pubkey \<Rightarrow> pubkey \<Rightarrow> bool" where
  "plain_mint e program_id m \<longleftrightarrow> transfer_law e m \<and> custody_law e program_id m"

section \<open>Following one vault\<close>

text \<open>At \<open>k\<close> there is a token account of mint \<open>m\<close> that \<open>own\<close> owns, holding at least \<open>n\<close>.\<close>

definition holds :: "env \<Rightarrow> world \<Rightarrow> pubkey \<Rightarrow> pubkey \<Rightarrow> pubkey \<Rightarrow> int \<Rightarrow> bool" where
  "holds e w k own m n \<longleftrightarrow> (\<exists>t. vault_token e (ledger w k) = Some t \<and> token_owner t = own \<and>
     token_mint t = m \<and> n \<le> int (unat (token_amount t)))"

lemma holds_same:
  assumes "holds e w k own m n" "same_contents (ledger w k) (ledger w' k)"
  shows "holds e w' k own m n"
proof -
  have "vault_token e (ledger w' k) = vault_token e (ledger w k)" using assms(2) by (simp add: vault_token_def same_contents_def)
  then show ?thesis using assms(1) by (simp add: holds_def)
qed

lemma holds_owner: "holds e w k own m n \<Longrightarrow> is_valid_token_program e (owner (ledger w k))"
  by (auto simp: holds_def vault_token_def split: if_splits)

lemma holds_emit [simp]: "holds e (emit ev w) k own m n = holds e w k own m n"
  by (simp add: holds_def)

lemma holds_mono: "holds e w k own m n \<Longrightarrow> n' \<le> n \<Longrightarrow> holds e w k own m n'"
  by (auto simp: holds_def)

lemma holds_call:
  assumes law: "custody_law e pid m" and k: "vault_address e pid k"
    and c: "is_valid_token_program e (cpi_program e c)" "invoke_signed e c infos seeds w = Ok w'"
    and auth: "cpi_authority c \<noteq> Some own" and h: "holds e w k own m n"
  shows "holds e w' k own m n" "cpi_source c \<noteq> Some k"
proof -
  obtain l where l: "cpi_invoke e c infos seeds (ledger w) = Ok l" "w' = w\<lparr>ledger := l\<rparr>"
    using c(2) by (auto simp: invoke_signed_Ok_iff)
  obtain t where t: "vault_token e (ledger w k) = Some t" "token_owner t = own" "token_mint t = m"
    "n \<le> int (unat (token_amount t))" using h by (auto simp: holds_def)
  have "cpi_source c \<noteq> Some k \<and> (\<exists>t'. vault_token e (l k) = Some t' \<and> at_least t t')"
    using law c(1) l(1) k t(1-3) auth unfolding custody_law_def by blast
  then show "holds e w' k own m n" "cpi_source c \<noteq> Some k" using t l(2) by (auto simp: holds_def at_least_def)
qed

lemma transfer_effect:
  assumes "transfer_law e (key mt)" "transfer_checked e prog src mt dst auth x dec seeds w = Ok w'"
  obtains l s d where
    "cpi_invoke e (TransferChecked (key prog) (key src) (key mt) (key dst) (key auth) x dec) [src, mt, dst, auth] seeds (ledger w) = Ok l"
    "w' = w\<lparr>ledger := l\<rparr>"
    "unpack_token_account e (data (ledger w (key src))) = Some s" "unpack_token_account e (data (ledger w (key dst))) = Some d"
    "unat x \<le> unat (token_amount s)" "key src = key dst \<Longrightarrow> l = ledger w"
    "key src \<noteq> key dst \<Longrightarrow> unat (token_amount d) + unat x < 2 ^ 64"
    "key src \<noteq> key dst \<Longrightarrow> unpack_token_account e (data (l (key src))) = Some (s\<lparr>token_amount := token_amount s - x\<rparr>)"
    "key src \<noteq> key dst \<Longrightarrow> unpack_token_account e (data (l (key dst))) = Some (d\<lparr>token_amount := token_amount d + x\<rparr>)"
    "\<And>j. key src \<noteq> key dst \<Longrightarrow> j \<noteq> key src \<Longrightarrow> j \<noteq> key dst \<Longrightarrow> l j = ledger w j"
proof -
  from assms(2) obtain l where
    l: "cpi_invoke e (TransferChecked (key prog) (key src) (key mt) (key dst) (key auth) x dec) [src, mt, dst, auth] seeds (ledger w) = Ok l"
    "w' = w\<lparr>ledger := l\<rparr>" by (auto simp: transfer_checked_def invoke_signed_Ok_iff)
  from assms(1) [unfolded transfer_law_def, rule_format, OF l(1)] show thesis
    by (elim exE conjE) (rule that [OF l]; simp)
qed

text \<open>A transfer the user authorises, into a vault.\<close>

lemma holds_in:
  assumes law: "token_law e" "transfer_law e (key mt)" "custody_law e pid m" and k: "vault_address e pid k"
    and c: "is_valid_token_program e (key prog)" "transfer_checked e prog u mt v auth x dec seeds w = Ok w'"
    and auth: "key auth \<noteq> own" and h: "holds e w k own m n"
  shows "holds e w' k own m (n + (if k = key v then int (unat x) else 0))"
proof -
  note run = c(2) [unfolded transfer_checked_def]
  note keep = holds_call [OF law(3) k _ run _ h]
  show ?thesis
  proof (cases "k = key v")
    case True
    have ne: "key u \<noteq> k" using keep(2) c(1) auth by simp
    obtain l s d where
      l: "cpi_invoke e (TransferChecked (key prog) (key u) (key mt) (key v) (key auth) x dec) [u, mt, v, auth] seeds (ledger w) = Ok l"
      "w' = w\<lparr>ledger := l\<rparr>"
      and d: "unpack_token_account e (data (ledger w (key v))) = Some d" "unat (token_amount d) + unat x < 2 ^ 64"
        "unpack_token_account e (data (l (key v))) = Some (d\<lparr>token_amount := token_amount d + x\<rparr>)"
      by (rule transfer_effect [OF law(2) c(2)]) (use ne True in blast)
    have "unat (token_amount d + x) = unat (token_amount d) + unat x" using d(2) by (simp add: unat_plus_fits)
    moreover have "owner (l k) = owner (ledger w k)"
      using law(1) c(1) l(1) unfolding token_law_def by (metis cpi_program.simps(1))
    ultimately show ?thesis using h d l(2) True by (auto simp: holds_def vault_token_def split: if_splits)
  next
    case False
    then show ?thesis using keep(1) c(1) auth by simp
  qed
qed

text \<open>A transfer the pool signs, out of a vault.\<close>

lemma holds_out:
  assumes law: "token_law e" "transfer_law e (key mt)"
    and c: "is_valid_token_program e (key prog)" "transfer_checked e prog v mt u auth x dec seeds w = Ok w'"
    and h: "holds e w k own m n"
  shows "holds e w' k own m (n - (if k = key v then int (unat x) else 0))"
proof -
  obtain t where t: "vault_token e (ledger w k) = Some t" "token_owner t = own" "token_mint t = m"
    "n \<le> int (unat (token_amount t))" using h by (auto simp: holds_def)
  obtain l s d where
    l: "cpi_invoke e (TransferChecked (key prog) (key v) (key mt) (key u) (key auth) x dec) [v, mt, u, auth] seeds (ledger w) = Ok l"
    and w': "w' = w\<lparr>ledger := l\<rparr>"
    and sd: "unpack_token_account e (data (ledger w (key v))) = Some s"
      "unpack_token_account e (data (ledger w (key u))) = Some d" "unat x \<le> unat (token_amount s)"
      "key v = key u \<Longrightarrow> l = ledger w" "key v \<noteq> key u \<Longrightarrow> unat (token_amount d) + unat x < 2 ^ 64"
      "key v \<noteq> key u \<Longrightarrow> unpack_token_account e (data (l (key v))) = Some (s\<lparr>token_amount := token_amount s - x\<rparr>)"
      "key v \<noteq> key u \<Longrightarrow> unpack_token_account e (data (l (key u))) = Some (d\<lparr>token_amount := token_amount d + x\<rparr>)"
      "\<And>j. key v \<noteq> key u \<Longrightarrow> j \<noteq> key v \<Longrightarrow> j \<noteq> key u \<Longrightarrow> l j = ledger w j"
    by (rule transfer_effect [OF law(2) c(2)]) blast
  have own: "owner (l k) = owner (ledger w k)"
    using law(1) c(1) l unfolding token_law_def by (metis cpi_program.simps(1))
  have tk: "unpack_token_account e (data (ledger w k)) = Some t" "is_valid_token_program e (owner (ledger w k))"
    using t(1) by (auto simp: vault_token_def split: if_splits)
  have minus: "unat (token_amount s - x) = unat (token_amount s) - unat x"
    using sd(3) by (simp add: unat_sub word_le_nat_alt)
  consider "key v = key u" | "key v \<noteq> key u" "k = key v" | "key v \<noteq> key u" "k = key u"
    | "key v \<noteq> key u" "k \<noteq> key v" "k \<noteq> key u" by blast
  then show ?thesis
  proof cases
    case 1
    then have "w' = w" using sd(4) w' by simp
    then show ?thesis using holds_mono [OF h] by simp
  next
    case 2
    then have "s = t" using tk sd(1) by simp
    then show ?thesis using 2 sd t own tk minus w' by (auto simp: holds_def vault_token_def)
  next
    case 3
    then have "d = t" using tk sd(2) by simp
    then show ?thesis using 3 sd(5,7) t own tk w' by (auto simp: holds_def vault_token_def unat_plus_fits)
  next
    case 4
    then have "l k = ledger w k" using sd(8) by simp
    then show ?thesis using 4 h w' by (simp add: holds_def)
  qed
qed

text \<open>Calls of the system program and writes to the program's own accounts do not touch vaults.\<close>

lemma holds_system:
  assumes rt: "runtime_law e pid" and c: "cpi_program e c = system_program_id e" "invoke_signed e c infos seeds w = Ok w'"
    and h: "holds e w k own m n"
  shows "holds e w' k own m n"
proof (rule holds_same [OF h])
  show "same_contents (ledger w k) (ledger w' k)"
    using holds_owner [OF h] rt c(1) by (intro runtime_invoke [OF rt _ c(2)]) (auto simp: external_def runtime_law_def)
qed

lemma holds_create:
  assumes rt: "runtime_law e pid" and "create_pda_account e payer t sys space ow ss rent w = Ok w'" "holds e w k own m n"
  shows "holds e w' k own m n"
  using assms(2)
proof (cases rule: create_pda_account_cases)
  case fresh
  then show ?thesis by (rule holds_system [OF rt _ _ assms(3), rotated]) simp
next
  case (funded x w1 w2)
  have "holds e w1 k own m n"
    using funded(1) holds_system [OF rt _ _ assms(3), of "SysTransfer (key payer) (key t) x"] assms(3) by auto
  then have "holds e w2 k own m n" by (rule holds_system [OF rt _ funded(2), rotated]) simp
  then show ?thesis by (rule holds_system [OF rt _ funded(3), rotated]) simp
qed

lemma holds_write:
  assumes rt: "runtime_law e pid" and "owner (acct w i) = pid" "serialize_into enc i w = Ok w'" "holds e w k own m n"
  shows "holds e w' k own m n"
proof -
  have "key i \<noteq> k" using assms(2) holds_owner [OF assms(4)] rt by (auto simp: runtime_law_def acct_def)
  then have "ledger w' k = ledger w k" using serialize_frame [OF assms(3)] by blast
  then show ?thesis using assms(4) by (simp add: holds_def)
qed

section \<open>Solvency\<close>

text \<open>A pool is backed when its two vaults are its own token accounts, of its two mints, and hold the
  collateral of its open loans and the accrued fees.\<close>

definition backed :: "env \<Rightarrow> pubkey \<Rightarrow> world \<Rightarrow> pubkey \<Rightarrow> pool \<Rightarrow> bool" where
  "backed e program_id w pk p \<longleftrightarrow>
     mint_a p \<noteq> mint_b p \<and> plain_mint e program_id (mint_a p) \<and> plain_mint e program_id (mint_b p) \<and>
     vault_address e program_id (vault_a p) \<and> vault_address e program_id (vault_b p) \<and>
     holds e w (vault_a p) pk (mint_a p) (int (unat (total_collateral_a p)) + int (unat (protocol_fees_a p))) \<and>
     holds e w (vault_b p) pk (mint_b p) (int (unat (total_collateral_b p)) + int (unat (protocol_fees_b p)))"

definition solvent :: "env \<Rightarrow> pubkey \<Rightarrow> world \<Rightarrow> bool" where
  "solvent e program_id w \<longleftrightarrow> (\<forall>pk p. pools program_id w pk = Some p \<longrightarrow> backed e program_id w pk p)"

text \<open>An instruction that settles: it updates one pool, moves \<open>da\<close> and \<open>db\<close> on its vaults, takes
  from no other vault, and what the pool owes afterwards is within what the vaults then hold.\<close>

definition within :: "env \<Rightarrow> world \<Rightarrow> pool \<Rightarrow> pool \<Rightarrow> int \<Rightarrow> int \<Rightarrow> bool" where
  "within e w p q da db \<longleftrightarrow> (\<forall>na nb. balance e w (vault_a p) = Some na \<longrightarrow> balance e w (vault_b p) = Some nb \<longrightarrow>
     unat (total_collateral_a p) + unat (protocol_fees_a p) \<le> na \<longrightarrow>
     unat (total_collateral_b p) + unat (protocol_fees_b p) \<le> nb \<longrightarrow>
     int (unat (total_collateral_a q)) + int (unat (protocol_fees_a q)) \<le> int na + da \<and>
     int (unat (total_collateral_b q)) + int (unat (protocol_fees_b q)) \<le> int nb + db)"

definition moved :: "env \<Rightarrow> pubkey \<Rightarrow> pubkey \<Rightarrow> pool \<Rightarrow> int \<Rightarrow> int \<Rightarrow> world \<Rightarrow> world \<Rightarrow> bool" where
  "moved e program_id user p da db w w' \<longleftrightarrow> (\<forall>k own m n. vault_address e program_id k \<longrightarrow> own \<noteq> user \<longrightarrow>
     custody_law e program_id m \<longrightarrow> holds e w k own m n \<longrightarrow>
     holds e w' k own m (n + (if k = vault_a p then da else 0) + (if k = vault_b p then db else 0)))"

definition settles :: "env \<Rightarrow> pubkey \<Rightarrow> pubkey \<Rightarrow> pubkey \<Rightarrow> world \<Rightarrow> world \<Rightarrow> bool" where
  "settles e program_id user pk w w' \<longleftrightarrow> (\<exists>p q da db. pools program_id w pk = Some p \<and>
     pools program_id w' = (pools program_id w)(pk \<mapsto> q) \<and> params q = params p \<and>
     within e w p q da db \<and> moved e program_id user p da db w w')"

lemma holds_balance:
  assumes "holds e w k own m n"
  obtains b where "balance e w k = Some b" "n \<le> int b" "holds e w k own m (int b)"
  using assms by (auto simp: holds_def balance_def vault_token_def split: if_splits)

lemma settles_solvent:
  assumes "solvent e pid w" "settles e pid user pk w w'" "pools pid w user = None"
  shows "solvent e pid w'"
proof -
  obtain p q da db where p: "pools pid w pk = Some p" "pools pid w' = (pools pid w)(pk \<mapsto> q)" "params q = params p"
    and wi: "within e w p q da db" and mv: "moved e pid user p da db w w'"
    using assms(2) unfolding settles_def by blast
  have b: "backed e pid w pk p" using assms(1) p(1) by (simp add: solvent_def)
  have "backed e pid w' k r" if r: "pools pid w' k = Some r" for k r
  proof (cases "k = pk")
    case True
    obtain na where na: "balance e w (vault_a p) = Some na"
      "int (unat (total_collateral_a p)) + int (unat (protocol_fees_a p)) \<le> int na" "holds e w (vault_a p) pk (mint_a p) (int na)"
      using b unfolding backed_def by (auto elim: holds_balance)
    obtain nb where nb: "balance e w (vault_b p) = Some nb"
      "int (unat (total_collateral_b p)) + int (unat (protocol_fees_b p)) \<le> int nb" "holds e w (vault_b p) pk (mint_b p) (int nb)"
      using b unfolding backed_def by (auto elim: holds_balance)
    have ne: "vault_a p \<noteq> vault_b p" using na(3) nb(3) b by (auto simp: holds_def backed_def)
    have own: "pk \<noteq> user" using p(1) assms(3) by auto
    have "holds e w' (vault_a p) pk (mint_a p) (int na + da)" "holds e w' (vault_b p) pk (mint_b p) (int nb + db)"
      using mv na(3) nb(3) ne own b unfolding moved_def backed_def plain_mint_def by fastforce+
    moreover have "int (unat (total_collateral_a q)) + int (unat (protocol_fees_a q)) \<le> int na + da"
      "int (unat (total_collateral_b q)) + int (unat (protocol_fees_b q)) \<le> int nb + db"
      using wi na(1,2) nb(1,2) unfolding within_def by auto
    moreover have "r = q" using r p(2) True by simp
    ultimately show ?thesis using b params_fields(6-9) [OF p(3)] True by (auto simp: backed_def elim: holds_mono)
  next
    case False
    then have k: "pools pid w k = Some r" using r p(2) by simp
    then have bk: "backed e pid w k r" using assms(1) by (simp add: solvent_def)
    have own: "k \<noteq> user" using k assms(3) by auto
    have "vault_a r \<noteq> vault_a p" "vault_a r \<noteq> vault_b p" "vault_b r \<noteq> vault_a p" "vault_b r \<noteq> vault_b p"
      using b bk False by (auto simp: backed_def holds_def)
    then show ?thesis using mv bk own unfolding moved_def backed_def plain_mint_def by fastforce
  qed
  then show ?thesis by (simp add: solvent_def)
qed

text \<open>How the steps of a handler add up.\<close>

lemma moved_intros:
  "moved e pid user p 0 0 w w"
  "moved e pid user p da db w w1 \<Longrightarrow> moved e pid user p da' db' w1 w2 \<Longrightarrow> moved e pid user p (da + da') (db + db') w w2"
  unfolding moved_def by (simp, (fastforce simp: algebra_simps elim: holds_mono))

lemma moved_frame:
  assumes "\<And>k. is_valid_token_program e (owner (ledger w k)) \<Longrightarrow> same_contents (ledger w k) (ledger w' k)"
  shows "moved e pid user p 0 0 w w'"
  unfolding moved_def using assms holds_owner holds_same by fastforce

text \<open>The laws the following lemmas rest on.\<close>

definition custodial :: "env \<Rightarrow> pubkey \<Rightarrow> bool" where
  "custodial e program_id \<longleftrightarrow> platform e program_id \<and> token_law e"

lemma custodialD:
  assumes "custodial e pid"
  shows "platform e pid" "runtime_law e pid" "isolation_law e pid" "system_law e" "token_law e"
  using assms platform_parts [of e pid] by (simp_all add: custodial_def)

lemma moved_step:
  assumes cust: "custodial e pid"
  shows moved_in_a: "transfer_law e (key mt) \<Longrightarrow> is_valid_token_program e (key prog) \<Longrightarrow>
      transfer_checked e prog u mt v auth x dec seeds w = Ok w' \<Longrightarrow> key v = vault_a p \<Longrightarrow>
      moved e pid (key auth) p (int (unat x)) 0 w w'"
    and moved_in_b: "transfer_law e (key mt) \<Longrightarrow> is_valid_token_program e (key prog) \<Longrightarrow>
      transfer_checked e prog u mt v auth x dec seeds w = Ok w' \<Longrightarrow> key v = vault_b p \<Longrightarrow>
      moved e pid (key auth) p 0 (int (unat x)) w w'"
    and moved_out_a: "transfer_law e (key mt) \<Longrightarrow> is_valid_token_program e (key prog) \<Longrightarrow>
      transfer_checked e prog v mt u auth x dec seeds w = Ok w' \<Longrightarrow> key v = vault_a p \<Longrightarrow>
      moved e pid user p (- int (unat x)) 0 w w'"
    and moved_out_b: "transfer_law e (key mt) \<Longrightarrow> is_valid_token_program e (key prog) \<Longrightarrow>
      transfer_checked e prog v mt u auth x dec seeds w = Ok w' \<Longrightarrow> key v = vault_b p \<Longrightarrow>
      moved e pid user p 0 (- int (unat x)) w w'"
    and moved_call: "is_valid_token_program e (cpi_program e c) \<Longrightarrow> invoke_signed e c infos seeds w = Ok w' \<Longrightarrow>
      cpi_authority c = None \<or> cpi_authority c = Some user \<Longrightarrow> moved e pid user p 0 0 w w'"
    and moved_write: "owner (acct w i) = pid \<Longrightarrow> serialize_into enc i w = Ok w' \<Longrightarrow> moved e pid user p 0 0 w w'"
    and moved_create: "create_pda_account e payer t sys space ow ss rent w = Ok w' \<Longrightarrow> moved e pid user p 0 0 w w'"
proof -
  note law = custodialD(2,5) [OF cust]
  show "moved e pid (key auth) p (int (unat x)) 0 w w'"
    if "transfer_law e (key mt)" "is_valid_token_program e (key prog)"
      "transfer_checked e prog u mt v auth x dec seeds w = Ok w'" "key v = vault_a p" for prog u
    using holds_in [OF law(2) that(1) _ _ that(2,3)] that(4) unfolding moved_def by fastforce
  show "moved e pid (key auth) p 0 (int (unat x)) w w'"
    if "transfer_law e (key mt)" "is_valid_token_program e (key prog)"
      "transfer_checked e prog u mt v auth x dec seeds w = Ok w'" "key v = vault_b p" for prog u
    using holds_in [OF law(2) that(1) _ _ that(2,3)] that(4) unfolding moved_def by fastforce
  show "moved e pid user p (- int (unat x)) 0 w w'"
    if "transfer_law e (key mt)" "is_valid_token_program e (key prog)"
      "transfer_checked e prog v mt u auth x dec seeds w = Ok w'" "key v = vault_a p"
    using holds_out [OF law(2) that(1-3)] that(4) unfolding moved_def by fastforce
  show "moved e pid user p 0 (- int (unat x)) w w'"
    if "transfer_law e (key mt)" "is_valid_token_program e (key prog)"
      "transfer_checked e prog v mt u auth x dec seeds w = Ok w'" "key v = vault_b p"
    using holds_out [OF law(2) that(1-3)] that(4) unfolding moved_def by fastforce
  show "moved e pid user p 0 0 w w'" if "is_valid_token_program e (cpi_program e c)"
    "invoke_signed e c infos seeds w = Ok w'" "cpi_authority c = None \<or> cpi_authority c = Some user"
    using holds_call(1) [OF _ _ that(1,2)] that(3) unfolding moved_def by fastforce
  show "moved e pid user p 0 0 w w'" if "owner (acct w i) = pid" "serialize_into enc i w = Ok w'"
    using holds_write [OF law(1) that] unfolding moved_def by fastforce
  show "moved e pid user p 0 0 w w'" if "create_pda_account e payer t sys space ow ss rent w = Ok w'"
    using holds_create [OF law(1) that] unfolding moved_def by fastforce
qed

lemma moved_emit [simp]: "moved e pid user p da db w (emit ev w') = moved e pid user p da db w w'"
  by (simp add: moved_def)

end
