(* ===== verification/Settlement.thy ===== *)
theory Settlement
  imports Custody
begin

text \<open>
  Every instruction that moves tokens settles: what the pool owes borrowers and the protocol
  afterwards is within what its vaults held before plus what was moved. One lemma per handler, each
  from the stages of the handler and the effect of every stage on the vaults.
\<close>

section \<open>Steps that move nothing\<close>

lemma moved_trans0:
  "moved e pid user p 0 0 w w1 \<Longrightarrow> moved e pid user p da db w1 w2 \<Longrightarrow> moved e pid user p da db w w2"
  "moved e pid user p da db w w1 \<Longrightarrow> moved e pid user p 0 0 w1 w2 \<Longrightarrow> moved e pid user p da db w w2"
  using moved_intros(2) [of e pid user p 0 0 w w1 da db w2] moved_intros(2) [of e pid user p da db w w1 0 0 w2] by simp_all

lemma moved_fund:
  assumes "custodial e pid" "invoke_signed e (SysTransfer src dst n) infos seeds w = Ok w'"
  shows "moved e pid user p 0 0 w w'"
  unfolding moved_def using holds_system [OF custodialD(2) [OF assms(1)] _ assms(2)] by fastforce

lemma moved_allocate_band:
  assumes cust: "custodial e pid" and "open_loan_allocate_band e pid a bi sys bid d bump rent w = Ok w'"
  shows "moved e pid user p 0 0 w w'"
proof -
  let ?m = "saturating_sub (rent LOAN_INDEX_BAND_LEN) (lamports (acct w bi))"
  let ?seeds = "[BAND_SEED, put_key (key (pool_info a)), [d], put_word 4 bid, [bump]]"
  let ?zero = "is_zeroed_program_account w bi pid LOAN_INDEX_BAND_LEN"
  have put: "moved e pid user p 0 0 w w'" if "moved e pid user p 0 0 w v" "owner (acct v bi) = pid"
    "serialize_into enc bi v = Ok w'" for v enc
    by (rule moved_trans0(1) [OF that(1) moved_write [OF cust that(2,3)]])
  consider (new) v enc where "create_pda_account e (user_info a) bi sys LOAN_INDEX_BAND_LEN pid ?seeds rent w = Ok v"
      "serialize_into enc bi v = Ok w'"
    | (zeroed) v enc where "?zero" "(if 0 < ?m then invoke e (SysTransfer (key (user_info a)) (key bi) ?m)
         [user_info a, bi, sys] w else Ok w) = Ok v" "serialize_into enc bi v = Ok w'"
    | (old) "w' = w"
    using assms(2) by (auto simp: open_loan_allocate_band_def Let_def split: if_splits simp del: serialize_into_Ok_iff)
  then show ?thesis
  proof cases
    case new
    have "owner (acct v bi) = pid"
      using created_account [OF custodialD(4) [OF cust] _ new(1)] by (simp add: LOAN_INDEX_BAND_LEN_def)
    then show ?thesis using put [OF moved_create [OF cust new(1)]] new(2) by blast
  next
    case zeroed
    have z: "owner (acct w bi) = pid" using zeroed(1) by (auto simp: is_zeroed_program_account_def split: if_splits)
    have "moved e pid user p 0 0 w v"
      using zeroed(2) moved_fund [OF cust] moved_intros(1) by (auto simp: invoke_def split: if_splits)
    moreover have "owner (acct v bi) = pid"
      using zeroed(2) z system_lawD(2) [OF custodialD(4) [OF cust]]
      by (auto simp: invoke_def acct_def same_contents_def split: if_splits)
    ultimately show ?thesis using put zeroed(3) by blast
  qed (simp add: moved_intros(1))
qed

lemma moved_allocate:
  assumes cust: "custodial e pid"
    and "open_loan_allocate e pid a li bi sys nonce p0 trigger dir w = Ok (bump, bid, b, q, slot, w')"
  shows "moved e pid user p 0 0 w w'"
proof -
  from assms(2) obtain rent w1 seeds bb where
    w1: "create_pda_account e (user_info a) li sys LOAN_LEN pid seeds rent w = Ok w1"
    and w': "open_loan_allocate_band e pid a bi sys bid (direction_byte dir) bb rent w1 = Ok w'"
    by (auto simp: open_loan_allocate_def Let_def)
  show ?thesis by (rule moved_trans0(1) [OF moved_create [OF cust w1] moved_allocate_band [OF cust w']])
qed

lemma moved_store:
  assumes cust: "custodial e pid"
    and "open_loan_store a li bi sb c d nonce p0 trigger dir bump bid b slot w = Ok w'"
    and own: "owner (acct w li) = pid" "owner (acct w bi) = pid"
  shows "moved e pid user p 0 0 w w'"
proof -
  from assms(2) obtain w1 enc1 enc2 where w: "serialize_into enc1 li w = Ok w1" "serialize_into enc2 bi w1 = Ok w'"
    unfolding open_loan_store_def and_then_Ok_iff by blast
  have "owner (acct w1 bi) = pid" using w(1) own(2) by (auto simp: acct_def put_data_def)
  then show ?thesis using moved_trans0(1) [OF moved_write [OF cust own(1) w(1)] moved_write [OF cust _ w(2)]] by blast
qed

text \<open>Closing the books of a repaid loan.\<close>

lemma moved_close:
  assumes cust: "custodial e pid" and "repay_close a li bi q l b slot owe w = Ok w'"
    and own: "owner (acct w (pool_info a)) = pid" "owner (acct w li) = pid" "owner (acct w bi) = pid"
  shows "moved e pid user p 0 0 w w'"
proof (rule moved_frame)
  fix k assume "is_valid_token_program e (owner (ledger w k))"
  then have "k \<notin> {key (pool_info a), key li, key bi}"
    using own custodialD(2) [OF cust] by (auto simp: acct_def runtime_law_def)
  then show "same_contents (ledger w k) (ledger w' k)" using repay_close_frame [OF assms(2)] by blast
qed

section \<open>The transfers of a handler\<close>

text \<open>One transfer in and one out, on the two sides of a pool.\<close>

definition sided :: "bool \<Rightarrow> int \<Rightarrow> int \<Rightarrow> int \<times> int" where
  "sided in_a x y = (if in_a then (x, - y) else (- y, x))"

lemma moved_in_out:
  assumes cust: "custodial e pid"
    and law: "transfer_law e (key (mint_a_info a))" "transfer_law e (key (mint_b_info a))"
    and tok: "is_valid_token_program e (key (token_program_a_info a))" "is_valid_token_program e (key (token_program_b_info a))"
    and v: "key (vault_a_info a) = vault_a p" "key (vault_b_info a) = vault_b p"
  shows moved_a_to_b: "transfer_checked e (token_program_a_info a) ua (mint_a_info a) (vault_a_info a) auth x dx [] w = Ok w1 \<Longrightarrow>
      transfer_checked e (token_program_b_info a) (vault_b_info a) (mint_b_info a) ub pl y dy seeds w1 = Ok w2 \<Longrightarrow>
      moved e pid (key auth) p (int (unat x)) (- int (unat y)) w w2"
    and moved_b_to_a: "transfer_checked e (token_program_b_info a) ub (mint_b_info a) (vault_b_info a) auth x dx [] w = Ok w1 \<Longrightarrow>
      transfer_checked e (token_program_a_info a) (vault_a_info a) (mint_a_info a) ua pl y dy seeds w1 = Ok w2 \<Longrightarrow>
      moved e pid (key auth) p (- int (unat y)) (int (unat x)) w w2"
proof -
  assume t: "transfer_checked e (token_program_a_info a) ua (mint_a_info a) (vault_a_info a) auth x dx [] w = Ok w1"
    "transfer_checked e (token_program_b_info a) (vault_b_info a) (mint_b_info a) ub pl y dy seeds w1 = Ok w2"
  show "moved e pid (key auth) p (int (unat x)) (- int (unat y)) w w2"
    using moved_intros(2) [OF moved_in_a [OF cust law(1) tok(1) t(1) v(1)] moved_out_b [OF cust law(2) tok(2) t(2) v(2)]] by simp
next
  assume t: "transfer_checked e (token_program_b_info a) ub (mint_b_info a) (vault_b_info a) auth x dx [] w = Ok w1"
    "transfer_checked e (token_program_a_info a) (vault_a_info a) (mint_a_info a) ua pl y dy seeds w1 = Ok w2"
  show "moved e pid (key auth) p (- int (unat y)) (int (unat x)) w w2"
    using moved_intros(2) [OF moved_in_b [OF cust law(2) tok(2) t(1) v(2)] moved_out_a [OF cust law(1) tok(1) t(2) v(1)]] by simp
qed

text \<open>What a handler with a loaded pool knows of its token accounts.\<close>

definition matched :: "env \<Rightarrow> pool \<Rightarrow> pool_accounts \<Rightarrow> bool" where
  "matched e p a \<longleftrightarrow> pool_keys_match p a \<and> transfer_law e (mint_a p) \<and> transfer_law e (mint_b p) \<and>
     is_valid_token_program e (key (token_program_a_info a)) \<and> is_valid_token_program e (key (token_program_b_info a))"

lemma moved_open_transfers:
  assumes "custodial e pid" "matched e p a" "open_loan_transfers e a sides c d q w = Ok w'"
  shows "moved e pid (key (user_info a)) p (fst (sided (sides = CollateralA) (int (unat c)) (int (unat d))))
     (snd (sided (sides = CollateralA) (int (unat c)) (int (unat d)))) w w'"
  using assms(2,3) moved_in_out [OF assms(1), of a p]
  by (cases sides) (auto simp: open_loan_transfers_def matched_def pool_keys_match_def sided_def)

lemma moved_repay_transfers:
  assumes "custodial e pid" "matched e p a" "repay_transfers e a sides owe coll q w = Ok w'"
  shows "moved e pid (key (user_info a)) p (fst (sided (sides \<noteq> CollateralA) (int (unat owe)) (int (unat coll))))
     (snd (sided (sides \<noteq> CollateralA) (int (unat owe)) (int (unat coll)))) w w'"
  using assms(2,3) moved_in_out [OF assms(1), of a p]
  by (cases sides) (auto simp: repay_transfers_def matched_def pool_keys_match_def sided_def)

lemma moved_swap_transfers:
  assumes "custodial e pid" "matched e p a" "swap_transfers e a dir x out da db q w = Ok w'"
  shows "moved e pid (key (user_info a)) p (fst (sided dir (int (unat x)) (int (unat out))))
     (snd (sided dir (int (unat x)) (int (unat out)))) w w'"
  using assms(2,3) moved_in_out [OF assms(1), of a p]
  by (cases dir) (auto simp: swap_transfers_def matched_def pool_keys_match_def sided_def)

section \<open>Deposits, withdrawals and fee claims\<close>

lemma solvent_matched:
  assumes "solvent e pid w" "pools pid w pk = Some p" "pool_keys_match p a"
    "is_valid_token_program e (key (token_program_a_info a))" "is_valid_token_program e (key (token_program_b_info a))"
  shows "matched e p a"
  using assms by (auto simp: solvent_def backed_def matched_def plain_mint_def)

text \<open>A handler that ends by writing the pool it loaded.\<close>

lemma settles_touch:
  assumes cust: "custodial e pid" and p: "load_pool w i = Ok p" "owner (acct w i) = pid" and qt: "quiet pid w w1"
    and q: "touch p q" "serialize_into (pool_bytes q) i w1 = Ok w2" "w' = emit ev w2"
    and mv: "moved e pid user p da db w w1" "within e w p q da db"
  shows "settles e pid user (key i) w w'"
proof -
  have pe: "pools pid w (key i) = Some p" by (rule loaded_pool [OF p])
  have p1: "pools pid w1 (key i) = Some p" using pe quiet_maps(1) [OF qt] by simp
  have "books_of pid w2 = (books_of pid w1)\<lparr>b_pools := (pools pid w1)(key i \<mapsto> q)\<rparr>"
    using entry_account(1) [OF p1] touch_live [OF q(1)] q(2) by (intro write_pool) auto
  then have "books_of pid w' = (books_of pid w1)\<lparr>b_pools := (pools pid w1)(key i \<mapsto> q)\<rparr>" using q(3) by simp
  then have "pools pid w' = (pools pid w)(key i \<mapsto> q)" using quiet_maps(1) [OF qt] by (simp add: books_of_def)
  moreover have "owner (acct w1 i) = pid" using quiet_acct [OF qt p(2)] by simp
  then have "moved e pid user p da db w w'"
    using moved_trans0(2) [OF mv(1) moved_write [OF cust _ q(2)]] q(3) by simp
  ultimately show ?thesis using pe q(1) mv(2) unfolding settles_def touch_def by blast
qed

lemma settles_deposit:
  assumes cust: "custodial e pid" and solv: "solvent e pid w"
    and "process_add_liquidity e pid accounts amount_a_max amount_b_max min_lp_out w = Ok w'"
  shows "settles e pid (key (accounts ! 7)) (key (accounts ! 0)) w w'"
proof (rule add_liquidity_effect [OF assms(3)])
  let ?a = "add_liquidity_accounts accounts"
  have a: "vault_a_info ?a = accounts ! 1" "vault_b_info ?a = accounts ! 2" "mint_a_info ?a = accounts ! 8"
    "mint_b_info ?a = accounts ! 9" "token_program_a_info ?a = accounts ! 10" "token_program_b_info ?a = accounts ! 11"
    by (simp_all add: add_liquidity_accounts_def)
  fix p pool ra rb slot x y z da db dl w1 w2 w3 w4 slot' ev
  assume chk: "check_signer_and_token_programs e w ?a = Ok ()" and own: "owner (acct w (accounts ! 0)) = pid"
    and p: "load_pool w (accounts ! 0) = Ok p" and km: "pool_keys_match p ?a"
    and bump: "bump_indexes p ra rb slot = Ok pool"
    and w1: "transfer_checked e (accounts ! 10) (accounts ! 4) (accounts ! 8) (accounts ! 1) (accounts ! 7) x da [] w = Ok w1"
    and w2: "transfer_checked e (accounts ! 11) (accounts ! 5) (accounts ! 9) (accounts ! 2) (accounts ! 7) y db [] w1 = Ok w2"
    and w3: "invoke_signed e (MintToChecked (key (accounts ! 10)) (key (accounts ! 3)) (key (accounts ! 6)) (key (accounts ! 0)) z dl)
       [accounts ! 3, accounts ! 6, accounts ! 0] [pool_signer_seeds pool] w2 = Ok w3"
    and w4: "serialize_into (pool_bytes (pool\<lparr>last_update_slot := slot'\<rparr>)) (accounts ! 0) w3 = Ok w4"
    and w': "w' = emit ev w4"
  note tok = checked_token_programs [OF chk]
  have "matched e p ?a" by (rule solvent_matched [OF solv loaded_pool [OF p own] km tok])
  then have m: "key (accounts ! 1) = vault_a p" "key (accounts ! 2) = vault_b p" "transfer_law e (key (accounts ! 8))"
    "transfer_law e (key (accounts ! 9))" by (auto simp: matched_def pool_keys_match_def a)
  note tok = tok [unfolded a]
  have "moved e pid (key (accounts ! 7)) p (int (unat x) + 0) (0 + int (unat y)) w w2"
    by (rule moved_intros(2) [OF moved_in_a [OF cust m(3) tok(1) w1 m(1)] moved_in_b [OF cust m(4) tok(2) w2 m(2)]])
  moreover have "moved e pid (key (accounts ! 7)) p 0 0 w2 w3" using moved_call [OF cust _ w3] tok(1) by simp
  ultimately have mv: "moved e pid (key (accounts ! 7)) p (int (unat x)) (int (unat y)) w w3"
    using moved_trans0(2) by simp
  have qt: "quiet pid w w3"
    using quiet_transfer [OF custodialD(3) [OF cust] tok(1) w1] quiet_transfer [OF custodialD(3) [OF cust] tok(2) w2]
      quiet_invoke [OF custodialD(3) [OF cust] _ w3] tok(1) by (auto simp: external_def intro: quiet_trans)
  have wi: "within e w p (pool\<lparr>last_update_slot := slot'\<rparr>) (int (unat x)) (int (unat y))"
    using bump_reserves [OF bump, of slot'] by (auto simp: within_def same_reserves_def)
  have "touch p (pool\<lparr>last_update_slot := slot'\<rparr>)" using touch_bump [OF bump] by simp
  from settles_touch [OF cust p own qt this w4 w' mv wi] show ?thesis .
qed

lemma settles_withdrawal:
  assumes cust: "custodial e pid" and solv: "solvent e pid w"
    and "process_remove_liquidity e pid accounts lp_amount min_a_out min_b_out w = Ok w'"
  shows "settles e pid (key (accounts ! 7)) (key (accounts ! 0)) w w'"
proof (rule remove_liquidity_effect [OF assms(3)])
  let ?a = "remove_liquidity_accounts accounts"
  have a: "vault_a_info ?a = accounts ! 1" "vault_b_info ?a = accounts ! 2" "mint_a_info ?a = accounts ! 8"
    "mint_b_info ?a = accounts ! 9" "token_program_a_info ?a = accounts ! 10" "token_program_b_info ?a = accounts ! 11"
    by (simp_all add: remove_liquidity_accounts_def)
  fix p pool ra rb slot sa sb x y da db dl w1 w2 w3 w4 slot' ev
  assume chk: "check_signer_and_token_programs e w ?a = Ok ()" and own: "owner (acct w (accounts ! 0)) = pid"
    and p: "load_pool w (accounts ! 0) = Ok p" and km: "pool_keys_match p ?a"
    and r: "read_token_amount e w (accounts ! 1) = Ok ra" "read_token_amount e w (accounts ! 2) = Ok rb"
    and bump: "bump_indexes p ra rb slot = Ok pool" and sw: "swappable pool ra rb = Ok (sa, sb)"
    and le: "unat x \<le> unat sa" "unat y \<le> unat sb"
    and w1: "invoke_signed e (BurnChecked (key (accounts ! 10)) (key (accounts ! 6)) (key (accounts ! 3)) (key (accounts ! 7)) lp_amount dl)
       [accounts ! 6, accounts ! 3, accounts ! 7] [] w = Ok w1"
    and w2: "transfer_checked e (accounts ! 10) (accounts ! 1) (accounts ! 8) (accounts ! 4) (accounts ! 0) x da
       [pool_signer_seeds pool] w1 = Ok w2"
    and w3: "transfer_checked e (accounts ! 11) (accounts ! 2) (accounts ! 9) (accounts ! 5) (accounts ! 0) y db
       [pool_signer_seeds pool] w2 = Ok w3"
    and w4: "serialize_into (pool_bytes (pool\<lparr>last_update_slot := slot'\<rparr>)) (accounts ! 0) w3 = Ok w4"
    and w': "w' = emit ev w4"
  note tok = checked_token_programs [OF chk]
  have "matched e p ?a" by (rule solvent_matched [OF solv loaded_pool [OF p own] km tok])
  then have m: "key (accounts ! 1) = vault_a p" "key (accounts ! 2) = vault_b p" "transfer_law e (key (accounts ! 8))"
    "transfer_law e (key (accounts ! 9))" by (auto simp: matched_def pool_keys_match_def a)
  note tok = tok [unfolded a]
  have "moved e pid (key (accounts ! 7)) p (- int (unat x) + 0) (0 + - int (unat y)) w1 w3"
    by (rule moved_intros(2) [OF moved_out_a [OF cust m(3) tok(1) w2 m(1)] moved_out_b [OF cust m(4) tok(2) w3 m(2)]])
  moreover have "moved e pid (key (accounts ! 7)) p 0 0 w w1" using moved_call [OF cust _ w1] tok(1) by simp
  ultimately have mv: "moved e pid (key (accounts ! 7)) p (- int (unat x)) (- int (unat y)) w w3"
    using moved_trans0(1) by simp
  have qt: "quiet pid w w3"
    using quiet_transfer [OF custodialD(3) [OF cust] tok(1) w2] quiet_transfer [OF custodialD(3) [OF cust] tok(2) w3]
      quiet_invoke [OF custodialD(3) [OF cust] _ w1] tok(1) by (auto simp: external_def intro: quiet_trans)
  have wi: "within e w p (pool\<lparr>last_update_slot := slot'\<rparr>) (- int (unat x)) (- int (unat y))"
    using bump_reserves [OF bump, of slot'] sw le r m(1,2)
    by (auto simp: within_def same_reserves_def swappable_Ok_iff read_token_amount_Ok_iff)
  have "touch p (pool\<lparr>last_update_slot := slot'\<rparr>)" using touch_bump [OF bump] by simp
  from settles_touch [OF cust p own qt this w4 w' mv wi] show ?thesis .
qed

lemma settles_fee_claim:
  assumes cust: "custodial e pid" and solv: "solvent e pid w"
    and "process_claim_protocol_fees e pid accounts w = Ok w'"
  shows "settles e pid user (key (accounts ! 0)) w w' \<or> w' = w"
proof (cases "w' = w")
  case False
  obtain p da db w1 w2 w3 slot ev where own: "owner (acct w (accounts ! 0)) = pid" and p: "load_pool w (accounts ! 0) = Ok p"
    and tok: "is_valid_token_program e (key (accounts ! 7))" "is_valid_token_program e (key (accounts ! 8))"
    and km: "vault_a p = key (accounts ! 1)" "vault_b p = key (accounts ! 2)" "mint_a p = key (accounts ! 5)"
      "mint_b p = key (accounts ! 6)"
    and w1: "(if 0 < protocol_fees_a p then transfer_checked e (accounts ! 7) (accounts ! 1) (accounts ! 5) (accounts ! 3)
            (accounts ! 0) (protocol_fees_a p) da [pool_signer_seeds p] w else Ok w) = Ok w1"
    and w2: "(if 0 < protocol_fees_b p then transfer_checked e (accounts ! 8) (accounts ! 2) (accounts ! 6) (accounts ! 4)
            (accounts ! 0) (protocol_fees_b p) db [pool_signer_seeds p] w1 else Ok w1) = Ok w2"
    and w3: "serialize_into (pool_bytes (p\<lparr>protocol_fees_a := 0, protocol_fees_b := 0, last_update_slot := slot\<rparr>))
          (accounts ! 0) w2 = Ok w3" and w': "w' = emit ev w3"
    by (rule claim_fees_effect [OF assms(3)]) (use False in blast)
  have law: "transfer_law e (key (accounts ! 5))" "transfer_law e (key (accounts ! 6))"
    using solv loaded_pool [OF p own] unfolding solvent_def backed_def plain_mint_def km(3,4) [symmetric] by blast+
  have zero: "x = 0" if "\<not> 0 < x" for x :: u64 using that word_neq_0_conv [of x] by simp
  have "moved e pid user p (- int (unat (protocol_fees_a p))) 0 w w1"
    using w1 moved_out_a [OF cust law(1) tok(1) _ km(1) [symmetric]] zero [of "protocol_fees_a p"] moved_intros(1) [of e pid user p]
    by (auto split: if_splits)
  moreover have "moved e pid user p 0 (- int (unat (protocol_fees_b p))) w1 w2"
    using w2 moved_out_b [OF cust law(2) tok(2) _ km(2) [symmetric]] zero [of "protocol_fees_b p"] moved_intros(1) [of e pid user p]
    by (auto split: if_splits)
  ultimately have mv: "moved e pid user p (- int (unat (protocol_fees_a p))) (- int (unat (protocol_fees_b p))) w w2"
    using moved_intros(2) by force
  have "quiet pid w w1" using w1 quiet_transfer [OF custodialD(3) [OF cust] tok(1)] by (auto split: if_splits)
  moreover have "quiet pid w1 w2" using w2 quiet_transfer [OF custodialD(3) [OF cust] tok(2)] by (auto split: if_splits)
  ultimately have qt: "quiet pid w w2" by (rule quiet_trans)
  have "settles e pid user (key (accounts ! 0)) w w'"
    by (rule settles_touch [OF cust p own qt _ w3 w' mv]) (auto simp: within_def)
  then show ?thesis ..
qed simp

section \<open>Loans\<close>

text \<open>Borrowing moves the collateral in and the principal out, on different sides.\<close>

lemma within_open:
  assumes "open_loan_book p2 sides c d slot = Ok q" "same_reserves p p2"
    and "balance e w (vault_a p) = Some (unat ra)" "balance e w (vault_b p) = Some (unat rb)"
    and "swappable p2 ra rb = Ok (sa, sb)" "unat d \<le> unat (case sides of CollateralA \<Rightarrow> sb | CollateralB \<Rightarrow> sa)"
  shows "within e w p q (fst (sided (sides = CollateralA) (int (unat c)) (int (unat d))))
    (snd (sided (sides = CollateralA) (int (unat c)) (int (unat d))))"
  using open_loan_book_Ok [OF assms(1)] assms(2-6)
  by (cases sides) (auto simp: within_def sided_def same_reserves_def swappable_Ok_iff)

text \<open>Repaying moves the debt in and the collateral out.\<close>

lemma within_repay:
  assumes "repay_book p1 l sides b slot = Ok (q, b')" "same_reserves p p1"
    and "unat (loan_collateral_amount l) = unat coll"
  shows "within e w p q (fst (sided (sides \<noteq> CollateralA) (int (unat owe)) (int (unat coll))))
    (snd (sided (sides \<noteq> CollateralA) (int (unat owe)) (int (unat coll))))"
proof -
  from assms(1) obtain p2 where
    rel: "release_loan p1 sides (loan_collateral_amount l) (loan_debt_principal l) = Ok p2"
    and "(if band_count b' = 0 then band_bitmap_mut (p2\<lparr>last_update_slot := slot\<rparr>) (band_direction b')
               (\<lambda>bm. bitmap_clear bm (band_band_id b')) else Ok (p2\<lparr>last_update_slot := slot\<rparr>)) = Ok q"
    unfolding repay_book_def Let_def and_then_Ok_iff res.inject prod.inject by blast
  then have "same_reserves p2 q" using bitmap_mut_reserves by (fastforce simp: same_reserves_def split: if_splits)
  then show ?thesis using release_loan_Ok [OF rel] assms(2,3)
    by (cases sides) (auto simp: within_def sided_def same_reserves_def)
qed

lemma settlesI:
  assumes "pools pid w pk = Some p" "pools pid w' = (pools pid w)(pk \<mapsto> q)" "params q = params p"
    "within e w p q (fst d) (snd d)" "moved e pid user p (fst d) (snd d) w w'"
  shows "settles e pid user pk w w'"
  using assms unfolding settles_def by blast

text \<open>The stages of an opening, for one who follows the pool account and its vaults.\<close>

lemma open_keys_match:
  assumes "process_open_loan e pid accounts sides_byte c d nonce w = Ok w'" "pools pid w (key (accounts ! 0)) = Some p"
  shows "pool_keys_match p (loan_handler_accounts accounts 11)"
proof -
  have "pool_info (loan_handler_accounts accounts 11) = accounts ! 0" by (simp add: loan_handler_accounts_def)
  then obtain p' where "owner (acct w (accounts ! 0)) = pid" "load_pool w (accounts ! 0) = Ok p'"
    "pool_keys_match p' (loan_handler_accounts accounts 11)"
    using assms(1) unfolding process_open_loan_def Let_def guard_Ok_iff and_then_Ok_iff into_Ok_iff de_Morgan_disj not_not
    by metis
  then show ?thesis using loaded_pool [of w "accounts ! 0" p' pid] assms(2) by simp
qed

lemma open_terms_within:
  assumes "open_loan_terms e a sides_byte c d p w = Ok (p1, sides, trigger, dir)" "pool_keys_match p a"
    and "open_loan_allocate e pid a li bi sys nonce p1 trigger dir w = Ok (bump, bid, b, p2, slot, w1)"
    and "open_loan_book p2 sides c d slot = Ok q"
  shows "within e w p q (fst (sided (sides = CollateralA) (int (unat c)) (int (unat d))))
    (snd (sided (sides = CollateralA) (int (unat c)) (int (unat d))))"
proof -
  from assms(1) obtain s0 ra rb where r: "read_token_amount e w (vault_a_info a) = Ok ra" "read_token_amount e w (vault_b_info a) = Ok rb"
    and bump: "bump_indexes p ra rb s0 = Ok p1" and lt: "loan_terms p1 ra rb s0 sides c d trigger dir = Ok ()"
    by (auto simp: open_loan_terms_def)
  obtain A B sa sb spot ref s1 s2 where t: "swappable p1 ra rb = Ok (sa, sb)"
    "unat d \<le> unat (case sides of CollateralA \<Rightarrow> sb | CollateralB \<Rightarrow> sa)" using lt by (rule loan_terms_Ok)
  have same12: "same_reserves p1 p2"
    using assms(3) bitmap_mut_reserves by (fastforce simp: open_loan_allocate_def Let_def same_reserves_def split: if_splits)
  have same01: "same_reserves p p1" using bump_reserves [OF bump, of 0] by (simp add: same_reserves_def)
  show ?thesis
    by (rule within_open [OF assms(4) same_reserves_trans [OF same01 same12] _ _ _ t(2)])
      (use r assms(2) t(1) same12 in \<open>auto simp: pool_keys_match_def read_token_amount_Ok_iff swappable_Ok_iff same_reserves_def\<close>)
qed

lemma store_keeps_owner:
  assumes "open_loan_store a li bi sb c d nonce p trigger dir bump bid b slot w = Ok w'"
  shows "owner (acct w' i) = owner (acct w i)"
proof -
  obtain x y where "serialize_into x li w = Ok y" "\<exists>z. serialize_into z bi y = Ok w'"
    using assms unfolding open_loan_store_def and_then_Ok_iff by blast
  then show ?thesis by (auto simp: acct_def put_data_def)
qed

text \<open>A write to an account of the program moves no tokens.\<close>

lemma moved_put:
  assumes cust: "custodial e pid" and own: "owner (acct w i) = pid" and put: "ledger w' = ledger (put_data i bs w)"
  shows "moved e pid user p 0 0 w w'"
proof (rule moved_frame)
  fix k assume "is_valid_token_program e (owner (ledger w k))"
  then have "k \<noteq> key i" using own custodialD(2) [OF cust] by (auto simp: acct_def runtime_law_def)
  then show "same_contents (ledger w k) (ledger w' k)" using put by (simp add: put_data_def same_contents_def)
qed

lemma settles_opening:
  assumes cust: "custodial e pid" and solv: "solvent e pid w" and bands: "band_addresses_ok e pid w"
    and "process_open_loan e pid accounts sides_byte c d nonce w = Ok w'"
  shows "settles e pid (key (accounts ! 7)) (key (accounts ! 0)) w w'"
proof (rule open_effect [OF custodialD(3,4) [OF cust] band_addresses_pda [OF bands] assms(4)])
  let ?a = "loan_handler_accounts accounts 11" and ?i = "accounts ! 0"
  have a: "pool_info ?a = accounts ! 0" "vault_a_info ?a = accounts ! 1" "vault_b_info ?a = accounts ! 2"
    "user_info ?a = accounts ! 7" by (simp_all add: loan_handler_accounts_def)
  fix p p1 sides trigger dir bump bid b p2 slot w1 w2 w3 q snap n l
  assume chk: "check_signer_and_token_programs e w ?a = Ok ()" and pe: "pools pid w (key ?i) = Some p"
    and terms: "open_loan_terms e ?a sides_byte c d p w = Ok (p1, sides, trigger, dir)" and touch: "touch p p1"
    and alloc: "open_loan_allocate e pid ?a (accounts ! 8) (accounts ! 9) (accounts ! 10)
       nonce p1 trigger dir w = Ok (bump, bid, b, p2, slot, w1)"
    and store: "open_loan_store ?a (accounts ! 8) (accounts ! 9) sides_byte c d nonce p2
       trigger dir bump bid b slot w1 = Ok w2"
    and w3: "open_loan_transfers e ?a sides c d p2 w2 = Ok w3"
    and book: "open_loan_book p2 sides c d slot = Ok q" and par: "params q = params p1"
    and put: "ledger w' = ledger (put_data ?i (pool_bytes q) w3)"
    and eq: "books_of pid w' = (books_of pid w)\<lparr>b_pools := (pools pid w)(key ?i \<mapsto> q),
       b_loans := (loans pid w)(key (accounts ! 8) \<mapsto> l),
       b_bands := (bands pid w)(key (accounts ! 9) \<mapsto> b\<lparr>band_count := n\<rparr>)\<rparr>"
  note iso = custodialD(3) [OF cust]
  have km: "pool_keys_match p ?a" using assms(4) pe by (rule open_keys_match)
  have ma: "matched e p ?a" by (rule solvent_matched [OF solv pe km checked_token_programs [OF chk]])
  note wi = open_terms_within [OF terms km alloc book]
  obtain al: "key (accounts ! 8) \<noteq> key (accounts ! 9)" "owner (acct w1 (accounts ! 8)) = pid"
    "bands pid w1 (key (accounts ! 9)) = Some b" "books_of pid w1 = (books_of pid w)\<lparr>b_bands := (bands pid w)(key (accounts ! 9) \<mapsto> b)\<rparr>"
    using alloc by (rule open_allocate_Ok [OF iso custodialD(4) [OF cust] band_addresses_pda [OF bands]])
  have own: "owner (acct w1 (accounts ! 9)) = pid" using entry_account(3) [OF al(3)] by simp
  have "pools pid w1 (key ?i) = Some p" using pe al(4) by (simp add: books_of_def)
  then have "owner (acct w2 ?i) = pid" using entry_account(1) store_keeps_owner [OF store] by simp
  then have own3: "owner (acct w3 ?i) = pid"
    using quiet_acct [OF quiet_open_transfers [OF iso checked_token_programs [OF chk] w3]] by simp
  have "moved e pid (key (accounts ! 7)) p (fst (sided (sides = CollateralA) (int (unat c)) (int (unat d))))
     (snd (sided (sides = CollateralA) (int (unat c)) (int (unat d)))) w w3"
    by (rule moved_trans0(1) [OF moved_allocate [OF cust alloc] moved_trans0(1) [OF moved_store [OF cust store al(2) own]
          moved_open_transfers [OF cust ma w3, unfolded a]]])
  note mv = moved_trans0(2) [OF this moved_put [OF cust own3 put]]
  show ?thesis
    by (rule settlesI [OF pe _ _ wi mv]) (use eq par touch in \<open>simp_all add: books_of_def touch_def\<close>)
qed

lemma settles_repayment:
  assumes cust: "custodial e pid" and solv: "solvent e pid w"
    and "process_repay_loan e pid accounts w = Ok w'"
  shows "settles e pid (key (accounts ! 7)) (key (accounts ! 0)) w w'"
proof (rule repay_effect [OF custodialD(3) [OF cust] assms(3)])
  let ?a = "loan_handler_accounts accounts 10"
  have a: "pool_info ?a = accounts ! 0" "user_info ?a = accounts ! 7" by (simp_all add: loan_handler_accounts_def)
  fix p l b ra rb slot p1 owe sides coll w1 q n
  assume load: "repay_load e pid ?a (accounts ! 8) (accounts ! 9) w = Ok (p, l, b)"
    and pe: "pools pid w (key (accounts ! 0)) = Some p" and le: "loans pid w (key (accounts ! 8)) = Some l"
    and be: "bands pid w (key (accounts ! 9)) = Some b"
    and am: "repay_amounts p l ra rb slot = Ok (p1, owe, sides, coll)"
    and w1: "repay_transfers e ?a sides owe coll p1 w = Ok w1" and qt: "quiet pid w w1"
    and book: "repay_book p1 (l\<lparr>loan_last_touch_slot := slot\<rparr>) sides b slot = Ok (q, b\<lparr>band_count := n\<rparr>)"
    and close: "repay_close ?a (accounts ! 8) (accounts ! 9) q (l\<lparr>loan_last_touch_slot := slot\<rparr>)
        (b\<lparr>band_count := n\<rparr>) slot owe w1 = Ok w'"
    and touch: "touch p p1" and par: "params q = params p1"
    and eq: "books_of pid w' = (books_of pid w)\<lparr>b_pools := (pools pid w)(loan_pool l \<mapsto> q),
       b_loans := (loans pid w)(key (accounts ! 8) := None),
       b_bands := (bands pid w)(key (accounts ! 9) \<mapsto> b\<lparr>band_count := n\<rparr>)\<rparr>"
  have pk: "loan_pool l = key (accounts ! 0)" using repay_load_Ok(5) [OF load] by (simp add: a)
  obtain u where chk: "check_signer_and_token_programs e w ?a = Ok u"
    using assms(3) unfolding process_repay_loan_def Let_def guard_Ok_iff and_then_Ok_iff by blast
  have ma: "matched e p ?a"
    by (rule solvent_matched [OF solv pe repay_load_Ok(10) [OF load] checked_token_programs [OF chk]])
  from am have bump: "bump_indexes p ra rb slot = Ok p1" and coll: "loan_collateral_amount l = widen coll"
    by (auto simp: repay_amounts_def try_narrow_u64_widen)
  have same: "same_reserves p p1" using bump_reserves [OF bump, of 0] by (simp add: same_reserves_def)
  have wi: "within e w p q (fst (sided (sides \<noteq> CollateralA) (int (unat owe)) (int (unat coll))))
    (snd (sided (sides \<noteq> CollateralA) (int (unat owe)) (int (unat coll))))"
    by (rule within_repay [OF book same]) (simp add: coll)
  have "owner (acct w1 (pool_info ?a)) = pid" "owner (acct w1 (accounts ! 8)) = pid" "owner (acct w1 (accounts ! 9)) = pid"
    using quiet_acct [OF qt] entry_account(1) [OF pe] entry_account(2) [OF le] entry_account(3) [OF be] by (simp_all add: a)
  note mv = moved_trans0(2) [OF moved_repay_transfers [OF cust ma w1, unfolded a] moved_close [OF cust close this]]
  show ?thesis
    by (rule settlesI [OF pe _ _ wi mv]) (use eq par touch pk in \<open>simp_all add: books_of_def touch_def\<close>)
qed

section \<open>Swaps\<close>

text \<open>The quote never takes more than what is free, and the skim is part of what comes in.\<close>

lemma swap_compute_within:
  assumes "swap_compute p ra rb slot cs x min_out dir bb = Ok (q0, cs', n, skim, out, price)"
    "same_reserves q0 q"
    and "balance e w (vault_a p) = Some (unat ra)" "balance e w (vault_b p) = Some (unat rb)"
  shows "within e w p q (fst (sided dir (int (unat x)) (int (unat out)))) (snd (sided dir (int (unat x)) (int (unat out))))"
proof -
  obtain p1 A0 B0 p2 growth o128 p3 where g: "(minus_p x skim :: (u64, liquidity_error) res) = Ok growth"
    and fin: "swap_final_checks p3 ra rb dir min_out bb skim o128 price = Ok (q0, out)"
    by (rule swap_compute_Ok [OF assms(1)])
  have "unat skim \<le> unat x" using g by (auto simp: minus_p_Ok_iff)
  moreover obtain sa sb fa fb where "swappable p3 ra rb = Ok (sa, sb)" "unat out \<le> (if dir then unat sb else unat sa)"
    "q0 = p3\<lparr>protocol_fees_a := fa, protocol_fees_b := fb\<rparr>"
    "unat fa = unat (protocol_fees_a p3) + (if dir then unat skim else 0)"
    "unat fb = unat (protocol_fees_b p3) + (if dir then 0 else unat skim)"
    using fin by (rule swap_final_checks_Ok)
  ultimately show ?thesis using assms(2-4)
    by (cases dir) (auto simp: within_def sided_def same_reserves_def swappable_Ok_iff)
qed

lemma settles_swap:
  assumes cust: "custodial e pid" and solv: "solvent e pid w" and inv: "book_inv e pid (books_of pid w)"
    and swap: "process_swap e pid accounts x mn dir bb counts w = Ok w'"
  shows "settles e pid (key (accounts ! 7)) (key (accounts ! 0)) w w'"
proof -
  let ?a = "swap_accounts accounts" and ?d = "direction_byte (expected_direction dir)"
  have a: "pool_info ?a = accounts ! 0" "vault_a_info ?a = accounts ! 1" "vault_b_info ?a = accounts ! 2"
    "user_info ?a = accounts ! 7" by (simp_all add: swap_accounts_def)
  note iso = custodialD(3) [OF cust]
  show ?thesis
  proof (rule swap_effect [OF iso inv swap, unfolded a])
    fix p q gs cs slot cs0 ids ra rb q0 n skim out price q2 w1 w2 w3 da db ev
    assume pe: "pools pid w (key (accounts ! 0)) = Some p" and sup: "supplied pid w accounts (key (accounts ! 0)) ?d gs cs"
      and par: "params q = params p"
      and eq: "books_of pid w' = (books_of pid w)\<lparr>b_pools := (pools pid w)(key (accounts ! 0) \<mapsto> q),
         b_loans := mark_loans slot (hit_keys accounts cs) (loans pid w),
         b_bands := (\<lambda>k. map_option (\<lambda>b. b\<lparr>band_count := band_count b - of_nat (card (hit_keys accounts cs \<inter>
            open_in (books_of pid w) (band_pool b) (band_direction b) (band_band_id b)))\<rparr>) (bands pid w k))\<rparr>"
      and km: "pool_keys_match p ?a"
      and r: "read_token_amount e w (accounts ! 1) = Ok ra" "read_token_amount e w (accounts ! 2) = Ok rb"
      and comp: "swap_compute p ra rb slot cs0 x mn dir bb = Ok (q0, cs, n, skim, out, price)"
      and pers: "persist_bands slot accounts cs ?d (map fst gs) q0 w = Ok (q2, w1)"
      and w2: "swap_transfers e ?a dir x out da db q2 w1 = Ok w2" and q: "q = q2\<lparr>last_update_slot := slot\<rparr>"
      and w3: "serialize_into (pool_bytes q) (accounts ! 0) w2 = Ok w3" and w': "w' = emit ev w3"
    obtain u where chk: "check_signer_and_token_programs e w ?a = Ok u"
      using swap unfolding process_swap_def Let_def guard_Ok_iff and_then_Ok_iff by blast
    have ma: "matched e p ?a" by (rule solvent_matched [OF solv pe km checked_token_programs [OF chk]])
    have vault: "ledger w1 k = ledger w k" "same_reserves q0 q2"
      if "is_valid_token_program e (owner (ledger w k))" for k
    proof -
      have k: "owner (ledger w k) \<noteq> pid" using that custodialD(2) [OF cust] by (auto simp: runtime_law_def)
      show "ledger w1 k = ledger w k" "same_reserves q0 q2"
        using postD [OF persist_bands_frame [OF foreign_not_supplied [OF sup k]] pers] by auto
    qed
    have "is_valid_token_program e (owner (ledger w (vault_a p)))"
      using solv pe by (auto simp: solvent_def backed_def dest: holds_owner)
    then have "same_reserves q0 q" using vault(2) by (simp add: q same_reserves_def)
    then have wi: "within e w p q (fst (sided dir (int (unat x)) (int (unat out)))) (snd (sided dir (int (unat x)) (int (unat out))))"
      by (rule swap_compute_within [OF comp]) (use r km in \<open>simp_all add: read_token_amount_Ok_iff pool_keys_match_def a\<close>)
    have m1: "moved e pid (key (accounts ! 7)) p 0 0 w w1"
      by (rule moved_frame) (simp add: vault(1) same_contents_def)
    have pq: "pools pid w' (key (accounts ! 0)) = Some q" using eq by (simp add: books_of_def)
    have "owner (acct w3 (accounts ! 0)) = pid" using entry_account(1) [OF pq] w' by (simp add: acct_def)
    then have "owner (acct w2 (accounts ! 0)) = pid" using w3 by (auto simp: acct_def put_data_def)
    then have m3: "moved e pid (key (accounts ! 7)) p 0 0 w2 w3" by (rule moved_write [OF cust _ w3])
    have mv: "moved e pid (key (accounts ! 7)) p (fst (sided dir (int (unat x)) (int (unat out))))
      (snd (sided dir (int (unat x)) (int (unat out)))) w w'"
      using moved_trans0(2) [OF moved_trans0(1) [OF m1 moved_swap_transfers [OF cust ma w2, unfolded a]] m3] w' by simp
    show ?thesis by (rule settlesI [OF pe _ par wi mv]) (use eq in \<open>simp add: books_of_def\<close>)
  qed
qed

end
