(* ===== verification/Solvency.thy ===== *)
theory Solvency
  imports Settlement
begin

text \<open>
  The vaults cover the books in every ledger the program can be brought to: every instruction keeps
  the pools solvent, and so does everything that other programs can do to the vaults.
\<close>

section \<open>Creating a pool\<close>

lemma create_vault_Ok:
  assumes "create_vault e tp sys payer pool_i mint_i v seed bump rent w = Ok w'"
  obtains size v1 where "create_pda_account e payer v sys size (key tp) [seed, put_key (key pool_i), [bump]] rent w = Ok v1"
    "invoke_signed e (InitializeAccount3 (key tp) (key v) (key mint_i) (key pool_i)) [v, mint_i]
       [[seed, put_key (key pool_i), [bump]]] v1 = Ok w'"
    "size = token_account_len e \<or> token_account_len_2022 e = Ok size"
  using assms by (auto simp: create_vault_def Let_def split: if_splits)

text \<open>The sizes of token accounts fit the 64 bits of the system program's instruction.\<close>

definition sizes_law :: "env \<Rightarrow> bool" where
  "sizes_law e \<longleftrightarrow> token_account_len e < 2 ^ 64 \<and> (\<forall>n. token_account_len_2022 e = Ok n \<longrightarrow> n < 2 ^ 64)"

lemma new_vault:
  assumes cust: "custodial e pid" and sz: "sizes_law e" and tok: "is_valid_token_program e (key tp)"
    and run: "create_vault e tp sys payer pool_i mint_i v seed bump rent w = Ok w'"
  shows "holds e w' (key v) (key pool_i) (key mint_i) 0" "moved e pid user p 0 0 w w'"
proof -
  obtain size v1 where c: "create_pda_account e payer v sys size (key tp) [seed, put_key (key pool_i), [bump]] rent w = Ok v1"
    and i: "invoke_signed e (InitializeAccount3 (key tp) (key v) (key mint_i) (key pool_i)) [v, mint_i]
       [[seed, put_key (key pool_i), [bump]]] v1 = Ok w'"
    and size: "size = token_account_len e \<or> token_account_len_2022 e = Ok size" by (rule create_vault_Ok [OF run])
  have "size < 2 ^ 64" using size sz by (auto simp: sizes_law_def)
  then have ow: "owner (acct v1 v) = key tp" using created_account [OF custodialD(4) [OF cust] _ c] by blast
  obtain l where l: "cpi_invoke e (InitializeAccount3 (key tp) (key v) (key mint_i) (key pool_i)) [v, mint_i]
       [[seed, put_key (key pool_i), [bump]]] (ledger v1) = Ok l" "w' = v1\<lparr>ledger := l\<rparr>"
    using i by (auto simp: invoke_signed_Ok_iff)
  note law = custodialD(5) [OF cust, unfolded token_law_def]
  have "owner (l (key v)) = owner (ledger v1 (key v))"
    using law tok l(1) by (metis cpi_program.simps(4))
  moreover have "\<exists>t. unpack_token_account e (data (l (key v))) = Some t \<and> token_mint t = key mint_i \<and>
      token_owner t = key pool_i" using law tok l(1) by blast
  ultimately show "holds e w' (key v) (key pool_i) (key mint_i) 0"
    using ow l(2) tok by (auto simp: holds_def vault_token_def acct_def)
  show "moved e pid user p 0 0 w w'"
    by (rule moved_trans0(1) [OF moved_create [OF cust c] moved_call [OF cust _ i]]) (simp_all add: tok)
qed

lemma moved_lp_mint:
  assumes cust: "custodial e pid" and tok: "is_valid_token_program e (key tp)"
    and "create_lp_mint e tp sys payer pool_i lp_i bump rent w = Ok w'"
  shows "moved e pid user p 0 0 w w'"
proof -
  from assms(3) obtain size w1 where
    w1: "create_pda_account e payer lp_i sys size (key tp) [LP_MINT_SEED, put_key (key pool_i), [bump]] rent w = Ok w1"
    and w': "invoke_signed e (InitializeMint2 (key tp) (key lp_i) (key pool_i) None LP_MINT_DECIMALS)
        [lp_i] [[LP_MINT_SEED, put_key (key pool_i), [bump]]] w1 = Ok w'"
    by (auto simp: create_lp_mint_def Let_def)
  show ?thesis
    by (rule moved_trans0(1) [OF moved_create [OF cust w1] moved_call [OF cust _ w']]) (simp_all add: tok)
qed

text \<open>Nothing moves while a vault is followed.\<close>

lemma moved_holds:
  assumes "moved e pid user p 0 0 w w'" "vault_address e pid k" "plain_mint e pid m" "own \<noteq> user"
    "holds e w k own m n"
  shows "holds e w' k own m n"
  using assms by (fastforce simp: moved_def plain_mint_def)

lemma still_backed:
  assumes "backed e pid w pk p" "\<And>user. moved e pid user q 0 0 w w'"
  shows "backed e pid w' pk p"
proof -
  have "pk \<noteq> pk + 1" by simp
  then show ?thesis using assms(1) moved_holds [OF assms(2) [of "pk + 1"]] unfolding backed_def by blast
qed

lemma checks_addresses:
  assumes "initialize_pool_checks e pid accounts w = Ok z"
  shows "vault_address e pid (key (accounts ! 3))" "vault_address e pid (key (accounts ! 4))"
    "key (accounts ! 1) \<noteq> key (accounts ! 2)"
  using assms unfolding initialize_pool_checks_def Let_def vault_address_def by (auto split: if_splits)

lemma creation_solvent:
  assumes cust: "custodial e pid" and sz: "sizes_law e" and solv: "solvent e pid w"
    and plain: "plain_mint e pid (key (accounts ! 1))" "plain_mint e pid (key (accounts ! 2))"
    and run: "process_initialize_pool e pid accounts w = Ok w'"
  shows "solvent e pid w'"
proof (rule initialize_effect [OF custodialD(3,4) [OF cust] run])
  let ?i = "accounts ! 0"
  fix c0 c1 c2 c3 rent slot w1 w2 w3 w4 w5 ev
  let ?p = "initial_pool (key (accounts ! 1)) (key (accounts ! 2)) (key (accounts ! 3)) (key (accounts ! 4))
         (key (accounts ! 5)) c0 c1 c2 c3 slot"
  assume chk: "initialize_pool_checks e pid accounts w = Ok (c0, c1, c2, c3)"
    and w1: "create_pda_account e (accounts ! 6) ?i (accounts ! 7) POOL_LEN pid
       [POOL_SEED, put_key (key (accounts ! 1)), put_key (key (accounts ! 2)), [c0]] rent w = Ok w1"
    and w2: "create_vault e (accounts ! 8) (accounts ! 7) (accounts ! 6) ?i (accounts ! 1)
       (accounts ! 3) VAULT_A_SEED c1 rent w1 = Ok w2"
    and w3: "create_vault e (accounts ! 9) (accounts ! 7) (accounts ! 6) ?i (accounts ! 2)
       (accounts ! 4) VAULT_B_SEED c2 rent w2 = Ok w3"
    and w4: "create_lp_mint e (accounts ! 8) (accounts ! 7) (accounts ! 6) ?i (accounts ! 5)
       c3 rent w3 = Ok w4"
    and w5: "serialize_into (pool_bytes ?p) ?i w4 = Ok w5"
    and w': "w' = emit ev w5" and own: "owner (acct w4 ?i) = pid"
    and eq: "books_of pid w' = (books_of pid w)\<lparr>b_pools := (pools pid w)(key ?i \<mapsto> ?p)\<rparr>"
  note tok = initialize_checks_Ok(1,2) [OF chk] and ad = checks_addresses [OF chk]
  note va = new_vault [OF cust sz tok(1) w2] and vb = new_vault [OF cust sz tok(2) w3]
  have m45: "moved e pid user q 0 0 w4 w'" for user q
    using moved_write [OF cust own w5, of user q] w' by simp
  have m34: "moved e pid user q 0 0 w3 w'" for user q
    by (rule moved_trans0(1) [OF moved_lp_mint [OF cust tok(1) w4] m45])
  have m23: "moved e pid user q 0 0 w2 w'" for user q by (rule moved_trans0(1) [OF vb(2) m34])
  have all: "moved e pid user q 0 0 w w'" for user q
    by (rule moved_trans0(1) [OF moved_create [OF cust w1] moved_trans0(1) [OF va(2) m23]])
  have pools: "pools pid w' = (pools pid w)(key ?i \<mapsto> ?p)" using eq by (simp add: books_of_def)
  have ne: "key ?i \<noteq> key ?i + 1" by simp
  have "holds e w' (key (accounts ! 3)) (key ?i) (key (accounts ! 1)) 0"
    by (rule moved_holds [OF m23 ad(1) plain(1) ne va(1)])
  moreover have "holds e w' (key (accounts ! 4)) (key ?i) (key (accounts ! 2)) 0"
    by (rule moved_holds [OF m34 ad(2) plain(2) ne vb(1)])
  ultimately have new: "backed e pid w' (key ?i) ?p" using plain ad by (simp add: backed_def initial_pool_def)
  have "backed e pid w' k r" if "pools pid w' k = Some r" for k r
    using that new still_backed [OF _ all, of k r] solv by (auto simp: pools solvent_def split: if_splits)
  then show ?thesis by (simp add: solvent_def)
qed

text \<open>Claiming rent only empties a closed loan account.\<close>

lemma rent_claim_solvent:
  assumes cust: "custodial e pid" and solv: "solvent e pid w" and run: "process_claim_liquidated_rent e pid accounts w = Ok w'"
  shows "solvent e pid w'"
proof -
  let ?i = "accounts ! 0"
  from run obtain w2 ev where own: "owner (acct w ?i) = pid"
    and w2: "drain ?i (accounts ! 1) (put_data ?i (map (\<lambda>_. 0) (data (acct w ?i))) w) = Ok w2" and w': "w' = emit ev w2"
    by (auto simp: process_claim_liquidated_rent_def Let_def)
  have mv: "moved e pid user q 0 0 w w'" for user q
  proof (rule moved_frame)
    fix k assume "is_valid_token_program e (owner (ledger w k))"
    then have "k \<noteq> key ?i" using own custodialD(2) [OF cust] by (auto simp: acct_def runtime_law_def)
    then show "same_contents (ledger w k) (ledger w' k)" using w2 w'
      by (auto simp: drain_def Let_def put_lamports_def put_data_def acct_def same_contents_def split: if_splits)
  qed
  have "pools pid w' = pools pid w"
    using claim_rent_refines [OF run] by (auto elim!: rent_claimed_E simp: books_of_def)
  then show ?thesis using solv still_backed [OF _ mv] by (simp add: solvent_def)
qed

section \<open>Every instruction\<close>

text \<open>The address of a pool is derived, so it has no private key and never signs a transaction.\<close>

definition no_pool_signs :: "pubkey \<Rightarrow> world \<Rightarrow> account_info list \<Rightarrow> bool" where
  "no_pool_signs program_id w accounts \<longleftrightarrow> (\<forall>i \<in> set accounts. is_signer i \<longrightarrow> pools program_id w (key i) = None)"

definition plain_mints_created :: "env \<Rightarrow> pubkey \<Rightarrow> account_info list \<Rightarrow> liquidity_instruction \<Rightarrow> bool" where
  "plain_mints_created e program_id accounts ix \<longleftrightarrow>
     (ix = InitializePool \<longrightarrow> plain_mint e program_id (key (accounts ! 1)) \<and> plain_mint e program_id (key (accounts ! 2)))"

lemma user_signs:
  assumes "no_pool_signs pid w accounts" "check_signer_and_token_programs e w a = Ok u" "user_info a = accounts ! n"
    "n < length accounts"
  shows "pools pid w (key (accounts ! n)) = None"
  using assms by (auto simp: no_pool_signs_def check_signer_and_token_programs_Ok_iff)

lemma dispatch_user:
  assumes ns: "no_pool_signs pid w accounts" and run: "dispatch e pid accounts ix w = Ok w'"
    and ix: "ix \<notin> {InitializePool, ClaimProtocolFees, ClaimLiquidatedRent}"
  shows "pools pid w (key (accounts ! 7)) = None"
proof -
  have "\<exists>a u. check_signer_and_token_programs e w a = Ok u \<and> user_info a = accounts ! 7 \<and> 7 < length accounts"
    using run ix
    by (cases ix) (force simp: process_add_liquidity_def process_remove_liquidity_def process_open_loan_def
        process_repay_loan_def process_swap_def Let_def add_liquidity_accounts_def remove_liquidity_accounts_def
        loan_handler_accounts_def swap_accounts_def FIXED_PREFIX_LEN_def split: if_splits)+
  then show ?thesis using user_signs [OF ns] by blast
qed

lemma dispatch_solvent:
  assumes cust: "custodial e pid" and sz: "sizes_law e" and bands: "band_addresses_ok e pid w"
    and inv: "book_inv e pid (books_of pid w)" and solv: "solvent e pid w"
    and ns: "no_pool_signs pid w accounts" and plain: "plain_mints_created e pid accounts ix"
    and run: "dispatch e pid accounts ix w = Ok w'"
  shows "solvent e pid w'"
proof (cases "ix \<in> {InitializePool, ClaimProtocolFees, ClaimLiquidatedRent}")
  case True
  then consider (init) "process_initialize_pool e pid accounts w = Ok w'"
      "plain_mint e pid (key (accounts ! 1))" "plain_mint e pid (key (accounts ! 2))"
    | (fees) "process_claim_protocol_fees e pid accounts w = Ok w'"
    | (rent) "process_claim_liquidated_rent e pid accounts w = Ok w'"
    using run plain by (auto simp: plain_mints_created_def)
  then show ?thesis
  proof cases
    case init
    show ?thesis by (rule creation_solvent [OF cust sz solv init(2,3,1)])
  next
    case fees
    obtain p where p: "owner (acct w (accounts ! 0)) = pid" "load_pool w (accounts ! 0) = Ok p"
      by (rule claim_fees_effect [OF fees])
    have "is_valid_token_program e (owner (ledger w (vault_a p)))"
      using solv loaded_pool [OF p(2,1)] by (auto simp: solvent_def backed_def dest: holds_owner)
    then have "pools pid w (vault_a p) = None"
      using custodialD(2) [OF cust] by (cases "pools pid w (vault_a p)") (auto simp: pools_Some runtime_law_def)
    then show ?thesis using settles_fee_claim [OF cust solv fees] settles_solvent [OF solv] solv by blast
  next
    case rent
    show ?thesis by (rule rent_claim_solvent [OF cust solv rent])
  qed
next
  case False
  have "settles e pid (key (accounts ! 7)) (key (accounts ! 0)) w w'"
  proof (cases ix)
    case AddLiquidity
    then show ?thesis using run settles_deposit [OF cust solv] by simp
  next
    case RemoveLiquidity
    then show ?thesis using run settles_withdrawal [OF cust solv] by simp
  next
    case OpenLoan
    then show ?thesis using run settles_opening [OF cust solv bands] by simp
  next
    case RepayLoan
    then show ?thesis using run settles_repayment [OF cust solv] by simp
  next
    case Swap
    then show ?thesis using run settles_swap [OF cust solv inv] by simp
  qed (use False in simp_all)
  then show ?thesis using settles_solvent [OF solv] dispatch_user [OF ns run False] by blast
qed

section \<open>Reachable ledgers\<close>

text \<open>Other programs never take from a vault: only the pool could sign for it.\<close>

definition vaults_kept :: "env \<Rightarrow> pubkey \<Rightarrow> world \<Rightarrow> world \<Rightarrow> bool" where
  "vaults_kept e program_id w w' \<longleftrightarrow> (\<forall>k t. vault_address e program_id k \<longrightarrow>
     vault_token e (ledger w k) = Some t \<longrightarrow> plain_mint e program_id (token_mint t) \<longrightarrow>
     (\<exists>t'. vault_token e (ledger w' k) = Some t' \<and> at_least t t'))"

text \<open>The ledgers of \<open>reachable\<close>, with these two conditions on instructions and on outside steps.\<close>

inductive custodied :: "env \<Rightarrow> pubkey \<Rightarrow> world \<Rightarrow> bool" for e program_id where
  start: "(\<And>k. owner (ledger w k) \<noteq> program_id) \<Longrightarrow> band_addresses_ok e program_id w \<Longrightarrow>
    custodied e program_id w"
| instruction: "custodied e program_id w \<Longrightarrow> no_pool_signs program_id w accounts \<Longrightarrow>
    plain_mints_created e program_id accounts ix \<Longrightarrow>
    dispatch (e\<lparr>clock_get := slot\<rparr>) program_id accounts ix w = Ok w' \<Longrightarrow> custodied e program_id w'"
| other: "custodied e program_id w \<Longrightarrow> outside e program_id w w' \<Longrightarrow> vaults_kept e program_id w w' \<Longrightarrow>
    custodied e program_id w'"

lemma custodied_reachable: "custodied e pid w \<Longrightarrow> reachable e pid w"
  by (induction rule: custodied.induct) (blast intro: reachable.intros)+

text \<open>None of the conditions depends on the clock.\<close>

lemma custody_clock [simp]:
  "vault_token (e\<lparr>clock_get := slot\<rparr>) = vault_token e" "plain_mint (e\<lparr>clock_get := slot\<rparr>) = plain_mint e"
  "custodial (e\<lparr>clock_get := slot\<rparr>) = custodial e" "sizes_law (e\<lparr>clock_get := slot\<rparr>) = sizes_law e"
  "solvent (e\<lparr>clock_get := slot\<rparr>) = solvent e"
  "plain_mints_created (e\<lparr>clock_get := slot\<rparr>) = plain_mints_created e"
proof -
  have v: "is_valid_token_program (e\<lparr>clock_get := slot\<rparr>) = is_valid_token_program e"
    by (simp add: fun_eq_iff is_valid_token_program_def)
  show t: "vault_token (e\<lparr>clock_get := slot\<rparr>) = vault_token e" by (simp add: fun_eq_iff vault_token_def v)
  have tr: "transfer_law (e\<lparr>clock_get := slot\<rparr>) = transfer_law e" by (simp add: fun_eq_iff transfer_law_def)
  show p: "plain_mint (e\<lparr>clock_get := slot\<rparr>) = plain_mint e"
    by (simp add: fun_eq_iff plain_mint_def custody_law_def t v tr)
  show "custodial (e\<lparr>clock_get := slot\<rparr>) = custodial e"
    by (simp add: fun_eq_iff custodial_def token_law_def v)
  show "sizes_law (e\<lparr>clock_get := slot\<rparr>) = sizes_law e" by (simp add: sizes_law_def)
  have "holds (e\<lparr>clock_get := slot\<rparr>) = holds e" by (simp add: fun_eq_iff holds_def t)
  then show "solvent (e\<lparr>clock_get := slot\<rparr>) = solvent e"
    by (simp add: fun_eq_iff solvent_def backed_def p)
  show "plain_mints_created (e\<lparr>clock_get := slot\<rparr>) = plain_mints_created e"
    by (simp add: fun_eq_iff plain_mints_created_def p)
qed

lemma kept_solvent:
  assumes "solvent e pid w" "vaults_kept e pid w w'" "pools pid w' = pools pid w"
  shows "solvent e pid w'"
proof -
  have "holds e w' k own m n" if h: "vault_address e pid k" "plain_mint e pid m" "holds e w k own m n" for k own m n
  proof -
    obtain t where t: "vault_token e (ledger w k) = Some t" "token_owner t = own" "token_mint t = m"
      "n \<le> int (unat (token_amount t))" using h(3) by (auto simp: holds_def)
    then obtain t' where "vault_token e (ledger w' k) = Some t'" "at_least t t'"
      using assms(2) h(1,2) unfolding vaults_kept_def by blast
    then show ?thesis using t by (auto simp: holds_def at_least_def)
  qed
  then show ?thesis using assms(1,3) unfolding solvent_def backed_def by metis
qed

lemma custodied_solvent:
  assumes "custodied e pid w" and cust: "custodial e pid" and sz: "sizes_law e"
  shows "solvent e pid w"
  using assms(1)
proof (induction rule: custodied.induct)
  case (start w)
  then show ?case by (simp add: solvent_def pools_Some)
next
  case (instruction w accounts ix slot w')
  let ?e = "e\<lparr>clock_get := slot\<rparr>"
  have inv: "book_inv e pid (books_of pid w) \<and> band_addresses_ok e pid w"
    by (rule reachable_inv [OF custodied_reachable [OF instruction.hyps(1)] custodialD(1) [OF cust]])
  have "solvent ?e pid w'"
    by (rule dispatch_solvent [of ?e pid w accounts ix]) (use instruction inv cust sz in simp_all)
  then show ?case by simp
next
  case (other w w')
  have "pid \<noteq> system_program_id e" using custodialD(2) [OF cust] by (simp add: runtime_law_def)
  then have "pools pid w' = pools pid w" using books_outside [OF other.hyps(2)] by (metis books_of_simps(1))
  then show ?case using kept_solvent other by blast
qed

text \<open>C3: custody. In every ledger that instructions, in any order, at any slot and with any
  accounts, and other programs can lead to, the vaults of a pool are its own token accounts of its
  two mints, and each holds at least the collateral of all the loans that are open on that side
  plus the protocol fees: no sequence of deposits, withdrawals, loans, repayments, liquidating swaps
  and claims, on this pool or on others, can leave a borrower's collateral unbacked.\<close>

theorem vaults_cover_books:
  assumes "custodial e pid" "sizes_law e" "custodied e pid w" "pools pid w pk = Some p"
  shows "\<exists>ta tb. vault_token e (ledger w (vault_a p)) = Some ta \<and> vault_token e (ledger w (vault_b p)) = Some tb \<and>
    token_owner ta = pk \<and> token_owner tb = pk \<and> token_mint ta = mint_a p \<and> token_mint tb = mint_b p \<and>
    total (collateral_on CollateralA) (positions (books_of pid w) (open_of (books_of pid w) pk)) +
      unat (protocol_fees_a p) \<le> unat (token_amount ta) \<and>
    total (collateral_on CollateralB) (positions (books_of pid w) (open_of (books_of pid w) pk)) +
      unat (protocol_fees_b p) \<le> unat (token_amount tb)"
proof -
  have "backed e pid w pk p" using custodied_solvent [OF assms(3,1,2)] assms(4) by (simp add: solvent_def)
  moreover have "book_inv e pid (books_of pid w)"
    using reachable_inv [OF custodied_reachable [OF assms(3)] custodialD(1) [OF assms(1)]] by simp
  then have "totals_match p (positions (books_of pid w) (open_of (books_of pid w) pk))"
    using inv_poolD [of e pid "books_of pid w" pk p] assms(4) by (simp add: pool_ok_def)
  ultimately show ?thesis by (force simp: backed_def holds_def totals_match_def)
qed

section \<open>The sample environment\<close>

lemma sample_token_law: "token_law sample_env"
proof -
  have "owner (l' k) = owner (l k)"
    if "is_valid_token_program sample_env (cpi_program sample_env c)" "sample_cpi c infos seeds l = Ok l'" for c infos seeds l l' k
    using that token_transfer_writes token_supply_change_writes
    by (cases c) (auto simp: is_valid_token_program_def SPL_TOKEN_PROGRAM_ID_def split: if_splits)
  then show ?thesis by (auto simp: token_law_def split: if_splits)
qed

text \<open>Neither mints nor zeroed accounts are token accounts of a mint with a non-zero address.\<close>

lemma token_of_Some: "token_of bs = Some t \<Longrightarrow> bs = token_bytes t"
  by (auto simp: token_of_def from_slice_Some get_token_def token_bytes_def bind_eq_Some_conv dest!: get_word_Some [rotated] get_key_Some)

lemma token_shape:
  assumes "token_of bs = Some t"
  shows "mint_of bs \<noteq> Ok m" "token_mint t \<noteq> 0 \<Longrightarrow> \<not> list_all (\<lambda>b. b = 0) bs"
proof -
  have bs: "bs = token_bytes t" by (rule token_of_Some [OF assms])
  have "length bs = 72" by (simp add: bs token_bytes_def)
  moreover have "length bs = 9" if "mint_of bs = Ok m"
    using that by (auto simp: mint_of_def from_slice_Some get_mint_def bind_eq_Some_conv dest!: get_word_Some [rotated])
  ultimately show "mint_of bs \<noteq> Ok m" by auto
  show "\<not> list_all (\<lambda>b. b = 0) bs" if nz: "token_mint t \<noteq> 0"
  proof
    assume "list_all (\<lambda>b. b = 0) bs"
    then have "bs = replicate 72 0"
      using \<open>length bs = 72\<close> by (simp add: list_all_iff replicate_eqI)
    also have "\<dots> = token_bytes \<lparr>token_mint = 0, token_owner = 0, token_amount = 0\<rparr>" by code_simp
    finally show False using assms nz by auto
  qed
qed

lemma sample_custody_law:
  assumes "m \<noteq> 0" shows "custody_law sample_env 99 m"
proof -
  have "cpi_source c \<noteq> Some k \<and> (\<exists>t'. vault_token sample_env (l' k) = Some t' \<and> at_least t t')"
    if tok: "is_valid_token_program sample_env (cpi_program sample_env c)" and run: "sample_cpi c infos seeds l = Ok l'"
      and t: "vault_token sample_env (l k) = Some t" "token_mint t = m" and auth: "cpi_authority c \<noteq> Some (token_owner t)"
    for c infos seeds l l' k t
  proof -
    have tk: "token_of (data (l k)) = Some t" "is_valid_token_program sample_env (owner (l k))"
      using t(1) by (auto simp: vault_token_def split: if_splits)
    note shape = token_shape [OF tk(1)]
    have nz: "\<not> list_all (\<lambda>b. b = 0) (data (l k))" using shape(2) t(2) assms by simp
    show ?thesis
    proof (cases c)
      case (TransferChecked prog src mt dst au amount dec)
      then show ?thesis using run auth tk
        by (auto simp: vault_token_def at_least_def token_transfer_def checked_add_Some_iff split: option.splits if_splits)
    next
      case (MintToChecked prog mt dst au amount dec)
      then have "mt \<noteq> k" using run shape(1) by (auto simp: token_supply_change_def split: if_splits)
      then show ?thesis using MintToChecked run auth tk
        by (auto simp: vault_token_def at_least_def token_supply_change_def Let_def checked_add_Some_iff split: if_splits)
    next
      case (BurnChecked prog acc mt au amount dec)
      then have "mt \<noteq> k" using run shape(1) by (auto simp: token_supply_change_def split: if_splits)
      then show ?thesis using BurnChecked run auth tk
        by (auto simp: vault_token_def at_least_def token_supply_change_def Let_def checked_sub_Some_iff split: if_splits)
    next
      case (InitializeAccount3 prog acc mt own)
      then show ?thesis using run tk nz by (auto simp: vault_token_def at_least_def split: if_splits)
    next
      case (InitializeMint2 prog mt au freeze dec)
      then show ?thesis using run tk nz by (auto simp: vault_token_def at_least_def split: if_splits)
    qed (use tok in \<open>simp_all add: is_valid_token_program_def SPL_TOKEN_PROGRAM_ID_def\<close>)
  qed
  then show ?thesis by (simp add: custody_law_def)
qed

lemma sample_plain: "m \<noteq> 0 \<Longrightarrow> plain_mint sample_env 99 m"
  by (simp add: plain_mint_def sample_transfer_law sample_custody_law)

lemma sample_custodial: "custodial sample_env 99" "sizes_law sample_env"
proof -
  show "custodial sample_env 99" by (simp add: custodial_def sample_platform sample_token_law)
  show "sizes_law sample_env" by (simp add: sizes_law_def sample_env_def)
qed

text \<open>A pool is created on an empty ledger, and its empty books are covered.\<close>

theorem vaults_cover_books_witness:
  "\<exists>w p ta tb. custodied sample_env 99 w \<and> pools 99 w 2 = Some p \<and>
    vault_token sample_env (ledger w (vault_a p)) = Some ta \<and> vault_token sample_env (ledger w (vault_b p)) = Some tb \<and>
    token_owner ta = 2 \<and> token_owner tb = 2"
proof -
  obtain w p where w: "dispatch sample_env 99 start_accounts InitializePool start_world = Ok w" "pools 99 w 2 = Some p"
    using start_runs by blast
  have start: "custodied sample_env 99 start_world"
    by (rule custodied.start)
      (simp_all add: start_world_def sample_mint_def plain_def SPL_TOKEN_PROGRAM_ID_def band_addresses_ok_def
        unclaimed_or_own_def sample_addresses)
  have "pools 99 start_world k = None" for k
    by (cases "pools 99 start_world k")
      (auto simp: pools_Some start_world_def sample_mint_def plain_def SPL_TOKEN_PROGRAM_ID_def split: if_splits)
  then have ns: "no_pool_signs 99 start_world start_accounts" by (simp add: no_pool_signs_def)
  have plain: "plain_mints_created sample_env 99 start_accounts InitializePool"
    by (simp add: plain_mints_created_def start_accounts_def sample_plain)
  have clk: "sample_env\<lparr>clock_get := Ok 100\<rparr> = sample_env" by (simp add: sample_env_def)
  have cust: "custodied sample_env 99 w"
    by (rule custodied.instruction [OF start ns plain, where slot = "Ok 100"]) (simp only: clk w(1))
  show ?thesis using vaults_cover_books [OF sample_custodial cust w(2)] cust w(2) by blast
qed

end
