(* ===== verification/Conformance_Math.thy ===== *)
theory Conformance_Math
  imports Math_Properties
begin

text \<open>
  The unit tests of \<open>math.rs\<close>, translated assertion by assertion into executable predicates over
  the model's functions (\<open>unwrap\<close> as equality with an \<open>Ok\<close> value), and evaluated by the kernel:
  the definitions the theorems are about compute what the repository expects of its code. The two
  long loops are in \<open>Conformance_Loops\<close>.
\<close>

section \<open>Assertions\<close>

text \<open>\<open>r.unwrap()\<close> followed by an assertion about the value, and \<open>r.is_err()\<close>.\<close>

definition unwrap_and :: "('a, 'e) res \<Rightarrow> ('a \<Rightarrow> bool) \<Rightarrow> bool" where
  "unwrap_and r P = (case r of Ok x \<Rightarrow> P x | _ \<Rightarrow> False)"

definition is_err :: "('a, 'e) res \<Rightarrow> bool" where
  "is_err r = (case r of Err _ \<Rightarrow> True | _ \<Rightarrow> False)"

lemma assertion_simps [simp]:
  "unwrap_and (Ok x) P = P x" "unwrap_and (Err err) P = False" "unwrap_and Panic P = False"
  "is_err (Ok x) = False" "is_err (Err err) = True" "is_err Panic = False"
  by (simp_all add: unwrap_and_def is_err_def)

lemma bit_len_eval [code_defs]:
  "bit_len 1 = 1" "bit_len (Suc 0) = 1" "bit_len (numeral (Num.Bit0 n)) = Suc (bit_len (numeral n))"
  "bit_len (numeral (Num.Bit1 n)) = Suc (bit_len (numeral n))"
  by (simp_all add: bit_len.simps [of 1] bit_len.simps [of "Suc 0"] bit_len.simps [of "numeral (Num.Bit0 n)"]
      bit_len.simps [of "numeral (Num.Bit1 n)"])

lemma isqrt_loop_eval [code_defs]:
  "isqrt_loop (numeral n) (numeral x) = and_then (div_p (numeral n) (numeral x)) (\<lambda>q.
     and_then (plus_p (numeral x) q) (\<lambda>s. let y = s div 2 in if numeral x \<le> y then Ok (numeral x) else isqrt_loop (numeral n) y))"
  "isqrt_loop 1 (numeral x) = and_then (div_p 1 (numeral x)) (\<lambda>q.
     and_then (plus_p (numeral x) q) (\<lambda>s. let y = s div 2 in if numeral x \<le> y then Ok (numeral x) else isqrt_loop 1 y))"
  "isqrt_loop (numeral n) 1 = and_then (div_p (numeral n) 1) (\<lambda>q.
     and_then (plus_p 1 q) (\<lambda>s. let y = s div 2 in if 1 \<le> y then Ok 1 else isqrt_loop (numeral n) y))"
  "isqrt_loop 1 1 = and_then (div_p 1 1) (\<lambda>q.
     and_then (plus_p 1 q) (\<lambda>s. let y = s div 2 in if 1 \<le> y then Ok 1 else isqrt_loop 1 y))"
  by (rule isqrt_loop.simps)+

lemma word_le_one [code_defs]: "(numeral n :: 'a::len word) \<le> 1 \<longleftrightarrow> unat (numeral n :: 'a word) \<le> 1"
  by (simp add: word_le_nat_alt)

named_theorems test_defs \<open>the translated unit tests\<close>

text \<open>Closed terms are evaluated by rewriting: continuations and loop bodies are left alone until they
  meet a value.\<close>

lemmas eval_congs =
  arg_cong [where f = "\<lambda>r. and_then r f" for f] arg_cong [where f = "\<lambda>r. unwrap_and r P" for P]
  arg_cong [where f = "list_all P" for P]

declare and_then_Ok_iff [simp del]

definition u64_MAX :: u128 where [code_defs]: "u64_MAX = 18446744073709551615"
definition u128_MAX :: u128 where [code_defs]: "u128_MAX = 340282366920938463463374607431768211455"
definition slot_MAX :: u64 where [code_defs]: "slot_MAX = 18446744073709551615"

section \<open>Fixed point and the curve\<close>

definition test_wad_mul_basic :: bool where
  [test_defs]: "test_wad_mul_basic \<longleftrightarrow> wad_mul 1500000000000000000 2000000000000000000 = Ok 3000000000000000000"

definition test_wad_div_basic :: bool where
  [test_defs]: "test_wad_div_basic \<longleftrightarrow> wad_div 3000000000000000000 2000000000000000000 = Ok 1500000000000000000"

definition test_wad_div_by_zero :: bool where
  [test_defs]: "test_wad_div_by_zero \<longleftrightarrow> wad_div WAD 0 = Err MathOverflow"

definition test_cpmm_quote_no_fee :: bool where
  [test_defs]: "test_cpmm_quote_no_fee \<longleftrightarrow> cpmm_quote_out 100 1000 1000 0 = Ok 90"

definition test_cpmm_quote_with_fee :: bool where
  [test_defs]: "test_cpmm_quote_with_fee \<longleftrightarrow> cpmm_quote_out 100 1000 1000 30 = Ok 90"

definition test_cpmm_quote_zero_amount :: bool where
  [test_defs]: "test_cpmm_quote_zero_amount \<longleftrightarrow> cpmm_quote_out 0 1000 1000 30 = Err ZeroAmount"

definition test_cpmm_quote_zero_reserves :: bool where
  [test_defs]: "test_cpmm_quote_zero_reserves \<longleftrightarrow> cpmm_quote_out 100 0 1000 30 = Err ZeroReserves \<and>
     cpmm_quote_out 100 1000 0 30 = Err ZeroReserves"

definition test_cpmm_quote_invariant_holds :: bool where
  [test_defs]: "test_cpmm_quote_invariant_holds \<longleftrightarrow>
     (let r_in = 10000; r_out = 50000; amt_in = 1000 in
      unwrap_and (cpmm_quote_out amt_in r_in r_out 0)
        (\<lambda>amt_out. r_in * r_out \<le> (r_in + amt_in) * (r_out - amt_out)))"

definition test_price_b_per_a :: bool where
  [test_defs]: "test_price_b_per_a \<longleftrightarrow> price_b_per_a_wad 1000 5000 = Ok 5000000000000000000"

section \<open>Triggers and bands\<close>

definition test_recompute_trigger_collateral_a :: bool where
  [test_defs]: "test_recompute_trigger_collateral_a \<longleftrightarrow>
     recompute_trigger CollateralA 50 100 11000 = Ok (2200000000000000000, OnFall)"

definition test_recompute_trigger_collateral_b :: bool where
  [test_defs]: "test_recompute_trigger_collateral_b \<longleftrightarrow>
     recompute_trigger CollateralB 200 50 11000 = Ok ((200 * 10000 * WAD) div (50 * 11000), OnRise)"

definition test_recompute_trigger_zero_amount :: bool where
  [test_defs]: "test_recompute_trigger_zero_amount \<longleftrightarrow>
     recompute_trigger CollateralA 0 100 11000 = Err ZeroAmount \<and>
     recompute_trigger CollateralA 100 0 11000 = Err ZeroAmount"

definition test_is_liquidatable :: bool where
  [test_defs]: "test_is_liquidatable \<longleftrightarrow>
     (let trig = 2000000000000000000 in
      is_liquidatable trig OnFall trig \<and> is_liquidatable trig OnFall (trig - 1) \<and>
      \<not> is_liquidatable trig OnFall (trig + 1) \<and> is_liquidatable trig OnRise trig \<and>
      is_liquidatable trig OnRise (trig + 1) \<and> \<not> is_liquidatable trig OnRise (trig - 1))"

definition test_band_id_for_trigger :: bool where
  [test_defs]: "test_band_id_for_trigger \<longleftrightarrow>
     band_id_for_trigger WAD = Ok 64 \<and> band_id_for_trigger (2 * WAD) = Ok 65 \<and>
     band_id_for_trigger (WAD div 2) = Ok 63 \<and> band_id_for_trigger 1 = Ok 5"

definition test_band_id_zero_errors :: bool where
  [test_defs]: "test_band_id_zero_errors \<longleftrightarrow>
     band_id_for_trigger 0 = Err ZeroAmount"

definition test_band_min_max_consistent :: bool where
  [test_defs]: "test_band_min_max_consistent \<longleftrightarrow>
     list_all (\<lambda>n. let b = of_nat n in
       unwrap_and (band_min_wad b) (\<lambda>lo. unwrap_and (band_max_wad b) (\<lambda>hi.
         (0 < lo \<longrightarrow> band_id_for_trigger lo = Ok b) \<and> (1 < hi \<longrightarrow> band_id_for_trigger (hi - 1) = Ok b) \<and>
         band_id_for_trigger hi = Ok (b + 1)))) [10..<120]"

definition test_loan_sides_roundtrip :: bool where
  [test_defs]: "test_loan_sides_roundtrip \<longleftrightarrow>
     loan_sides_from_u8 0 = Ok CollateralA \<and> loan_sides_from_u8 1 = Ok CollateralB \<and>
     loan_sides_from_u8 2 = Err InvalidSidesEncoding"

definition test_trigger_direction_roundtrip :: bool where
  [test_defs]: "test_trigger_direction_roundtrip \<longleftrightarrow>
     trigger_direction_from_u8 0 = Ok OnFall \<and> trigger_direction_from_u8 1 = Ok OnRise \<and>
     trigger_direction_from_u8 2 = Err InvalidSidesEncoding"

section \<open>Interest\<close>

definition test_utilization_basic :: bool where
  [test_defs]: "test_utilization_basic \<longleftrightarrow>
     utilization_wad 0 1000 = 0 \<and> utilization_wad 500 1000 = WAD div 2 \<and>
     utilization_wad 1000 1000 = WAD \<and> utilization_wad 0 0 = 0 \<and> utilization_wad 1500 1000 = WAD"

definition test_borrow_rate_curve :: bool where
  [test_defs]: "test_borrow_rate_curve \<longleftrightarrow>
     (let rate = (\<lambda>util. compute_borrow_rate_wad_per_year util 0 400 30000 8000) in
      rate 0 = Ok 0 \<and> rate (8000 * WAD div BPS_DENOM) = Ok 40000000000000000 \<and>
      rate WAD = Ok 3040000000000000000 \<and> rate (WAD div 2) = Ok 25000000000000000)"

definition test_borrow_rate_curve_above_kink :: bool where
  [test_defs]: "test_borrow_rate_curve_above_kink \<longleftrightarrow>
     compute_borrow_rate_wad_per_year (9 * WAD div 10) 0 400 30000 8000 = Ok 1540000000000000000"

definition test_bump_index_one_year_at_ten_percent :: bool where
  [test_defs]: "test_bump_index_one_year_at_ten_percent \<longleftrightarrow>
     bump_index_wad WAD (WAD div 10) SLOTS_PER_YEAR = 11 * WAD div 10"

definition test_bump_index_zero_inputs :: bool where
  [test_defs]: "test_bump_index_zero_inputs \<longleftrightarrow>
     bump_index_wad WAD 0 1000 = WAD \<and> bump_index_wad WAD (WAD div 10) 0 = WAD"

definition max_possible_rate :: "(u128, liquidity_error) res" where
  [code_defs]: "max_possible_rate = compute_borrow_rate_wad_per_year WAD 65535 65535 65535 1"

definition test_bump_index_saturates_at_cap :: bool where
  [test_defs]: "test_bump_index_saturates_at_cap \<longleftrightarrow>
     (let rate = WAD div 10; near = INDEX_CAP_WAD - 1; quarter = INDEX_CAP_WAD div 4 in
      bump_index_wad near rate SLOTS_PER_YEAR = INDEX_CAP_WAD \<and>
      bump_index_wad INDEX_CAP_WAD rate 1 = INDEX_CAP_WAD \<and>
      unwrap_and max_possible_rate (\<lambda>r. bump_index_wad INDEX_CAP_WAD r slot_MAX = INDEX_CAP_WAD) \<and>
      bump_index_wad quarter rate SLOTS_PER_YEAR = quarter + quarter div 10 \<and>
      bump_index_wad u128_MAX rate 1 = u128_MAX)"

definition test_bump_index_extreme_elapsed_does_not_error :: bool where
  [test_defs]: "test_bump_index_extreme_elapsed_does_not_error \<longleftrightarrow>
     unwrap_and max_possible_rate (\<lambda>max_rate.
     unwrap_and (compute_borrow_rate_wad_per_year WAD 0 400 30000 8000) (\<lambda>configured_max.
       list_all (\<lambda>rate.
         list_all (\<lambda>start. bump_index_wad start rate slot_MAX = INDEX_CAP_WAD)
           [INDEX_CAP_WAD div 2, INDEX_CAP_WAD - 1] \<and>
         (let r = bump_index_wad WAD rate slot_MAX in WAD < r \<and> r \<le> INDEX_CAP_WAD))
       [configured_max, max_rate]))"

definition test_owed_at_cap_fits_u128 :: bool where
  [test_defs]: "test_owed_at_cap_fits_u128 \<longleftrightarrow>
     owed_from_index u64_MAX WAD INDEX_CAP_WAD = Ok (push_bit 64 u64_MAX)"

section \<open>Loan-to-value and debt\<close>

definition test_ltv_bps_basic :: bool where
  [test_defs]: "test_ltv_bps_basic \<longleftrightarrow>
     ltv_bps 100 50 1000 5000 = Ok 4000"

definition test_ltv_bps_matches_naive_formula :: bool where
  [test_defs]: "test_ltv_bps_matches_naive_formula \<longleftrightarrow>
     list_all (\<lambda>(debt, coll, an, bn). ltv_bps debt coll an bn = Ok (((debt * BPS_DENOM) * an) div (coll * bn)))
       [(1, 1, 1, 1), (100, 50, 1000, 5000), (7, 3, 999, 1234), (1000000, 999999, 123456, 654321)]"

definition test_ltv_bps_no_overflow_at_extremes :: bool where
  [test_defs]: "test_ltv_bps_no_overflow_at_extremes \<longleftrightarrow>
     ltv_bps u64_MAX u64_MAX u64_MAX u64_MAX = Ok BPS_DENOM"

definition test_ltv_bps_zero_denominator_errors :: bool where
  [test_defs]: "test_ltv_bps_zero_denominator_errors \<longleftrightarrow>
     ltv_bps 100 0 1000 5000 = Err MathOverflow \<and> ltv_bps 100 50 1000 0 = Err MathOverflow"

definition test_owed_from_index :: bool where
  [test_defs]: "test_owed_from_index \<longleftrightarrow>
     owed_from_index 100 WAD (3 * WAD div 2) = Ok 150"

definition test_owed_rounds_up :: bool where
  [test_defs]: "test_owed_rounds_up \<longleftrightarrow>
     owed_from_index 100 WAD (2 * WAD) = Ok 200 \<and> owed_from_index 3 (2 * WAD) (4 * WAD) = Ok 6 \<and>
     owed_from_index 1 WAD (2 * WAD - 1) = Ok 2 \<and> owed_from_index 1 WAD (WAD + 1) = Ok 2 \<and>
     owed_from_index 100 WAD (WAD + 1) = Ok 101 \<and> owed_from_index 10 (3 * WAD) (4 * WAD) = Ok 14 \<and>
     list_all (\<lambda>snap. owed_from_index 0 snap snap = Ok 0 \<and> owed_from_index 12345 snap snap = Ok 12345 \<and>
         owed_from_index u64_MAX snap snap = Ok u64_MAX)
       [WAD, WAD + 1, 7 * WAD div 3, INDEX_CAP_WAD] \<and>
     owed_from_index 0 WAD INDEX_CAP_WAD = Ok 0"

definition test_owed_rounds_up_large_values :: bool where
  [test_defs]: "test_owed_rounds_up_large_values \<longleftrightarrow>
     (let p = u64_MAX; snap = INDEX_CAP_WAD div 2 in
      owed_from_index p WAD (WAD + 1) = Ok (p + p div WAD + 1) \<and>
      owed_from_index (p - 1) snap (snap div 2 * 3) = Ok ((p - 1) div 2 * 3) \<and>
      list_all (\<lambda>(pr, s, c). unwrap_and (mul_div pr c s) (\<lambda>floor. unwrap_and (owed_from_index pr s c) (\<lambda>ceil.
          (ceil = floor \<or> ceil = floor + 1) \<and> pr \<le> ceil)))
        [(p, WAD, 3 * WAD div 2 + 7), (123456789, 1234567890123456789, 9876543210987654321),
         (p, WAD + 12345, INDEX_CAP_WAD - 1)])"

definition test_owed_rejects_index_regression :: bool where
  [test_defs]: "test_owed_rejects_index_regression \<longleftrightarrow>
     owed_from_index 100 WAD (WAD - 1) = Err MathUnderflow"

section \<open>Integer helpers\<close>

definition test_isqrt_basic :: bool where
  [test_defs]: "test_isqrt_basic \<longleftrightarrow>
     isqrt_u128 0 = Ok 0 \<and> isqrt_u128 1 = Ok 1 \<and> isqrt_u128 2 = Ok 1 \<and> isqrt_u128 4 = Ok 2 \<and>
     isqrt_u128 9 = Ok 3 \<and> isqrt_u128 15 = Ok 3 \<and> isqrt_u128 16 = Ok 4 \<and> isqrt_u128 99 = Ok 9 \<and>
     isqrt_u128 100 = Ok 10 \<and> isqrt_u128 1000000 = Ok 1000 \<and>
     unwrap_and (isqrt_u128 u128_MAX) (\<lambda>r. r \<le> u128_MAX div r)"

definition test_mul_div :: bool where
  [test_defs]: "test_mul_div \<longleftrightarrow>
     mul_div 10 20 5 = Ok 40 \<and> mul_div u128_MAX 2 4 = Ok (u128_MAX div 2)"

definition test_mul_div_zero_denom :: bool where
  [test_defs]: "test_mul_div_zero_denom \<longleftrightarrow>
     mul_div 10 20 0 = Err MathOverflow"

section \<open>Reference price\<close>

definition test_unset_reference_seeds_with_spot :: bool where
  [test_defs]: "test_unset_reference_seeds_with_spot \<longleftrightarrow>
     ema_ref_price_wad 0 (3 * WAD) 0 = Ok (3 * WAD) \<and>
     ema_ref_price_wad 0 (3 * WAD) 1 = Ok (3 * WAD)"

definition test_zero_elapsed_is_identity :: bool where
  [test_defs]: "test_zero_elapsed_is_identity \<longleftrightarrow>
     ema_ref_price_wad WAD (4 * WAD) 0 = Ok WAD"

definition test_single_slot_pump_moves_at_most_one_over_h :: bool where
  [test_defs]: "test_single_slot_pump_moves_at_most_one_over_h \<longleftrightarrow>
     (let r = WAD; H = widen REF_PRICE_WINDOW_SLOTS in
      unwrap_and (ema_ref_price_wad r (4 * r) 1) (\<lambda>up. r < up \<and> up - r \<le> 3 * r div H) \<and>
      unwrap_and (ema_ref_price_wad r (r div 4) 1) (\<lambda>down. down < r \<and> r - down \<le> (r - r div 4) div H + 1))"

definition test_elapsed_at_or_beyond_window_snaps_to_spot :: bool where
  [test_defs]: "test_elapsed_at_or_beyond_window_snaps_to_spot \<longleftrightarrow>
     ema_ref_price_wad WAD (7 * WAD) REF_PRICE_WINDOW_SLOTS = Ok (7 * WAD) \<and>
     ema_ref_price_wad WAD (WAD div 7) (REF_PRICE_WINDOW_SLOTS + 1) = Ok (WAD div 7) \<and>
     ema_ref_price_wad WAD (2 * WAD) slot_MAX = Ok (2 * WAD)"

definition test_partial_window_is_linear_in_elapsed :: bool where
  [test_defs]: "test_partial_window_is_linear_in_elapsed \<longleftrightarrow>
     (let half = REF_PRICE_WINDOW_SLOTS div 2; h = widen half; H = widen REF_PRICE_WINDOW_SLOTS in
      ema_ref_price_wad WAD (3 * WAD) half = Ok (WAD + 2 * WAD * h div H) \<and>
      ema_ref_price_wad (3 * WAD) WAD half = Ok (3 * WAD - 2 * WAD * h div H))"

definition test_no_overflow_and_result_between_inputs :: bool where
  [test_defs]: "test_no_overflow_and_result_between_inputs \<longleftrightarrow>
     list_all (\<lambda>(a, b). list_all (\<lambda>e. unwrap_and (ema_ref_price_wad a b e) (\<lambda>r. min a b \<le> r \<and> r \<le> max a b))
         [1, 2, REF_PRICE_WINDOW_SLOTS div 3, REF_PRICE_WINDOW_SLOTS - 1])
       [(1, u128_MAX), (u128_MAX, 1), (u128_MAX - 1, u128_MAX)]"

section \<open>The tests hold\<close>

lemma fixed_point_tests:
  "test_wad_mul_basic" "test_wad_div_basic" "test_wad_div_by_zero" "test_cpmm_quote_no_fee" "test_cpmm_quote_with_fee"
  "test_cpmm_quote_zero_amount" "test_cpmm_quote_zero_reserves" "test_cpmm_quote_invariant_holds" "test_price_b_per_a"
  by (simp_all add: test_defs code_defs widen_def cong: eval_congs)

lemma trigger_tests:
  "test_recompute_trigger_collateral_a" "test_recompute_trigger_collateral_b" "test_recompute_trigger_zero_amount"
  "test_is_liquidatable" "test_band_id_for_trigger" "test_band_id_zero_errors" "test_loan_sides_roundtrip"
  "test_trigger_direction_roundtrip"
  by (simp_all add: test_defs code_defs widen_def cong: eval_congs)

text \<open>The loop over the bands, for each of its values at once.\<close>

lemma band_loop: "test_band_min_max_consistent"
proof -
  have "unwrap_and (band_min_wad b) (\<lambda>lo. unwrap_and (band_max_wad b) (\<lambda>hi.
      (0 < lo \<longrightarrow> band_id_for_trigger lo = Ok b) \<and> (1 < hi \<longrightarrow> band_id_for_trigger (hi - 1) = Ok b) \<and>
      band_id_for_trigger hi = Ok (b + 1)))" if n: "n \<in> {10..<120}" "b = of_nat n" for n and b :: u32
  proof -
    have b: "unat b = n" "unat (b + 1) = n + 1" using n by (auto simp: unat_of_nat_eq unat_plus_fits simp del: of_nat_unat)
    let ?lo = "push_bit (n - 5) 1 :: u128" and ?hi = "push_bit (n - 4) 1 :: u128"
    have k: "n - 5 < LENGTH(128)" "n - 4 < LENGTH(128)" using n(1) by auto
    have u: "unat ?lo = 2 ^ (n - 5)" "unat ?hi = 2 ^ (n - 4)" by (rule unat_push_bit_1 [OF k(1)], rule unat_push_bit_1 [OF k(2)])
    have min: "band_min_wad b = Ok ?lo" using n(1) b u by (subst band_min_wad_Ok_iff) auto
    have "plus_p b 1 = (Ok (b + 1) :: (u32, liquidity_error) res)" using n(1) b by (simp add: plus_p_fits)
    then have max: "band_max_wad b = Ok ?hi" using n(1) b u by (simp add: band_max_wad_def band_min_wad_Ok_iff)
    have n4: "n - 4 = Suc (n - 5)" using n(1) by auto
    have two: "2 ^ (n - 4) = 2 * (2 :: nat) ^ (n - 5)" "(1 :: nat) \<le> 2 ^ (n - 5)"
      using n4 by simp_all
    have hi: "unat (?hi - 1) = 2 ^ (n - 4) - 1" using u two by (simp add: unat_sub word_le_nat_alt)
    have "bit_len (2 ^ (n - 5)) = Suc (n - 5)" "bit_len (2 ^ (n - 4)) = Suc (n - 4)" by (intro bit_len_eqI; simp)+
    moreover have "bit_len (2 ^ (n - 4) - 1) = Suc (n - 5)" by (rule bit_len_eqI) (use two in auto)
    moreover have "unat ?lo \<noteq> 0" "unat ?hi \<noteq> 0" "unat (?hi - 1) \<noteq> 0" using u hi two by linarith+
    then have "?lo \<noteq> 0" "?hi \<noteq> 0" "?hi - 1 \<noteq> 0" by (metis unat_0)+
    ultimately have "band_id_for_trigger ?lo = Ok b" "band_id_for_trigger (?hi - 1) = Ok b" "band_id_for_trigger ?hi = Ok (b + 1)"
      using n(1) b u hi by (auto simp: band_id_for_trigger_Ok_iff)
    then show ?thesis by (simp add: min max)
  qed
  then show ?thesis unfolding test_band_min_max_consistent_def list_all_iff Let_def set_upt by blast
qed

lemma interest_tests:
  "test_utilization_basic" "test_borrow_rate_curve" "test_borrow_rate_curve_above_kink"
  "test_bump_index_one_year_at_ten_percent" "test_bump_index_zero_inputs" "test_owed_at_cap_fits_u128"
  by (simp_all add: test_defs code_defs widen_def cong: eval_congs)

text \<open>The extreme rates and starting points, one evaluation each.\<close>

lemma extreme_rates: "max_possible_rate = Ok 19660500000000000000"
  "compute_borrow_rate_wad_per_year WAD 0 400 30000 8000 = Ok 3040000000000000000"
  by (simp_all add: code_defs widen_def cong: eval_congs)

lemma extreme_bumps:
  "bump_index_wad (INDEX_CAP_WAD div 2) 19660500000000000000 slot_MAX = INDEX_CAP_WAD"
  "bump_index_wad (INDEX_CAP_WAD - 1) 19660500000000000000 slot_MAX = INDEX_CAP_WAD"
  "bump_index_wad (INDEX_CAP_WAD div 2) 3040000000000000000 slot_MAX = INDEX_CAP_WAD"
  "bump_index_wad (INDEX_CAP_WAD - 1) 3040000000000000000 slot_MAX = INDEX_CAP_WAD"
  by (simp_all add: word_eq_unat word_less_nat_alt word_le_nat_alt bump_index_wad_eq bump_nat_def INDEX_CAP_WAD_def WAD_def
      slot_MAX_def push_bit_eq_mult)

lemma extreme_single_bumps:
  "WAD < bump_index_wad WAD 19660500000000000000 slot_MAX" "bump_index_wad WAD 19660500000000000000 slot_MAX \<le> INDEX_CAP_WAD"
  "WAD < bump_index_wad WAD 3040000000000000000 slot_MAX" "bump_index_wad WAD 3040000000000000000 slot_MAX \<le> INDEX_CAP_WAD"
  by (simp_all add: word_eq_unat word_less_nat_alt word_le_nat_alt bump_index_wad_eq bump_nat_def INDEX_CAP_WAD_def WAD_def
      slot_MAX_def push_bit_eq_mult)

lemma saturation: "test_bump_index_saturates_at_cap"
  unfolding test_bump_index_saturates_at_cap_def extreme_rates Let_def
  by (simp add: word_eq_unat bump_index_wad_eq bump_nat_def INDEX_CAP_WAD_def WAD_def slot_MAX_def u128_MAX_def
      push_bit_eq_mult SLOTS_PER_YEAR_def)

lemma extreme_elapsed: "test_bump_index_extreme_elapsed_does_not_error"
  by (simp add: test_bump_index_extreme_elapsed_does_not_error_def extreme_rates extreme_bumps extreme_single_bumps)

lemma debt_tests:
  "test_ltv_bps_basic" "test_ltv_bps_matches_naive_formula" "test_ltv_bps_no_overflow_at_extremes"
  "test_ltv_bps_zero_denominator_errors" "test_owed_from_index" "test_owed_rejects_index_regression"
  by (simp_all add: test_defs code_defs widen_def cong: eval_congs)

text \<open>Rounding of large debts, over the natural numbers.\<close>

lemma owed_roundings: "test_owed_rounds_up"
  by (simp add: test_owed_rounds_up_def owed_from_index_Ok_iff ceil_div_def WAD_def u64_MAX_def INDEX_CAP_WAD_def push_bit_eq_mult)

lemma large_debts:
  "mul_div 18446744073709551615 1500000000000000007 1000000000000000000 = Ok 27670116110564327551" "owed_from_index 18446744073709551615 1000000000000000000 1500000000000000007 = Ok 27670116110564327552"
  "mul_div 123456789 9876543210987654321 1234567890123456789 = Ok 987654321" "owed_from_index 123456789 1234567890123456789 9876543210987654321 = Ok 987654321"
  "mul_div 18446744073709551615 18446744073709551615999999999999999999 1000000000000012345 = Ok 340282366920934262659108224424586133130" "owed_from_index 18446744073709551615 1000000000000012345 18446744073709551615999999999999999999 = Ok 340282366920934262659108224424586133131"
  by (simp_all add: owed_from_index_Ok_iff mul_div_Ok_iff ceil_div_def)

lemma owed_large_roundings: "test_owed_rounds_up_large_values"
  by (simp add: test_owed_rounds_up_large_values_def owed_from_index_Ok_iff [of _ _ _ "_ + _"]
      owed_from_index_Ok_iff [of _ _ _ "_ * _"] large_debts ceil_div_def WAD_def u64_MAX_def INDEX_CAP_WAD_def push_bit_eq_mult)

lemma integer_tests: "test_isqrt_basic" "test_mul_div" "test_mul_div_zero_denom"
  by (simp_all add: test_defs code_defs widen_def cong: eval_congs)

text \<open>The reference price stays between the old one and the spot price, whatever the inputs.\<close>

lemma ema_between: "unwrap_and (ema_ref_price_wad a b n) (\<lambda>r. min a b \<le> r \<and> r \<le> max a b)"
proof -
  obtain r where r: "ema_ref_price_wad a b n = Ok r" "unat r =
       (if a = 0 \<or> 150 \<le> unat n then unat b
        else if unat a \<le> unat b then unat a + (unat b - unat a) * unat n div 150
        else unat a - (unat a - unat b) * unat n div 150)"
    by (rule ema_ref_price_wad_Ok)
  have "d * unat n div 150 \<le> d" if "\<not> 150 \<le> unat n" for d
    using div_le_mono [of "d * unat n" "d * 150" 150] that by simp
  from this [of "unat b - unat a"] this [of "unat a - unat b"] show ?thesis
    using r by (auto simp: word_le_nat_alt min_def max_def)
qed

lemma reference_price_tests:
  "test_unset_reference_seeds_with_spot" "test_zero_elapsed_is_identity" "test_single_slot_pump_moves_at_most_one_over_h"
  "test_elapsed_at_or_beyond_window_snaps_to_spot" "test_partial_window_is_linear_in_elapsed"
  by (simp_all add: test_defs code_defs widen_def cong: eval_congs)

lemma price_bounds: "test_no_overflow_and_result_between_inputs"
  using ema_between by (simp add: test_no_overflow_and_result_between_inputs_def)

lemmas math_tests = fixed_point_tests trigger_tests band_loop interest_tests saturation extreme_elapsed debt_tests
  owed_roundings owed_large_roundings integer_tests reference_price_tests price_bounds

end
