(* ===== verification/Conformance_Loops.thy ===== *)
theory Conformance_Loops
  imports Conformance_Math
begin

text \<open>
  The two unit tests of \<open>math.rs\<close> that run long loops. A Rust loop is a recursive predicate
  over the number of rounds left, with the assertions of its body; that it holds for thousands of rounds is proved
  from one round, by a bound on the geometric growth of the index and on the geometric decay of the gap.
\<close>

section \<open>Daily accrual for twenty years\<close>

fun bump_daily :: "nat \<Rightarrow> u128 \<Rightarrow> u64 \<Rightarrow> u128 \<Rightarrow> u128 \<Rightarrow> bool" where
  "bump_daily 0 rate per_day idx prev \<longleftrightarrow> idx = INDEX_CAP_WAD"
| "bump_daily (Suc n) rate per_day idx prev \<longleftrightarrow>
     (let idx = bump_index_wad idx rate per_day in
      prev \<le> idx \<and> idx \<le> INDEX_CAP_WAD \<and> bump_daily n rate per_day idx idx)"

definition test_bump_index_repeated_bumps_reach_cap_without_error :: bool where
  [test_defs]: "test_bump_index_repeated_bumps_reach_cap_without_error \<longleftrightarrow>
     unwrap_and (compute_borrow_rate_wad_per_year WAD 0 400 30000 8000) (\<lambda>rate.
       bump_daily (365 * 20) rate (SLOTS_PER_YEAR div 365) WAD WAD)"

text \<open>One day at the highest configured rate grows the index by at least 0.8 percent, up to the cap.\<close>

lemma bump_nat_daily:
  assumes "10 ^ 18 \<le> i" "i \<le> 2 ^ 64 * 10 ^ 18"
  shows "bump_nat i 3040000000000000000 216000 = 2 ^ 64 * 10 ^ 18 \<or>
    1008 * i \<le> 1000 * bump_nat i 3040000000000000000 216000"
proof -
  let ?x = "i * 3040000000000000000 * 216000" and ?D = "78840000 * 10 ^ 18 :: nat"
  have "?x < ?D * (?x div ?D) + ?D" using mult_div_mod_eq [of ?D ?x] mod_less_divisor [of ?D ?x] by simp
  then have "1008 * i \<le> 1000 * (i + ?x div ?D)" using assms(1) by simp
  then show ?thesis using assms(2) by (auto simp: bump_nat_def min_def)
qed

lemma bump_daily_reaches_cap:
  assumes "10 ^ 18 \<le> unat idx" "unat idx \<le> 2 ^ 64 * 10 ^ 18" "unat prev \<le> unat idx"
    and "2 ^ 64 * 10 ^ 18 * 1000 ^ n \<le> unat idx * 1008 ^ n"
  shows "bump_daily n 3040000000000000000 216000 idx prev"
  using assms
proof (induction n arbitrary: idx prev)
  case 0
  then show ?case by (simp add: word_eq_unat INDEX_CAP_WAD_def WAD_def push_bit_eq_mult)
next
  case (Suc n)
  let ?i = "bump_index_wad idx 3040000000000000000 216000" and ?c = "2 ^ 64 * 10 ^ 18 :: nat"
  have i: "unat ?i = bump_nat (unat idx) 3040000000000000000 216000" by (simp add: bump_index_wad_eq)
  have lo: "unat idx \<le> unat ?i" unfolding i by (rule bump_nat_mono)
  have hi: "unat ?i \<le> ?c" unfolding i by (rule bump_nat_cap [OF Suc.prems(2)])
  have "?c * 1000 ^ n \<le> unat ?i * 1008 ^ n"
  proof (cases "unat ?i = ?c")
    case True
    then show ?thesis by (simp add: power_mono)
  next
    case False
    then have "1008 * unat idx \<le> 1000 * unat ?i" using bump_nat_daily [OF Suc.prems(1,2)] i by simp
    then have "1008 * unat idx * 1008 ^ n \<le> 1000 * unat ?i * 1008 ^ n" by (rule mult_le_mono1)
    with Suc.prems(4) have "1000 * (?c * 1000 ^ n) \<le> 1000 * (unat ?i * 1008 ^ n)"
      by (simp only: power_Suc mult_ac)
    then show ?thesis by (simp only: mult_le_cancel1)
  qed
  then have "bump_daily n 3040000000000000000 216000 ?i ?i"
    using Suc.IH [of ?i ?i] Suc.prems(1) lo hi by simp
  moreover have "INDEX_CAP_WAD = (of_nat ?c :: u128)" by (simp add: INDEX_CAP_WAD_def WAD_def push_bit_eq_mult)
  ultimately show ?case using lo hi Suc.prems(3)
    by (simp add: Let_def word_le_nat_alt INDEX_CAP_WAD_def WAD_def push_bit_eq_mult)
qed

text \<open>It doubles every hundred days, so it reaches the cap, \<open>2 ^ 64\<close> times the start, in 6400.\<close>

lemma daily_growth: "2 ^ 64 * (1000 :: nat) ^ (100 * 73) \<le> 1008 ^ (100 * 73)"
proof -
  have "(2 :: nat) * 1000 ^ 100 \<le> 1008 ^ 100" by simp
  then have "(2 * 1000 ^ 100) ^ 73 \<le> ((1008 :: nat) ^ 100) ^ 73" by (rule power_mono) (rule zero_le)
  then have "2 ^ 73 * 1000 ^ (100 * 73) \<le> (1008 :: nat) ^ (100 * 73)" by (simp only: power_mult_distrib power_mult)
  moreover have "(2 :: nat) ^ 64 \<le> 2 ^ 73" by simp
  then have "(2 :: nat) ^ 64 * 1000 ^ (100 * 73) \<le> 2 ^ 73 * 1000 ^ (100 * 73)" by (rule mult_le_mono1)
  ultimately show ?thesis by (rule order_trans [rotated])
qed

lemma daily_accrual: "test_bump_index_repeated_bumps_reach_cap_without_error"
proof -
  have u: "unat WAD = 10 ^ 18" by (simp add: WAD_def)
  have "bump_daily (100 * 73) 3040000000000000000 216000 WAD WAD"
  proof (rule bump_daily_reaches_cap)
    show "10 ^ 18 \<le> unat WAD" "unat WAD \<le> unat WAD" by (simp_all only: u order_refl)
    show "unat WAD \<le> 2 ^ 64 * 10 ^ 18" unfolding u by simp
    show "2 ^ 64 * 10 ^ 18 * 1000 ^ (100 * 73) \<le> unat WAD * 1008 ^ (100 * 73)"
      unfolding u using mult_le_mono2 [OF daily_growth, of "10 ^ 18"] by (simp only: mult_ac)
  qed
  moreover have "365 * 20 = (100 * 73 :: nat)" "SLOTS_PER_YEAR div 365 = 216000" by (simp_all add: SLOTS_PER_YEAR_def)
  ultimately show ?thesis
    unfolding test_bump_index_repeated_bumps_reach_cap_without_error_def extreme_rates(2) assertion_simps by (simp only:)
qed

section \<open>The reference price closes in on the spot price\<close>

definition abs_diff :: "u128 \<Rightarrow> u128 \<Rightarrow> u128" where
  "abs_diff a b = (if b \<le> a then a - b else b - a)"

fun converges :: "nat \<Rightarrow> u128 \<Rightarrow> u128 \<Rightarrow> u128 \<Rightarrow> bool" where
  "converges 0 r target prev_gap \<longleftrightarrow> prev_gap < 4 * WAD div 100000"
| "converges (Suc n) r target prev_gap \<longleftrightarrow>
     unwrap_and (ema_ref_price_wad r target 1) (\<lambda>r.
       let gap = abs_diff r target in gap \<le> prev_gap \<and> converges n r target gap)"

definition test_converges_in_both_directions :: bool where
  [test_defs]: "test_converges_in_both_directions \<longleftrightarrow>
     list_all (\<lambda>(start, target). converges 2000 start target (abs_diff start target))
       [(WAD, 5 * WAD), (5 * WAD, WAD)]"

text \<open>One slot closes a 150th of the gap, from either side.\<close>

lemma ema_gap:
  assumes "r \<noteq> 0" "target \<noteq> 0"
  obtains r' where "ema_ref_price_wad r target 1 = Ok r'" "r' \<noteq> 0"
    "unat (abs_diff r' target) = unat (abs_diff r target) - unat (abs_diff r target) div 150"
    "min (unat r) (unat target) \<le> unat r'" "unat r' \<le> max (unat r) (unat target)"
proof -
  have diff: "unat (abs_diff a b) = (if unat b \<le> unat a then unat a - unat b else unat b - unat a)" for a b
    by (simp add: abs_diff_def word_le_nat_alt unat_sub)
  have pos: "0 < unat r" "0 < unat target" using assms by (simp_all add: unat_gt_0)
  obtain r' where e: "ema_ref_price_wad r target 1 = Ok r'"
    and u: "unat r' = (if r = 0 \<or> 150 \<le> unat (1 :: u64) then unat target
      else if unat r \<le> unat target then unat r + (unat target - unat r) * unat (1 :: u64) div 150
      else unat r - (unat r - unat target) * unat (1 :: u64) div 150)"
    by (rule ema_ref_price_wad_Ok)
  have r': "unat r' = (if unat r \<le> unat target then unat r + (unat target - unat r) div 150
      else unat r - (unat r - unat target) div 150)" using u assms(1) by simp
  have "0 < unat r' \<and> unat (abs_diff r' target) = unat (abs_diff r target) - unat (abs_diff r target) div 150"
  proof (cases "unat r \<le> unat target")
    case True
    have "(unat target - unat r) div 150 \<le> unat target - unat r" by (rule div_le_dividend)
    then show ?thesis using True r' pos unfolding diff by simp
  next
    case False
    have "(unat r - unat target) div 150 \<le> unat r - unat target" by (rule div_le_dividend)
    then show ?thesis using False r' pos unfolding diff by (auto simp: add.commute [of "unat target"])
  qed
  moreover have "min (unat r) (unat target) \<le> unat r' \<and> unat r' \<le> max (unat r) (unat target)"
  proof (cases "unat r \<le> unat target")
    case True
    then have "unat r' = unat r + (unat target - unat r) div 150" using r' by simp
    moreover have "(unat target - unat r) div 150 \<le> unat target - unat r" by (rule div_le_dividend)
    ultimately show ?thesis using True by simp
  next
    case False
    then have u: "unat r' = unat r - (unat r - unat target) div 150" using r' by simp
    have "(unat r - unat target) div 150 \<le> unat r - unat target" by (rule div_le_dividend)
    then show ?thesis using u False by linarith
  qed
  ultimately show thesis by (intro that [OF e]) auto
qed

lemma gap_decays: "150 * (g - g div 150 - 149) \<le> 149 * (g - 149)" for g :: nat
  using mult_div_mod_eq [of 150 g] mod_less_divisor [of 150 g] by linarith

lemma converges_all:
  assumes "r \<noteq> 0" "target \<noteq> 0" "unat (abs_diff r target) \<le> unat gap" "gap = abs_diff r target"
    and "(unat gap - 149) * 149 ^ n \<le> 39999999999850 * 150 ^ n"
  shows "converges n r target gap"
  using assms
proof (induction n arbitrary: r gap)
  case 0
  then show ?case by (simp add: word_less_nat_alt WAD_def)
next
  case (Suc n)
  obtain r' where r': "ema_ref_price_wad r target 1 = Ok r'" "r' \<noteq> 0"
    "unat (abs_diff r' target) = unat gap - unat gap div 150" using ema_gap [OF Suc.prems(1,2)] Suc.prems(4) by blast
  have "150 * (unat (abs_diff r' target) - 149) * 149 ^ n \<le> 149 * (unat gap - 149) * 149 ^ n"
    unfolding r'(3) by (rule mult_le_mono1 [OF gap_decays])
  with Suc.prems(5) have "150 * ((unat (abs_diff r' target) - 149) * 149 ^ n) \<le> 150 * (39999999999850 * 150 ^ n)"
    by (simp only: power_Suc mult_ac)
  then have "(unat (abs_diff r' target) - 149) * 149 ^ n \<le> 39999999999850 * 150 ^ n" by (simp only: mult_le_cancel1)
  then have "converges n r' target (abs_diff r' target)" using Suc.IH [OF r'(2) Suc.prems(2)] by simp
  then show ?case using r' by (simp add: Let_def word_le_nat_alt)
qed

text \<open>104 slots halve the gap; 2000 slots halve it 19 times.\<close>

lemma gap_halves: "4000000000000000000 * 149 ^ (104 * 19 + 24) \<le> 39999999999850 * (150 :: nat) ^ (104 * 19 + 24)"
proof -
  have "(2 :: nat) * 149 ^ 104 \<le> 150 ^ 104" by simp
  then have "(2 * 149 ^ 104) ^ 19 \<le> ((150 :: nat) ^ 104) ^ 19" by (rule power_mono) (rule zero_le)
  then have "2 ^ 19 * 149 ^ (104 * 19) \<le> (150 :: nat) ^ (104 * 19)" by (simp only: power_mult_distrib power_mult)
  then have "2 ^ 19 * 149 ^ (104 * 19) * 149 ^ 24 \<le> (150 :: nat) ^ (104 * 19) * 150 ^ 24"
    by (rule mult_le_mono) (simp add: power_mono)
  then have "39999999999850 * (2 ^ 19 * 149 ^ (104 * 19 + 24)) \<le> 39999999999850 * (150 :: nat) ^ (104 * 19 + 24)"
    by (intro mult_le_mono2) (simp only: power_add mult_ac)
  moreover have "(4000000000000000000 :: nat) \<le> 39999999999850 * 2 ^ 19" by simp
  then have "4000000000000000000 * 149 ^ (104 * 19 + 24) \<le> 39999999999850 * 2 ^ 19 * (149 :: nat) ^ (104 * 19 + 24)"
    by (rule mult_le_mono1)
  ultimately show ?thesis by (simp only: mult.assoc order_trans)
qed

lemma price_convergence: "test_converges_in_both_directions"
proof -
  have n: "2000 = (104 * 19 + 24 :: nat)" by simp
  have "converges (104 * 19 + 24) r t (abs_diff r t)" if rt: "r \<noteq> 0" "t \<noteq> 0" "unat (abs_diff r t) \<le> 4000000000000000000" for r t
  proof (rule converges_all [OF rt(1,2) order_refl refl])
    have "unat (abs_diff r t) - 149 \<le> 4000000000000000000" using rt(3) by simp
    from mult_le_mono1 [OF this] gap_halves
    show "(unat (abs_diff r t) - 149) * 149 ^ (104 * 19 + 24) \<le> 39999999999850 * 150 ^ (104 * 19 + 24)" by (rule order_trans)
  qed
  from this [of WAD "5 * WAD"] this [of "5 * WAD" WAD] show ?thesis
    unfolding test_converges_in_both_directions_def n [symmetric] by (simp add: abs_diff_def WAD_def)
qed

lemmas loop_tests = daily_accrual price_convergence

section \<open>The reference price follows the spot price\<close>

text \<open>The reference price when the spot price stands still and every slot samples it.\<close>

fun follow_spot :: "nat \<Rightarrow> u128 \<Rightarrow> u128 \<Rightarrow> (u128, liquidity_error) res" where
  "follow_spot 0 r spot = Ok r"
| "follow_spot (Suc n) r spot = and_then (ema_ref_price_wad r spot 1) (\<lambda>r. follow_spot n r spot)"

lemma follow_spot_gap:
  assumes "r \<noteq> 0" "spot \<noteq> 0"
  shows "\<exists>r'. follow_spot n r spot = Ok r' \<and>
    min (unat r) (unat spot) \<le> unat r' \<and> unat r' \<le> max (unat r) (unat spot) \<and>
    (unat (abs_diff r' spot) - 149) * 150 ^ n \<le> (unat (abs_diff r spot) - 149) * 149 ^ n"
  using assms
proof (induction n arbitrary: r)
  case (Suc n)
  let ?g = "\<lambda>r. unat (abs_diff r spot) - 149"
  obtain r1 where r1: "ema_ref_price_wad r spot 1 = Ok r1" "r1 \<noteq> 0"
    "unat (abs_diff r1 spot) = unat (abs_diff r spot) - unat (abs_diff r spot) div 150"
    "min (unat r) (unat spot) \<le> unat r1" "unat r1 \<le> max (unat r) (unat spot)"
    by (rule ema_gap [OF Suc.prems])
  obtain r' where r': "follow_spot n r1 spot = Ok r'" "min (unat r1) (unat spot) \<le> unat r'"
    "unat r' \<le> max (unat r1) (unat spot)" "?g r' * 150 ^ n \<le> ?g r1 * 149 ^ n"
    using Suc.IH [OF r1(2) Suc.prems(2)] by blast
  have "150 * (?g r' * 150 ^ n) \<le> 150 * (?g r1 * 149 ^ n)" using r'(4) by (rule mult_le_mono2)
  also have "\<dots> = 150 * ?g r1 * 149 ^ n" by (rule mult.assoc [symmetric])
  also have "\<dots> \<le> 149 * ?g r * 149 ^ n" unfolding r1(3) by (rule mult_le_mono1 [OF gap_decays])
  finally have "?g r' * 150 ^ Suc n \<le> ?g r * 149 ^ Suc n" by (simp only: power_Suc mult_ac)
  moreover have "min (unat r) (unat spot) \<le> unat r'" "unat r' \<le> max (unat r) (unat spot)"
    using r1(4,5) r'(2,3) by linarith+
  ultimately show ?case using r1(1) r'(1) by simp
qed simp

text \<open>C39: the reference price follows the market. While the spot price stands still and every slot
  samples it, the reference price can always be computed, never leaves the interval between where it
  was and the spot price, and closes in on the spot price: after \<open>n\<close> slots the gap is at most
  \<open>(149 / 150) ^ n\<close> of what it was, but for the 149 units that rounding may leave.\<close>

theorem reference_price_converges:
  assumes "r \<noteq> 0" "spot \<noteq> 0"
  shows "\<exists>r'. follow_spot n r spot = Ok r' \<and>
    min (unat r) (unat spot) \<le> unat r' \<and> unat r' \<le> max (unat r) (unat spot) \<and>
    unat (abs_diff r' spot) * 150 ^ n \<le> 149 * 150 ^ n + unat (abs_diff r spot) * 149 ^ n"
proof -
  obtain r' where r': "follow_spot n r spot = Ok r'" "min (unat r) (unat spot) \<le> unat r'"
    "unat r' \<le> max (unat r) (unat spot)"
    and gap: "(unat (abs_diff r' spot) - 149) * 150 ^ n \<le> (unat (abs_diff r spot) - 149) * 149 ^ n"
    using follow_spot_gap [OF assms] by blast
  have "unat (abs_diff r' spot) * 150 ^ n \<le> (149 + (unat (abs_diff r' spot) - 149)) * 150 ^ n"
    by (rule mult_le_mono1) simp
  also have "\<dots> = 149 * 150 ^ n + (unat (abs_diff r' spot) - 149) * 150 ^ n" by (rule add_mult_distrib)
  also have "\<dots> \<le> 149 * 150 ^ n + unat (abs_diff r spot) * 149 ^ n"
    by (intro add_left_mono order_trans [OF gap] mult_le_mono1) simp
  finally show ?thesis using r' by blast
qed

theorem reference_price_converges_witness:
  "\<exists>r'. follow_spot 1000 1000000 5000000 = Ok r' \<and> min 1000000 5000000 \<le> unat r' \<and> unat r' \<le> max 1000000 5000000 \<and>
    unat (abs_diff r' 5000000) * 150 ^ 1000 \<le> 149 * 150 ^ 1000 + 4000000 * 149 ^ 1000"
proof -
  have "(1000000 :: u128) \<noteq> 0" "(5000000 :: u128) \<noteq> 0" by simp_all
  from reference_price_converges [OF this, of 1000] show ?thesis
    by (simp add: abs_diff_def word_le_nat_alt del: power_numeral)
qed

end
