(* ===== verification/Conformance_State.thy ===== *)
theory Conformance_State
  imports Conformance_Loops Liquidity_Properties Events Sample_World
begin

text \<open>
  The unit tests of \<open>state.rs\<close>, \<open>add_liquidity.rs\<close>, \<open>remove_liquidity.rs\<close>, \<open>events.rs\<close> and
  \<open>account_utils.rs\<close>, translated like those of \<open>math.rs\<close>. \<open>Pubkey::new_unique()\<close> gives a different
  key at every call; the fixtures take successive numbers. Left out are the test of the base58 spelling
  of the token program and the two that search for program addresses.
\<close>

section \<open>Fixtures\<close>

definition fake_pool :: pool where
  "fake_pool =
     \<lparr>pool_discriminator = POOL_DISCRIMINATOR,
      mint_a = 1, mint_b = 2, vault_a = 3, vault_b = 4, lp_mint = 5, authority = 6,
      pool_bump = 255, vault_a_bump = 254, vault_b_bump = 253, lp_mint_bump = 252,
      total_debt_a = 0, total_debt_b = 0, total_collateral_a = 0, total_collateral_b = 0,
      curve_kind = curve_kind_byte Cpmm, swap_fee_bps = 30, protocol_fee_bps = 5, curve_pad = replicate 3 0,
      liq_ratio_bps = 11000, max_ltv_bps = 8000, lending_pad = replicate 2 0,
      interest_base_bps_per_year = 0, interest_slope1_bps_per_year = 400,
      interest_slope2_bps_per_year = 30000, interest_kink_bps = 8000,
      borrow_index_a_wad = WAD, borrow_index_b_wad = WAD, last_index_update_slot = 0,
      open_loans = 0, next_loan_nonce = 0, last_update_slot = 0, protocol_fees_a = 0, protocol_fees_b = 0,
      band_bitmap_fall = replicate 16 0, band_bitmap_rise = replicate 16 0,
      ref_price_wad = 0, ref_price_slot = 0, pool_reserved = replicate 8 0\<rparr>"

definition fake_loan :: loan where
  "fake_loan =
     \<lparr>loan_discriminator = LOAN_DISCRIMINATOR, loan_pool = 7, loan_borrower = 8, loan_nonce = 1, loan_bump = 255,
      loan_sides = 0, loan_collateral_amount = 50, loan_debt_principal = 100, loan_borrow_index_snapshot_wad = WAD,
      loan_last_touch_slot = 0, loan_trigger_price_wad = 2200000000000000000, loan_trigger_direction = 0,
      loan_status = STATUS_OPEN, loan_status_pad = replicate 6 0, loan_band_id = 7,
      loan_opened_slot = 0, loan_closed_slot = 0, loan_reserved = replicate 28 0\<rparr>"

definition fake_band :: loan_index_band where
  "fake_band =
     \<lparr>band_discriminator = LOAN_INDEX_BAND_DISCRIMINATOR, band_pool = 9, band_band_id = 7, band_direction = 0,
      band_bump = 255, band_pad = replicate 2 0, band_count = 0, band_pad2 = replicate 4 0,
      band_reserved = replicate 32 0\<rparr>"

lemma fakes_wf: "pool_wf fake_pool" "loan_wf fake_loan" "loan_index_band_wf fake_band"
  by (simp_all add: pool_wf_def fake_pool_def POOL_DISCRIMINATOR_def loan_wf_def fake_loan_def LOAN_DISCRIMINATOR_def
      loan_index_band_wf_def fake_band_def LOAN_INDEX_BAND_DISCRIMINATOR_def)

section \<open>Account layouts\<close>

definition test_pool_size :: bool where
  [test_defs]: "test_pool_size \<longleftrightarrow> length (pool_bytes fake_pool) = POOL_LEN"

definition test_loan_size :: bool where
  [test_defs]: "test_loan_size \<longleftrightarrow> length (loan_bytes fake_loan) = LOAN_LEN"

definition test_band_size :: bool where
  [test_defs]: "test_band_size \<longleftrightarrow> length (loan_index_band_bytes fake_band) = LOAN_INDEX_BAND_LEN"

definition test_pool_roundtrip :: bool where
  [test_defs]: "test_pool_roundtrip \<longleftrightarrow>
     (case pool_try_from_slice (pool_bytes fake_pool) of
        Some p2 \<Rightarrow> swap_fee_bps p2 = 30 \<and> liq_ratio_bps p2 = 11000 \<and> pool_is_initialized p2 \<and> \<not> is_authority_renounced p2
      | None \<Rightarrow> False)"

definition test_loan_roundtrip :: bool where
  [test_defs]: "test_loan_roundtrip \<longleftrightarrow>
     (case loan_try_from_slice (loan_bytes fake_loan) of
        Some l2 \<Rightarrow> loan_collateral_amount l2 = 50 \<and> loan_debt_principal l2 = 100 \<and> loan_band_id l2 = 7 \<and> is_open l2
      | None \<Rightarrow> False)"

definition test_band_roundtrip :: bool where
  [test_defs]: "test_band_roundtrip \<longleftrightarrow>
     (case loan_index_band_try_from_slice (loan_index_band_bytes fake_band) of
        Some b2 \<Rightarrow> band_band_id b2 = 7 \<and> band_count b2 = 0
      | None \<Rightarrow> False)"

definition test_is_valid_token_program_accepts_both :: bool where
  [test_defs]: "test_is_valid_token_program_accepts_both \<longleftrightarrow>
     is_valid_token_program sample_env SPL_TOKEN_PROGRAM_ID \<and>
     is_valid_token_program sample_env (token_2022_id sample_env) \<and> \<not> is_valid_token_program sample_env 0"

definition test_ref_price_fields_occupy_old_reserved_tail :: bool where
  [test_defs]: "test_ref_price_fields_occupy_old_reserved_tail \<longleftrightarrow>
     (case pool_try_from_slice (pool_bytes fake_pool) of
        Some decoded \<Rightarrow> ref_price_wad decoded = 0 \<and> ref_price_slot decoded = 0
      | None \<Rightarrow> False) \<and>
     (let p = fake_pool\<lparr>ref_price_wad := 0x0102030405060708090a0b0c0d0e0f10, ref_price_slot := 0x1112131415161718\<rparr>;
          tail = drop (POOL_LEN - 32) (pool_bytes p) in
      take 16 tail = put_word 16 (ref_price_wad p) \<and> take 8 (drop 16 tail) = put_word 8 (ref_price_slot p) \<and>
      drop 24 tail = replicate 8 0)"

definition test_known_sizes :: bool where
  [test_defs]: "test_known_sizes \<longleftrightarrow> POOL_LEN = 434 \<and> LOAN_LEN = 210 \<and> LOAN_INDEX_BAND_LEN = 88"

lemma layout_tests:
  "test_pool_size" "test_loan_size" "test_band_size" "test_pool_roundtrip" "test_loan_roundtrip" "test_band_roundtrip"
  "test_is_valid_token_program_accepts_both" "test_known_sizes"
proof -
  show "test_pool_size" "test_loan_size" "test_band_size"
    using fakes_wf by (simp_all add: test_defs length_pool_bytes length_loan_bytes length_loan_index_band_bytes)
  show "test_pool_roundtrip" "test_loan_roundtrip" "test_band_roundtrip"
    using fakes_wf by (simp_all add: test_defs pool_codec.dec_enc loan_codec.dec_enc band_codec.dec_enc)
      (simp_all add: fake_pool_def fake_loan_def fake_band_def pool_is_initialized_def is_authority_renounced_def is_open_def)
  show "test_is_valid_token_program_accepts_both"
    by (simp add: test_defs is_valid_token_program_def SPL_TOKEN_PROGRAM_ID_def)
  show "test_known_sizes" by (simp add: test_defs POOL_LEN_def LOAN_LEN_def LOAN_INDEX_BAND_LEN_def)
qed

lemma reserved_tail: "test_ref_price_fields_occupy_old_reserved_tail"
proof -
  have tail: "drop (POOL_LEN - 32) (pool_bytes (fake_pool\<lparr>ref_price_wad := r, ref_price_slot := s\<rparr>)) =
      put_word 16 r @ put_word 8 s @ replicate 8 0" for r s
    by (simp add: pool_bytes_def fake_pool_def POOL_DISCRIMINATOR_def POOL_LEN_def)
  have "ref_price_wad fake_pool = 0" "ref_price_slot fake_pool = 0" by (simp_all add: fake_pool_def)
  then show ?thesis using fakes_wf(1)
    by (simp add: test_ref_price_fields_occupy_old_reserved_tail_def Let_def tail pool_codec.dec_enc del: drop_drop)
qed

section \<open>Reserves and the reference price\<close>

definition test_pool_accounted_excludes_collateral :: bool where
  [test_defs]: "test_pool_accounted_excludes_collateral \<longleftrightarrow>
     accounted fake_pool 1000 5000 = Ok (1000, 5000) \<and>
     accounted (fake_pool\<lparr>total_collateral_a := 50, total_debt_b := 100\<rparr>) 1050 4900 = Ok (1000, 5000) \<and>
     accounted (fake_pool\<lparr>total_collateral_a := 0, total_debt_b := 0\<rparr>) 1050 4900 = Ok (1050, 4900)"

definition test_pool_swappable_excludes_collateral :: bool where
  [test_defs]: "test_pool_swappable_excludes_collateral \<longleftrightarrow>
     swappable (fake_pool\<lparr>total_collateral_a := 50, total_collateral_b := 0\<rparr>) 1050 5000 = Ok (1000, 5000)"

definition test_pool_swappable_excludes_protocol_fees :: bool where
  [test_defs]: "test_pool_swappable_excludes_protocol_fees \<longleftrightarrow>
     (let p = fake_pool\<lparr>total_collateral_a := 0, protocol_fees_a := 25, protocol_fees_b := 100\<rparr> in
      swappable p 1000 5000 = Ok (975, 4900) \<and> accounted (p\<lparr>total_debt_b := 500\<rparr>) 1000 5000 = Ok (975, 4900 + 500))"

definition test_ref_price_at_semantics :: bool where
  [test_defs]: "test_ref_price_at_semantics \<longleftrightarrow>
     (let w = WAD; h = REF_PRICE_WINDOW_SLOTS; p = fake_pool; q = p\<lparr>ref_price_wad := w, ref_price_slot := 100\<rparr> in
      ref_price_at p (3 * w) 0 = Ok (3 * w) \<and> ref_price_at p (3 * w) 500 = Ok (3 * w) \<and>
      ref_price_at q (4 * w) 100 = Ok w \<and> ref_price_at q (4 * w) 101 = Ok (w + 3 * w div widen h) \<and>
      ref_price_at q (4 * w) (100 + h) = Ok (4 * w))"

lemma reserve_tests:
  "test_pool_accounted_excludes_collateral" "test_pool_swappable_excludes_collateral"
  "test_pool_swappable_excludes_protocol_fees" "test_ref_price_at_semantics"
  by (simp_all add: test_defs code_defs fake_pool_def widen_def cong: eval_congs)

section \<open>The band bitmap\<close>

definition test_bitmap_set_clear_is_set :: bool where
  [test_defs]: "test_bitmap_set_clear_is_set \<longleftrightarrow>
     (let bm = replicate 16 0 in
      \<not> bitmap_is_set bm 0 \<and>
      unwrap_and (bitmap_set bm 0) (\<lambda>bm. bitmap_is_set bm 0 \<and> bm ! 0 = 0x01 \<and>
      unwrap_and (bitmap_set bm 7) (\<lambda>bm. bm ! 0 = 0x81 \<and>
      unwrap_and (bitmap_set bm 8) (\<lambda>bm. bm ! 1 = 0x01 \<and>
      unwrap_and (bitmap_clear bm 7) (\<lambda>bm. bm ! 0 = 0x01 \<and> \<not> bitmap_is_set bm 7 \<and>
      unwrap_and (bitmap_set bm MAX_BAND_ID) (\<lambda>bm. bitmap_is_set bm MAX_BAND_ID \<and> bm ! 15 = 0x80 \<and>
        is_err (bitmap_set bm (MAX_BAND_ID + 1)) \<and> \<not> bitmap_is_set bm (MAX_BAND_ID + 1)))))))"

definition test_bitmap_iter_in_range :: bool where
  [test_defs]: "test_bitmap_iter_in_range \<longleftrightarrow>
     unwrap_and (bitmap_set (replicate 16 0) 5) (\<lambda>bm.
     unwrap_and (bitmap_set bm 64) (\<lambda>bm.
     unwrap_and (bitmap_set bm 65) (\<lambda>bm.
     unwrap_and (bitmap_set bm 100) (\<lambda>bm.
       bitmap_iter_set_range bm 60 70 = [64, 65] \<and> bitmap_iter_set_range bm 0 127 = [5, 64, 65, 100] \<and>
       bitmap_iter_set_range bm 6 60 = []))))"

lemma bitmap_tests: "test_bitmap_set_clear_is_set" "test_bitmap_iter_in_range"
  by code_simp+

section \<open>Deposits\<close>

definition test_first_deposit_clears_minimum_liquidity :: bool where
  [test_defs]: "test_first_deposit_clears_minimum_liquidity \<longleftrightarrow>
     unwrap_and (derive_deposit (widen MIN_FIRST_DEPOSIT) (widen MIN_FIRST_DEPOSIT) 0 0 0) (\<lambda>(a, b, lp).
       (a, b) = (widen MIN_FIRST_DEPOSIT, widen MIN_FIRST_DEPOSIT) \<and> lp = widen MIN_FIRST_DEPOSIT \<and>
       widen MINIMUM_LIQUIDITY \<le> lp) \<and>
     derive_deposit (widen MIN_FIRST_DEPOSIT - 1) u64_MAX 0 0 0 = Err ZeroAmount"

definition test_proportional_deposit_unchanged_when_exact :: bool where
  [test_defs]: "test_proportional_deposit_unchanged_when_exact \<longleftrightarrow>
     derive_deposit 50000000 1000000000 100000000 400000000 200000000 = Ok (50000000, 200000000, 100000000)"

definition test_inflated_single_unit_does_not_steal_from_depositor :: bool where
  [test_defs]: "test_inflated_single_unit_does_not_steal_from_depositor \<longleftrightarrow>
     (let d = 100000000; acc_a = d; acc_b = d; supply = 1; x = 199 * d div 100 in
      unwrap_and (derive_deposit x x acc_a acc_b supply) (\<lambda>(a_in, b_in, lp).
        lp = 1 \<and> (a_in, b_in) = (d, d) \<and> (acc_a + a_in) * lp div (supply + lp) = a_in))"

definition test_rounding_loss_bounded_to_one_base_unit :: bool where
  [test_defs]: "test_rounding_loss_bounded_to_one_base_unit \<longleftrightarrow>
     list_all (\<lambda>(ma, mb, acc_a, acc_b, s).
       unwrap_and (derive_deposit ma mb acc_a acc_b s) (\<lambda>(a, b, lp).
         a \<le> ma \<and> b \<le> mb \<and>
         unwrap_and (mul_div lp acc_a s) (\<lambda>val_a. unwrap_and (mul_div lp acc_b s) (\<lambda>val_b.
           val_a \<le> a \<and> a - val_a \<le> 1 \<and> val_b \<le> b \<and> b - val_b \<le> 1 \<and>
           lp * acc_a \<le> a * s \<and> lp * acc_b \<le> b * s))))
     [(50000000, 50000000, 100001000, 1000, 1000),
      (123456789, 987654321, 333333333, 777777777, 1234567),
      (10000000, 2000000000, 7, 1000003, 1000),
      (u64_MAX, u64_MAX, 3, 5, 7)]"

definition test_deposit_below_one_unit_reverts :: bool where
  [test_defs]: "test_deposit_below_one_unit_reverts \<longleftrightarrow>
     derive_deposit 1000 1000 1000000000 1000000000 1000 = Err ZeroAmount"

definition test_mul_div_ceil_rounds_up :: bool where
  [test_defs]: "test_mul_div_ceil_rounds_up \<longleftrightarrow>
     mul_div_ceil 7 3 2 = Ok 11 \<and> mul_div_ceil 6 3 2 = Ok 9 \<and> mul_div_ceil 0 3 2 = Ok 0 \<and>
     mul_div_ceil u128_MAX 1 1 = Ok u128_MAX \<and> is_err (mul_div_ceil u128_MAX 2 1) \<and> is_err (mul_div_ceil 1 1 0)"

lemma deposit_tests:
  "test_first_deposit_clears_minimum_liquidity" "test_proportional_deposit_unchanged_when_exact"
  "test_inflated_single_unit_does_not_steal_from_depositor" "test_deposit_below_one_unit_reverts"
  "test_mul_div_ceil_rounds_up"
  by (simp_all add: test_defs code_defs derive_deposit_def mul_div_ceil_def MIN_FIRST_DEPOSIT_def MINIMUM_LIQUIDITY_def
      widen_def cong: eval_congs)

lemma deposit_roundings: "test_rounding_loss_bounded_to_one_base_unit"
  by (simp add: test_defs code_defs derive_deposit_def mul_div_ceil_def widen_def cong: eval_congs)

section \<open>Withdrawals\<close>

definition M_LIQUIDITY :: u128 where
  [test_defs]: "M_LIQUIDITY = widen MINIMUM_LIQUIDITY"

definition test_floor_rejects_dust_supply :: bool where
  [test_defs]: "test_floor_rejects_dust_supply \<longleftrightarrow>
     (let supply = 1000000; M = M_LIQUIDITY in
      check_supply_floor supply (supply - 1) = Err MinimumLiquidityFloor \<and>
      check_supply_floor supply (supply - (M - 1)) = Err MinimumLiquidityFloor \<and>
      check_supply_floor supply (supply - M) = Ok () \<and> check_supply_floor supply supply = Ok () \<and>
      check_supply_floor M M = Ok () \<and> check_supply_floor M 1 = Err MinimumLiquidityFloor)"

definition test_floor_does_not_trap_pools_already_below_it :: bool where
  [test_defs]: "test_floor_does_not_trap_pools_already_below_it \<longleftrightarrow>
     check_supply_floor (M_LIQUIDITY - 1) 1 = Ok () \<and> check_supply_floor 500 250 = Ok () \<and>
     check_supply_floor 1 1 = Ok ()"

definition test_zero_output_rejected_when_side_nonempty :: bool where
  [test_defs]: "test_zero_output_rejected_when_side_nonempty \<longleftrightarrow>
     withdrawal_amounts 1 100000000 400000000 200000000 = Err ZeroAmount \<and>
     withdrawal_amounts 2 100000000 400000000 200000000 = Ok (1, 4)"

definition test_genuinely_empty_side_pays_zero :: bool where
  [test_defs]: "test_genuinely_empty_side_pays_zero \<longleftrightarrow>
     withdrawal_amounts 10 0 1000 100 = Ok (0, 100) \<and> withdrawal_amounts 100 0 1000 100 = Ok (0, 1000)"

lemma withdrawal_tests:
  "test_floor_rejects_dust_supply" "test_floor_does_not_trap_pools_already_below_it"
  "test_zero_output_rejected_when_side_nonempty" "test_genuinely_empty_side_pays_zero"
  by (simp_all add: test_defs code_defs check_supply_floor_def withdrawal_amounts_def MINIMUM_LIQUIDITY_def
      widen_def cong: eval_congs)

section \<open>Events\<close>

text \<open>\<open>assert_wire_format\<close>: the line starts with the discriminator, and the payload from byte 8
  on decodes to the event.\<close>

definition wire_format :: "event \<Rightarrow> bool" where
  [test_defs]: "wire_format ev \<longleftrightarrow>
     take 8 (event_bytes ev) = event_discriminator ev \<and> decode_event (event_bytes ev) = Some ev"

definition sample_events :: "event list" where
  "sample_events =
     [PoolInitialized 1 2 3 4 30 5 11000 8000 200 400 6000 8000,
      LiquidityAdded 5 6 1000 2000 1414,
      LiquidityRemoved 7 8 500 400 600,
      LoanOpened 9 10 11 7 1 10000 5000 42 0 123456789000000000,
      LoanRepaid 12 13 14 5000 5123,
      LoanLiquidated 15 16 17 0 10000 5000 1000000000000000000,
      SwapExecuted 18 19 True 100 98 2 1,
      ProtocolFeesClaimed 20 21 10 20,
      LiquidatedRentClaimed 22 23 24]"

definition test_events_round_trip :: bool where
  [test_defs]: "test_events_round_trip \<longleftrightarrow> list_all wire_format sample_events"

definition test_discriminators_are_unique :: bool where
  [test_defs]: "test_discriminators_are_unique \<longleftrightarrow>
     (let discs = map event_discriminator sample_events in
      list_all (\<lambda>a. a ! 0 AND 0xf0 = 0xe0) discs \<and> distinct discs)"

lemma event_tests: "test_events_round_trip" "test_discriminators_are_unique"
  by (simp_all add: test_events_round_trip_def wire_format_def event_bytes_def [symmetric] decode_event_bytes list_all_iff
      test_discriminators_are_unique_def sample_events_def)
    (simp add: event_bytes_def)

section \<open>Account helpers\<close>

text \<open>\<open>with_account\<close>: the helper runs on one writable account with the given owner and data.\<close>

definition with_account :: "pubkey \<Rightarrow> bytes \<Rightarrow> (world \<Rightarrow> account_info \<Rightarrow> 'r) \<Rightarrow> 'r" where
  [test_defs]: "with_account own bs f =
     f \<lparr>ledger = (\<lambda>_. \<lparr>lamports = 1000000, data = bs, owner = own\<rparr>), log = []\<rparr> \<lparr>key = 1, is_signer = False\<rparr>"

definition test_zeroed_program_account_detected :: bool where
  [test_defs]: "test_zeroed_program_account_detected \<longleftrightarrow>
     (let program_id = 2 in
      with_account program_id (replicate 88 0) (\<lambda>w i. is_zeroed_program_account w i program_id 88))"

definition test_nonzero_data_is_not_zeroed :: bool where
  [test_defs]: "test_nonzero_data_is_not_zeroed \<longleftrightarrow>
     (let program_id = 2 in
      \<not> with_account program_id ((replicate 88 0)[87 := 1]) (\<lambda>w i. is_zeroed_program_account w i program_id 88))"

definition test_wrong_owner_or_len_is_not_zeroed :: bool where
  [test_defs]: "test_wrong_owner_or_len_is_not_zeroed \<longleftrightarrow>
     (let program_id = 2; bs = replicate 88 0 in
      \<not> with_account 3 bs (\<lambda>w i. is_zeroed_program_account w i program_id 88) \<and>
      \<not> with_account program_id bs (\<lambda>w i. is_zeroed_program_account w i program_id 210) \<and>
      \<not> with_account program_id [] (\<lambda>w i. is_zeroed_program_account w i program_id 88))"

lemma account_tests:
  "test_zeroed_program_account_detected" "test_nonzero_data_is_not_zeroed" "test_wrong_owner_or_len_is_not_zeroed"
  by code_simp+

end
