(* ===== verification/Spec2Isabelle.thy ===== *)
theory Spec2Isabelle
  imports Loan_Lifecycle State_Properties Math_Properties Liquidity_Properties Swap_Properties Solvency
    Conformance_State
begin

text \<open>
  ChiefLiquidity (\<open>programs/chiefliquidity/src\<close>) is a Solana program: a constant-product
  pool of two tokens that lends either token against the other and liquidates loans inside swaps.
  A swap must bring along, as accounts, every band of loans its price movement could trigger; the
  program walks them, seizes the collateral of each triggered loan for the liquidity providers and
  forgives its debt. This library models the whole on-chain program and proves it correct against
  an abstract specification of its books.

  \<^bold>\<open>How Rust becomes HOL.\<close> Integers are words of their Rust width (\<open>u8\<close> to \<open>u128\<close>, and 256
  bits for \<open>U256\<close>); checked, saturating and plain operators are the definitions of \<open>Prelude\<close>,
  and a plain operator that overflows is a panic, since the release profile checks overflow.
  \<open>Result\<close> is \<open>res\<close> with the outcomes \<open>Ok\<close>, \<open>Err\<close> and \<open>Panic\<close>, sequenced by
  \<open>and_then\<close>. A transaction's accounts are one ledger indexed by public key, so that account
  infos with the same key share their state; a handler is a function from a world (ledger and
  event log) to a result with the new world, and a failing handler leaves none, as the runtime
  rolls back.

  \<^bold>\<open>Theories and sources.\<close>
  \<^item> \<open>Prelude\<close>: words, results, lists; the hint collections \<open>rust_simps\<close>, \<open>code_defs\<close>.
  \<^item> \<open>Errors\<close>: \<open>error.rs\<close>. \<open>Fixed_Math\<close>: \<open>math.rs\<close>, each function with its exact
    characterisation over the natural numbers. \<open>Borsh\<close>: the derived byte layouts, with the locale
    \<open>codec\<close> of lossless fixed-size encodings.
  \<^item> \<open>Pool_State\<close>: \<open>state.rs\<close> (Pool, Loan, LoanIndexBand, their layouts, reserve accounting,
    index accrual, reference price, presence bitmaps, address derivation), with interpretations of
    \<open>codec\<close> for the three layouts and of \<open>presence_index\<close> for the bitmap.
  \<^item> \<open>Runtime\<close>: the ledger, \<open>AccountInfo\<close>, calls to other programs, and \<open>account_utils.rs\<close>;
    \<open>Events\<close>: \<open>events.rs\<close>.
  \<^item> \<open>Initialize_Pool\<close>, \<open>Add_Liquidity\<close>, \<open>Remove_Liquidity\<close>, \<open>Open_Loan\<close>, \<open>Repay_Loan\<close>,
    \<open>Swap\<close>, \<open>Claims\<close>: the handlers under \<open>instructions/\<close>, one definition per stage of a
    handler, composed as the source composes them (the readers \<open>read_mint_decimals\<close> and
    \<open>read_token_amount\<close>, which every file repeats, are defined once, in \<open>Runtime\<close>); \<open>Entrypoint\<close>: \<open>lib.rs\<close>, the instruction
    encoding and the dispatcher.
  \<^item> \<open>Account_Views\<close>: the program's own accounts as three maps (pools, loans, bands), through the
    locale \<open>account_kind\<close> that extends \<open>codec\<close>; the rules of the runtime that keep other
    programs away from them.
  \<^item> \<open>Loan_Book\<close>, \<open>Book_Spec\<close>: the abstract books and their transitions, the invariant
    \<open>book_inv\<close>, and that every transition keeps it. \<open>Handler_Refinement\<close> and \<open>Swap_Refinement\<close>:
    each handler implements a transition. \<open>Ledger_Invariants\<close>: the locale \<open>ledger_inv\<close> of
    invariants no primitive effect can break. \<open>System_Invariant\<close>, \<open>System_Properties\<close>: the
    dispatcher and all reachable ledgers. \<open>Loan_Terms\<close>, \<open>Loan_Lifecycle\<close>: the invariant of the
    borrow indexes and of what an open loan stores.
  \<^item> \<open>Swap_Safety\<close>, \<open>Swap_Completeness\<close>, \<open>Swap_Guarantee\<close>: value of the reserves and
    completeness of the liquidations, first for the computing part of a swap, then for the stored
    accounts and vault balances. \<open>Reserve_Accounting\<close>, \<open>Repay_Liveness\<close>: the other handlers'
    effect on the reserves, end to end, and that the bookkeeping cannot stop a repayment.
  \<^item> \<open>Custody\<close>, \<open>Settlement\<close>, \<open>Solvency\<close>: who can move the tokens of a vault, what each handler
    moves, and that in every ledger of the deployment the vaults of every pool cover the collateral
    and the accrued fees.
  \<^item> \<open>State_Properties\<close>, \<open>Math_Properties\<close>, \<open>Liquidity_Properties\<close>, \<open>Swap_Properties\<close>: the
    properties of single components. \<open>Sample_World\<close>, \<open>Sample_Books\<close>, \<open>Sample_Runs\<close>: a concrete
    token program and ledger on which the hypotheses hold and the handlers run.
  \<^item> \<open>Conformance_Math\<close>, \<open>Conformance_Loops\<close>, \<open>Conformance_State\<close>: 75 of the repository's 78 unit
    tests, translated assertion by assertion into predicates about the model's functions and
    evaluated by the kernel, as a check of the model; and the convergence of the reference price.

  \<^bold>\<open>What is proved.\<close> Every successful instruction is a step of the abstract books of the kind its
  opcode permits, signed by the authority, user or borrower its opcode needs (claiming protocol fees
  needs none, and changes nothing when there are none); in every reachable ledger the totals of a pool are
  the sums over its open loans, its bitmaps mark exactly the populated bands and every band counts
  its loans. After a swap no open loan of the swap's direction is triggered at the price the vaults
  and the stored pool show. The liquidations of a swap move the accounted reserves by the collateral
  released less the principal written off, which may lower their product; the trade never lowers the
  product of what they left. Deposits and
  withdrawals move exactly the share formula's amounts; opening a loan and claiming fees leave the
  providers' reserves alone; a repayment adds exactly the interest, and from consistent books, with
  vaults that cover collateral and fees, a repayment on the right accounts can fail only in its token
  transfers or where the returned rent would overflow the borrower's lamports. In every
  reachable ledger an open loan keeps the trigger price of its amounts and a debt that can be
  computed, and no index ever falls. Only the borrower and a liquidating swap can close a loan, and
  nobody can change a pool's terms. In every ledger reachable by
  instructions and by other programs, the vaults of each pool hold the collateral of its open loans
  and its accrued fees. The arithmetic is exact: every
  routine equals its rational formula with the stated rounding.

  \<^bold>\<open>What is assumed\<close> of code outside the repository is a named hypothesis of the theorems that
  need it: \<open>transfer_law\<close> and \<open>supply_law\<close> (the token programs move, mint and burn what they
  are asked to, for mints without transfer fees, which is all pool creation admits),
  \<open>isolation_law\<close> and \<open>runtime_law\<close> (only an account's owner writes or reassigns it),
  \<open>system_law\<close> (creation and allocation of accounts), \<open>address_law\<close> and
  \<open>band_addresses_ok\<close> (different seeds derive different addresses, nobody else has data at the
  program's band addresses), \<open>token_law\<close> (the token programs keep their
  accounts and initialise a vault as asked), \<open>custody_law\<close> (an instruction under another authority
  takes nothing from a vault), \<open>sizes_law\<close> (account sizes fit 64 bits). \<open>Sample_Books\<close> and
  \<open>Solvency\<close> show that they hold together.

  \<^bold>\<open>Termination.\<close> No definition needs fuel. The liquidation loop carries the measure
  \<open>8 - liq_count\<close>: it stops at \<open>MAX_LIQ_PER_SWAP\<close> liquidations, as the source does; Newton's
  iteration in \<open>isqrt_u128\<close> carries its decreasing iterate.

  \<^bold>\<open>Not modelled.\<close> \<open>msg!\<close> output and \<open>security_txt\<close>; the run-time borrow flags of
  \<open>RefCell\<close> (a handler that aliases accounts may fail in Rust where the model goes on); the
  runtime's writability and rent checks after an instruction, which only reject more;
  \<open>instructions/mod.rs\<close>, which re-exports; the integration-test harness; and of the unit tests the
  base58 spelling of a program id and the two tests that search for program addresses, which are
  about code of the Solana SDK.
\<close>

end
